(* ===== verification/Prelude.thy ===== *)
theory Prelude
  imports Main "HOL-Library.Word" "HOL-Library.Monad_Syntax"
begin

text \<open>
  Shared ground of the development.

  \<^item> Machine types: \<open>u8\<close>, \<open>u16\<close>, \<open>u32\<close>, \<open>u64\<close> are the C types \<open>uint8_t\<close> to \<open>uint64_t\<close>;
    C \<open>int\<close> values that are only ever return codes or small counters are \<open>int\<close>.
  \<^item> Undefined behaviour: a C operation that may read or write out of bounds, call a null
    function pointer or fail an \<open>assert\<close> returns an \<open>option\<close>; \<open>None\<close> is exactly that outcome.
    A return code such as \<open>-1\<close> is an ordinary value, never \<open>None\<close>.
  \<^item> Memory: an allocated object is the list of its bytes (or words). \<open>mem_read\<close> and
    \<open>mem_write\<close> are the bounds-checked counterparts of \<open>memcpy\<close> from and to such an object.
  \<^item> The allocator: the outcome of each future call of a realloc function is an entry of a
    \<open>heap\<close>; an entry is either a failure or the (arbitrary) contents of the fresh bytes.
\<close>

unbundle bit_operations_syntax

type_synonym u8 = "8 word"
type_synonym u16 = "16 word"
type_synonym u32 = "32 word"
type_synonym u64 = "64 word"

named_theorems monad_simps \<open>rewrite rules that evaluate the option monad\<close>
named_theorems wf_intros \<open>preservation of well-formedness invariants\<close>

lemmas [monad_simps] = Option.bind_eq_Some_conv Let_def

section \<open>Bounds-checked memory\<close>

definition mem_get :: "'a list \<Rightarrow> nat \<Rightarrow> 'a option" where
  "mem_get m i = (if i < length m then Some (m ! i) else None)"

definition mem_set :: "'a list \<Rightarrow> nat \<Rightarrow> 'a \<Rightarrow> 'a list option" where
  "mem_set m i v = (if i < length m then Some (m[i := v]) else None)"

definition mem_read :: "'a list \<Rightarrow> nat \<Rightarrow> nat \<Rightarrow> 'a list option" where
  "mem_read m off len = (if off + len \<le> length m then Some (take len (drop off m)) else None)"

definition mem_write :: "'a list \<Rightarrow> nat \<Rightarrow> 'a list \<Rightarrow> 'a list option" where
  "mem_write m off xs =
     (if off + length xs \<le> length m
      then Some (take off m @ xs @ drop (off + length xs) m) else None)"

lemma mem_get_Some [simp]: "mem_get m i = Some v \<longleftrightarrow> i < length m \<and> v = m ! i"
  by (auto simp: mem_get_def)

lemma mem_set_Some [simp]: "mem_set m i v = Some m' \<longleftrightarrow> i < length m \<and> m' = m[i := v]"
  by (auto simp: mem_set_def)

lemma mem_read_Some [simp]:
  "mem_read m off len = Some xs \<longleftrightarrow> off + len \<le> length m \<and> xs = take len (drop off m)"
  by (auto simp: mem_read_def)

lemma mem_write_Some [simp]:
  "mem_write m off xs = Some m' \<longleftrightarrow>
     off + length xs \<le> length m \<and> m' = take off m @ xs @ drop (off + length xs) m"
  by (auto simp: mem_write_def)

lemma length_mem_write: "mem_write m off xs = Some m' \<Longrightarrow> length m' = length m"
  by (auto simp: mem_write_def split: if_splits)

lemma take_mem_write_append:
  "off + length xs \<le> length m \<Longrightarrow>
   take (off + length xs) (take off m @ xs @ drop (off + length xs) m) = take off m @ xs"
  by simp

section \<open>The allocator\<close>

type_synonym 'a heap = "(nat \<Rightarrow> 'a) option list"

text \<open>
  The outcome of the next call: \<open>None\<close> is a failed allocation, \<open>Some junk\<close> a successful one
  whose fresh element number \<open>i\<close> holds \<open>junk i\<close>. Past the end of the list calls succeed.
  A buffer carries the heap its own calls will see; heaps are arbitrary, so any interleaving
  of outcomes over several buffers is covered.
\<close>

fun heap_next :: "'a::zero heap \<Rightarrow> (nat \<Rightarrow> 'a) option \<times> 'a heap" where
  "heap_next [] = (Some (\<lambda>_. 0), [])"
| "heap_next (r # rs) = (r, rs)"

text \<open>
  \<open>size_t\<close> is 64 bits wide: sums and products of sizes are reduced by \<open>szt\<close>. No object is
  larger than \<open>PTRDIFF_MAX\<close> bytes, so a request beyond it fails whatever the heap says.
\<close>

definition szt :: "nat \<Rightarrow> nat" where
  "szt n = n mod 2 ^ 64"

definition PTRDIFF_MAX :: nat where
  "PTRDIFF_MAX = 2 ^ 63 - 1"

text \<open>\<open>realloc_func w h old n\<close>: \<open>n\<close> elements of \<open>w\<close> bytes each.\<close>

definition realloc_func ::
  "nat \<Rightarrow> 'a::zero heap \<Rightarrow> 'a list \<Rightarrow> nat \<Rightarrow> 'a list option \<times> 'a heap" where
  "realloc_func w h old n =
     (case heap_next h of
        (None, h') \<Rightarrow> (None, h')
      | (Some junk, h') \<Rightarrow>
          (if n * w \<le> PTRDIFF_MAX then (Some (take n old @ map junk [length old..<n]), h')
           else (None, h')))"

lemma szt_id [simp]: "n < 2 ^ 64 \<Longrightarrow> szt n = n"
  by (simp add: szt_def)

lemma szt_less: "szt n < 2 ^ 64"
  by (simp add: szt_def)

lemma szt_le: "szt n \<le> n"
  by (simp add: szt_def)

lemma realloc_func_Some:
  assumes "realloc_func w h old n = (Some b, h')"
  shows "length b = n" and "n * w \<le> PTRDIFF_MAX" and "length old \<le> n \<Longrightarrow> take (length old) b = old"
  using assms
  by (auto simp: realloc_func_def split: prod.splits option.splits if_splits)

text \<open>A heap with no failure ahead: requests within the object size limit succeed.\<close>

definition heap_ok :: "'a heap \<Rightarrow> bool" where
  "heap_ok h \<longleftrightarrow> None \<notin> set h"

lemma heap_ok_Nil [simp]: "heap_ok []"
  by (simp add: heap_ok_def)

lemma realloc_func_ok:
  assumes "heap_ok h" and "realloc_func w h old n = (r, h')"
  shows "heap_ok h'" and "n * w \<le> PTRDIFF_MAX \<Longrightarrow> r \<noteq> None"
  using assms
  by (cases h; auto simp: realloc_func_def heap_ok_def split: option.splits if_splits)+

section \<open>Zero-terminated strings\<close>

text \<open>
  \<open>strlen m p\<close> is the length of the string that starts at offset \<open>p\<close> of the object \<open>m\<close>;
  it is \<open>None\<close> when no terminator lies inside the object.
\<close>

definition strlen :: "u8 list \<Rightarrow> nat \<Rightarrow> nat option" where
  "strlen m p =
     (let n = length (takeWhile (\<lambda>c. c \<noteq> 0) (drop p m))
      in if p + n < length m then Some n else None)"

lemma length_takeWhile_less_ex:
  "length (takeWhile P xs) < length xs \<longleftrightarrow> (\<exists>x \<in> set xs. \<not> P x)"
  by (induction xs) auto

lemma strlen_append_nul:
  assumes "0 \<notin> set xs"
  shows "strlen (xs @ 0 # ys) 0 = Some (length xs)"
proof -
  have "takeWhile (\<lambda>c. c \<noteq> 0) (xs @ 0 # ys) = xs"
    using assms by (subst takeWhile_append2) auto
  then show ?thesis by (simp add: strlen_def)
qed

section \<open>Words as natural numbers\<close>

named_theorems word_nat \<open>rewrite rules from words to natural numbers\<close>

lemma nat_or_low:
  assumes "(a :: nat) < 2 ^ n" and "2 ^ n dvd b"
  shows "a OR b = a + b"
proof -
  have "a AND b = 0"
  proof (rule bit_eqI)
    fix m
    have "m < n" if "bit a m"
      using that assms(1) by (metis bit_take_bit_iff take_bit_nat_eq_self)
    moreover have "\<not> bit b m" if "m < n"
      using assms(2) that
      by (metis dvd_imp_mod_0 bit_take_bit_iff take_bit_eq_mod bit_0_eq bot_apply bot_bool_def)
    ultimately show "bit (a AND b) m = bit 0 m" by (auto simp: bit_and_iff)
  qed
  then show ?thesis using disjunctive_add_eq_or by metis
qed

lemma unat_or_low:
  fixes x y :: "'a::len word"
  assumes "unat x < 2 ^ n" and "2 ^ n dvd unat y"
  shows "unat (x OR y) = unat x + unat y"
  using nat_or_low[OF assms] by (simp add: unsigned_or_eq)

lemma unat_or_high:
  fixes x y :: "'a::len word"
  assumes "unat y < 2 ^ n" and "2 ^ n dvd unat x"
  shows "unat (x OR y) = unat x + unat y"
  using unat_or_low[OF assms] by (simp add: or.commute)

lemma unat_and_mask: "unat ((x :: 'a::len word) AND mask n) = unat x mod 2 ^ n"
  by (simp only: take_bit_eq_mask[symmetric] unsigned_take_bit_eq) (simp only: take_bit_eq_mod)

lemma unat_drop_bit [word_nat]: "unat (drop_bit n (x :: 'a::len word)) = unat x div 2 ^ n"
  by (simp only: unat_drop_bit_eq) (simp only: drop_bit_eq_div)

lemma unat_ucast [word_nat]:
  "unat (ucast (x :: 'a::len word) :: 'b::len word) = unat x mod 2 ^ LENGTH('b)"
  by (simp only: unsigned_ucast_eq) (simp only: take_bit_eq_mod)

lemma unat_push_bit [word_nat]:
  "unat (push_bit n (x :: 'a::len word)) = unat x * 2 ^ n mod 2 ^ LENGTH('a)"
  by (simp only: unsigned_push_bit_eq) (simp only: push_bit_eq_mult take_bit_eq_mod)

lemma unat_and_low [word_nat]:
  "unat ((x :: 'a::len word) AND 1) = unat x mod 2"
  "unat (x AND 3) = unat x mod 4"
  "unat (x AND 7) = unat x mod 8"
  "unat (x AND 15) = unat x mod 16"
  "unat (x AND 31) = unat x mod 32"
  "unat (x AND 63) = unat x mod 64"
  using unat_and_mask[of x 1] unat_and_mask[of x 2] unat_and_mask[of x 3]
    unat_and_mask[of x 4] unat_and_mask[of x 5] unat_and_mask[of x 6]
  by (simp_all add: mask_eq_exp_minus_1)

lemmas [word_nat] = word_less_nat_alt word_le_nat_alt word_unat_eq_iff

lemma unat_u8_less: "unat (b :: u8) < 256"
  using unsigned_less[of b] by simp

lemma unat_u16_less: "unat (b :: u16) < 65536"
  using unsigned_less[of b] by simp

lemma unat_u32_less: "unat (b :: u32) < 4294967296"
  using unsigned_less[of b] by simp

lemma sint_u31: "unat (c :: u32) < 2 ^ 31 \<Longrightarrow> sint c = int (unat c)"
proof -
  assume lt: "unat c < 2 ^ 31"
  have nat: "uint c = int (unat c)" by simp
  have "int (unat c) < int (2 ^ 31)" using lt by (simp only: of_nat_less_iff)
  then have u: "uint c < 2 ^ 31" unfolding nat by (simp only: of_nat_power of_nat_numeral)
  have "- (2 ^ 31) \<le> uint c" using order_trans[OF _ uint_ge_0[of c]] by simp
  with u have "signed_take_bit 31 (uint c) = uint c" by (intro signed_take_bit_int_eq_self)
  moreover have "sint c = signed_take_bit 31 (uint c)" by (simp add: sint_uint)
  ultimately show ?thesis by (simp only: nat)
qed

lemma mod_in_block:
  assumes "a \<le> n" and "n < a + k" and "k dvd a"
  shows "n mod k = n - (a :: nat)"
proof -
  obtain q where "a = q * k" using assms(3) by (metis dvd_def mult.commute)
  then have "n = (n - a) + q * k" using assms(1) by simp
  then have "n mod k = (n - a) mod k" by (metis mod_mult_self1)
  moreover have "n - a < k" using assms(1,2) by linarith
  ultimately show ?thesis by simp
qed

section \<open>Lists\<close>

lemma drop_eq_ConsD:
  assumes "drop p m = x # xs"
  shows "p < length m" and "m ! p = x" and "drop (Suc p) m = xs"
proof -
  show p: "p < length m" using assms by (metis drop_eq_Nil2 linorder_not_le list.distinct(1))
  from Cons_nth_drop_Suc[OF this] assms show "m ! p = x" and "drop (Suc p) m = xs" by simp_all
qed

end
