(* ===== verification/Cutils_Bytes.thy ===== *)
theory Cutils_Bytes
  imports Prelude
begin

text \<open>
  The small helpers of \<open>quickjs/cutils.h\<close> and the string functions at the head of
  \<open>quickjs/cutils.c\<close>: little-endian loads and stores, byte swaps, hexadecimal digits, and the
  bounded string copies. Strings are zero-terminated runs of bytes inside an object.
\<close>

section \<open>Comparisons\<close>

definition max_int :: "int \<Rightarrow> int \<Rightarrow> int" where
  "max_int a b = (if a > b then a else b)"

definition min_int :: "int \<Rightarrow> int \<Rightarrow> int" where
  "min_int a b = (if a < b then a else b)"

definition max_uint32 :: "u32 \<Rightarrow> u32 \<Rightarrow> u32" where
  "max_uint32 a b = (if a > b then a else b)"

definition min_uint32 :: "u32 \<Rightarrow> u32 \<Rightarrow> u32" where
  "min_uint32 a b = (if a < b then a else b)"

section \<open>Little-endian loads and stores\<close>

text \<open>\<open>get_u16\<close> and its kin read the object \<open>m\<close> at offset \<open>p\<close>; the target is little-endian.\<close>

fun le_bytes :: "nat \<Rightarrow> nat \<Rightarrow> u8 list" where
  "le_bytes 0 v = []"
| "le_bytes (Suc n) v = of_nat (v mod 256) # le_bytes n (v div 256)"

fun le_value :: "u8 list \<Rightarrow> nat" where
  "le_value [] = 0"
| "le_value (b # bs) = unat b + 256 * le_value bs"

definition get_u16 :: "u8 list \<Rightarrow> nat \<Rightarrow> u32 option" where
  "get_u16 m p = map_option (\<lambda>bs. of_nat (le_value bs)) (mem_read m p 2)"

definition get_u32 :: "u8 list \<Rightarrow> nat \<Rightarrow> u32 option" where
  "get_u32 m p = map_option (\<lambda>bs. of_nat (le_value bs)) (mem_read m p 4)"

definition get_u64 :: "u8 list \<Rightarrow> nat \<Rightarrow> u64 option" where
  "get_u64 m p = map_option (\<lambda>bs. of_nat (le_value bs)) (mem_read m p 8)"

definition put_u16 :: "u8 list \<Rightarrow> nat \<Rightarrow> u16 \<Rightarrow> u8 list option" where
  "put_u16 m p v = mem_write m p (le_bytes 2 (unat v))"

definition put_u32 :: "u8 list \<Rightarrow> nat \<Rightarrow> u32 \<Rightarrow> u8 list option" where
  "put_u32 m p v = mem_write m p (le_bytes 4 (unat v))"

definition put_u64 :: "u8 list \<Rightarrow> nat \<Rightarrow> u64 \<Rightarrow> u8 list option" where
  "put_u64 m p v = mem_write m p (le_bytes 8 (unat v))"

definition get_i16 :: "u8 list \<Rightarrow> nat \<Rightarrow> int option" where
  "get_i16 m p = map_option (\<lambda>bs. sint (of_nat (le_value bs) :: u16)) (mem_read m p 2)"

definition get_i32 :: "u8 list \<Rightarrow> nat \<Rightarrow> int option" where
  "get_i32 m p = map_option (\<lambda>v. sint v) (get_u32 m p)"

definition get_i8 :: "u8 list \<Rightarrow> nat \<Rightarrow> int option" where
  "get_i8 m p = map_option (\<lambda>b. sint b) (mem_get m p)"

lemma length_le_bytes [simp]: "length (le_bytes n v) = n"
  by (induction n arbitrary: v) auto

lemma le_value_le_bytes: "le_value (le_bytes n v) = v mod 256 ^ n"
proof (induction n arbitrary: v)
  case 0
  then show ?case by simp
next
  case (Suc n)
  have "unat (of_nat (v mod 256) :: u8) = v mod 256" by (simp add: unat_of_nat)
  moreover have "v mod 256 ^ Suc n = v mod 256 + 256 * (v div 256 mod 256 ^ n)"
    by (simp add: mod_mult2_eq add.commute)
  ultimately show ?case by (simp add: Suc.IH)
qed

lemma le_value_less: "le_value bs < 256 ^ length bs"
proof (induction bs)
  case Nil
  then show ?case by simp
next
  case (Cons b bs)
  then have "256 * (le_value bs + 1) \<le> 256 * 256 ^ length bs" by (intro mult_le_mono2) simp
  then show ?case using unat_u8_less[of b] by simp
qed

lemma le_bytes_le_value: "le_bytes (length bs) (le_value bs) = bs"
proof (induction bs)
  case Nil
  then show ?case by simp
next
  case (Cons b bs)
  have "(unat b + 256 * le_value bs) mod 256 = unat b"
    and "(unat b + 256 * le_value bs) div 256 = le_value bs"
    using unat_u8_less[of b] by simp_all
  with Cons show ?case by simp
qed

lemma get_put_u32:
  assumes "put_u32 m p v = Some m'"
  shows "get_u32 m' p = Some v"
proof -
  have r: "mem_read m' p 4 = Some (le_bytes 4 (unat v))"
    using assms by (auto simp: put_u32_def mem_read_def)
  moreover have "unat v mod 256 ^ 4 = unat v" using unat_u32_less[of v] by simp
  ultimately show ?thesis unfolding get_u32_def r by (simp add: le_value_le_bytes)
qed

lemma get_put_u16:
  assumes "put_u16 m p v = Some m'"
  shows "get_u16 m' p = Some (ucast v)"
proof -
  have r: "mem_read m' p 2 = Some (le_bytes 2 (unat v))"
    using assms by (auto simp: put_u16_def mem_read_def)
  moreover have "unat v mod 256 ^ 2 = unat v" using unat_u16_less[of v] by simp
  moreover have "(of_nat (unat v) :: u32) = ucast v" by simp
  ultimately show ?thesis unfolding get_u16_def r by (simp add: le_value_le_bytes)
qed

section \<open>Byte swaps\<close>

definition bswap16 :: "u16 \<Rightarrow> u16" where
  "bswap16 x = drop_bit 8 x OR push_bit 8 x"

definition bswap32 :: "u32 \<Rightarrow> u32" where
  "bswap32 v =
     drop_bit 24 (v AND 0xff000000) OR drop_bit 8 (v AND 0x00ff0000)
     OR push_bit 8 (v AND 0x0000ff00) OR push_bit 24 (v AND 0x000000ff)"

definition bswap64 :: "u64 \<Rightarrow> u64" where
  "bswap64 v =
     drop_bit (7 * 8) (v AND push_bit (7 * 8) 0xff)
     OR drop_bit (5 * 8) (v AND push_bit (6 * 8) 0xff)
     OR drop_bit (3 * 8) (v AND push_bit (5 * 8) 0xff)
     OR drop_bit (1 * 8) (v AND push_bit (4 * 8) 0xff)
     OR push_bit (1 * 8) (v AND push_bit (3 * 8) 0xff)
     OR push_bit (3 * 8) (v AND push_bit (2 * 8) 0xff)
     OR push_bit (5 * 8) (v AND push_bit (1 * 8) 0xff)
     OR push_bit (7 * 8) (v AND push_bit (0 * 8) 0xff)"

section \<open>Hexadecimal digits\<close>

definition from_hex :: "int \<Rightarrow> int" where
  "from_hex c =
     (if c \<ge> 0x30 \<and> c \<le> 0x39 then c - 0x30
      else if c \<ge> 0x41 \<and> c \<le> 0x46 then c - 0x41 + 10
      else if c \<ge> 0x61 \<and> c \<le> 0x66 then c - 0x61 + 10
      else -1)"

lemma from_hex_range: "from_hex c = -1 \<or> (0 \<le> from_hex c \<and> from_hex c \<le> 15)"
  by (auto simp: from_hex_def)

section \<open>Bounded strings\<close>

text \<open>
  \<open>pstrcpy m q e str i\<close> is the copy loop: \<open>q\<close> the write offset in the destination object
  \<open>m\<close>, \<open>e\<close> the offset of its last usable byte, \<open>i\<close> the read offset in \<open>str\<close>.
\<close>

function pstrcpy_loop :: "u8 list \<Rightarrow> nat \<Rightarrow> nat \<Rightarrow> u8 list \<Rightarrow> nat \<Rightarrow> u8 list option" where
  "pstrcpy_loop m q e str i =
     (case mem_get str i of
        None \<Rightarrow> None
      | Some c \<Rightarrow>
          if c = 0 \<or> q \<ge> e then mem_set m q 0
          else case mem_set m q c of
                 None \<Rightarrow> None
               | Some m' \<Rightarrow> pstrcpy_loop m' (q + 1) e str (i + 1))"
  by pat_completeness auto
termination
  by (relation "measure (\<lambda>(m, q, e, str, i). length str - i)") auto

declare pstrcpy_loop.simps [simp del]

definition pstrcpy :: "u8 list \<Rightarrow> nat \<Rightarrow> int \<Rightarrow> u8 list \<Rightarrow> u8 list option" where
  "pstrcpy m b buf_size str =
     (if buf_size \<le> 0 then Some m
      else pstrcpy_loop m b (b + nat buf_size - 1) str 0)"

definition pstrcat :: "u8 list \<Rightarrow> int \<Rightarrow> u8 list \<Rightarrow> u8 list option" where
  "pstrcat m buf_size str =
     do {
       len \<leftarrow> strlen m 0;
       if int len < buf_size then pstrcpy m len (buf_size - int len) str else Some m
     }"

text \<open>The second component is what is stored through \<open>ptr\<close>: nothing when the prefix differs.\<close>

function strstart :: "u8 list \<Rightarrow> nat \<Rightarrow> u8 list \<Rightarrow> nat \<Rightarrow> (int \<times> nat option) option" where
  "strstart str p v q =
     (case mem_get v q of
        None \<Rightarrow> None
      | Some cq \<Rightarrow>
          if cq = 0 then Some (1, Some p)
          else case mem_get str p of
                 None \<Rightarrow> None
               | Some cp \<Rightarrow> if cp \<noteq> cq then Some (0, None) else strstart str (p + 1) v (q + 1))"
  by pat_completeness auto
termination
  by (relation "measure (\<lambda>(str, p, v, q). length v - q)") auto

declare strstart.simps [simp del]

definition has_suffix :: "u8 list \<Rightarrow> u8 list \<Rightarrow> bool option" where
  "has_suffix str suffix =
     do {
       len \<leftarrow> strlen str 0;
       slen \<leftarrow> strlen suffix 0;
       Some (len \<ge> slen \<and> take slen (drop (len - slen) str) = take slen suffix)
     }"

section \<open>What the string functions compute\<close>

lemma drop_nth_Cons: "i < length xs \<Longrightarrow> drop i xs = xs ! i # drop (Suc i) xs"
  by (rule Cons_nth_drop_Suc[symmetric])

text \<open>
  \<open>pstrcpy\<close> stores the longest prefix of the source that fits with its terminator, and
  touches no other byte of the destination.
\<close>

lemma pstrcpy_loop_spec:
  assumes "drop i str = xs @ 0 # post" and "0 \<notin> set xs" and "e < length m" and "q \<le> e"
  shows "pstrcpy_loop m q e str i =
           Some (take q m @ take (e - q) xs @ 0 # drop (q + min (e - q) (length xs) + 1) m)"
  using assms
proof (induction xs arbitrary: m q i)
  case Nil
  note at = drop_eq_ConsD[of i str 0 post] 
  from Nil show ?case
    by (subst pstrcpy_loop.simps)
       (simp add: mem_get_def mem_set_def at upd_conv_take_nth_drop)
next
  case (Cons x xs)
  have "drop i str = x # (xs @ 0 # post)" using Cons.prems(1) by simp
  note at = drop_eq_ConsD[OF this]
  have x: "x \<noteq> 0" using Cons.prems(2) by auto
  show ?case
  proof (cases "q \<ge> e")
    case True
    with Cons.prems at show ?thesis
      by (subst pstrcpy_loop.simps)
         (simp add: mem_get_def mem_set_def upd_conv_take_nth_drop)
  next
    case False
    let ?m = "m[q := x]"
    have "pstrcpy_loop m q e str i = pstrcpy_loop ?m (q + 1) e str (i + 1)"
      using False at x Cons.prems(3)
      by (subst pstrcpy_loop.simps) (simp add: mem_get_def mem_set_def)
    also have "\<dots> = Some (take (q + 1) ?m @ take (e - (q + 1)) xs @
        0 # drop (q + 1 + min (e - (q + 1)) (length xs) + 1) ?m)"
      by (rule Cons.IH) (use at Cons.prems False in simp_all)
    also have "take (q + 1) ?m = take q m @ [x]"
      using False Cons.prems(3) by (simp add: take_Suc_conv_app_nth)
    also have "drop (q + 1 + min (e - (q + 1)) (length xs) + 1) ?m =
        drop (q + min (e - q) (length (x # xs)) + 1) m"
      using False by (simp add: min_def)
    finally show ?thesis using False by (simp add: Suc_diff_le take_Cons')
  qed
qed

lemma pstrcpy_spec:
  assumes "str = xs @ 0 # post" and "0 \<notin> set xs" and "0 < n" and "b + nat n \<le> length m"
  shows "pstrcpy m b n str =
           Some (take b m @ take (nat n - 1) xs @ 0 # drop (b + min (nat n - 1) (length xs) + 1) m)"
proof -
  have "pstrcpy_loop m b (b + nat n - 1) str 0 =
      Some (take b m @ take (b + nat n - 1 - b) xs @
            0 # drop (b + min (b + nat n - 1 - b) (length xs) + 1) m)"
    by (rule pstrcpy_loop_spec) (use assms in auto)
  moreover have "b + nat n - 1 - b = nat n - 1" by simp
  ultimately show ?thesis using assms(3) by (simp add: pstrcpy_def)
qed

lemma strstart_spec:
  assumes "drop q v = xs @ 0 # vpost" and "0 \<notin> set xs"
    and "drop p str = ys @ 0 # spost" and "0 \<notin> set ys"
  shows "strstart str p v q =
           (if take (length xs) ys = xs then Some (1, Some (p + length xs)) else Some (0, None))"
  using assms
proof (induction xs arbitrary: p q ys)
  case Nil
  note at = drop_eq_ConsD[of q v 0 vpost]
  from Nil at show ?case by (subst strstart.simps) (simp add: mem_get_def)
next
  case (Cons x xs)
  have "drop q v = x # (xs @ 0 # vpost)" using Cons.prems(1) by simp
  note v = drop_eq_ConsD[OF this]
  have x: "x \<noteq> 0" "0 \<notin> set xs" using Cons.prems(2) by auto
  show ?case
  proof (cases ys)
    case Nil
    note s = drop_eq_ConsD[of p str 0 spost]
    show ?thesis using Cons.prems(3) Nil v x s
      by (subst strstart.simps) (simp add: mem_get_def)
  next
    case (Cons y zs)
    have "drop p str = y # (zs @ 0 # spost)" using Cons.prems(3) Cons by simp
    note s = drop_eq_ConsD[OF this]
    show ?thesis using Cons.IH[OF v(3) x(2) s(3)] Cons.prems Cons v x s
      by (subst strstart.simps) (simp add: mem_get_def)
  qed
qed

section \<open>Properties of the helpers\<close>

text \<open>
  C39. \<open>put_u32\<close> succeeds exactly when the four bytes lie inside the object, changes no other
  byte, and \<open>get_u32\<close> reads the stored value back.
\<close>
theorem put_get_u32:
  "case put_u32 m p v of
     None \<Rightarrow> length m < p + 4
   | Some m' \<Rightarrow> get_u32 m' p = Some v \<and> length m' = length m \<and>
       take p m' = take p m \<and> drop (p + 4) m' = drop (p + 4) m"
proof (cases "put_u32 m p v")
  case None
  then show ?thesis by (auto simp: put_u32_def mem_write_def split: if_splits)
next
  case (Some m')
  with get_put_u32[OF this] show ?thesis by (auto simp: put_u32_def mem_write_def split: if_splits)
qed

text \<open>
  C40. \<open>pstrcpy\<close> stores the longest prefix of the source that fits with its terminator in
  \<open>buf_size\<close> bytes, always terminates it, and touches no other byte of the destination.
\<close>
theorem pstrcpy_truncates:
  assumes "str = xs @ 0 # post" and "0 \<notin> set xs" and "0 < n" and "b + nat n \<le> length m"
  shows "pstrcpy m b n str =
           Some (take b m @ take (nat n - 1) xs @ 0 # drop (b + min (nat n - 1) (length xs) + 1) m)"
  by (rule pstrcpy_spec[OF assms])

theorem pstrcpy_truncates_witness:
  "pstrcpy [9, 9, 9, 9] 1 2 [104, 105, 0] = Some [9, 104, 0, 9]"
  using pstrcpy_truncates[where str = "[104, 105, 0]" and xs = "[104, 105]" and post = "[]"
    and n = 2 and b = 1 and m = "[9, 9, 9, 9]"] by simp

end
