(* ===== verification/Cutils_DynBuf.thy ===== *)
theory Cutils_DynBuf
  imports Cutils_Bytes
begin

text \<open>
  The dynamic buffer of \<open>quickjs/cutils.c\<close>: every operation of the package, with the
  allocation failures and the out-of-bounds accesses it can run into. The interface that the
  clients rely on (append a run of bytes, a sticky error flag) is the locale \<open>byte_sink\<close>.
\<close>

record dynbuf =
  buf :: "u8 list"
  dsize :: nat
  allocated_size :: nat
  derror :: bool
  has_realloc :: bool
  opaque :: "u8 heap"

definition dbuf_init2 :: "u8 heap \<Rightarrow> dynbuf" where
  "dbuf_init2 h =
     \<lparr>buf = [], dsize = 0, allocated_size = 0, derror = False, has_realloc = True, opaque = h\<rparr>"

text \<open>
  A null \<open>realloc_func\<close> (left behind by \<open>dbuf_free\<close>) is \<open>has_realloc = False\<close>: calling it
  is undefined.
\<close>

definition dbuf_realloc :: "dynbuf \<Rightarrow> nat \<Rightarrow> (int \<times> dynbuf) option" where
  "dbuf_realloc s new_size =
     (if new_size > allocated_size s then
        if derror s then Some (-1, s)
        else if \<not> has_realloc s then None
        else
          let sz = szt (allocated_size s * 3) div 2;
              n = (if sz > new_size then sz else new_size)
          in case realloc_func 1 (opaque s) (buf s) n of
               (None, h) \<Rightarrow> Some (-1, s\<lparr>derror := True, opaque := h\<rparr>)
             | (Some b, h) \<Rightarrow> Some (0, s\<lparr>buf := b, allocated_size := n, opaque := h\<rparr>)
      else Some (0, s))"

definition dbuf_write :: "dynbuf \<Rightarrow> nat \<Rightarrow> u8 list \<Rightarrow> (int \<times> dynbuf) option" where
  "dbuf_write s offset xs =
     (let e = szt (offset + length xs) in
      do {
        (r, s1) \<leftarrow> dbuf_realloc s e;
        if r \<noteq> 0 then Some (-1, s1)
        else do {
          b \<leftarrow> mem_write (buf s1) offset xs;
          Some (0, s1\<lparr>buf := b, dsize := (if e > dsize s1 then e else dsize s1)\<rparr>)
        }
      })"

definition dbuf_put :: "dynbuf \<Rightarrow> u8 list \<Rightarrow> (int \<times> dynbuf) option" where
  "dbuf_put s xs =
     (let need = szt (dsize s + length xs) in
      do {
        (r, s1) \<leftarrow> (if need > allocated_size s then dbuf_realloc s need else Some (0, s));
        if r \<noteq> 0 then Some (-1, s1)
        else do {
          b \<leftarrow> mem_write (buf s1) (dsize s1) xs;
          Some (0, s1\<lparr>buf := b, dsize := szt (dsize s1 + length xs)\<rparr>)
        }
      })"

text \<open>\<open>memcpy\<close> is undefined when its source and destination overlap.\<close>

definition dbuf_put_self :: "dynbuf \<Rightarrow> nat \<Rightarrow> nat \<Rightarrow> (int \<times> dynbuf) option" where
  "dbuf_put_self s offset len =
     (let need = szt (dsize s + len) in
      do {
        (r, s1) \<leftarrow> (if need > allocated_size s then dbuf_realloc s need else Some (0, s));
        if r \<noteq> 0 then Some (-1, s1)
        else if offset + len > dsize s1 \<and> offset < dsize s1 + len then None
        else do {
          xs \<leftarrow> mem_read (buf s1) offset len;
          b \<leftarrow> mem_write (buf s1) (dsize s1) xs;
          Some (0, s1\<lparr>buf := b, dsize := szt (dsize s1 + len)\<rparr>)
        }
      })"

definition dbuf_putc :: "dynbuf \<Rightarrow> u8 \<Rightarrow> (int \<times> dynbuf) option" where
  "dbuf_putc s c = dbuf_put s [c]"

text \<open>The inline functions of \<open>cutils.h\<close> that append a little-endian integer.\<close>

definition dbuf_put_u16 :: "dynbuf \<Rightarrow> u16 \<Rightarrow> (int \<times> dynbuf) option" where
  "dbuf_put_u16 s v = dbuf_put s (le_bytes 2 (unat v))"

definition dbuf_put_u32 :: "dynbuf \<Rightarrow> u32 \<Rightarrow> (int \<times> dynbuf) option" where
  "dbuf_put_u32 s v = dbuf_put s (le_bytes 4 (unat v))"

definition dbuf_put_u64 :: "dynbuf \<Rightarrow> u64 \<Rightarrow> (int \<times> dynbuf) option" where
  "dbuf_put_u64 s v = dbuf_put s (le_bytes 8 (unat v))"

definition dbuf_putstr :: "dynbuf \<Rightarrow> u8 list \<Rightarrow> (int \<times> dynbuf) option" where
  "dbuf_putstr s str = do { n \<leftarrow> strlen str 0; dbuf_put s (take n str) }"

text \<open>
  \<open>out\<close> is what \<open>vsnprintf\<close> formats (without the terminator). The fast path goes through
  a local buffer of 128 bytes, the slow one formats into the buffer itself, where it stores
  as many bytes as fit before the terminator.
\<close>

definition dbuf_printf :: "dynbuf \<Rightarrow> u8 list \<Rightarrow> (int \<times> dynbuf) option" where
  "dbuf_printf s out =
     (if length out < 128 then dbuf_put s out
      else do {
        (r, s1) \<leftarrow> dbuf_realloc s (szt (dsize s + length out + 1));
        if r \<noteq> 0 then Some (-1, s1)
        else do {
          b \<leftarrow> (if allocated_size s1 - dsize s1 = 0 then Some (buf s1)
                else mem_write (buf s1) (dsize s1)
                       (take (allocated_size s1 - dsize s1 - 1) out @ [0]));
          Some (0, s1\<lparr>buf := b, dsize := szt (dsize s1 + length out)\<rparr>)
        }
      })"

text \<open>\<open>dbuf_free\<close> ends with \<open>memset(s, 0, sizeof( *s))\<close>: the function pointer becomes null.\<close>

definition dbuf_free :: "dynbuf \<Rightarrow> dynbuf option" where
  "dbuf_free s =
     (if buf s \<noteq> [] \<and> \<not> has_realloc s then None
      else Some \<lparr>buf = [], dsize = 0, allocated_size = 0, derror = False,
                 has_realloc = False, opaque = []\<rparr>)"

definition dbuf_error :: "dynbuf \<Rightarrow> bool" where
  "dbuf_error s = derror s"

definition dbuf_set_error :: "dynbuf \<Rightarrow> dynbuf" where
  "dbuf_set_error s = s\<lparr>derror := True\<rparr>"

section \<open>Well-formed buffers and their contents\<close>

definition dbuf_wf :: "dynbuf \<Rightarrow> bool" where
  "dbuf_wf s \<longleftrightarrow>
     has_realloc s \<and> length (buf s) = allocated_size s \<and> dsize s \<le> allocated_size s
     \<and> allocated_size s \<le> PTRDIFF_MAX"

definition dbuf_data :: "dynbuf \<Rightarrow> u8 list" where
  "dbuf_data s = take (dsize s) (buf s)"

text \<open>
  A buffer that no allocation failure has hit or will hit. The growth factor is 3/2, so while
  the contents stay below \<open>2^61\<close> bytes no request reaches the object size limit.
\<close>

definition DBUF_LIMIT :: nat where
  "DBUF_LIMIT = 2 ^ 61"

definition dbuf_healthy :: "dynbuf \<Rightarrow> bool" where
  "dbuf_healthy s \<longleftrightarrow> heap_ok (opaque s) \<and> \<not> derror s \<and> allocated_size s \<le> 2 * DBUF_LIMIT"

lemma dbuf_healthy_init2: "heap_ok h \<Longrightarrow> dbuf_healthy (dbuf_init2 h)"
  by (simp add: dbuf_healthy_def dbuf_init2_def)

lemma dbuf_wf_init2 [wf_intros]: "dbuf_wf (dbuf_init2 h)"
  by (simp add: dbuf_wf_def dbuf_init2_def PTRDIFF_MAX_def)

lemma dbuf_data_init2 [simp]: "dbuf_data (dbuf_init2 h) = []"
  by (simp add: dbuf_data_def dbuf_init2_def)

lemma length_dbuf_data: "dbuf_wf s \<Longrightarrow> length (dbuf_data s) = dsize s"
  by (simp add: dbuf_wf_def dbuf_data_def)

text \<open>
  Reserving room never moves or changes the bytes already written; on failure only the error
  flag is set; the requested size is granted whenever the call reports success.
\<close>

lemma dbuf_realloc_spec:
  assumes wf: "dbuf_wf s"
  obtains r s' where "dbuf_realloc s n = Some (r, s')" and "dbuf_wf s'"
    and "dbuf_data s' = dbuf_data s" and "dsize s' = dsize s"
    and "r = 0 \<Longrightarrow> n \<le> allocated_size s' \<and> derror s' = derror s"
    and "r \<noteq> 0 \<Longrightarrow> r = -1 \<and> derror s'"
    and "take (allocated_size s) (buf s') = buf s"
    and "dbuf_healthy s \<Longrightarrow> n \<le> DBUF_LIMIT \<Longrightarrow> r = 0 \<and> dbuf_healthy s'"
proof (cases "n > allocated_size s \<and> \<not> derror s")
  case False
  then consider "n \<le> allocated_size s" | "n > allocated_size s" "derror s" by linarith
  then show thesis
    by cases (rule that[of "if n \<le> allocated_size s then 0 else -1" s];
              use wf in \<open>simp add: dbuf_realloc_def dbuf_wf_def dbuf_healthy_def\<close>)+
next
  case True
  define sz where "sz = szt (allocated_size s * 3) div 2"
  define m where "m = (if sz > n then sz else n)"
  have ge: "allocated_size s \<le> m" "n \<le> m" using True by (auto simp: m_def)
  have eq: "dbuf_realloc s n =
      (case realloc_func 1 (opaque s) (buf s) m of
         (None, h) \<Rightarrow> Some (-1, s\<lparr>derror := True, opaque := h\<rparr>)
       | (Some b, h) \<Rightarrow> Some (0, s\<lparr>buf := b, allocated_size := m, opaque := h\<rparr>))"
    unfolding dbuf_realloc_def m_def sz_def Let_def using True wf by (simp add: dbuf_wf_def)
  have small: "m \<le> 2 * DBUF_LIMIT" if "n \<le> DBUF_LIMIT"
    using that True szt_le[of "allocated_size s * 3"] by (auto simp: m_def sz_def)
  show thesis
  proof (cases "realloc_func 1 (opaque s) (buf s) m")
    case (Pair r h)
    have fine: "r \<noteq> None \<and> heap_ok h" if "dbuf_healthy s" and "n \<le> DBUF_LIMIT"
      using that realloc_func_ok[of "opaque s", OF _ Pair] small
      by (auto simp: dbuf_healthy_def PTRDIFF_MAX_def DBUF_LIMIT_def)
    show thesis
    proof (cases r)
      case None
      show thesis
        by (rule that[of "-1" "s\<lparr>derror := True, opaque := h\<rparr>"])
           (use wf Pair None eq fine in \<open>simp_all add: dbuf_wf_def dbuf_data_def\<close>)
    next
      case (Some b)
      note b = realloc_func_Some[OF Pair[unfolded Some]]
      have keep: "take (length (buf s)) b = buf s" using b(3) wf ge by (simp add: dbuf_wf_def)
      have "take (dsize s) b = take (dsize s) (take (length (buf s)) b)"
        using wf by (simp add: dbuf_wf_def min_absorb1)
      then have data: "take (dsize s) b = take (dsize s) (buf s)" by (simp add: keep)
      show thesis
        by (rule that[of 0 "s\<lparr>buf := b, allocated_size := m, opaque := h\<rparr>"])
           (use wf Pair Some eq b data ge keep fine small in
             \<open>simp_all add: dbuf_wf_def dbuf_data_def dbuf_healthy_def\<close>)
    qed
  qed
qed

text \<open>
  Appending: with an invariant buffer the call never goes out of bounds; it either appends
  all the bytes or leaves the contents alone and raises the error flag.
\<close>

lemma dbuf_reserve_spec:
  assumes wf: "dbuf_wf s"
  obtains r s' where
    "(if n > allocated_size s then dbuf_realloc s n else Some (0, s)) = Some (r, s')"
    and "dbuf_wf s'" and "dbuf_data s' = dbuf_data s" and "dsize s' = dsize s"
    and "r = 0 \<Longrightarrow> n \<le> allocated_size s' \<and> derror s' = derror s"
    and "r \<noteq> 0 \<Longrightarrow> r = -1 \<and> derror s'"
    and "dbuf_healthy s \<Longrightarrow> n \<le> DBUF_LIMIT \<Longrightarrow> r = 0 \<and> dbuf_healthy s'"
proof (cases "n > allocated_size s")
  case True
  from dbuf_realloc_spec[OF wf, of n] obtain r s' where
    "dbuf_realloc s n = Some (r, s')" "dbuf_wf s'" "dbuf_data s' = dbuf_data s"
    "dsize s' = dsize s" "r = 0 \<Longrightarrow> n \<le> allocated_size s' \<and> derror s' = derror s"
    "r \<noteq> 0 \<Longrightarrow> r = -1 \<and> derror s'"
    "dbuf_healthy s \<Longrightarrow> n \<le> DBUF_LIMIT \<Longrightarrow> r = 0 \<and> dbuf_healthy s'"
    by metis
  with True that show thesis by simp
next
  case False
  show thesis by (rule that[of 0 s]) (use wf False in simp_all)
qed

lemma dbuf_put_spec:
  assumes wf: "dbuf_wf s" and len: "length xs \<le> PTRDIFF_MAX"
  obtains r s' where "dbuf_put s xs = Some (r, s')" and "dbuf_wf s'"
    and "r = 0 \<Longrightarrow> dbuf_data s' = dbuf_data s @ xs \<and> derror s' = derror s"
    and "r \<noteq> 0 \<Longrightarrow> r = -1 \<and> dbuf_data s' = dbuf_data s \<and> derror s'"
    and "dbuf_healthy s \<Longrightarrow> length (dbuf_data s) + length xs \<le> DBUF_LIMIT \<Longrightarrow>
      r = 0 \<and> dbuf_healthy s'"
proof -
  have small: "dsize s + length xs < 2 ^ 64"
    using wf len by (simp add: dbuf_wf_def PTRDIFF_MAX_def)
  obtain r s1 where
    r: "(if dsize s + length xs > allocated_size s then dbuf_realloc s (dsize s + length xs)
         else Some (0, s)) = Some (r, s1)"
    and s1: "dbuf_wf s1" "dbuf_data s1 = dbuf_data s" "dsize s1 = dsize s"
    and ok: "r = 0 \<Longrightarrow> dsize s + length xs \<le> allocated_size s1 \<and> derror s1 = derror s"
    and bad: "r \<noteq> 0 \<Longrightarrow> r = -1 \<and> derror s1"
    and fine: "dbuf_healthy s \<Longrightarrow> dsize s + length xs \<le> DBUF_LIMIT \<Longrightarrow>
      r = 0 \<and> dbuf_healthy s1"
    by (rule dbuf_reserve_spec[OF wf, of "dsize s + length xs"]) blast
  show thesis
  proof (cases "r = 0")
    case True
    then have fits: "dsize s + length xs \<le> length (buf s1)"
      using ok s1(1) by (simp add: dbuf_wf_def)
    let ?b = "take (dsize s) (buf s1) @ xs @ drop (dsize s + length xs) (buf s1)"
    let ?s' = "s1\<lparr>buf := ?b, dsize := dsize s + length xs\<rparr>"
    have "dbuf_put s xs = Some (0, ?s')"
      using r True fits s1(3) small by (simp add: dbuf_put_def Let_def mem_write_def)
    moreover have "dbuf_wf ?s'" using s1(1) fits by (simp add: dbuf_wf_def)
    moreover have "dbuf_data ?s' = dbuf_data s @ xs"
      using s1(2,3) fits wf by (simp add: dbuf_data_def dbuf_wf_def)
    moreover have "dbuf_healthy ?s' = dbuf_healthy s1" by (simp add: dbuf_healthy_def)
    ultimately show thesis
      using that[of 0 ?s'] ok True fine length_dbuf_data[OF wf] by simp
  next
    case False
    then have "dbuf_put s xs = Some (-1, s1)"
      using r small by (simp add: dbuf_put_def Let_def)
    moreover have "\<not> (dbuf_healthy s \<and> dsize s + length xs \<le> DBUF_LIMIT)"
      using fine False by blast
    ultimately show thesis using that[of "-1" s1] s1 bad False length_dbuf_data[OF wf] by simp
  qed
qed

section \<open>The interface of a byte sink\<close>

text \<open>
  What the emitters of bytecode, of UTF-8 and of code points rely on: an append operation with
  a return code, the bytes written so far, and a sticky error flag.
\<close>

locale byte_sink =
  fixes put :: "'s \<Rightarrow> u8 list \<Rightarrow> (int \<times> 's) option"
    and contents :: "'s \<Rightarrow> u8 list"
    and failed :: "'s \<Rightarrow> bool"
    and inv :: "'s \<Rightarrow> bool"
    and healthy :: "'s \<Rightarrow> bool"
  assumes put_total:
      "inv s \<Longrightarrow> length xs \<le> PTRDIFF_MAX \<Longrightarrow> \<exists>r s'. put s xs = Some (r, s') \<and> inv s'"
    and put_ok: "inv s \<Longrightarrow> length xs \<le> PTRDIFF_MAX \<Longrightarrow> put s xs = Some (0, s') \<Longrightarrow>
      contents s' = contents s @ xs \<and> failed s' = failed s"
    and put_fail: "inv s \<Longrightarrow> length xs \<le> PTRDIFF_MAX \<Longrightarrow> put s xs = Some (r, s') \<Longrightarrow> r \<noteq> 0 \<Longrightarrow>
      r = -1 \<and> contents s' = contents s \<and> failed s'"
    and put_healthy: "inv s \<Longrightarrow> healthy s \<Longrightarrow> length (contents s) + length xs \<le> DBUF_LIMIT \<Longrightarrow>
      put s xs = Some (r, s') \<Longrightarrow> r = 0 \<and> healthy s'"
    and healthy_ok: "healthy s \<Longrightarrow> \<not> failed s"

text \<open>A writer that appends several runs and ignores the return codes.\<close>

fun put_all :: "('s \<Rightarrow> u8 list \<Rightarrow> (int \<times> 's) option) \<Rightarrow> 's \<Rightarrow> u8 list list \<Rightarrow> 's option" where
  "put_all put s [] = Some s"
| "put_all put s (xs # xss) = do { (r, s1) \<leftarrow> put s xs; put_all put s1 xss }"

context byte_sink begin

lemma put_cases:
  assumes "inv s" and "length xs \<le> PTRDIFF_MAX"
  obtains (ok) s' where "put s xs = Some (0, s')" and "inv s'"
      and "contents s' = contents s @ xs" and "failed s' = failed s"
      and "healthy s \<Longrightarrow> length (contents s) + length xs \<le> DBUF_LIMIT \<Longrightarrow> healthy s'"
    | (fail) s' where "put s xs = Some (-1, s')" and "inv s'"
      and "contents s' = contents s" and "failed s'"
      and "healthy s \<Longrightarrow> length (contents s) + length xs > DBUF_LIMIT"
proof -
  from put_total[OF assms] obtain r s' where p: "put s xs = Some (r, s')" and i: "inv s'"
    by blast
  note fine = put_healthy[OF assms(1) _ _ p]
  show thesis
  proof (cases "r = 0")
    case True
    with put_ok[OF assms] p i fine show thesis using ok[of s'] by simp
  next
    case False
    with put_fail[OF assms p] p i fine show thesis
      using fail[of s'] linorder_not_less by blast
  qed
qed

lemma put_all_spec:
  assumes "inv s" and "\<forall>xs \<in> set xss. length xs \<le> PTRDIFF_MAX"
  shows "\<exists>s'. put_all put s xss = Some s' \<and> inv s' \<and> (failed s \<longrightarrow> failed s') \<and>
              (\<not> failed s' \<longrightarrow> contents s' = contents s @ concat xss) \<and>
              (healthy s \<longrightarrow> length (contents s) + length (concat xss) \<le> DBUF_LIMIT \<longrightarrow>
                 healthy s')"
  using assms
proof (induction xss arbitrary: s)
  case Nil
  then show ?case by simp
next
  case (Cons xs xss)
  have len: "length xs \<le> PTRDIFF_MAX" using Cons.prems(2) by simp
  from Cons.prems(1) len show ?case
  proof (cases rule: put_cases)
    case (ok s1)
    from Cons.IH[of s1] ok Cons.prems(2) show ?thesis by auto
  next
    case (fail s1)
    from Cons.IH[of s1] fail Cons.prems(2) show ?thesis by auto
  qed
qed

end

interpretation dbuf: byte_sink dbuf_put dbuf_data dbuf_error dbuf_wf dbuf_healthy
proof
  fix s :: dynbuf and xs :: "u8 list"
  assume wf: "dbuf_wf s" and len: "length xs \<le> PTRDIFF_MAX"
  from dbuf_put_spec[OF wf len] obtain r s' where
    p: "dbuf_put s xs = Some (r, s')" and s': "dbuf_wf s'"
    and ok: "r = 0 \<Longrightarrow> dbuf_data s' = dbuf_data s @ xs \<and> derror s' = derror s"
    and bad: "r \<noteq> 0 \<Longrightarrow> r = -1 \<and> dbuf_data s' = dbuf_data s \<and> derror s'"
    by metis
  show "\<exists>r s'. dbuf_put s xs = Some (r, s') \<and> dbuf_wf s'" using p s' by blast
  show "dbuf_data t = dbuf_data s @ xs \<and> dbuf_error t = dbuf_error s"
    if "dbuf_put s xs = Some (0, t)" for t
    using that p ok by (auto simp: dbuf_error_def)
  show "q = -1 \<and> dbuf_data t = dbuf_data s \<and> dbuf_error t"
    if "dbuf_put s xs = Some (q, t)" and "q \<noteq> 0" for q t
    using that p bad by (auto simp: dbuf_error_def)
next
  fix s s' :: dynbuf and xs :: "u8 list" and r
  assume wf: "dbuf_wf s" and h: "dbuf_healthy s" and p: "dbuf_put s xs = Some (r, s')"
    and n: "length (dbuf_data s) + length xs \<le> DBUF_LIMIT"
  have "length xs \<le> PTRDIFF_MAX" using n by (simp add: DBUF_LIMIT_def PTRDIFF_MAX_def)
  from dbuf_put_spec[OF wf this] p h n show "r = 0 \<and> dbuf_healthy s'"
    by (metis option.inject prod.inject)
next
  show "\<not> dbuf_error s" if "dbuf_healthy s" for s :: dynbuf
    using that by (simp add: dbuf_healthy_def dbuf_error_def)
qed

section \<open>The remaining operations\<close>

lemma dbuf_putc_spec:
  assumes "dbuf_wf s"
  obtains r s' where "dbuf_putc s c = Some (r, s')" and "dbuf_wf s'"
    and "r = 0 \<Longrightarrow> dbuf_data s' = dbuf_data s @ [c] \<and> derror s' = derror s"
    and "r \<noteq> 0 \<Longrightarrow> r = -1 \<and> dbuf_data s' = dbuf_data s \<and> derror s'"
  using dbuf_put_spec[OF assms, of "[c]"] unfolding dbuf_putc_def
  by (simp add: PTRDIFF_MAX_def) metis

text \<open>Copying a part of the contents that is already written to the end.\<close>

lemma dbuf_put_self_spec:
  assumes wf: "dbuf_wf s" and range: "offset + len \<le> dsize s"
  obtains r s' where "dbuf_put_self s offset len = Some (r, s')" and "dbuf_wf s'"
    and "r = 0 \<Longrightarrow> dbuf_data s' = dbuf_data s @ take len (drop offset (dbuf_data s))
                      \<and> derror s' = derror s"
    and "r \<noteq> 0 \<Longrightarrow> r = -1 \<and> dbuf_data s' = dbuf_data s \<and> derror s'"
    and "dbuf_healthy s \<Longrightarrow> length (dbuf_data s) + len \<le> DBUF_LIMIT \<Longrightarrow>
      r = 0 \<and> dbuf_healthy s'"
proof -
  let ?xs = "take len (drop offset (dbuf_data s))"
  have len: "length ?xs = len" using wf range by (simp add: dbuf_data_def dbuf_wf_def)
  have lx: "length ?xs \<le> PTRDIFF_MAX" using len wf range by (simp add: dbuf_wf_def)
  have small: "dsize s + len < 2 ^ 64"
    using wf range by (simp add: dbuf_wf_def PTRDIFF_MAX_def)
  from dbuf_reserve_spec[OF wf, of "dsize s + len"] obtain r s1 where
    r: "(if dsize s + len > allocated_size s then dbuf_realloc s (dsize s + len)
         else Some (0, s)) = Some (r, s1)"
    and s1: "dbuf_wf s1" "dbuf_data s1 = dbuf_data s" "dsize s1 = dsize s"
    by metis
  have src: "take len (drop offset (buf s1)) = ?xs"
  proof -
    have "take len (drop offset (buf s1)) = take len (drop offset (take (dsize s1) (buf s1)))"
      using range s1(3) by (simp add: drop_take)
    then show ?thesis using s1(2) by (simp add: dbuf_data_def)
  qed
  have "dbuf_put_self s offset len = dbuf_put s ?xs"
  proof (cases "r = 0")
    case False
    with r small len show ?thesis by (simp add: dbuf_put_self_def dbuf_put_def Let_def)
  next
    case True
    have inb: "offset + len \<le> length (buf s1)" using range s1 by (simp add: dbuf_wf_def)
    show ?thesis
      using r small len True range s1(3) src inb
      by (simp add: dbuf_put_self_def dbuf_put_def Let_def mem_read_def)
  qed
  with dbuf_put_spec[OF wf lx] len that show thesis by metis
qed

text \<open>
  A positioned write overwrites or extends the contents; a gap between the old end and
  \<open>offset\<close> keeps whatever bytes the allocator left there, so only an \<open>offset\<close> inside the
  contents determines the result.
\<close>

lemma dbuf_write_spec:
  assumes wf: "dbuf_wf s" and off: "offset \<le> dsize s" and len: "length xs \<le> PTRDIFF_MAX"
  obtains r s' where "dbuf_write s offset xs = Some (r, s')" and "dbuf_wf s'"
    and "r = 0 \<Longrightarrow> dbuf_data s' = take offset (dbuf_data s) @ xs @ drop (offset + length xs) (dbuf_data s)
                      \<and> derror s' = derror s"
    and "r \<noteq> 0 \<Longrightarrow> r = -1 \<and> dbuf_data s' = dbuf_data s \<and> derror s'"
    and "dbuf_healthy s \<Longrightarrow> offset + length xs \<le> DBUF_LIMIT \<Longrightarrow> r = 0 \<and> dbuf_healthy s'"
proof -
  let ?e = "offset + length xs"
  have small: "?e < 2 ^ 64" using wf off len by (simp add: dbuf_wf_def PTRDIFF_MAX_def)
  from dbuf_realloc_spec[OF wf, of ?e] obtain r s1 where
    r: "dbuf_realloc s ?e = Some (r, s1)"
    and s1: "dbuf_wf s1" "dbuf_data s1 = dbuf_data s" "dsize s1 = dsize s"
    and ok: "r = 0 \<Longrightarrow> ?e \<le> allocated_size s1 \<and> derror s1 = derror s"
    and bad: "r \<noteq> 0 \<Longrightarrow> r = -1 \<and> derror s1"
    and fine: "dbuf_healthy s \<Longrightarrow> ?e \<le> DBUF_LIMIT \<Longrightarrow> r = 0 \<and> dbuf_healthy s1"
    by metis
  show thesis
  proof (cases "r = 0")
    case True
    then have fits: "?e \<le> length (buf s1)" using ok s1(1) by (simp add: dbuf_wf_def)
    let ?b = "take offset (buf s1) @ xs @ drop ?e (buf s1)"
    let ?n = "if ?e > dsize s1 then ?e else dsize s1"
    let ?s' = "s1\<lparr>buf := ?b, dsize := ?n\<rparr>"
    have "dbuf_write s offset xs = Some (0, ?s')"
      using r True fits small by (simp add: dbuf_write_def Let_def mem_write_def)
    moreover have "dbuf_wf ?s'" using s1(1) fits by (auto simp: dbuf_wf_def)
    moreover have "dbuf_data ?s' = take offset (dbuf_data s) @ xs @ drop ?e (dbuf_data s)"
    proof -
      have "take offset (dbuf_data s1) = take offset (buf s1)"
        using off s1(3) by (simp add: dbuf_data_def min_absorb1)
      moreover have "drop ?e (dbuf_data s1) = take (dsize s1 - ?e) (drop ?e (buf s1))"
        by (simp add: dbuf_data_def drop_take)
      ultimately show ?thesis
        using fits off s1(3) unfolding s1(2)[symmetric] by (auto simp: dbuf_data_def)
    qed
    moreover have "dbuf_healthy ?s' = dbuf_healthy s1" by (simp add: dbuf_healthy_def)
    ultimately show thesis using that[of 0 ?s'] ok True fine by simp
  next
    case False
    then have "dbuf_write s offset xs = Some (-1, s1)"
      using r small by (simp add: dbuf_write_def Let_def)
    moreover have "\<not> (dbuf_healthy s \<and> ?e \<le> DBUF_LIMIT)" using fine False by blast
    ultimately show thesis using that[of "-1" s1] s1 bad False by simp
  qed
qed

section \<open>Properties of the buffer\<close>

text \<open>
  C31. A writer that appends any sequence of runs to a fresh buffer never leaves the allocated
  memory; if the sticky error flag is clear at the end the contents are exactly the concatenation of
  the runs, and without allocation failures (and below \<open>2^61\<close> bytes) the flag is clear. It
  suffices to test the flag once, at the end, which is what the emitters do.
\<close>
theorem dbuf_appends:
  assumes "\<forall>xs \<in> set xss. length xs \<le> PTRDIFF_MAX"
  shows "\<exists>s. put_all dbuf_put (dbuf_init2 h) xss = Some s \<and> dbuf_wf s \<and>
    (\<not> dbuf_error s \<longrightarrow> dbuf_data s = concat xss) \<and>
    (heap_ok h \<and> length (concat xss) \<le> DBUF_LIMIT \<longrightarrow> \<not> dbuf_error s)"
  using dbuf.put_all_spec[OF dbuf_wf_init2 assms, of h] dbuf_healthy_init2[of h] dbuf.healthy_ok
  by auto

theorem dbuf_appends_witness:
  "\<exists>s. put_all dbuf_put (dbuf_init2 [Some (\<lambda>_. 7)]) [[1, 2], [], [3]] = Some s \<and>
       dbuf_data s = [1, 2, 3]"
  using dbuf_appends[of "[[1, 2], [], [3]]" "[Some (\<lambda>_. 7)]"]
  by (auto simp: PTRDIFF_MAX_def heap_ok_def DBUF_LIMIT_def)

text \<open>
  C37. A positioned write inside the contents replaces exactly the bytes it covers (and extends
  the contents when it runs past their end); on an allocation failure it returns -1, raises the error
  flag and leaves the contents alone; it never accesses memory out of bounds.
\<close>
theorem dbuf_write_patches:
  assumes "dbuf_wf s" and "offset \<le> dsize s" and "length xs \<le> PTRDIFF_MAX"
  shows "\<exists>r s'. dbuf_write s offset xs = Some (r, s') \<and> dbuf_wf s' \<and> (r = 0 \<or> r = -1) \<and>
    dbuf_data s' =
      (if r = 0 then take offset (dbuf_data s) @ xs @ drop (offset + length xs) (dbuf_data s)
       else dbuf_data s) \<and>
    (r = -1 \<longrightarrow> derror s') \<and>
    (dbuf_healthy s \<and> offset + length xs \<le> DBUF_LIMIT \<longrightarrow> r = 0)"
proof (rule dbuf_write_spec[OF assms], goal_cases)
  case (1 r s')
  then show ?case by (intro exI[of _ r] exI[of _ s']) (cases "r = 0"; auto)
qed

theorem dbuf_write_patches_witness:
  "\<exists>s'. dbuf_write \<lparr>buf = [1, 2, 3, 0], dsize = 3, allocated_size = 4, derror = False,
           has_realloc = True, opaque = []\<rparr> 2 [8, 9, 10] = Some (0, s') \<and>
        dbuf_data s' = [1, 2, 8, 9, 10]"
  using dbuf_write_patches[of "\<lparr>buf = [1, 2, 3, 0], dsize = 3, allocated_size = 4,
      derror = False, has_realloc = True, opaque = []\<rparr>" 2 "[8, 9, 10]"]
  by (auto simp: dbuf_wf_def dbuf_healthy_def dbuf_data_def PTRDIFF_MAX_def DBUF_LIMIT_def)

text \<open>
  C38. \<open>dbuf_put_self\<close> appends a copy of a part of the buffer's own contents, also when the
  buffer is reallocated, and thus moved, by the call itself.
\<close>
theorem dbuf_put_self_copies:
  assumes "dbuf_wf s" and "offset + len \<le> dsize s"
  shows "\<exists>r s'. dbuf_put_self s offset len = Some (r, s') \<and> dbuf_wf s' \<and> (r = 0 \<or> r = -1) \<and>
    dbuf_data s' = dbuf_data s @ (if r = 0 then take len (drop offset (dbuf_data s)) else []) \<and>
    (dbuf_healthy s \<and> dsize s + len \<le> DBUF_LIMIT \<longrightarrow> r = 0)"
proof (rule dbuf_put_self_spec[OF assms], goal_cases)
  case (1 r s')
  then show ?case using length_dbuf_data[OF assms(1)]
    by (intro exI[of _ r] exI[of _ s']) (cases "r = 0"; auto)
qed

theorem dbuf_put_self_copies_witness:
  "\<exists>s'. dbuf_put_self \<lparr>buf = [1, 2, 3], dsize = 3, allocated_size = 3, derror = False,
           has_realloc = True, opaque = [Some (\<lambda>_. 9)]\<rparr> 1 2 = Some (0, s') \<and>
        dbuf_data s' = [1, 2, 3, 2, 3]"
  using dbuf_put_self_copies[of "\<lparr>buf = [1, 2, 3], dsize = 3, allocated_size = 3,
      derror = False, has_realloc = True, opaque = [Some (\<lambda>_. 9)]\<rparr>" 1 2]
  by (auto simp: dbuf_wf_def dbuf_healthy_def heap_ok_def dbuf_data_def PTRDIFF_MAX_def DBUF_LIMIT_def)

end
