(* ===== verification/Cutils_Utf8.thy ===== *)
theory Cutils_Utf8
  imports Prelude
begin

text \<open>
  The UTF-8 coder of \<open>quickjs/cutils.c\<close>, the historical one with sequences of up to six
  bytes: \<open>unicode_to_utf8\<close> returns the bytes it stores (none for a code past 31 bits),
  \<open>unicode_from_utf8\<close> reads from an object at an offset and returns the code, or \<open>-1\<close>
  with the offset unchanged.
\<close>

definition utf8_tail :: "u32 \<Rightarrow> nat \<Rightarrow> u8" where
  "utf8_tail c n = ucast ((drop_bit n c AND 0x3f) OR 0x80)"

definition unicode_to_utf8 :: "u32 \<Rightarrow> u8 list" where
  "unicode_to_utf8 c =
     (if c < 0x80 then [ucast c]
      else if c < 0x800 then [ucast (drop_bit 6 c OR 0xc0), utf8_tail c 0]
      else if c < 0x10000 then
        [ucast (drop_bit 12 c OR 0xe0), utf8_tail c 6, utf8_tail c 0]
      else if c < 0x200000 then
        [ucast (drop_bit 18 c OR 0xf0), utf8_tail c 12, utf8_tail c 6, utf8_tail c 0]
      else if c < 0x4000000 then
        [ucast (drop_bit 24 c OR 0xf8), utf8_tail c 18, utf8_tail c 12, utf8_tail c 6,
         utf8_tail c 0]
      else if c < 0x80000000 then
        [ucast (drop_bit 30 c OR 0xfc), utf8_tail c 24, utf8_tail c 18, utf8_tail c 12,
         utf8_tail c 6, utf8_tail c 0]
      else [])"

definition utf8_min_code :: "u32 list" where
  "utf8_min_code = [0x80, 0x800, 0x10000, 0x200000, 0x4000000]"

definition utf8_first_code_mask :: "u32 list" where
  "utf8_first_code_mask = [0x1f, 0xf, 0x7, 0x3, 0x1]"

text \<open>The number of continuation bytes a first byte announces.\<close>

definition utf8_len :: "u8 \<Rightarrow> nat option" where
  "utf8_len b =
     (if 0xc0 \<le> b \<and> b \<le> 0xdf then Some 1
      else if 0xe0 \<le> b \<and> b \<le> 0xef then Some 2
      else if 0xf0 \<le> b \<and> b \<le> 0xf7 then Some 3
      else if 0xf8 \<le> b \<and> b \<le> 0xfb then Some 4
      else if 0xfc \<le> b \<and> b \<le> 0xfd then Some 5
      else None)"

text \<open>
  The loop over the continuation bytes. The outer option is undefined behaviour (a read past
  the object), the inner one the loop's \<open>return -1\<close>.
\<close>

fun utf8_loop :: "u8 list \<Rightarrow> nat \<Rightarrow> nat \<Rightarrow> u32 \<Rightarrow> (u32 \<times> nat) option option" where
  "utf8_loop m p 0 c = Some (Some (c, p))"
| "utf8_loop m p (Suc l) c =
     do {
       b \<leftarrow> mem_get m p;
       if b < 0x80 \<or> b \<ge> 0xc0 then Some None
       else utf8_loop m (p + 1) l (push_bit 6 c OR (ucast b AND 0x3f))
     }"

definition unicode_from_utf8 :: "u8 list \<Rightarrow> nat \<Rightarrow> int \<Rightarrow> (int \<times> nat) option" where
  "unicode_from_utf8 m p max_len =
     do {
       b \<leftarrow> mem_get m p;
       if b < 0x80 then Some (uint b, p + 1)
       else case utf8_len b of
         None \<Rightarrow> Some (-1, p)
       | Some l \<Rightarrow>
           if int l > max_len - 1 then Some (-1, p)
           else do {
             r \<leftarrow> utf8_loop m (p + 1) l (ucast b AND utf8_first_code_mask ! (l - 1));
             case r of
               None \<Rightarrow> Some (-1, p)
             | Some (c, p') \<Rightarrow>
                 if c < utf8_min_code ! (l - 1) then Some (-1, p) else Some (sint c, p')
           }
     }"

section \<open>Round trip\<close>

lemma unat_utf8_tail: "unat (utf8_tail c n) = 128 + unat c div 2 ^ n mod 64"
proof -
  have "unat ((drop_bit n c AND 63) OR (128 :: u32)) = unat (drop_bit n c AND 63) + 128"
    by (subst unat_or_low[where n = 6]) (simp_all add: word_nat)
  then show ?thesis by (simp add: utf8_tail_def word_nat)
qed

lemma utf8_tail_range [simp]: "\<not> utf8_tail c n < 0x80" "\<not> 0xc0 \<le> utf8_tail c n"
  by (simp_all add: word_nat unat_utf8_tail)

text \<open>One continuation byte shifts the code by six bits.\<close>

lemma unat_utf8_step:
  assumes "unat c < 2 ^ 26"
  shows "unat (push_bit 6 c OR (ucast (b :: u8) AND (0x3f :: u32))) = unat c * 64 + unat b mod 64"
proof -
  have "unat (push_bit 6 c) = unat c * 64" using assms by (simp add: word_nat)
  moreover have "unat b mod 4294967296 mod 64 = unat b mod 64"
    by (rule mod_mod_cancel) simp
  ultimately show ?thesis by (subst unat_or_high[where n = 6]) (simp_all add: word_nat)
qed

lemma utf8_step_tail:
  assumes "c' = drop_bit (n + 6) c" and "unat c < 2 ^ 31"
  shows "push_bit 6 c' OR (ucast (utf8_tail c n) AND (0x3f :: u32)) = drop_bit n c"
proof -
  have lt: "unat c' < 2 ^ 26"
  proof -
    have "unat c div 2 ^ (n + 6) \<le> unat c div 2 ^ 6" by (rule div_le_mono2) (simp_all add: power_add)
    also have "\<dots> < 2 ^ 26" using assms(2) by simp
    finally show ?thesis using assms(1) by (simp add: word_nat)
  qed
  have "unat c div 2 ^ (n + 6) * 64 + unat c div 2 ^ n mod 64 = unat c div 2 ^ n"
    by (simp add: power_add div_mult2_eq)
  moreover have "unat (push_bit 6 c' OR (ucast (utf8_tail c n) AND (0x3f :: u32))) =
      unat c' * 64 + unat (utf8_tail c n) mod 64"
    by (rule unat_utf8_step[OF lt])
  moreover have "(128 + k mod 64) mod 64 = k mod 64" for k :: nat
    using mod_mult_self2[of "k mod 64" 64 2] by (simp add: add.commute)
  ultimately show ?thesis
    unfolding word_unat_eq_iff unat_utf8_tail assms(1) unat_drop_bit by simp
qed

lemma unat_utf8_lead:
  assumes "unat c < 2 ^ (m + k)" and "2 ^ k dvd unat lead" and "unat lead + 2 ^ k \<le> 256"
  shows "unat (ucast (drop_bit m (c :: u32) OR lead) :: u8) = unat lead + unat c div 2 ^ m"
proof -
  have lt: "unat c div 2 ^ m < 2 ^ k"
    using assms(1) by (simp add: less_mult_imp_div_less power_add mult.commute)
  then have "unat (drop_bit m c OR lead) = unat c div 2 ^ m + unat lead"
    using assms(2) by (subst unat_or_low[where n = k]) (simp_all add: word_nat)
  then show ?thesis using lt assms(3) by (simp add: word_nat)
qed

text \<open>
  The lead byte of each form: what it announces and the bits of the code it carries.
\<close>

lemma utf8_lead_forms:
  "c < 0x800 \<Longrightarrow> unat (ucast (drop_bit 6 c OR 0xc0 :: u32) :: u8) = 0xc0 + unat c div 2 ^ 6"
  "c < 0x10000 \<Longrightarrow> unat (ucast (drop_bit 12 c OR 0xe0 :: u32) :: u8) = 0xe0 + unat c div 2 ^ 12"
  "c < 0x200000 \<Longrightarrow> unat (ucast (drop_bit 18 c OR 0xf0 :: u32) :: u8) = 0xf0 + unat c div 2 ^ 18"
  "c < 0x4000000 \<Longrightarrow> unat (ucast (drop_bit 24 c OR 0xf8 :: u32) :: u8) = 0xf8 + unat c div 2 ^ 24"
  "c < 0x80000000 \<Longrightarrow> unat (ucast (drop_bit 30 c OR 0xfc :: u32) :: u8) = 0xfc + unat c div 2 ^ 30"
  using unat_utf8_lead[of c 6 5 "0xc0"] unat_utf8_lead[of c 12 4 "0xe0"]
    unat_utf8_lead[of c 18 3 "0xf0"] unat_utf8_lead[of c 24 2 "0xf8"]
    unat_utf8_lead[of c 30 1 "0xfc"]
  by (simp_all add: word_less_nat_alt)

lemma utf8_first_code:
  assumes "unat b = lead + q" and "q < 2 ^ k" and "2 ^ k dvd lead" and "k \<le> 5"
  shows "ucast (b :: u8) AND (mask k :: u32) = of_nat q"
proof -
  have "unat b mod 2 ^ k = q" using assms(1-3) by (auto simp: mod_add_eq dvd_imp_mod_0)
  moreover have "q < 2 ^ 32" using assms(2,4) power_increasing[of k 5 "2 :: nat"] by simp
  moreover have "unat b < 256" using unat_u8_less[of b] by simp
  ultimately show ?thesis
    by (simp add: word_unat_eq_iff unat_and_mask unat_ucast unat_of_nat)
qed

lemma utf8_len_iff:
  "utf8_len b = Some l \<longleftrightarrow>
     (l = 1 \<and> 0xc0 \<le> unat b \<and> unat b \<le> 0xdf) \<or> (l = 2 \<and> 0xe0 \<le> unat b \<and> unat b \<le> 0xef) \<or>
     (l = 3 \<and> 0xf0 \<le> unat b \<and> unat b \<le> 0xf7) \<or> (l = 4 \<and> 0xf8 \<le> unat b \<and> unat b \<le> 0xfb) \<or>
     (l = 5 \<and> 0xfc \<le> unat b \<and> unat b \<le> 0xfd)"
  by (auto simp: utf8_len_def word_le_nat_alt)

text \<open>The continuation bytes of a code, most significant first.\<close>

abbreviation utf8_tails :: "u32 \<Rightarrow> nat \<Rightarrow> u8 list" where
  "utf8_tails c l \<equiv> map (\<lambda>i. utf8_tail c (6 * i)) (rev [0..<l])"

lemma utf8_loop_tails:
  assumes "unat c < 2 ^ 31" and "drop p m = utf8_tails c l @ post"
  shows "utf8_loop m p l (drop_bit (6 * l) c) = Some (Some (c, p + l))"
  using assms(2)
proof (induction l arbitrary: p)
  case 0
  then show ?case by simp
next
  case (Suc l)
  have "drop p m = utf8_tail c (6 * l) # (utf8_tails c l @ post)" using Suc.prems by simp
  note at = drop_eq_ConsD[OF this]
  have "push_bit 6 (drop_bit (6 * Suc l) c) OR (ucast (utf8_tail c (6 * l)) AND 0x3f)
      = drop_bit (6 * l) c"
    by (rule utf8_step_tail) (use assms(1) in \<open>simp_all add: add.commute\<close>)
  with Suc.IH[OF at(3)] at(1,2) show ?case by (simp add: mem_get_def)
qed

lemma unicode_from_utf8_form:
  assumes "drop p m = b # utf8_tails c l @ post" and "utf8_len b = Some l"
    and "ucast b AND utf8_first_code_mask ! (l - 1) = drop_bit (6 * l) c"
    and "unat c < 2 ^ 31" and "int l \<le> max_len - 1" and "\<not> c < utf8_min_code ! (l - 1)"
  shows "unicode_from_utf8 m p max_len = Some (sint c, p + 1 + l)"
proof -
  note at = drop_eq_ConsD[OF assms(1)]
  have "\<not> b < 0x80" using assms(2) by (auto simp: utf8_len_iff word_less_nat_alt)
  with at assms utf8_loop_tails[OF assms(4) at(3)] show ?thesis
    by (simp add: unicode_from_utf8_def mem_get_def)
qed

lemma utf8_tails_upto5:
  "utf8_tails c 1 = [utf8_tail c 0]"
  "utf8_tails c 2 = [utf8_tail c 6, utf8_tail c 0]"
  "utf8_tails c 3 = [utf8_tail c 12, utf8_tail c 6, utf8_tail c 0]"
  "utf8_tails c 4 = [utf8_tail c 18, utf8_tail c 12, utf8_tail c 6, utf8_tail c 0]"
  "utf8_tails c 5 = [utf8_tail c 24, utf8_tail c 18, utf8_tail c 12, utf8_tail c 6, utf8_tail c 0]"
  by (simp_all add: upt_rec)

text \<open>
  The five long forms: the number of continuation bytes, the lead byte's tag, the number of
  payload bits of the lead byte, and the least code of the form.
\<close>

definition utf8_form :: "u32 \<Rightarrow> nat \<Rightarrow> u32 \<Rightarrow> nat \<Rightarrow> bool" where
  "utf8_form c l lead k \<longleftrightarrow>
     (l, lead, k) \<in> {(1, 0xc0, 5), (2, 0xe0, 4), (3, 0xf0, 3), (4, 0xf8, 2), (5, 0xfc, 1)}
     \<and> unat c < 2 ^ (6 * l + k) \<and> \<not> c < utf8_min_code ! (l - 1)"

lemma utf8_formE:
  assumes "utf8_form c l lead k"
  obtains "l = 1" "lead = 0xc0" "k = 5" | "l = 2" "lead = 0xe0" "k = 4"
    | "l = 3" "lead = 0xf0" "k = 3" | "l = 4" "lead = 0xf8" "k = 2"
    | "l = 5" "lead = 0xfc" "k = 1"
  using assms by (auto simp: utf8_form_def)

lemma utf8_form_exists:
  assumes "\<not> c < 0x80" and "c < 0x80000000"
  shows "\<exists>l lead k. utf8_form c l lead k"
proof -
  have "utf8_form c 1 0xc0 5 \<or> utf8_form c 2 0xe0 4 \<or> utf8_form c 3 0xf0 3
      \<or> utf8_form c 4 0xf8 2 \<or> utf8_form c 5 0xfc 1"
    using assms by (simp add: utf8_form_def utf8_min_code_def word_less_nat_alt) linarith
  then show ?thesis by blast
qed

lemma utf8_form_lead:
  assumes "utf8_form c l lead k"
  shows "unat (ucast (drop_bit (6 * l) c OR lead) :: u8) = unat lead + unat c div 2 ^ (6 * l)"
    and "unat c div 2 ^ (6 * l) < 2 ^ k"
proof -
  have c: "unat c < 2 ^ (6 * l + k)" using assms by (simp add: utf8_form_def)
  then show "unat c div 2 ^ (6 * l) < 2 ^ k"
    by (simp add: less_mult_imp_div_less power_add mult.commute)
  have "2 ^ k dvd unat lead \<and> unat lead + 2 ^ k \<le> 256"
    using assms by (cases rule: utf8_formE) simp_all
  with c show "unat (ucast (drop_bit (6 * l) c OR lead) :: u8) = unat lead + unat c div 2 ^ (6 * l)"
    by (intro unat_utf8_lead[where k = k]) simp_all
qed

lemma unicode_to_utf8_form:
  assumes "utf8_form c l lead k"
  shows "unicode_to_utf8 c = ucast (drop_bit (6 * l) c OR lead) # utf8_tails c l"
  by (cases rule: utf8_formE[OF assms])
     (use assms in \<open>auto simp: utf8_form_def unicode_to_utf8_def utf8_tails_upto5
        utf8_min_code_def word_less_nat_alt\<close>)

lemma utf8_form_decodes:
  assumes "utf8_form c l lead k"
  defines "b \<equiv> ucast (drop_bit (6 * l) c OR lead)"
  shows "utf8_len b = Some l"
    and "ucast b AND utf8_first_code_mask ! (l - 1) = drop_bit (6 * l) c"
    and "unat c < 2 ^ 31"
proof -
  note lead = utf8_form_lead[OF assms(1), folded b_def]
  have "2 ^ k dvd unat lead \<and> k \<le> 5 \<and> utf8_first_code_mask ! (l - 1) = mask k"
    using assms(1)
    by (cases rule: utf8_formE) (simp_all add: utf8_first_code_mask_def mask_eq_exp_minus_1)
  with utf8_first_code[OF lead(1,2)]
  have "ucast b AND utf8_first_code_mask ! (l - 1) = of_nat (unat c div 2 ^ (6 * l))" by simp
  then show "ucast b AND utf8_first_code_mask ! (l - 1) = drop_bit (6 * l) c"
    by (simp only: unat_drop_bit[symmetric]) simp
  show "utf8_len b = Some l"
    using assms(1) lead by (cases rule: utf8_formE) (simp_all add: utf8_len_iff)
  have "unat c < 2 ^ (6 * l + k)" "6 * l + k \<le> 31"
    using assms(1) by (simp add: utf8_form_def, cases rule: utf8_formE[OF assms(1)], simp_all)
  then show "unat c < 2 ^ 31" using power_increasing[of "6 * l + k" 31 "2 :: nat"] by simp
qed

lemma unicode_to_utf8_length: "length (unicode_to_utf8 c) \<le> 6"
  by (simp add: unicode_to_utf8_def)

lemma utf8_roundtrip:
  assumes c: "c < 0x80000000" and len: "int (length (unicode_to_utf8 c)) \<le> max_len"
  shows "unicode_from_utf8 (pre @ unicode_to_utf8 c @ post) (length pre) max_len =
           Some (int (unat c), length pre + length (unicode_to_utf8 c))"
proof (cases "c < 0x80")
  case True
  then have "unicode_to_utf8 c = [ucast c]" by (simp add: unicode_to_utf8_def)
  moreover have u: "unat (ucast c :: u8) = unat c" using True by (simp add: word_nat)
  moreover have "uint (ucast c :: u8) = uint c" using u by (metis of_nat_unat)
  ultimately show ?thesis
    using True by (simp add: unicode_from_utf8_def mem_get_def word_less_nat_alt)
next
  case False
  from utf8_form_exists[OF False c] obtain l lead k where f: "utf8_form c l lead k" by blast
  note enc = unicode_to_utf8_form[OF f]
  have "\<not> c < utf8_min_code ! (l - 1)" using f by (simp add: utf8_form_def)
  moreover have "int l \<le> max_len - 1" using len enc by simp
  ultimately show ?thesis
    using unicode_from_utf8_form[where m = "pre @ unicode_to_utf8 c @ post" and p = "length pre"
        and max_len = max_len and post = post, OF _ utf8_form_decodes[OF f]] enc
    by (simp add: sint_u31[OF utf8_form_decodes(3)[OF f]])
qed

section \<open>Only shortest encodings are accepted\<close>

lemma utf8_loop_inv:
  assumes "utf8_loop m p l a = Some (Some (c, p'))" and "unat a < 2 ^ (31 - 6 * l)" and "l \<le> 5"
  shows "p' = p + l" and "p + l \<le> length m \<or> l = 0" and "unat c < 2 ^ 31"
    and "unat c div 2 ^ (6 * l) = unat a" and "take l (drop p m) = utf8_tails c l"
proof -
  have "p' = p + l \<and> (p + l \<le> length m \<or> l = 0) \<and> unat c < 2 ^ 31
      \<and> unat c div 2 ^ (6 * l) = unat a \<and> take l (drop p m) = utf8_tails c l"
    using assms
  proof (induction l arbitrary: p a)
    case 0
    then show ?case by simp
  next
    case (Suc l)
    let ?b = "m ! p"
    let ?a = "push_bit 6 a OR (ucast ?b AND (0x3f :: u32))"
    from Suc.prems(1) have p: "p < length m" and b: "\<not> ?b < 0x80" "?b < 0xc0"
      and rest: "utf8_loop m (p + 1) l ?a = Some (Some (c, p'))"
      by (auto simp: Option.bind_eq_Some_conv split: if_splits)
    have "unat a < 2 ^ 26"
      using Suc.prems(2,3) power_increasing[of "31 - 6 * Suc l" 25 "2 :: nat"] by simp
    then have ua: "unat ?a = unat a * 64 + unat ?b mod 64" by (rule unat_utf8_step)
    have "unat a + 1 \<le> 2 ^ (31 - 6 * Suc l)" using Suc.prems(2) by simp
    then have "(unat a + 1) * 64 \<le> 2 ^ (31 - 6 * Suc l) * 2 ^ 6" by simp
    also have "\<dots> = 2 ^ (31 - 6 * l)"
      using Suc.prems(3) by (simp only: power_add[symmetric]) (rule arg_cong[of _ _ "\<lambda>k. 2 ^ k"], simp)
    finally have lt: "unat ?a < 2 ^ (31 - 6 * l)"
      unfolding ua using mod_less_divisor[of 64 "unat ?b"] by simp
    from Suc.IH[OF rest lt] Suc.prems(3)
    have IH: "p' = p + 1 + l" "p + 1 + l \<le> length m \<or> l = 0" "unat c < 2 ^ 31"
      "unat c div 2 ^ (6 * l) = unat ?a" "take l (drop (p + 1) m) = utf8_tails c l"
      by simp_all
    have "unat c div 2 ^ (6 * Suc l) = unat c div 2 ^ (6 * l) div 2 ^ 6"
      by (simp add: div_mult2_eq[symmetric] power_add mult.commute)
    then have "unat c div 2 ^ (6 * Suc l) = unat a" unfolding IH(4) ua by simp
    moreover have "?b = utf8_tail c (6 * l)"
    proof -
      have ub: "128 \<le> unat ?b" "unat ?b < 128 + 64" using b by (simp_all add: word_nat)
      then have "unat ?b mod 64 = unat ?b - 128" by (intro mod_in_block) simp_all
      moreover have "(unat a * 64 + unat ?b mod 64) mod 64 = unat ?b mod 64"
        by (simp only: mod_mult_self3 mod_mod_trivial)
      ultimately have "unat ?b = 128 + (unat a * 64 + unat ?b mod 64) mod 64" using ub by simp
      then show ?thesis unfolding word_unat_eq_iff unat_utf8_tail IH(4) ua .
    qed
    moreover have "take (Suc l) (drop p m) = ?b # take l (drop (p + 1) m)"
      using p by (simp add: Cons_nth_drop_Suc[symmetric])
    ultimately show ?case using IH p by auto
  qed
  then show "p' = p + l" and "p + l \<le> length m \<or> l = 0" and "unat c < 2 ^ 31"
    and "unat c div 2 ^ (6 * l) = unat a" and "take l (drop p m) = utf8_tails c l"
    by blast+
qed

lemma utf8_form_of_bytes:
  assumes "utf8_len b = Some l" and "unat c < 2 ^ 31" and "\<not> c < utf8_min_code ! (l - 1)"
    and "unat c div 2 ^ (6 * l) = unat (ucast b AND utf8_first_code_mask ! (l - 1))"
  shows "unicode_to_utf8 c = b # utf8_tails c l"
proof -
  have u: "unat (ucast b :: u32) = unat b" using unat_u8_less[of b] by (simp add: word_nat)
  from assms(1) obtain lead k where
    t: "(l, lead, k) \<in> {(1, 0xc0, 5), (2, 0xe0, 4), (3, 0xf0, 3), (4, 0xf8, 2), (5, 0xfc, 1 :: nat)}"
    and q: "unat c div 2 ^ (6 * l) < 2 ^ k" "unat b = unat (lead :: u32) + unat c div 2 ^ (6 * l)"
  proof -
    consider "l = 1" "0xc0 \<le> unat b" "unat b \<le> 0xdf" | "l = 2" "0xe0 \<le> unat b" "unat b \<le> 0xef"
      | "l = 3" "0xf0 \<le> unat b" "unat b \<le> 0xf7" | "l = 4" "0xf8 \<le> unat b" "unat b \<le> 0xfb"
      | "l = 5" "0xfc \<le> unat b" "unat b \<le> 0xfd"
      using assms(1) by (auto simp: utf8_len_iff)
    then show thesis
    proof cases
      case 1
      then have "unat b mod 32 = unat b - 0xc0" by (intro mod_in_block) simp_all
      then show thesis using 1 assms(4) u by (intro that[of "0xc0" 5])
          (simp_all add: utf8_first_code_mask_def unat_and_low)
    next
      case 2
      then have "unat b mod 16 = unat b - 0xe0" by (intro mod_in_block) simp_all
      then show thesis using 2 assms(4) u by (intro that[of "0xe0" 4])
          (simp_all add: utf8_first_code_mask_def unat_and_low)
    next
      case 3
      then have "unat b mod 8 = unat b - 0xf0" by (intro mod_in_block) simp_all
      then show thesis using 3 assms(4) u by (intro that[of "0xf0" 3])
          (simp_all add: utf8_first_code_mask_def unat_and_low)
    next
      case 4
      then have "unat b mod 4 = unat b - 0xf8" by (intro mod_in_block) simp_all
      then show thesis using 4 assms(4) u by (intro that[of "0xf8" 2])
          (simp_all add: utf8_first_code_mask_def unat_and_low)
    next
      case 5
      then have "unat b mod 2 = unat b - 0xfc" by (intro mod_in_block) simp_all
      then show thesis using 5 assms(4) u by (intro that[of "0xfc" 1])
          (simp_all add: utf8_first_code_mask_def unat_and_low)
    qed
  qed
  have "unat c < 2 ^ (6 * l + k)"
    using q(1) by (simp add: div_less_iff_less_mult power_add mult.commute)
  then have f: "utf8_form c l lead k" using t assms(3) by (simp add: utf8_form_def)
  have "b = ucast (drop_bit (6 * l) c OR lead)"
    using utf8_form_lead(1)[OF f] q(2) by (simp only: word_unat_eq_iff)
  with unicode_to_utf8_form[OF f] show ?thesis by simp
qed

theorem utf8_decode_canonical:
  assumes "unicode_from_utf8 m p max_len = Some (v, p')" and "v \<noteq> -1"
  shows "\<exists>c. c < 0x80000000 \<and> v = int (unat c) \<and> p' = p + length (unicode_to_utf8 c)
           \<and> take (length (unicode_to_utf8 c)) (drop p m) = unicode_to_utf8 c"
proof -
  let ?b = "m ! p"
  have p: "p < length m" using assms(1)
    by (auto simp: unicode_from_utf8_def Option.bind_eq_Some_conv)
  show ?thesis
  proof (cases "?b < 0x80")
    case True
    then have eq: "v = uint ?b" "p' = p + 1"
      using assms(1) p by (simp_all add: unicode_from_utf8_def mem_get_def)
    let ?c = "ucast ?b :: u32"
    have u: "unat ?c = unat ?b" using unat_u8_less[of ?b] by (simp add: word_nat)
    then have "?c < 0x80" using True by (simp add: word_less_nat_alt)
    moreover from this have "unicode_to_utf8 ?c = [?b]"
      using unat_u8_less[of ?b] by (simp add: unicode_to_utf8_def word_unat_eq_iff unat_ucast)
    moreover have "v = int (unat ?c)" using eq(1) u by (metis of_nat_unat)
    ultimately show ?thesis
      using p eq(2) by (intro exI[of _ ?c])
        (auto simp: take_Suc_conv_app_nth word_less_nat_alt Cons_nth_drop_Suc[symmetric])
  next
    case False
    then obtain l where l: "utf8_len ?b = Some l"
      using assms p by (cases "utf8_len ?b") (auto simp: unicode_from_utf8_def mem_get_def)
    let ?a = "ucast ?b AND utf8_first_code_mask ! (l - 1) :: u32"
    obtain c where loop: "utf8_loop m (p + 1) l ?a = Some (Some (c, p'))"
      and min: "\<not> c < utf8_min_code ! (l - 1)" and v: "v = sint c"
      using assms False p l
      by (auto simp: unicode_from_utf8_def mem_get_def Option.bind_eq_Some_conv
          split: if_splits option.splits)
    have l5: "l \<le> 5" "l \<noteq> 0" using l by (auto simp: utf8_len_iff)
    have "unat ?a < 2 ^ (6 - l) \<and> 6 - l \<le> 31 - 6 * l"
      using l by (auto simp: utf8_len_iff utf8_first_code_mask_def unat_and_low)
    then have a: "unat ?a < 2 ^ (31 - 6 * l)"
      using power_increasing[of "6 - l" "31 - 6 * l" "2 :: nat"] by linarith
    note inv = utf8_loop_inv[OF loop a l5(1)]
    from utf8_form_of_bytes[OF l inv(3) min inv(4)]
    have enc: "unicode_to_utf8 c = ?b # utf8_tails c l" .
    have "take (Suc l) (drop p m) = ?b # take l (drop (p + 1) m)"
      using p by (simp add: Cons_nth_drop_Suc[symmetric])
    then show ?thesis using inv v enc
      by (intro exI[of _ c]) (simp add: sint_u31 word_less_nat_alt)
  qed
qed

section \<open>Properties of the coder\<close>

text \<open>
  C28. Decoding the encoding of any code below \<open>2^31\<close>, at any position of any object and
  whatever follows it, gives the code back and advances by exactly the encoded length.
\<close>
theorem utf8_decode_encode:
  assumes "c < 0x80000000" and "int (length (unicode_to_utf8 c)) \<le> max_len"
  shows "unicode_from_utf8 (pre @ unicode_to_utf8 c @ post) (length pre) max_len =
           Some (int (unat c), length pre + length (unicode_to_utf8 c))"
  by (rule utf8_roundtrip[OF assms])

theorem utf8_decode_encode_witness:
  "unicode_from_utf8 [1, 0xe2, 0x82, 0xac, 0x80] 1 4 = Some (0x20ac, 4)"
  using utf8_decode_encode[where c = "0x20ac" and max_len = 4 and pre = "[1]" and post = "[0x80]"]
  by (simp add: unicode_to_utf8_def utf8_tail_def)

text \<open>
  C29. The decoder accepts nothing but what the encoder writes: a successful decode has read
  exactly the encoding of the code it returns, so overlong sequences, stray continuation bytes and
  truncated sequences are all refused.
\<close>
theorem utf8_decode_only_encodings:
  assumes "unicode_from_utf8 m p max_len = Some (v, p')" and "v \<noteq> -1"
  shows "\<exists>c. c < 0x80000000 \<and> v = int (unat c) \<and> p' = p + length (unicode_to_utf8 c)
           \<and> take (length (unicode_to_utf8 c)) (drop p m) = unicode_to_utf8 c"
  by (rule utf8_decode_canonical[OF assms])

theorem utf8_decode_only_encodings_witness:
  "\<exists>c. c < 0x80000000 \<and> 0xe9 = int (unat c) \<and> 2 = 0 + length (unicode_to_utf8 c)
     \<and> take (length (unicode_to_utf8 c)) (drop 0 [0xc3, 0xa9]) = unicode_to_utf8 c"
  by (rule utf8_decode_only_encodings[of "[0xc3, 0xa9]" 0 2 "0xe9" 2]) (code_simp, simp)

end
