(* ===== verification/Unicode_Lookup.thy ===== *)
theory Unicode_Lookup
  imports Unicode_Tables
begin

text \<open>
  Lookups in the compressed tables, \<open>quickjs/libunicode.c\<close>: the binary searches, the block
  index, case conversion, and the predicates built on them. Every table access is
  bounds-checked: \<open>None\<close> is a read outside the table. The results are related to the plain
  reading of the tables, as runs that are in turn out of and in the set.
\<close>

section \<open>Binary search in a table of runs\<close>

text \<open>
  An entry holds the first code of a run in its top \<open>k\<close> bits and the length of the run in the
  next seven. The same loop is written in \<open>lre_case_conv\<close> and \<open>lre_is_cased\<close> (\<open>k = 17\<close>) and in
  \<open>unicode_decomp_char\<close> (\<open>k = 18\<close>); \<open>Some None\<close> is the end of the loop without a hit.
\<close>

definition run_code :: "nat \<Rightarrow> u32 \<Rightarrow> u32" where
  "run_code k v = drop_bit (32 - k) v"

definition run_len :: "nat \<Rightarrow> u32 \<Rightarrow> u32" where
  "run_len k v = drop_bit (32 - k - 7) v AND 0x7f"

function run_search ::
  "nat \<Rightarrow> u32 list \<Rightarrow> u32 \<Rightarrow> int \<Rightarrow> int \<Rightarrow> (nat \<times> u32) option option" where
  "run_search k tab c idx_min idx_max =
     (if idx_min \<le> idx_max then
        let idx = (idx_max + idx_min) div 2 in
        case mem_get tab (nat idx) of
          None \<Rightarrow> None
        | Some v \<Rightarrow>
            (if c < run_code k v then run_search k tab c idx_min (idx - 1)
             else if c \<ge> run_code k v + run_len k v then run_search k tab c (idx + 1) idx_max
             else Some (Some (nat idx, v)))
      else Some None)"
  by pat_completeness auto
termination
  by (relation "measure (\<lambda>(k, tab, c, lo, hi). nat (hi - lo + 1))") auto

declare run_search.simps [simp del]

section \<open>Case conversion\<close>

abbreviation (input) RUN_TYPE_U :: u32 where "RUN_TYPE_U \<equiv> 0"
abbreviation (input) RUN_TYPE_L :: u32 where "RUN_TYPE_L \<equiv> 1"
abbreviation (input) RUN_TYPE_UF :: u32 where "RUN_TYPE_UF \<equiv> 2"
abbreviation (input) RUN_TYPE_LF :: u32 where "RUN_TYPE_LF \<equiv> 3"
abbreviation (input) RUN_TYPE_UL :: u32 where "RUN_TYPE_UL \<equiv> 4"
abbreviation (input) RUN_TYPE_LSU :: u32 where "RUN_TYPE_LSU \<equiv> 5"
abbreviation (input) RUN_TYPE_U2L_399_EXT2 :: u32 where "RUN_TYPE_U2L_399_EXT2 \<equiv> 6"
abbreviation (input) RUN_TYPE_UF_D20 :: u32 where "RUN_TYPE_UF_D20 \<equiv> 7"
abbreviation (input) RUN_TYPE_UF_D1_EXT :: u32 where "RUN_TYPE_UF_D1_EXT \<equiv> 8"
abbreviation (input) RUN_TYPE_U_EXT :: u32 where "RUN_TYPE_U_EXT \<equiv> 9"
abbreviation (input) RUN_TYPE_LF_EXT :: u32 where "RUN_TYPE_LF_EXT \<equiv> 10"
abbreviation (input) RUN_TYPE_U_EXT2 :: u32 where "RUN_TYPE_U_EXT2 \<equiv> 11"
abbreviation (input) RUN_TYPE_L_EXT2 :: u32 where "RUN_TYPE_L_EXT2 \<equiv> 12"
abbreviation (input) RUN_TYPE_U_EXT3 :: u32 where "RUN_TYPE_U_EXT3 \<equiv> 13"

definition case_type :: "u32 \<Rightarrow> u32" where
  "case_type v = drop_bit (32 - 17 - 7 - 4) v AND 0xf"

definition ext_get :: "u32 \<Rightarrow> u32 option" where
  "ext_get i = map_option (\<lambda>x. ucast (x :: u16)) (mem_get case_conv_ext (unat i))"

text \<open>
  The \<open>switch\<close> of \<open>lre_case_conv\<close>, for the entry \<open>v\<close> that covers \<open>c\<close>. The result lists the code
  points written to \<open>res\<close>; its length is the function's return value. A \<open>break\<close> that leaves \<open>c\<close>
  alone is \<open>[c]\<close>.
\<close>

definition case_conv_entry :: "u32 \<Rightarrow> u32 \<Rightarrow> u32 \<Rightarrow> u32 \<Rightarrow> u32 list option" where
  "case_conv_entry c conv_type v data =
     (let code = run_code 17 v; type = case_type v;
          is_lower = (if conv_type \<noteq> 0 then 1 else 0) :: u32 in
      if type = RUN_TYPE_U \<or> type = RUN_TYPE_L \<or> type = RUN_TYPE_UF \<or> type = RUN_TYPE_LF then
        (if conv_type = (type AND 1) \<or> (type \<ge> RUN_TYPE_UF \<and> conv_type = 2) then
           do { w \<leftarrow> mem_get case_conv_table1 (unat data); Some [c - code + drop_bit (32 - 17) w] }
         else Some [c])
      else if type = RUN_TYPE_UL then
        (let a = c - code in
         if (a AND 1) \<noteq> 1 - is_lower then Some [c] else Some [(a XOR 1) + code])
      else if type = RUN_TYPE_LSU then
        (let a = c - code in
         if a = 1 then Some [c + (2 * is_lower - 1)]
         else if a = (1 - is_lower) * 2 then Some [c + (2 * is_lower - 1) * 2]
         else Some [c])
      else if type = RUN_TYPE_U2L_399_EXT2 then
        (if is_lower = 0 then
           do { e \<leftarrow> ext_get (drop_bit 6 data); Some [c - code + e, 0x399] }
         else
           do { e \<leftarrow> ext_get (data AND 0x3f); Some [c - code + e] })
      else if type = RUN_TYPE_UF_D20 then
        (if conv_type = 1 then Some [c]
         else Some [data + (if conv_type = 2 then 1 else 0) * 0x20])
      else if type = RUN_TYPE_UF_D1_EXT then
        (if conv_type = 1 then Some [c]
         else do { e \<leftarrow> ext_get data; Some [e + (if conv_type = 2 then 1 else 0)] })
      else if type = RUN_TYPE_U_EXT \<or> type = RUN_TYPE_LF_EXT then
        (if is_lower \<noteq> type - RUN_TYPE_U_EXT then Some [c]
         else do { e \<leftarrow> ext_get data; Some [e] })
      else if type = RUN_TYPE_U_EXT2 \<or> type = RUN_TYPE_L_EXT2 then
        (if conv_type \<noteq> type - RUN_TYPE_U_EXT2 then Some [c]
         else do {
           e1 \<leftarrow> ext_get (drop_bit 6 data);
           e2 \<leftarrow> ext_get (data AND 0x3f);
           Some [c - code + e1, e2]
         })
      else
        (if conv_type \<noteq> 0 then Some [c]
         else do {
           e1 \<leftarrow> ext_get (drop_bit 8 data);
           e2 \<leftarrow> ext_get (drop_bit 4 data AND 0xf);
           e3 \<leftarrow> ext_get (data AND 0xf);
           Some [e1, e2, e3]
         }))"

definition lre_case_conv :: "u32 \<Rightarrow> u32 \<Rightarrow> u32 list option" where
  "lre_case_conv c conv_type =
     (if c < 128 then
        (if conv_type \<noteq> 0 then
           (if c \<ge> 65 \<and> c \<le> 90 then Some [c - 65 + 97] else Some [c])
         else
           (if c \<ge> 97 \<and> c \<le> 122 then Some [c - 97 + 65] else Some [c]))
      else
        do {
          hit \<leftarrow> run_search 17 case_conv_table1 c 0 (int (length case_conv_table1) - 1);
          case hit of
            None \<Rightarrow> Some [c]
          | Some (idx, v) \<Rightarrow>
              do {
                d \<leftarrow> mem_get case_conv_table2 idx;
                case_conv_entry c conv_type v (push_bit 8 (v AND 0xf) OR ucast (d :: u8))
              }
        })"

section \<open>The block index\<close>

definition get_le24 :: "u8 list \<Rightarrow> nat \<Rightarrow> u32 option" where
  "get_le24 t p =
     do {
       b0 \<leftarrow> mem_get t p;
       b1 \<leftarrow> mem_get t (p + 1);
       b2 \<leftarrow> mem_get t (p + 2);
       Some ((ucast b0 OR push_bit 8 (ucast b1)) OR push_bit 16 (ucast b2))
     }"

definition UNICODE_INDEX_BLOCK_LEN :: nat where
  "UNICODE_INDEX_BLOCK_LEN = 32"

abbreviation (input) INDEX_CODE_MASK :: u32 where "INDEX_CODE_MASK \<equiv> 0x1fffff"

function index_search :: "u32 \<Rightarrow> u8 list \<Rightarrow> nat \<Rightarrow> nat \<Rightarrow> nat option" where
  "index_search c index_table idx_min idx_max =
     (if idx_max - idx_min > 1 then
        let idx = (idx_max + idx_min) div 2 in
        case get_le24 index_table (idx * 3) of
          None \<Rightarrow> None
        | Some v \<Rightarrow>
            (if c < v AND INDEX_CODE_MASK then index_search c index_table idx_min idx
             else index_search c index_table idx idx_max)
      else Some idx_min)"
  by pat_completeness auto
termination
  by (relation "measure (\<lambda>(c, t, lo, hi). hi - lo)") auto

declare index_search.simps [simp del]

text \<open>\<open>Some None\<close> is the return value \<open>-1\<close>; otherwise the position and the code written to \<open>*pcode\<close>.\<close>

definition get_index_pos :: "u32 \<Rightarrow> u8 list \<Rightarrow> nat \<Rightarrow> (nat \<times> u32) option option" where
  "get_index_pos c index_table index_table_len =
     do {
       v \<leftarrow> get_le24 index_table 0;
       if c < v AND INDEX_CODE_MASK then Some (Some (0, 0))
       else do {
         code \<leftarrow> get_le24 index_table ((index_table_len - 1) * 3);
         if c \<ge> code then Some None
         else do {
           idx_min \<leftarrow> index_search c index_table 0 (index_table_len - 1);
           v \<leftarrow> get_le24 index_table (idx_min * 3);
           Some (Some ((idx_min + 1) * UNICODE_INDEX_BLOCK_LEN + unat (drop_bit 21 v),
                       v AND INDEX_CODE_MASK))
         }
       }
     }"

text \<open>
  A table of runs is a byte string. A byte below 64 holds two short runs; the other forms hold
  one run in one, two or three bytes. \<open>long_run\<close> is the chain of tests on a byte that is not
  below 64: the length of the run and the bytes after it.
\<close>

fun long_run :: "u8 \<Rightarrow> u8 list \<Rightarrow> (u32 \<times> u8 list) option" where
  "long_run b p =
     (if b \<ge> 0x80 then Some (ucast b - 0x80 + 1, p)
      else if b < 0x60 then
        (case p of
           p0 # p' \<Rightarrow> Some ((push_bit 8 (ucast b - 0x40) OR ucast p0) + 1, p')
         | _ \<Rightarrow> None)
      else
        (case p of
           p0 # p1 # p' \<Rightarrow>
             Some ((push_bit 16 (ucast b - 0x60) OR push_bit 8 (ucast p0) OR ucast p1) + 1, p')
         | _ \<Rightarrow> None))"

lemma long_run_length [termination_simp]: "long_run b p = Some (n, p') \<Longrightarrow> length p' \<le> length p"
  by (auto split: if_splits list.splits)

declare long_run.simps [simp del]

function in_table_loop :: "u32 \<Rightarrow> u32 \<Rightarrow> bool \<Rightarrow> u8 list \<Rightarrow> bool option" where
  "in_table_loop c code inb [] = None"
| "in_table_loop c code inb (b # p) =
     (if b < 64 then
        let code1 = code + (drop_bit 3 (ucast b) + 1);
            code2 = code1 + ((ucast b AND 7) + 1) in
        if c < code1 then Some inb
        else if c < code2 then Some (\<not> inb)
        else in_table_loop c code2 inb p
      else
        case long_run b p of
          None \<Rightarrow> None
        | Some (n, p') \<Rightarrow>
            if c < code + n then Some inb
            else in_table_loop c (code + n) (\<not> inb) p')"
  by pat_completeness auto
termination
  by (relation "measure (\<lambda>(c, code, inb, p). length p)") (auto dest: long_run_length)

definition lre_is_in_table :: "u32 \<Rightarrow> u8 list \<Rightarrow> u8 list \<Rightarrow> nat \<Rightarrow> bool option" where
  "lre_is_in_table c table index_table index_table_len =
     do {
       pos \<leftarrow> get_index_pos c index_table index_table_len;
       case pos of
         None \<Rightarrow> Some False
       | Some (pos, code) \<Rightarrow> in_table_loop c code False (drop pos table)
     }"

definition lre_is_cased :: "u32 \<Rightarrow> bool option" where
  "lre_is_cased c =
     do {
       hit \<leftarrow> run_search 17 case_conv_table1 c 0 (int (length case_conv_table1) - 1);
       case hit of
         Some _ \<Rightarrow> Some True
       | None \<Rightarrow> lre_is_in_table c unicode_prop_Cased1_table unicode_prop_Cased1_index
                   (length unicode_prop_Cased1_index div 3)
     }"

definition lre_is_case_ignorable :: "u32 \<Rightarrow> bool option" where
  "lre_is_case_ignorable c =
     lre_is_in_table c unicode_prop_Case_Ignorable_table unicode_prop_Case_Ignorable_index
       (length unicode_prop_Case_Ignorable_index div 3)"

definition lre_is_id_start :: "u32 \<Rightarrow> bool option" where
  "lre_is_id_start c =
     lre_is_in_table c unicode_prop_ID_Start_table unicode_prop_ID_Start_index
       (length unicode_prop_ID_Start_index div 3)"

definition lre_is_id_continue :: "u32 \<Rightarrow> bool option" where
  "lre_is_id_continue c =
     do {
       s \<leftarrow> lre_is_id_start c;
       if s then Some True
       else lre_is_in_table c unicode_prop_ID_Continue1_table unicode_prop_ID_Continue1_index
              (length unicode_prop_ID_Continue1_index div 3)
     }"

section \<open>The plain reading of a table of runs\<close>

function table_runs :: "u8 list \<Rightarrow> nat list option" where
  "table_runs [] = Some []"
| "table_runs (b # p) =
     (if b < 64 then
        map_option (\<lambda>rs. (unat b div 8 + 1) # (unat b mod 8 + 1) # rs) (table_runs p)
      else
        case long_run b p of
          None \<Rightarrow> None
        | Some (n, p') \<Rightarrow> map_option (\<lambda>rs. unat n # rs) (table_runs p'))"
  by pat_completeness auto
termination
  by (relation "measure length") (auto dest: long_run_length)

text \<open>\<open>runs_in rs b x\<close>: the run that covers offset \<open>x\<close> is in the set, the first run being in iff \<open>b\<close>.\<close>

fun runs_in :: "nat list \<Rightarrow> bool \<Rightarrow> nat \<Rightarrow> bool" where
  "runs_in [] b x = False"
| "runs_in (r # rs) b x = (if x < r then b else runs_in rs (\<not> b) (x - r))"

lemma runs_in_append:
  "runs_in (rs @ rs') b (sum_list rs + x) = runs_in rs' (if even (length rs) then b else \<not> b) x"
  by (induction rs arbitrary: b) auto

lemma runs_in_end: "sum_list rs \<le> x \<Longrightarrow> \<not> runs_in rs b x"
  by (induction rs b x rule: runs_in.induct) auto

lemma short_run_lens:
  assumes "b < (64 :: u8)"
  shows "unat (drop_bit 3 (ucast b) + 1 :: u32) = unat b div 8 + 1"
    and "unat ((ucast b AND 7) + 1 :: u32) = unat b mod 8 + 1"
proof -
  have b: "unat b < 64" using assms by (simp add: word_less_nat_alt)
  have "unat (drop_bit 3 (ucast b) :: u32) = unat b div 8" using b by (simp add: word_nat)
  then show "unat (drop_bit 3 (ucast b) + 1 :: u32) = unat b div 8 + 1"
    using b by (simp add: unat_word_ariths)
  have "unat (ucast b AND 7 :: u32) = unat b mod 8" using b by (simp add: word_nat)
  moreover have "unat b mod 8 < 8" by simp
  ultimately show "unat ((ucast b AND 7) + 1 :: u32) = unat b mod 8 + 1"
    by (simp add: unat_word_ariths)
qed

lemma unat_add_less:
  "unat a + unat b < 2 ^ LENGTH('a) \<Longrightarrow> unat ((a :: 'a::len word) + b) = unat a + unat b"
  by (simp add: unat_word_ariths)

lemma in_table_loop_spec:
  assumes "table_runs p = Some rs" and "unat code + sum_list rs < 2 ^ 32"
    and "unat code \<le> unat c" and "unat c < unat code + sum_list rs"
  shows "in_table_loop c code inb p = Some (runs_in rs inb (unat c - unat code))"
  using assms
proof (induction c code inb p arbitrary: rs rule: in_table_loop.induct)
  case (1 c code inb)
  then show ?case by simp
next
  case (2 c code inb b p)
  show ?case
  proof (cases "b < 64")
    case True
    define n1 :: u32 where "n1 = drop_bit 3 (ucast b) + 1"
    define n2 :: u32 where "n2 = (ucast b AND 7) + 1"
    from "2.prems"(1) True obtain rs' where rs: "table_runs p = Some rs'"
      "rs = unat n1 # unat n2 # rs'"
      using short_run_lens[OF True] by (auto simp: n1_def n2_def)
    have u1: "unat (code + n1) = unat code + unat n1"
      using "2.prems"(2) rs by (intro unat_add_less) simp
    have u2: "unat (code + n1 + n2) = unat code + unat n1 + unat n2"
      using "2.prems"(2) rs u1 by (subst unat_add_less) simp_all
    have step: "in_table_loop c code inb (b # p) =
        (if c < code + n1 then Some inb else if c < code + n1 + n2 then Some (\<not> inb)
         else in_table_loop c (code + n1 + n2) inb p)"
      using True by (simp add: n1_def n2_def Let_def)
    have rec: "in_table_loop c (code + n1 + n2) inb p =
        Some (runs_in rs' inb (unat c - unat (code + n1 + n2)))"
      if "\<not> c < code + n1" "\<not> c < code + n1 + n2"
      using "2.IH"(1)[OF True refl refl, folded n1_def n2_def, OF that rs(1)] that rs u2 "2.prems"
      by (simp add: word_less_nat_alt)
    consider (first) "c < code + n1" | (second) "\<not> c < code + n1" "c < code + n1 + n2"
      | (later) "\<not> c < code + n1" "\<not> c < code + n1 + n2" by blast
    then show ?thesis
    proof cases
      case first
      then have "unat c - unat code < unat n1" using "2.prems"(3) u1 by (simp add: word_less_nat_alt)
      with first step rs show ?thesis by simp
    next
      case second
      then have "\<not> unat c - unat code < unat n1" "unat c - unat code - unat n1 < unat n2"
        using "2.prems"(3) u1 u2 by (simp_all add: word_less_nat_alt)
      with second step rs show ?thesis by simp
    next
      case later
      then have "\<not> unat c - unat code < unat n1" "\<not> unat c - unat code - unat n1 < unat n2"
        using "2.prems"(3) u1 u2 by (simp_all add: word_less_nat_alt)
      moreover have "unat c - unat code - unat n1 - unat n2 = unat c - unat (code + n1 + n2)"
        using u2 by simp
      ultimately show ?thesis using later step rs rec by simp
    qed
  next
    case False
    with "2.prems"(1) obtain n p' rs' where l: "long_run b p = Some (n, p')"
      and rs: "table_runs p' = Some rs'" "rs = unat n # rs'"
      by (auto split: option.splits)
    have u1: "unat (code + n) = unat code + unat n"
      using "2.prems"(2) rs by (intro unat_add_less) simp
    have "in_table_loop c (code + n) (\<not> inb) p' = Some (runs_in rs' (\<not> inb) (unat c - unat (code + n)))"
      if "\<not> c < code + n"
      using "2.IH"(2)[OF False l refl that rs(1)] that rs u1 "2.prems" by (simp add: word_less_nat_alt)
    moreover have "unat c - unat code < unat n \<longleftrightarrow> c < code + n"
      using "2.prems"(3) u1 by (auto simp: word_less_nat_alt)
    moreover have "unat c - unat code - unat n = unat c - unat (code + n)" using u1 by simp
    ultimately show ?thesis using False l rs by simp
  qed
qed

lemma unat_or_less:
  fixes a b :: "'a::len word"
  assumes "unat a < 2 ^ k" and "unat b < 2 ^ k"
  shows "unat (a OR b) < 2 ^ k"
  using assms
  by (simp only: unsigned_or_eq flip: take_bit_nat_eq_self_iff) (simp only: take_bit_or)

lemma long_run_pos:
  assumes "\<not> b < 64" and "long_run b p = Some (n, p')"
  shows "0 < unat n"
proof -
  have b: "64 \<le> unat b" "unat b < 256" using assms(1) unat_u8_less by (auto simp: word_less_nat_alt)
  have sub: "unat (ucast b - k :: u32) = unat b - unat k" if "unat k \<le> unat b" for k
    using that b(2) by (simp add: unat_sub word_le_nat_alt unat_ucast)
  obtain x where x: "n = x + 1" "unat x < 2 ^ 31"
  proof (cases "b \<ge> 0x80")
    case True
    then have "unat (ucast b - 0x80 :: u32) < 2 ^ 31"
      using sub[of "0x80"] b by (simp add: word_le_nat_alt)
    moreover have "n = ucast b - 0x80 + 1" using assms(2) True by (auto simp: long_run.simps)
    ultimately show thesis using that by blast
  next
    case False
    have p8: "unat (push_bit 8 (ucast b - 0x40) :: u32) < 2 ^ 31"
      using sub[of "0x40"] b by (simp add: unat_push_bit)
    have p16: "unat (push_bit 16 (ucast b - 0x60) :: u32) < 2 ^ 31" if "\<not> b < 0x60"
      using sub[of "0x60"] b that by (simp add: unat_push_bit word_less_nat_alt)
    have q: "unat (ucast (y :: u8) :: u32) < 2 ^ 31" "unat (push_bit 8 (ucast y) :: u32) < 2 ^ 31" for y
      using unat_u8_less[of y] by (simp_all add: unat_ucast unat_push_bit)
    show thesis
      using assms(2) False that unat_or_less[OF p8 q(1)] unat_or_less[OF p16 unat_or_less[OF q(2,1)]]
      by (auto simp: long_run.simps or.assoc split: if_splits list.splits)
  qed
  then have "unat n = unat x + 1" by (simp add: unat_add_less)
  then show ?thesis by simp
qed

lemma table_runs_pos: "table_runs p = Some rs \<Longrightarrow> r \<in> set rs \<Longrightarrow> 0 < r"
proof (induction p arbitrary: rs rule: table_runs.induct)
  case (2 b p)
  show ?case
  proof (cases "b < 64")
    case True
    with 2 show ?thesis by auto
  next
    case False
    with "2.prems"(1) obtain n p' rs' where l: "long_run b p = Some (n, p')"
      "table_runs p' = Some rs'" "rs = unat n # rs'" by (auto split: option.splits)
    with "2.IH"(2)[OF False l(1) refl l(2)] "2.prems"(2) long_run_pos[OF False l(1)]
    show ?thesis by auto
  qed
qed simp

lemma table_runs_length: "table_runs p = Some rs \<Longrightarrow> length rs \<le> 2 * length p"
proof (induction p arbitrary: rs rule: table_runs.induct)
  case (2 b p)
  show ?case
  proof (cases "b < 64")
    case True
    with 2 show ?thesis by auto
  next
    case False
    with "2.prems"(1) obtain n p' rs' where l: "long_run b p = Some (n, p')"
      "table_runs p' = Some rs'" "rs = unat n # rs'" by (auto split: option.splits)
    with "2.IH"(2)[OF False l(1) refl l(2)] long_run_length[OF l(1)] show ?thesis by auto
  qed
qed simp
text \<open>Decoding a prefix that ends on a run boundary.\<close>

lemma table_runs_append:
  assumes "table_runs p = Some rs"
  shows "table_runs (p @ q) = map_option ((@) rs) (table_runs q)"
proof -
  have ext: "long_run b p = Some (n, p') \<Longrightarrow> long_run b (p @ q) = Some (n, p' @ q)" for b p n p'
    by (auto simp: long_run.simps split: if_splits list.splits)
  show ?thesis
    using assms
  proof (induction p arbitrary: rs rule: table_runs.induct)
    case 1
    then show ?case by (cases "table_runs q") simp_all
  next
    case (2 b p)
    show ?case
    proof (cases "b < 64")
      case True
      with "2.prems" "2.IH"(1) show ?thesis by (cases "table_runs q") auto
    next
      case False
      with "2.prems" obtain n p' where l: "long_run b p = Some (n, p')" by (auto split: option.splits)
      with False "2.prems" obtain rs' where "table_runs p' = Some rs'" "rs = unat n # rs'" by auto
      with "2.IH"(2)[OF False l refl this(1)] False ext[OF l] show ?thesis
        by (cases "table_runs q") simp_all
    qed
  qed
qed

section \<open>Indexed run tables\<close>

text \<open>
  The combining classes and the binary properties use the same block index over run tables of
  different formats. \<open>run_format\<close> is what the index relies on: how a byte string splits into runs,
  how many codes a list of runs covers, and which lists of runs may precede an indexed block.
  The index is right when every entry points at the start of such a block, with the code the
  block starts at, and the last entry is the end of the table's last run. The check decodes the
  table once, block by block.
\<close>

fun check_index ::
  "(u8 list \<Rightarrow> 'r list option) \<Rightarrow> ('r list \<Rightarrow> nat) \<Rightarrow> ('r list \<Rightarrow> bool) \<Rightarrow>
   u8 list \<Rightarrow> nat \<Rightarrow> nat \<Rightarrow> (nat \<times> nat) list \<Rightarrow> nat \<Rightarrow> bool" where
  "check_index runs width block t p c [] endc =
     (case runs (drop p t) of None \<Rightarrow> False | Some rs \<Rightarrow> c + width rs = endc)"
| "check_index runs width block t p c ((p', c') # es) endc =
     (p \<le> p' \<and> p' \<le> length t \<and>
      (case runs (take (p' - p) (drop p t)) of
         None \<Rightarrow> False
       | Some rs \<Rightarrow> block rs \<and> c + width rs = c') \<and>
      check_index runs width block t p' c' es endc)"

fun index_entry :: "u8 list \<Rightarrow> nat \<Rightarrow> nat \<times> nat" where
  "index_entry I i =
     (case get_le24 I (i * 3) of
        None \<Rightarrow> (0, 0)
      | Some v \<Rightarrow> ((i + 1) * UNICODE_INDEX_BLOCK_LEN + unat (drop_bit 21 v), unat (v AND INDEX_CODE_MASK)))"

definition index_right ::
  "(u8 list \<Rightarrow> 'r list option) \<Rightarrow> ('r list \<Rightarrow> nat) \<Rightarrow> ('r list \<Rightarrow> bool) \<Rightarrow> u8 list \<Rightarrow> u8 list \<Rightarrow> nat \<Rightarrow> bool"
where
  "index_right runs width block t I n \<longleftrightarrow>
     2 \<le> n \<and> 3 * n \<le> length I \<and>
     check_index runs width block t 0 0 (map (index_entry I) [0..<n - 1])
       (unat (the (get_le24 I ((n - 1) * 3))))"

lemma get_le24_total: "p + 3 \<le> length t \<Longrightarrow> \<exists>v. get_le24 t p = Some v"
  by (simp add: get_le24_def mem_get_def)

lemma index_search_spec:
  assumes "lo < hi" and "3 * hi \<le> length I" and "snd (index_entry I lo) \<le> unat c"
  shows "\<exists>i. index_search c I lo hi = Some i \<and> i < hi \<and> lo \<le> i \<and> snd (index_entry I i) \<le> unat c"
  using assms
proof (induction c I lo hi rule: index_search.induct)
  case (1 c I lo hi)
  show ?case
  proof (cases "hi - lo > 1")
    case False
    with "1.prems" show ?thesis by (subst index_search.simps) auto
  next
    case True
    define m where "m = (hi + lo) div 2"
    have m: "lo < m" "m < hi" using True by (auto simp: m_def)
    from get_le24_total[of "m * 3" I] m "1.prems"(2) obtain v where v: "get_le24 I (m * 3) = Some v"
      by auto
    have step: "index_search c I lo hi = (if c < v AND INDEX_CODE_MASK then index_search c I lo m
        else index_search c I m hi)"
      using True v by (subst index_search.simps) (simp add: Let_def m_def)
    show ?thesis
    proof (cases "c < v AND INDEX_CODE_MASK")
      case lt: True
      from "1.IH"(1)[OF True m_def v lt] m "1.prems" have
        "\<exists>i. index_search c I lo m = Some i \<and> i < m \<and> lo \<le> i \<and> snd (index_entry I i) \<le> unat c" by simp
      with lt m show ?thesis unfolding step by fastforce
    next
      case ge: False
      then have "snd (index_entry I m) \<le> unat c" using v by (simp add: word_less_nat_alt)
      with "1.IH"(2)[OF True m_def v ge] m "1.prems" have
        "\<exists>i. index_search c I m hi = Some i \<and> i < hi \<and> m \<le> i \<and> snd (index_entry I i) \<le> unat c" by simp
      with ge m show ?thesis unfolding step by fastforce
    qed
  qed
qed

text \<open>The three outcomes of the search in the index.\<close>

lemma get_index_pos_cases:
  assumes n: "2 \<le> n" "3 * n \<le> length I"
    and vl: "unat (the (get_le24 I ((n - 1) * 3))) = endc"
  obtains (before) "get_index_pos c I n = Some (Some (0, 0))" and "unat c < snd (index_entry I 0)"
    | (after) "get_index_pos c I n = Some None" and "endc \<le> unat c"
    | (block) i p code where "get_index_pos c I n = Some (Some (p, code))" and "i < n - 1"
        and "index_entry I i = (p, unat code)" and "unat code \<le> unat c" and "unat c < endc"
proof -
  have "0 + 3 \<le> length I" "(n - 1) * 3 + 3 \<le> length I" using n by (cases n; simp)+
  then obtain v0 vl' where v0: "get_le24 I 0 = Some v0" and vl': "get_le24 I ((n - 1) * 3) = Some vl'"
    using get_le24_total by blast
  have e0: "snd (index_entry I 0) = unat (v0 AND INDEX_CODE_MASK)" using v0 by simp
  consider "c < v0 AND INDEX_CODE_MASK" | "\<not> c < v0 AND INDEX_CODE_MASK" "c \<ge> vl'"
    | "\<not> c < v0 AND INDEX_CODE_MASK" "\<not> c \<ge> vl'" by blast
  then show thesis
  proof cases
    case 1
    then show thesis using before v0 e0 by (simp add: get_index_pos_def word_less_nat_alt)
  next
    case 2
    then show thesis using after v0 vl' vl by (simp add: get_index_pos_def word_le_nat_alt)
  next
    case 3
    have "3 * (n - 1) \<le> length I" "0 < n - 1" using n by (cases n; simp)+
    moreover have "snd (index_entry I 0) \<le> unat c" using 3 e0 by (simp add: word_less_nat_alt)
    ultimately obtain i where
      i: "index_search c I 0 (n - 1) = Some i" "i < n - 1" "snd (index_entry I i) \<le> unat c"
      using index_search_spec[of 0 "n - 1" I c] by blast
    have "i * 3 + 3 \<le> length I" using i(2) n by linarith
    then obtain v where v: "get_le24 I (i * 3) = Some v" using get_le24_total by blast
    show thesis
    proof (rule block[of "(i + 1) * UNICODE_INDEX_BLOCK_LEN + unat (drop_bit 21 v)"
          "v AND INDEX_CODE_MASK" i])
      show "get_index_pos c I n =
          Some (Some ((i + 1) * UNICODE_INDEX_BLOCK_LEN + unat (drop_bit 21 v), v AND INDEX_CODE_MASK))"
        using 3 v0 vl' i(1) v by (simp add: get_index_pos_def)
      show "unat (v AND INDEX_CODE_MASK) \<le> unat c" using i(3) v by simp
      show "unat c < endc" using 3 vl' vl by (simp add: word_le_nat_alt)
    qed (use i v in simp_all)
  qed
qed

locale run_format =
  fixes runs :: "u8 list \<Rightarrow> 'r list option"
    and width :: "'r list \<Rightarrow> nat"
    and block :: "'r list \<Rightarrow> bool"
  assumes runs_append: "runs p = Some rs \<Longrightarrow> runs (p @ q) = map_option ((@) rs) (runs q)"
    and width_append: "width (rs @ rs') = width rs + width rs'"
    and block_append: "block rs \<Longrightarrow> block rs' \<Longrightarrow> block (rs @ rs')"
begin

lemma check_index_spec:
  assumes "check_index runs width block t p c es endc" and "p \<le> length t"
  shows "\<exists>rs. runs (drop p t) = Some rs \<and> c + width rs = endc \<and>
    (\<forall>(p', c') \<in> set es. c \<le> c' \<and> c' \<le> endc \<and>
       (\<exists>rs1 rs2. rs = rs1 @ rs2 \<and> block rs1 \<and> c + width rs1 = c' \<and> runs (drop p' t) = Some rs2))"
  using assms
proof (induction es arbitrary: p c)
  case Nil
  then show ?case by (auto split: option.splits)
next
  case (Cons e es)
  obtain p' c' where e: "e = (p', c')" by (cases e)
  from Cons.prems e obtain rs1 where a: "p \<le> p'" "p' \<le> length t"
    "runs (take (p' - p) (drop p t)) = Some rs1" "block rs1" "c + width rs1 = c'"
    "check_index runs width block t p' c' es endc" by (auto split: option.splits)
  from Cons.IH[OF a(6,2)] obtain rs2 where b: "runs (drop p' t) = Some rs2" "c' + width rs2 = endc"
    and es: "\<forall>(q, d) \<in> set es. c' \<le> d \<and> d \<le> endc \<and> (\<exists>r1 r2. rs2 = r1 @ r2 \<and> block r1 \<and>
       c' + width r1 = d \<and> runs (drop q t) = Some r2)" by blast
  have "drop p t = take (p' - p) (drop p t) @ drop p' t"
    using a(1) by (metis append_take_drop_id drop_drop le_add_diff_inverse2)
  then have whole: "runs (drop p t) = Some (rs1 @ rs2)"
    using runs_append[OF a(3), of "drop p' t"] b(1) by simp
  have "c \<le> d \<and> d \<le> endc \<and> (\<exists>r1 r2. rs1 @ rs2 = r1 @ r2 \<and> block r1 \<and>
      c + width r1 = d \<and> runs (drop q t) = Some r2)"
    if "(q, d) \<in> set (e # es)" for q d
  proof (cases "(q, d) = (p', c')")
    case True
    with a b show ?thesis by (intro conjI exI[of _ rs1] exI[of _ rs2]) auto
  next
    case False
    with that es e obtain r1 r2 where "c' \<le> d" "d \<le> endc" "rs2 = r1 @ r2" "block r1"
      "c' + width r1 = d" "runs (drop q t) = Some r2" by fastforce
    with a show ?thesis
      by (intro conjI exI[of _ "rs1 @ r1"] exI[of _ r2]) (auto simp: width_append block_append)
  qed
  then show ?case using whole a(5) b(2)
    by (intro exI[of _ "rs1 @ rs2"]) (auto simp: width_append)
qed

text \<open>
  What a reader of a right index gets: nothing past the last run, or a suffix of the runs,
  starting at a block at or before the code, that covers the code.
\<close>

lemma index_right_runs:
  assumes "index_right runs width block t I n"
  obtains rs where "runs t = Some rs" and "width rs < 2 ^ 32"
proof -
  from assms have "check_index runs width block t 0 0 (map (index_entry I) [0..<n - 1])
      (unat (the (get_le24 I ((n - 1) * 3))))" by (simp add: index_right_def)
  from check_index_spec[OF this le0] obtain rs where "runs t = Some rs"
    "width rs = unat (the (get_le24 I ((n - 1) * 3)))" by auto
  with that show thesis using unat_u32_less by simp
qed

lemma index_right_pos:
  assumes ok: "index_right runs width block t I n" and rs: "runs t = Some rs"
  obtains (after) "get_index_pos c I n = Some None" and "width rs \<le> unat c"
    | (block) p code rs1 rs2 where "get_index_pos c I n = Some (Some (p, code))"
        and "rs = rs1 @ rs2" and "block rs1 \<or> rs1 = []" and "unat code = width rs1"
        and "unat code \<le> unat c" and "unat c < width rs" and "runs (drop p t) = Some rs2"
proof -
  let ?es = "map (index_entry I) [0..<n - 1]"
  let ?endc = "unat (the (get_le24 I ((n - 1) * 3)))"
  have chk: "check_index runs width block t 0 0 ?es ?endc" and n: "2 \<le> n" "3 * n \<le> length I"
    using ok by (simp_all add: index_right_def)
  from check_index_spec[OF chk le0] rs have endc: "width rs = ?endc"
    and es: "\<forall>(p', c') \<in> set ?es. c' \<le> ?endc \<and> (\<exists>rs1 rs2. rs = rs1 @ rs2 \<and> block rs1
        \<and> width rs1 = c' \<and> runs (drop p' t) = Some rs2)" by auto
  have mem: "index_entry I i \<in> set ?es" if "i < n - 1" for i
    unfolding set_map set_upt by (rule imageI) (use that in simp)
  have w0: "width [] = 0" using width_append[of "[]" "[]"] by simp
  from n refl show thesis
  proof (cases rule: get_index_pos_cases[where c = c])
    case before
    have "snd (index_entry I 0) \<le> ?endc" using es mem[of 0] n by (cases "index_entry I 0") fastforce
    then show thesis using block[of 0 0 "[]" rs] before rs w0 endc by simp
  next
    case after
    then show thesis using that(1) endc by simp
  next
    case (block i p code)
    with es mem[of i] obtain rs1 rs2 where "rs = rs1 @ rs2" "block rs1" "width rs1 = unat code"
      "runs (drop p t) = Some rs2" by fastforce
    then show thesis using that(2) block endc by simp
  qed
qed

end

section \<open>Tables of runs that alternate between out and in\<close>

definition index_ok :: "u8 list \<Rightarrow> u8 list \<Rightarrow> nat \<Rightarrow> bool" where
  "index_ok t I n \<longleftrightarrow> index_right table_runs sum_list (\<lambda>rs. even (length rs)) t I n"

definition table_set :: "u8 list \<Rightarrow> u32 set" where
  "table_set t = {c. runs_in (the (table_runs t)) False (unat c)}"

interpretation in_out: run_format table_runs sum_list "\<lambda>rs. even (length rs)"
  by unfold_locales (auto simp: table_runs_append)

text \<open>
  With a right index, the lookup through the index is the plain reading of the table.
\<close>

lemma lre_is_in_table_spec:
  assumes ok: "index_ok t I n"
  shows "lre_is_in_table c t I n = Some (c \<in> table_set t)"
proof -
  note right = ok[unfolded index_ok_def]
  obtain rs where rs: "table_runs t = Some rs" "sum_list rs < 2 ^ 32"
    by (rule in_out.index_right_runs[OF right])
  have mem: "c \<in> table_set t \<longleftrightarrow> runs_in rs False (unat c)" by (simp add: table_set_def rs)
  from right rs(1) show ?thesis
  proof (cases rule: in_out.index_right_pos[where c = c])
    case after
    then show ?thesis using mem runs_in_end by (simp add: lre_is_in_table_def)
  next
    case (block p code rs1 rs2)
    have even: "even (length rs1)" using block(3) by auto
    have "in_table_loop c code False (drop p t) = Some (runs_in rs2 False (unat c - sum_list rs1))"
      using in_table_loop_spec[OF block(7), of code c False] block rs(2) by simp
    moreover have "runs_in rs False (unat c) = runs_in rs2 False (unat c - sum_list rs1)"
      using runs_in_append[of rs1 rs2 False "unat c - sum_list rs1"] block even by simp
    ultimately show ?thesis using mem block(1) by (simp add: lre_is_in_table_def)
  qed
qed

section \<open>The indices of the library's tables are right\<close>

lemmas index_eval = index_ok_def index_right_def UNICODE_INDEX_BLOCK_LEN_def get_le24_def mem_get_def
  long_run.simps upt_conv_Cons

lemma index_length:
  "length unicode_prop_Cased1_index div 3 = 6"
  "length unicode_prop_Case_Ignorable_index div 3 = 22"
  "length unicode_prop_ID_Start_index div 3 = 33"
  "length unicode_prop_ID_Continue1_index div 3 = 20"
  by (simp_all add: unicode_prop_Cased1_index_def unicode_prop_Case_Ignorable_index_def
      unicode_prop_ID_Start_index_def unicode_prop_ID_Continue1_index_def)

lemma index_ok_Cased1: "index_ok unicode_prop_Cased1_table unicode_prop_Cased1_index 6"
  by (simp add: index_eval unicode_prop_Cased1_table_def unicode_prop_Cased1_index_def)

lemma index_ok_Case_Ignorable:
  "index_ok unicode_prop_Case_Ignorable_table unicode_prop_Case_Ignorable_index 22"
  by (simp add: index_eval unicode_prop_Case_Ignorable_table_parts unicode_prop_Case_Ignorable_index_def)

lemma index_ok_ID_Start:
  "index_ok unicode_prop_ID_Start_table unicode_prop_ID_Start_index 33"
  by (simp add: index_eval unicode_prop_ID_Start_table_parts unicode_prop_ID_Start_index_def)

lemma index_ok_ID_Continue1:
  "index_ok unicode_prop_ID_Continue1_table unicode_prop_ID_Continue1_index 20"
  by (simp add: index_eval unicode_prop_ID_Continue1_table_parts unicode_prop_ID_Continue1_index_def)
end
