(* ===== verification/Unicode_Norm.thy ===== *)
theory Unicode_Norm
  imports Unicode_Lookup Unicode_Decomp_Tables Cutils_DynBuf Cutils_Bytes "HOL-Library.Multiset"
begin

text \<open>
  Normalization, \<open>quickjs/libunicode.c\<close>: the decompositions packed in the tables, combining
  classes, the canonical ordering of combining marks, recursive decomposition into a dynamic
  buffer, composition, and \<open>unicode_normalize\<close>, which combines them.
\<close>

section \<open>Decompositions\<close>

abbreviation (input) DECOMP_TYPE_C1 :: u32 where "DECOMP_TYPE_C1 \<equiv> 0"
abbreviation (input) DECOMP_TYPE_L1 :: u32 where "DECOMP_TYPE_L1 \<equiv> 1"
abbreviation (input) DECOMP_TYPE_L7 :: u32 where "DECOMP_TYPE_L7 \<equiv> 7"
abbreviation (input) DECOMP_TYPE_LL1 :: u32 where "DECOMP_TYPE_LL1 \<equiv> 8"
abbreviation (input) DECOMP_TYPE_LL2 :: u32 where "DECOMP_TYPE_LL2 \<equiv> 9"
abbreviation (input) DECOMP_TYPE_S1 :: u32 where "DECOMP_TYPE_S1 \<equiv> 10"
abbreviation (input) DECOMP_TYPE_S5 :: u32 where "DECOMP_TYPE_S5 \<equiv> 14"
abbreviation (input) DECOMP_TYPE_I1 :: u32 where "DECOMP_TYPE_I1 \<equiv> 15"
abbreviation (input) DECOMP_TYPE_I2_0 :: u32 where "DECOMP_TYPE_I2_0 \<equiv> 16"
abbreviation (input) DECOMP_TYPE_I4_2 :: u32 where "DECOMP_TYPE_I4_2 \<equiv> 21"
abbreviation (input) DECOMP_TYPE_B1 :: u32 where "DECOMP_TYPE_B1 \<equiv> 22"
abbreviation (input) DECOMP_TYPE_B8 :: u32 where "DECOMP_TYPE_B8 \<equiv> 29"
abbreviation (input) DECOMP_TYPE_B18 :: u32 where "DECOMP_TYPE_B18 \<equiv> 30"
abbreviation (input) DECOMP_TYPE_LS2 :: u32 where "DECOMP_TYPE_LS2 \<equiv> 31"
abbreviation (input) DECOMP_TYPE_PAT3 :: u32 where "DECOMP_TYPE_PAT3 \<equiv> 32"
abbreviation (input) DECOMP_TYPE_S2_UL :: u32 where "DECOMP_TYPE_S2_UL \<equiv> 33"
abbreviation (input) DECOMP_TYPE_LS2_UL :: u32 where "DECOMP_TYPE_LS2_UL \<equiv> 34"

definition unicode_short_table :: "u16 list" where
  "unicode_short_table = [0x2044, 0x2215]"

definition unicode_get_short_code :: "u32 \<Rightarrow> u32 option" where
  "unicode_get_short_code c =
     (if c < 0x80 then Some c
      else if c < 0x80 + 0x50 then Some (c - 0x80 + 0x300)
      else map_option ucast (mem_get unicode_short_table (unat (c - 0x80 - 0x50))))"

definition unicode_get_lower_simple :: "u32 \<Rightarrow> u32" where
  "unicode_get_lower_simple c =
     (if c < 0x100 \<or> (c \<ge> 0x410 \<and> c \<le> 0x42f) then c + 0x20 else c + 1)"

definition unicode_get16 :: "u8 list \<Rightarrow> nat \<Rightarrow> u32 option" where
  "unicode_get16 t p =
     do {
       b0 \<leftarrow> mem_get t p;
       b1 \<leftarrow> mem_get t (p + 1);
       Some (ucast b0 OR push_bit 8 (ucast b1))
     }"

text \<open>
  The loops that fill \<open>res\<close>: \<open>fill_res\<close> stops with length 0 at the first code that is 0,
  \<open>read_all\<close> reads all its codes. The list of the codes stands for \<open>res\<close> and the return value.
\<close>

fun fill_res :: "(nat \<Rightarrow> u32 option) \<Rightarrow> u32 list \<Rightarrow> nat \<Rightarrow> u32 list option" where
  "fill_res f acc 0 = Some acc"
| "fill_res f acc (Suc n) =
     do {
       v \<leftarrow> f (length acc);
       if v = 0 then Some [] else fill_res f (acc @ [v]) n
     }"

definition read_all :: "(nat \<Rightarrow> u32 option) \<Rightarrow> nat \<Rightarrow> u32 list option" where
  "read_all f l = those (map f [0..<l])"

definition unicode_decomp_entry ::
  "u32 \<Rightarrow> nat \<Rightarrow> u32 \<Rightarrow> u32 \<Rightarrow> u32 \<Rightarrow> u32 list option" where
  "unicode_decomp_entry c idx code len type =
     do {
       t2 \<leftarrow> mem_get unicode_decomp_table2 idx;
       let d = unat t2;
       let k = c - code;
       let t = unicode_decomp_data;
       if type = DECOMP_TYPE_C1 then Some [ucast t2]
       else if type \<ge> DECOMP_TYPE_L1 \<and> type \<le> DECOMP_TYPE_L7 then
         (let l = type - DECOMP_TYPE_L1 + 1; d = d + unat (k * l * 2) in
          fill_res (\<lambda>i. unicode_get16 t (d + 2 * i)) [] (unat l))
       else if type \<ge> DECOMP_TYPE_LL1 \<and> type \<le> DECOMP_TYPE_LL2 then
         (let l = type - DECOMP_TYPE_LL1 + 1; p = unat (len * l * 2) in
          fill_res (\<lambda>i.
            let k = unat (k * l) + i in
            do {
              lo \<leftarrow> unicode_get16 t (d + 2 * k);
              hi \<leftarrow> mem_get t (d + p + k div 4);
              Some (lo OR push_bit 16 (drop_bit (k mod 4 * 2) (ucast hi) AND 3))
            }) [] (unat l))
       else if type \<ge> DECOMP_TYPE_S1 \<and> type \<le> DECOMP_TYPE_S5 then
         (let l = type - DECOMP_TYPE_S1 + 1; d = d + unat (k * l) in
          fill_res (\<lambda>i. do { b \<leftarrow> mem_get t (d + i); unicode_get_short_code (ucast b) }) [] (unat l))
       else if type \<ge> DECOMP_TYPE_I1 \<and> type \<le> DECOMP_TYPE_I4_2 then
         (let l = (if type = DECOMP_TYPE_I1 then 1 else 2 + unat (drop_bit 1 (type - DECOMP_TYPE_I2_0)));
              p = (if type = DECOMP_TYPE_I1 then 0
                   else unat ((type - DECOMP_TYPE_I2_0) AND 1) + (if l > 2 then 1 else 0)) in
          read_all (\<lambda>i. do {
            c1 \<leftarrow> unicode_get16 t (d + 2 * i);
            Some (if i = p then c1 + (c - code) else c1)
          }) l)
       else if type \<ge> DECOMP_TYPE_B1 \<and> type \<le> DECOMP_TYPE_B18 then
         (let l = (if type = DECOMP_TYPE_B18 then 18 else type - DECOMP_TYPE_B1 + 1) in
          do {
            c_min \<leftarrow> unicode_get16 t d;
            let d = d + unat (2 + k * l);
            read_all (\<lambda>i. do {
              c1 \<leftarrow> mem_get t (d + i);
              Some (if c1 = 0xff then 0x20 else ucast c1 + c_min)
            }) (unat l)
          })
       else if type = DECOMP_TYPE_LS2 then
         (let d = d + unat (k * 3) in
          do {
            r0 \<leftarrow> unicode_get16 t d;
            if r0 = 0 then Some []
            else do { b \<leftarrow> mem_get t (d + 2); r1 \<leftarrow> unicode_get_short_code (ucast b); Some [r0, r1] }
          })
       else if type = DECOMP_TYPE_PAT3 then
         do {
           r0 \<leftarrow> unicode_get16 t d;
           r2 \<leftarrow> unicode_get16 t (d + 2);
           r1 \<leftarrow> unicode_get16 t (d + unat (4 + k * 2));
           Some [r0, r1, r2]
         }
       else if type = DECOMP_TYPE_S2_UL \<or> type = DECOMP_TYPE_LS2_UL then
         do {
           (c0, d) \<leftarrow>
             (if type = DECOMP_TYPE_S2_UL then
                let d = d + unat (k AND NOT 1) in
                do { b \<leftarrow> mem_get t d; c0 \<leftarrow> unicode_get_short_code (ucast b); Some (c0, d + 1) }
              else
                let d = d + unat (drop_bit 1 k * 3) in
                do { c0 \<leftarrow> unicode_get16 t d; Some (c0, d + 2) });
           b \<leftarrow> mem_get t d;
           r1 \<leftarrow> unicode_get_short_code (ucast b);
           Some [if k AND 1 \<noteq> 0 then unicode_get_lower_simple c0 else c0, r1]
         }
       else Some []
     }"

definition unicode_decomp_char :: "u32 \<Rightarrow> bool \<Rightarrow> u32 list option" where
  "unicode_decomp_char c is_compat1 =
     do {
       hit \<leftarrow> run_search 18 unicode_decomp_table1 c 0 (int (length unicode_decomp_table1) - 1);
       case hit of
         None \<Rightarrow> Some []
       | Some (idx, v) \<Rightarrow>
           if \<not> is_compat1 \<and> v AND 1 \<noteq> 0 then Some []
           else unicode_decomp_entry c idx (run_code 18 v) (run_len 18 v)
                  (drop_bit (32 - 18 - 7 - 6) v AND 0x3f)
     }"

section \<open>Composition\<close>

text \<open>
  The decomposition that an entry \<open>idx1\<close> of the composition table refers to, with its code. An
  entry whose decomposition is not a pair would overflow \<open>pair\<close> or leave a part of it from
  the previous round: it is \<open>None\<close> here and the table has none.
\<close>

definition comp_entry :: "u16 \<Rightarrow> (u32 \<times> u32 \<times> u32) option" where
  "comp_entry idx1 =
     (let d_idx = unat (drop_bit 6 idx1); d_offset = ucast (idx1 AND 0x3f) in
      do {
        v \<leftarrow> mem_get unicode_decomp_table1 d_idx;
        let ch = run_code 18 v + d_offset;
        pair \<leftarrow> unicode_decomp_entry ch d_idx (run_code 18 v) (run_len 18 v)
                 (drop_bit (32 - 18 - 7 - 6) v AND 0x3f);
        case pair of [p0, p1] \<Rightarrow> Some (ch, p0, p1) | _ \<Rightarrow> None
      })"

function comp_search :: "u32 \<Rightarrow> u32 \<Rightarrow> int \<Rightarrow> int \<Rightarrow> u32 option" where
  "comp_search c0 c1 idx_min idx_max =
     (if idx_min \<le> idx_max then
        let idx = (idx_max + idx_min) div 2 in
        case Option.bind (mem_get unicode_comp_table (nat idx)) comp_entry of
          None \<Rightarrow> None
        | Some (ch, p0, p1) \<Rightarrow>
            let d = (if c0 - p0 = 0 then sint (c1 - p1) else sint (c0 - p0)) in
            if d < 0 then comp_search c0 c1 idx_min (idx - 1)
            else if d > 0 then comp_search c0 c1 (idx + 1) idx_max
            else Some ch
      else Some 0)"
  by pat_completeness auto
termination
  by (relation "measure (\<lambda>(c0, c1, lo, hi). nat (hi - lo + 1))") auto

declare comp_search.simps [simp del]

definition unicode_compose_pair :: "u32 \<Rightarrow> u32 \<Rightarrow> u32 option" where
  "unicode_compose_pair c0 c1 = comp_search c0 c1 0 (int (length unicode_comp_table) - 1)"

definition compose_pair :: "u32 \<Rightarrow> u32 \<Rightarrow> u32 option" where
  "compose_pair c0 c1 =
     (if c0 \<ge> 0x1100 \<and> c0 < 0x1100 + 19 \<and> c1 \<ge> 0x1161 \<and> c1 < 0x1161 + 21 then
        Some (0xac00 + (c0 - 0x1100) * 588 + (c1 - 0x1161) * 28)
      else if c0 \<ge> 0xac00 \<and> c0 < 0xac00 + 11172 \<and> (c0 - 0xac00) mod 28 = 0 \<and>
              c1 \<ge> 0x11a7 \<and> c1 < 0x11a7 + 28 then
        Some (c0 + c1 - 0x11a7)
      else unicode_compose_pair c0 c1)"

section \<open>Combining classes\<close>

text \<open>
  One run of the table: its type, its length, the byte \<open>p[-1]\<close> (read for the types 0 and 1
  only) and the bytes after it.
\<close>

definition cc_entry :: "u8 \<Rightarrow> u8 list \<Rightarrow> (u32 \<times> u32 \<times> u32 \<times> u8 list) option" where
  "cc_entry b p =
     (let type = drop_bit 6 (ucast b) :: u32; n = ucast b AND 0x3f :: u32 in
      do {
        (n, p) \<leftarrow>
          (if n < 48 then Some (n, p)
           else if n < 56 then
             (case p of p0 # p \<Rightarrow> Some ((push_bit 8 (n - 48) OR ucast p0) + 48, p) | _ \<Rightarrow> None)
           else
             (case p of
                p0 # p1 # p \<Rightarrow>
                  Some ((push_bit 8 (n - 56) OR push_bit 8 (ucast p0) OR ucast p1) + (48 + 0x800), p)
              | _ \<Rightarrow> None));
        if type \<le> 1 then (case p of v # p \<Rightarrow> Some (type, n + 1, ucast v, p) | _ \<Rightarrow> None)
        else Some (type, n + 1, 0, p)
      })"

text \<open>The class of the code at offset \<open>x\<close> of a run.\<close>

definition cc_value :: "u32 \<Rightarrow> u32 \<Rightarrow> u32 \<Rightarrow> u32" where
  "cc_value type v x =
     (if type = 0 then v else if type = 1 then v + x else if type = 2 then 0 else 230)"

lemma cc_entry_length: "cc_entry b p = Some (type, n, v, p') \<Longrightarrow> length p' \<le> length p"
  by (auto simp: cc_entry_def Let_def Option.bind_eq_Some_conv split: if_splits list.splits)

function cc_loop :: "u32 \<Rightarrow> u32 \<Rightarrow> u8 list \<Rightarrow> u32 option" where
  "cc_loop c code [] = None"
| "cc_loop c code (b # p) =
     (case cc_entry b p of
        None \<Rightarrow> None
      | Some (type, n, v, p') \<Rightarrow>
          if c < code + n then Some (cc_value type v (c - code))
          else cc_loop c (code + n) p')"
  by pat_completeness auto
termination
  by (relation "measure (\<lambda>(c, code, p). length p)") (auto dest: cc_entry_length)

definition unicode_get_cc :: "u32 \<Rightarrow> int option" where
  "unicode_get_cc c =
     do {
       pos \<leftarrow> get_index_pos c unicode_cc_index (length unicode_cc_index div 3);
       case pos of
         None \<Rightarrow> Some 0
       | Some (pos, code) \<Rightarrow> map_option sint (cc_loop c code (drop pos unicode_cc_table))
     }"

section \<open>Canonical ordering\<close>

text \<open>
  The three loops of \<open>sort_cc\<close>. \<open>sort_cc_shift\<close> is the innermost one, with \<open>m\<close> for \<open>k + 1\<close>: it
  moves the marks of a class above \<open>cc1\<close> up by one and returns the hole.
\<close>

fun sort_cc_shift :: "u32 list \<Rightarrow> nat \<Rightarrow> nat \<Rightarrow> int \<Rightarrow> (u32 list \<times> nat) option" where
  "sort_cc_shift ws 0 start cc1 = Some (ws, 0)"
| "sort_cc_shift ws (Suc k) start cc1 =
     (if k \<ge> start then
        do {
          x \<leftarrow> mem_get ws k;
          cc \<leftarrow> unicode_get_cc x;
          if cc \<le> cc1 then Some (ws, Suc k)
          else do { ws \<leftarrow> mem_set ws (k + 1) x; sort_cc_shift ws k start cc1 }
        }
      else Some (ws, Suc k))"

function sort_cc_run :: "u32 list \<Rightarrow> nat \<Rightarrow> nat \<Rightarrow> nat \<Rightarrow> (u32 list \<times> nat) option" where
  "sort_cc_run ws len start j =
     (if j < len then
        do {
          ch1 \<leftarrow> mem_get ws j;
          cc1 \<leftarrow> unicode_get_cc ch1;
          if cc1 = 0 then Some (ws, j)
          else do {
            (ws, m) \<leftarrow> sort_cc_shift ws j start cc1;
            ws \<leftarrow> mem_set ws m ch1;
            sort_cc_run ws len start (j + 1)
          }
        }
      else Some (ws, j))"
  by pat_completeness auto
termination
  by (relation "measure (\<lambda>(ws, len, start, j). len - j)") auto

declare sort_cc_run.simps [simp del]

lemma sort_cc_run_le: "sort_cc_run ws len start j = Some (ws', j') \<Longrightarrow> j \<le> j'"
proof (induction ws len start j rule: sort_cc_run.induct)
  case (1 ws len start j)
  from "1.prems" show ?case
    by (subst (asm) sort_cc_run.simps)
       (auto simp: Option.bind_eq_Some_conv split: if_splits dest!: "1.IH")
qed

function sort_cc_loop :: "u32 list \<Rightarrow> nat \<Rightarrow> nat \<Rightarrow> u32 list option" where
  "sort_cc_loop ws len i =
     (if i < len then
        case Option.bind (mem_get ws i) unicode_get_cc of
          None \<Rightarrow> None
        | Some cc \<Rightarrow>
            if cc \<noteq> 0 then
              (case sort_cc_run ws len i (i + 1) of
                 None \<Rightarrow> None
               | Some (ws, j) \<Rightarrow> sort_cc_loop ws len (j + 1))
            else sort_cc_loop ws len (i + 1)
      else Some ws)"
  by pat_completeness auto
termination
  by (relation "measure (\<lambda>(ws, len, i). len - i)") (auto dest!: sort_cc_run_le)

declare sort_cc_loop.simps [simp del]

definition sort_cc :: "u32 list \<Rightarrow> nat \<Rightarrow> u32 list option" where
  "sort_cc ws len = sort_cc_loop ws len 0"

section \<open>Decomposition of a text\<close>

text \<open>
  The emissions of one Hangul syllable: consonant, vowel and, if there is one, the final.
\<close>

definition hangul_decomp :: "u32 \<Rightarrow> u32 list" where
  "hangul_decomp c =
     (let c = c - 0xac00; v = c mod 28 in
      [0x1100 + c div 588, 0x1161 + (c mod 588) div 28] @ (if v \<noteq> 0 then [0x11a7 + v] else []))"

text \<open>
  The return codes of \<open>dbuf_put_u32\<close> are ignored. The recursion is over the decomposition of each
  code; \<open>None\<close> is an access out of bounds or a recursion that never ends.
\<close>

fun put_codes :: "dynbuf \<Rightarrow> u32 list \<Rightarrow> dynbuf option" where
  "put_codes db [] = Some db"
| "put_codes db (c # cs) = do { (r, db) \<leftarrow> dbuf_put_u32 db c; put_codes db cs }"

partial_function (option) to_nfd_rec :: "dynbuf \<Rightarrow> u32 list \<Rightarrow> bool \<Rightarrow> dynbuf option" where
  "to_nfd_rec db src is_compat =
     (case src of
        [] \<Rightarrow> Some db
      | c # cs \<Rightarrow>
          do {
            db \<leftarrow>
              (if c \<ge> 0xac00 \<and> c < 0xd7a4 then put_codes db (hangul_decomp c)
               else do {
                 res \<leftarrow> unicode_decomp_char c is_compat;
                 if res \<noteq> [] then to_nfd_rec db res is_compat
                 else put_codes db [c]
               });
            to_nfd_rec db cs is_compat
          })"

section \<open>\<open>unicode_normalize\<close>\<close>

datatype unicode_normalization = UNICODE_NFC | UNICODE_NFD | UNICODE_NFKC | UNICODE_NFKD

fun nf_is_compat :: "unicode_normalization \<Rightarrow> bool" where
  "nf_is_compat UNICODE_NFC = False"
| "nf_is_compat UNICODE_NFD = False"
| "nf_is_compat UNICODE_NFKC = True"
| "nf_is_compat UNICODE_NFKD = True"

fun nf_is_decomp :: "unicode_normalization \<Rightarrow> bool" where
  "nf_is_decomp UNICODE_NFC = False"
| "nf_is_decomp UNICODE_NFD = True"
| "nf_is_decomp UNICODE_NFKC = False"
| "nf_is_decomp UNICODE_NFKD = True"

text \<open>
  The search for the starter of the code at \<open>i\<close>: \<open>Some None\<close> is the jump to \<open>next\<close> (blocked) or
  no starter, \<open>Some (Some p)\<close> the position of the starter. \<open>m\<close> is \<open>starter_pos + 1\<close>.
\<close>

fun find_starter :: "u32 list \<Rightarrow> nat \<Rightarrow> int \<Rightarrow> nat option option" where
  "find_starter ws 0 last_cc = Some None"
| "find_starter ws (Suc k) last_cc =
     do {
       x \<leftarrow> mem_get ws k;
       cc \<leftarrow> unicode_get_cc x;
       if cc = 0 then Some (Some k)
       else if cc \<ge> last_cc then Some None
       else find_starter ws k 256
     }"

function compose_loop :: "u32 list \<Rightarrow> nat \<Rightarrow> nat \<Rightarrow> nat \<Rightarrow> (u32 list \<times> nat) option" where
  "compose_loop ws buf_len i out_len =
     (if i < buf_len then
        do {
          x \<leftarrow> mem_get ws i;
          last_cc \<leftarrow> unicode_get_cc x;
          starter \<leftarrow> find_starter ws out_len last_cc;
          p \<leftarrow> (case starter of
                 None \<Rightarrow> Some None
               | Some s \<Rightarrow> do {
                   y \<leftarrow> mem_get ws s;
                   p \<leftarrow> compose_pair y x;
                   Some (if p \<noteq> 0 then Some (s, p) else None)
                 });
          case p of
            Some (s, p) \<Rightarrow> do { ws \<leftarrow> mem_set ws s p; compose_loop ws buf_len (i + 1) out_len }
          | None \<Rightarrow> do { ws \<leftarrow> mem_set ws out_len x; compose_loop ws buf_len (i + 1) (out_len + 1) }
        }
      else Some (ws, out_len))"
  by pat_completeness auto
termination
  by (relation "measure (\<lambda>(ws, buf_len, i, out_len). buf_len - i)") auto

declare compose_loop.simps [simp del]

text \<open>
  \<open>(int *)dbuf->buf\<close>: the bytes of a buffer read as words.
\<close>

fun words_of :: "u8 list \<Rightarrow> u32 list" where
  "words_of (b0 # b1 # b2 # b3 # bs) = of_nat (le_value [b0, b1, b2, b3]) # words_of bs"
| "words_of _ = []"

text \<open>
  The result is the return value and the words at \<open>*pdst\<close> (none when it is \<open>NULL\<close>).
\<close>

definition unicode_normalize ::
  "u32 list \<Rightarrow> unicode_normalization \<Rightarrow> u8 heap \<Rightarrow> (int \<times> u32 list) option" where
  "unicode_normalize src n_type h =
     do {
       (r, db) \<leftarrow> dbuf_realloc (dbuf_init2 h) (szt (4 * length src));
       if r \<noteq> 0 then Some (-1, [])
       else if n_type = UNICODE_NFC \<and> (\<forall>c \<in> set src. c < 0x100) then
         do {
           b \<leftarrow> mem_write (buf db) 0 (concat (map (\<lambda>c. le_bytes 4 (unat c)) src));
           Some (int (length src), take (length src) (words_of b))
         }
       else do {
         db \<leftarrow> to_nfd_rec db src (nf_is_compat n_type);
         if dbuf_error db then Some (-1, [])
         else do {
           let buf_len = dsize db div 4;
           ws \<leftarrow> sort_cc (words_of (take (dsize db) (buf db))) buf_len;
           if buf_len \<le> 1 \<or> nf_is_decomp n_type then Some (int buf_len, ws)
           else do {
             (ws, out_len) \<leftarrow> compose_loop ws buf_len 1 1;
             Some (int out_len, take out_len ws)
           }
         }
       }
     }"

section \<open>The combining class of a code\<close>

text \<open>
  The plain reading of the class table. A run whose classes would pass 255 makes the reading
  fail, so a table that can be read has classes of one byte only.
\<close>

function cc_runs :: "u8 list \<Rightarrow> (u32 \<times> nat \<times> u32) list option" where
  "cc_runs [] = Some []"
| "cc_runs (b # p) =
     (case cc_entry b p of
        None \<Rightarrow> None
      | Some (type, n, v, p') \<Rightarrow>
          if type = 1 \<and> unat v + unat n > 256 then None
          else map_option ((#) (type, unat n, v)) (cc_runs p'))"
  by pat_completeness auto
termination
  by (relation "measure length") (auto dest: cc_entry_length)

definition cc_width :: "(u32 \<times> nat \<times> u32) list \<Rightarrow> nat" where
  "cc_width rs = sum_list (map (\<lambda>(type, n, v). n) rs)"

fun cc_at :: "(u32 \<times> nat \<times> u32) list \<Rightarrow> nat \<Rightarrow> nat" where
  "cc_at [] x = 0"
| "cc_at ((type, n, v) # rs) x =
     (if x < n then unat (cc_value type v (of_nat x)) else cc_at rs (x - n))"

definition cc_of :: "u32 \<Rightarrow> nat" where
  "cc_of c = cc_at (the (cc_runs unicode_cc_table)) (unat c)"

lemma cc_width_simps [simp]:
  "cc_width [] = 0" "cc_width ((type, n, v) # rs) = n + cc_width rs"
  "cc_width (rs @ rs') = cc_width rs + cc_width rs'"
  by (simp_all add: cc_width_def)

lemma cc_at_append: "cc_at (rs @ rs') (cc_width rs + x) = cc_at rs' x"
  by (induction rs) auto

lemma cc_at_end: "cc_width rs \<le> x \<Longrightarrow> cc_at rs x = 0"
  by (induction rs arbitrary: x) auto

lemma cc_runs_append:
  assumes "cc_runs p = Some rs"
  shows "cc_runs (p @ q) = map_option ((@) rs) (cc_runs q)"
proof -
  have ext: "cc_entry b p = Some (type, n, v, p') \<Longrightarrow> cc_entry b (p @ q) = Some (type, n, v, p' @ q)"
    for b p type n v p'
    by (auto simp: cc_entry_def Let_def Option.bind_eq_Some_conv split: if_splits list.splits)
  show ?thesis
    using assms
  proof (induction p arbitrary: rs rule: cc_runs.induct)
    case 1
    then show ?case by (cases "cc_runs q") simp_all
  next
    case (2 b p)
    from "2.prems" obtain type n v p' rs' where e: "cc_entry b p = Some (type, n, v, p')"
      "\<not> (type = 1 \<and> unat v + unat n > 256)" "cc_runs p' = Some rs'" "rs = (type, unat n, v) # rs'"
      by (auto split: option.splits if_splits)
    from "2.IH"[OF e(1) refl refl refl e(2,3)] e ext[OF e(1)] show ?case
      by (cases "cc_runs q") auto
  qed
qed

interpretation cc: run_format cc_runs cc_width "\<lambda>_. True"
  by unfold_locales (simp_all add: cc_runs_append)

lemma cc_entry_byte:
  assumes "cc_entry b p = Some (type, n, v, p')"
  shows "unat v < 256"
proof -
  have "unat (ucast (y :: u8) :: u32) < 256" for y using unat_u8_less[of y] by (simp add: word_nat)
  with assms show ?thesis
    by (auto simp: cc_entry_def Let_def Option.bind_eq_Some_conv split: if_splits list.splits)
qed

lemma cc_at_byte:
  assumes "cc_runs p = Some rs"
  shows "cc_at rs x < 256"
  using assms
proof (induction p arbitrary: rs x rule: cc_runs.induct)
  case (2 b p)
  from "2.prems" obtain type n v p' rs' where e: "cc_entry b p = Some (type, n, v, p')"
    "\<not> (type = 1 \<and> unat v + unat n > 256)" "cc_runs p' = Some rs'" "rs = (type, unat n, v) # rs'"
    by (auto split: option.splits if_splits)
  have v: "unat v < 256" by (rule cc_entry_byte[OF e(1)])
  have "unat (cc_value type v (of_nat x)) < 256" if x: "x < unat n"
  proof (cases "type = 1")
    case True
    with e(2) x have small: "unat v + x < 256" by simp
    then have "unat (v + of_nat x) = unat v + x"
      by (subst unat_add_less) (simp_all add: unat_of_nat)
    with small True show ?thesis by (simp add: cc_value_def)
  qed (use v in \<open>simp add: cc_value_def\<close>)
  with "2.IH"[OF e(1) refl refl refl e(2,3)] e(4) show ?case by simp
qed simp

lemma cc_loop_spec:
  assumes "cc_runs p = Some rs" and "unat code + cc_width rs < 2 ^ 32"
    and "unat code \<le> unat c" and "unat c < unat code + cc_width rs"
  shows "\<exists>w. cc_loop c code p = Some w \<and> unat w = cc_at rs (unat c - unat code)"
  using assms
proof (induction c code p arbitrary: rs rule: cc_loop.induct)
  case (1 c code)
  then show ?case by simp
next
  case (2 c code b p)
  from "2.prems"(1) obtain type n v p' rs' where e: "cc_entry b p = Some (type, n, v, p')"
    "cc_runs p' = Some rs'" "rs = (type, unat n, v) # rs'"
    by (auto split: option.splits if_splits)
  have add: "unat (code + n) = unat code + unat n"
    using "2.prems"(2) e(3) by (intro unat_add_less) simp
  show ?case
  proof (cases "c < code + n")
    case True
    have "of_nat (unat c - unat code) = c - code"
      using "2.prems"(3) by (simp add: word_le_nat_alt of_nat_diff)
    moreover have "unat c - unat code < unat n"
      using True add "2.prems"(3) by (simp add: word_less_nat_alt)
    ultimately show ?thesis using True e by simp
  next
    case False
    then have le: "unat code + unat n \<le> unat c" using add by (simp add: word_less_nat_alt)
    then have "\<not> unat c - unat code < unat n" by linarith
    with "2.IH"[OF e(1) refl refl refl False e(2)] "2.prems" False e add le show ?thesis by simp
  qed
qed

lemma cc_index_right:
  "index_right cc_runs cc_width (\<lambda>_. True) unicode_cc_table unicode_cc_index (length unicode_cc_index div 3)"
proof -
  have "length unicode_cc_index div 3 = 27" by (simp add: unicode_cc_index_def)
  moreover have "x \<le> 1 \<longleftrightarrow> x < 2" for x :: u32 by (auto simp: word_le_nat_alt word_less_nat_alt)
  ultimately show ?thesis
    by (simp add: index_eval cc_entry_def unicode_cc_table_parts unicode_cc_index_def)
qed

text \<open>The search through the index is total and is the plain reading of the table.\<close>

lemma unicode_get_cc_spec: "unicode_get_cc c = Some (int (cc_of c))" and cc_of_byte: "cc_of c < 256"
proof -
  obtain rs where rs: "cc_runs unicode_cc_table = Some rs" "cc_width rs < 2 ^ 32"
    by (rule cc.index_right_runs[OF cc_index_right])
  have cc: "cc_of c = cc_at rs (unat c)" by (simp add: cc_of_def rs)
  show byte: "cc_of c < 256" using cc_at_byte[OF rs(1)] by (simp add: cc)
  from cc_index_right rs(1) show "unicode_get_cc c = Some (int (cc_of c))"
  proof (cases rule: cc.index_right_pos[where c = c])
    case after
    then show ?thesis by (simp add: unicode_get_cc_def cc cc_at_end)
  next
    case (block p code rs1 rs2)
    have "cc_at rs (unat c) = cc_at rs2 (unat c - unat code)"
      using cc_at_append[of rs1 rs2 "unat c - cc_width rs1"] block by simp
    moreover obtain w where w: "cc_loop c code (drop p unicode_cc_table) = Some w"
      "unat w = cc_at rs2 (unat c - unat code)"
      using cc_loop_spec[OF block(7), of code c] block rs(2) by auto
    ultimately have "unat w = cc_of c" using cc by simp
    moreover from this have "sint w = int (unat w)" using byte by (intro sint_u31) simp
    ultimately show ?thesis using block(1) w(1) by (simp add: unicode_get_cc_def)
  qed
qed

section \<open>Canonical ordering is a stable sort of each run of marks\<close>

text \<open>
  The reference: every maximal run of codes with a class other than 0 is sorted by class with a
  stable sort, and the other codes stay where they are.
\<close>

function canonical_order :: "u32 list \<Rightarrow> u32 list" where
  "canonical_order [] = []"
| "canonical_order (c # cs) =
     (if cc_of c = 0 then c # canonical_order cs
      else sort_key cc_of (c # takeWhile (\<lambda>d. cc_of d \<noteq> 0) cs)
             @ canonical_order (dropWhile (\<lambda>d. cc_of d \<noteq> 0) cs))"
  by pat_completeness auto
termination
  by (relation "measure length") (auto simp: le_imp_less_Suc length_dropWhile_le)

text \<open>Inserting after the codes of the same class is what a stable sort does with its last element.\<close>

lemma sorted_key_last:
  "sorted (map f xs) \<Longrightarrow> x \<in> set xs \<Longrightarrow> (f x :: 'b::linorder) \<le> f (last xs)"
  by (induction xs) auto

lemma sort_key_snoc:
  fixes f :: "'a \<Rightarrow> nat"
  assumes ys: "sort_key f xs = A @ B" and A: "A \<noteq> [] \<Longrightarrow> f (last A) \<le> f x" and B: "\<forall>b \<in> set B. f x < f b"
  shows "sort_key f (xs @ [x]) = A @ x # B"
proof (rule properties_for_sort_key)
  have "mset (A @ B) = mset xs" using ys by (metis mset_sort)
  then show "mset (A @ x # B) = mset (xs @ [x])" by simp
  show "filter (\<lambda>y. f k = f y) (A @ x # B) = filter (\<lambda>y. f k = f y) (xs @ [x])" for k
  proof -
    have "filter (\<lambda>y. f k = f y) (A @ B) = filter (\<lambda>y. f k = f y) xs"
      unfolding ys[symmetric] using sort_key_stable[of f "f k" xs] by (simp add: eq_commute)
    moreover have "filter (\<lambda>y. f k = f y) B = []" if "f k = f x" using B that by (auto simp: filter_empty_conv)
    ultimately show ?thesis by auto
  qed
  have srt: "sorted (map f (A @ B))" unfolding ys[symmetric] by simp
  have "f a \<le> f x" if "a \<in> set A" for a
  proof -
    have "sorted (map f A)" using srt by (simp add: sorted_append)
    then have "f a \<le> f (last A)" using that by (rule sorted_key_last)
    with A that show ?thesis by force
  qed
  with srt B show "sorted (map f (A @ x # B))"
    by (auto simp: sorted_append intro: order.strict_implies_order less_imp_le)
qed

lemma sort_cc_shift_spec:
  assumes "length P = start"
  shows "\<exists>A B h. ys = A @ B \<and> (A \<noteq> [] \<longrightarrow> int (cc_of (last A)) \<le> cc1) \<and>
    (\<forall>b \<in> set B. cc1 < int (cc_of b)) \<and>
    sort_cc_shift (P @ ys @ [x] @ Q) (start + length ys) start cc1 =
      Some (P @ A @ h # B @ Q, start + length A)"
proof (induction ys arbitrary: x Q rule: rev_induct)
  case Nil
  then show ?case using assms by (intro exI[of _ "[]"] exI[of _ x]) (cases start; simp)
next
  case (snoc y ys)
  have y: "mem_get (P @ (ys @ [y]) @ [x] @ Q) (start + length ys) = Some y"
    using assms by (simp add: mem_get_def nth_append)
  have n: "start + length (ys @ [y]) = Suc (start + length ys)" by simp
  show ?case
  proof (cases "int (cc_of y) \<le> cc1")
    case True
    then show ?thesis unfolding n
      by (intro exI[of _ "ys @ [y]"] exI[of _ "[]"] exI[of _ x])
         (use y in \<open>simp add: unicode_get_cc_spec del: mem_get_Some\<close>)
  next
    case False
    have set: "mem_set (P @ (ys @ [y]) @ [x] @ Q) (start + length ys + 1) y =
        Some (P @ ys @ [y] @ y # Q)"
      using assms by (simp add: mem_set_def list_update_append)
    from snoc[of y "y # Q"] obtain A B h where IH: "ys = A @ B"
      "A \<noteq> [] \<longrightarrow> int (cc_of (last A)) \<le> cc1" "\<forall>b \<in> set B. cc1 < int (cc_of b)"
      "sort_cc_shift (P @ ys @ [y] @ y # Q) (start + length ys) start cc1 =
         Some (P @ A @ h # B @ y # Q, start + length A)" by blast
    show ?thesis unfolding n
      by (intro exI[of _ A] exI[of _ "B @ [y]"] exI[of _ h])
         (use IH False y set in \<open>simp add: unicode_get_cc_spec del: mem_get_Some mem_set_Some\<close>)
  qed
qed

lemma sort_cc_run_spec:
  assumes "length P = start" and "j = start + length xs" and "len = j + length rest"
  shows "sort_cc_run (P @ sort_key cc_of xs @ rest @ Q) len start j =
    (let run = takeWhile (\<lambda>c. cc_of c \<noteq> 0) rest in
     Some (P @ sort_key cc_of (xs @ run) @ dropWhile (\<lambda>c. cc_of c \<noteq> 0) rest @ Q, j + length run))"
  using assms
proof (induction rest arbitrary: xs j)
  case Nil
  then show ?case by (subst sort_cc_run.simps) simp
next
  case (Cons c rest)
  let ?ws = "P @ sort_key cc_of xs @ (c # rest) @ Q"
  have c: "mem_get ?ws j = Some c" using Cons.prems by (simp add: mem_get_def nth_append)
  show ?case
  proof (cases "cc_of c = 0")
    case True
    with c Cons.prems show ?thesis by (subst sort_cc_run.simps) (simp add: unicode_get_cc_spec del: mem_get_Some)
  next
    case False
    have ws: "P @ sort_key cc_of xs @ [c] @ rest @ Q = ?ws" and
      j: "start + length (sort_key cc_of xs) = j" using Cons.prems(2) by simp_all
    from sort_cc_shift_spec[OF Cons.prems(1), of "sort_key cc_of xs" "int (cc_of c)" c "rest @ Q",
        unfolded of_nat_le_iff of_nat_less_iff ws j]
    obtain A B h where s: "sort_key cc_of xs = A @ B" "A \<noteq> [] \<longrightarrow> cc_of (last A) \<le> cc_of c"
      "\<forall>b \<in> set B. cc_of c < cc_of b"
      "sort_cc_shift ?ws j start (int (cc_of c)) = Some (P @ A @ h # B @ rest @ Q, start + length A)"
      by blast
    have set: "mem_set (P @ A @ h # B @ rest @ Q) (start + length A) c =
        Some (P @ sort_key cc_of (xs @ [c]) @ rest @ Q)"
      using Cons.prems(1) sort_key_snoc[OF s(1)] s(2,3)
      by (simp add: mem_set_def list_update_append)
    from Cons.IH[of "j + 1" "xs @ [c]"] Cons.prems have
      "sort_cc_run (P @ sort_key cc_of (xs @ [c]) @ rest @ Q) len start (j + 1) =
        (let run = takeWhile (\<lambda>c. cc_of c \<noteq> 0) rest in
         Some (P @ sort_key cc_of ((xs @ [c]) @ run) @ dropWhile (\<lambda>c. cc_of c \<noteq> 0) rest @ Q,
               j + 1 + length run))" by simp
    with False c s(4) set Cons.prems show ?thesis
      by (subst sort_cc_run.simps) (simp add: unicode_get_cc_spec Let_def del: mem_get_Some mem_set_Some)
  qed
qed

lemma sort_cc_loop_spec:
  "sort_cc_loop (P @ xs @ Q) (length P + length xs) (length P) = Some (P @ canonical_order xs @ Q)"
proof (induction "length xs" arbitrary: P xs rule: less_induct)
  case less
  show ?case
  proof (cases xs)
    case Nil
    then show ?thesis by (subst sort_cc_loop.simps) simp
  next
    case (Cons c cs)
    let ?w = "P @ xs @ Q"
    let ?run = "takeWhile (\<lambda>d. cc_of d \<noteq> 0) cs" and ?rest = "dropWhile (\<lambda>d. cc_of d \<noteq> 0) cs"
    have c: "mem_get ?w (length P) = Some c" using Cons by (simp add: mem_get_def nth_append)
    show ?thesis
    proof (cases "cc_of c = 0")
      case True
      from less[of cs "P @ [c]"] Cons True c show ?thesis
        by (subst sort_cc_loop.simps) (simp add: unicode_get_cc_spec del: mem_get_Some)
    next
      case False
      let ?s = "sort_key cc_of (c # ?run)"
      have run: "sort_cc_run ?w (length P + length xs) (length P) (length P + 1) =
          Some (P @ ?s @ ?rest @ Q, length P + 1 + length ?run)"
        using sort_cc_run_spec[OF refl, of "length P + 1" P "[c]" "length P + length xs" cs Q] Cons
        by (simp add: Let_def)
      have len: "length cs = length ?run + length ?rest"
        by (metis length_append takeWhile_dropWhile_id)
      have "sort_cc_loop ?w (length P + length xs) (length P) =
          sort_cc_loop (P @ ?s @ ?rest @ Q) (length P + length xs) (length P + 1 + length ?run + 1)"
        using Cons False c run by (subst sort_cc_loop.simps) (simp add: unicode_get_cc_spec del: mem_get_Some)
      also have "\<dots> = Some (P @ ?s @ canonical_order ?rest @ Q)"
      proof (cases ?rest)
        case Nil
        then have "length ?rest = 0" by (rule ssubst) simp
        moreover have "length xs = 1 + length cs" using Cons by simp
        ultimately have "\<not> length P + 1 + length ?run + 1 < length P + length xs"
          using len by linarith
        then show ?thesis by (subst sort_cc_loop.simps) (simp only: Nil canonical_order.simps if_False)
      next
        case d: (Cons d ds)
        have "cc_of d = 0" using d hd_dropWhile[of "\<lambda>d. cc_of d \<noteq> 0" cs] by simp
        with less[of ds "P @ ?s @ [d]"] Cons len d show ?thesis by (simp add: add.assoc)
      qed
      finally show ?thesis using Cons False by simp
    qed
  qed
qed

lemma sort_cc_spec: "sort_cc ws (length ws) = Some (canonical_order ws)"
  using sort_cc_loop_spec[of "[]" ws "[]"] by (simp add: sort_cc_def)

lemma mset_canonical_order: "mset (canonical_order ws) = mset ws"
proof (induction ws rule: canonical_order.induct)
  case (2 c cs)
  have "mset cs = mset (takeWhile (\<lambda>d. cc_of d \<noteq> 0) cs) + mset (dropWhile (\<lambda>d. cc_of d \<noteq> 0) cs)"
    by (metis mset_append takeWhile_dropWhile_id)
  with 2 show ?case by (auto simp del: sort_key_simps)
qed simp

lemma length_canonical_order [simp]: "length (canonical_order ws) = length ws"
  by (metis mset_canonical_order size_mset)

section \<open>Hangul\<close>

text \<open>The arithmetic of syllables: consonant \<open>l\<close>, vowel \<open>v\<close>, final \<open>t\<close> (0 for none).\<close>

lemma hangul_decomp_nat:
  assumes c: "unat c = 0xac00 + (l * 588 + v * 28 + t)" and l: "l < 19" and v: "v < 21" and t: "t < 28"
  shows "hangul_decomp c =
    [0x1100 + of_nat l, 0x1161 + of_nat v] @ (if t \<noteq> 0 then [0x11a7 + of_nat t] else [])"
proof -
  define x where "x = l * 588 + v * 28 + t"
  have x: "x < 11172" using l v t by (simp add: x_def)
  have d: "x div 588 = l" "x mod 588 div 28 = v" "x mod 28 = t"
  proof -
    have y: "(v * 28 + t) div 588 = 0" "(v * 28 + t) mod 588 = v * 28 + t" using v t by simp_all
    have xl: "x = (v * 28 + t) + l * 588" by (simp add: x_def)
    have m: "x div 588 = l" "x mod 588 = v * 28 + t"
      unfolding xl by (simp_all add: y)
    show "x div 588 = l" by (rule m)
    show "x mod 588 div 28 = v" using t m by simp
    have "x = t + (l * 21 + v) * 28" by (simp add: x_def algebra_simps)
    then show "x mod 28 = t" using t by (metis mod_mult_self1 mod_less)
  qed
  have w: "c - 0xac00 = of_nat x"
  proof -
    have "c = of_nat (unat c)" by simp
    also have "\<dots> = 0xac00 + of_nat x" using c by (simp add: x_def)
    finally show ?thesis by simp
  qed
  have small: "x < 2 ^ 32" using x by simp
  have dv: "(of_nat x :: u32) div 588 = of_nat (x div 588)"
    "(of_nat x :: u32) mod 588 div 28 = of_nat (x mod 588 div 28)"
    "(of_nat x :: u32) mod 28 = of_nat (x mod 28)"
    using small by (simp_all add: word_unat_eq_iff unat_div_distrib unat_mod_distrib unat_of_nat)
  have z: "(of_nat t :: u32) = 0 \<longleftrightarrow> t = 0"
    using t by (simp add: word_unat_eq_iff unat_of_nat)
  show ?thesis unfolding hangul_decomp_def w Let_def dv d z by simp
qed

lemma hangul_compose:
  assumes l: "l < 19" and v: "v < 21" and t: "t < 28"
  defines "lv \<equiv> 0xac00 + (of_nat l * 588 + of_nat v * 28) :: u32"
  shows "compose_pair (0x1100 + of_nat l) (0x1161 + of_nat v) = Some lv"
    and "compose_pair lv (0x11a7 + of_nat t) = Some (lv + of_nat t)"
proof -
  have ul: "unat (0x1100 + of_nat l :: u32) = 0x1100 + l"
    and uv: "unat (0x1161 + of_nat v :: u32) = 0x1161 + v"
    and ut: "unat (0x11a7 + of_nat t :: u32) = 0x11a7 + t"
    using l v t by (simp_all add: unat_word_ariths unat_of_nat)
  have ulv: "unat lv = 0xac00 + (l * 588 + v * 28)" using l v
    by (simp add: lv_def unat_word_ariths unat_of_nat)
  have "unat (lv - 0xac00) = l * 588 + v * 28"
    using ulv by (simp add: unat_sub word_le_nat_alt)
  then have m: "(lv - 0xac00) mod 28 = 0" by (simp add: word_unat_eq_iff unat_mod_distrib)
  show "compose_pair (0x1100 + of_nat l) (0x1161 + of_nat v) = Some lv"
    using l v by (simp add: compose_pair_def word_le_nat_alt word_less_nat_alt ul uv lv_def)
  show "compose_pair lv (0x11a7 + of_nat t) = Some (lv + of_nat t)"
    using l v t m by (simp add: compose_pair_def word_le_nat_alt word_less_nat_alt ulv ut)
qed

lemma hangul_parts:
  fixes c :: u32
  assumes "c \<ge> 0xac00" and "c < 0xd7a4"
  obtains l v t where "unat c = 0xac00 + (l * 588 + v * 28 + t)" and "l < 19" and "v < 21" and "t < 28"
proof -
  define x where "x = unat c - 0xac00"
  have c: "unat c = 0xac00 + x" and x: "x < 11172"
    using assms by (simp_all add: x_def word_le_nat_alt word_less_nat_alt)
  have "x = x div 588 * 588 + x mod 588 div 28 * 28 + x mod 28"
  proof -
    have "x mod 28 = x mod 588 mod 28" by (simp add: mod_mod_cancel)
    then have "x mod 588 = x mod 588 div 28 * 28 + x mod 28" by (metis div_mult_mod_eq)
    then show ?thesis by (metis add.assoc div_mult_mod_eq)
  qed
  moreover have "x mod 588 div 28 < 21" by (simp add: div_less_iff_less_mult)
  moreover have "x div 588 < 19" using x by (simp add: div_less_iff_less_mult)
  ultimately show thesis using that[of "x div 588" "x mod 588 div 28" "x mod 28"] c by simp
qed

text \<open>Composing what the decomposition of a syllable emits gives the syllable back.\<close>

lemma hangul_roundtrip:
  assumes "c \<ge> 0xac00" and "c < 0xd7a4"
  shows "(\<exists>x y. hangul_decomp c = [x, y] \<and> compose_pair x y = Some c) \<or>
    (\<exists>x y z w. hangul_decomp c = [x, y, z] \<and> compose_pair x y = Some w \<and> compose_pair w z = Some c)"
proof -
  from hangul_parts[OF assms] obtain l v t where
    c: "unat c = 0xac00 + (l * 588 + v * 28 + t)" and lim: "l < 19" "v < 21" "t < 28" .
  have "c = of_nat (unat c)" by simp
  also have "\<dots> = 0xac00 + (of_nat l * 588 + of_nat v * 28) + of_nat t" unfolding c by simp
  finally show ?thesis
    using hangul_decomp_nat[OF c lim] hangul_compose[OF lim] by (cases "t = 0") auto
qed

section \<open>Latin-1 texts are their own composed form\<close>

lemma words_of_append:
  "words_of (concat (map (\<lambda>c. le_bytes 4 (unat c)) cs) @ bs) = cs @ words_of bs"
proof (induction cs)
  case (Cons c cs)
  have "length (le_bytes 4 (unat c)) = Suc (Suc (Suc (Suc 0)))" by simp
  then obtain b0 b1 b2 b3 where b: "le_bytes 4 (unat c) = [b0, b1, b2, b3]"
    unfolding length_Suc_conv length_0_conv by blast
  have "le_value [b0, b1, b2, b3] = unat c"
    using le_value_le_bytes[of 4 "unat c"] unat_u32_less[of c] unfolding b by simp
  then have "of_nat (le_value [b0, b1, b2, b3]) = (of_nat (unat c) :: u32)" by (rule arg_cong)
  with Cons b show ?case by (simp del: le_value.simps)
qed simp

lemma length_words_bytes: "length (concat (map (\<lambda>c. le_bytes 4 (unat c)) cs)) = 4 * length cs"
  by (induction cs) auto

lemma normalize_latin1:
  assumes "\<forall>c \<in> set src. c < 0x100" and len: "4 * length src \<le> PTRDIFF_MAX"
  obtains (ok) "unicode_normalize src UNICODE_NFC h = Some (int (length src), src)"
    | (fail) "unicode_normalize src UNICODE_NFC h = Some (-1, [])"
        and "4 * length src > DBUF_LIMIT \<or> \<not> heap_ok h"
proof -
  let ?n = "4 * length src" and ?b = "concat (map (\<lambda>c. le_bytes 4 (unat c)) src)"
  have n: "szt ?n = ?n" using len by (simp add: PTRDIFF_MAX_def)
  obtain r s where r: "dbuf_realloc (dbuf_init2 h) ?n = Some (r, s)" and wf: "dbuf_wf s"
    and fits: "r = 0 \<Longrightarrow> ?n \<le> allocated_size s"
    and fine: "dbuf_healthy (dbuf_init2 h) \<Longrightarrow> ?n \<le> DBUF_LIMIT \<Longrightarrow> r = 0"
    by (rule dbuf_realloc_spec[OF dbuf_wf_init2, of h ?n]) blast
  show thesis
  proof (cases "r = 0")
    case False
    then have "unicode_normalize src UNICODE_NFC h = Some (-1, [])"
      using r n by (simp add: unicode_normalize_def)
    moreover have "?n > DBUF_LIMIT \<or> \<not> heap_ok h"
      using fine False dbuf_healthy_init2 not_less by blast
    ultimately show thesis by (rule fail)
  next
    case True
    have "?n \<le> length (buf s)" using fits[OF True] wf by (simp add: dbuf_wf_def)
    then have w: "mem_write (buf s) 0 ?b = Some (?b @ drop ?n (buf s))"
      by (simp add: mem_write_def length_words_bytes)
    have "unicode_normalize src UNICODE_NFC h = Some (int (length src), src)"
      using r n True assms(1) w by (simp add: unicode_normalize_def words_of_append del: mem_write_Some)
    then show thesis by (rule ok)
  qed
qed

section \<open>Properties of normalization\<close>

text \<open>
  C7. \<open>sort_cc\<close> is the canonical ordering algorithm: it terminates on every text, stays inside
  its array, only permutes, keeps every starter (class 0) in place and sorts each run of combining
  marks between starters by class with a stable sort.
\<close>
theorem sort_cc_canonical_ordering:
  "sort_cc ws (length ws) = Some (canonical_order ws) \<and> mset (canonical_order ws) = mset ws"
  by (simp add: sort_cc_spec mset_canonical_order)

text \<open>
  C9. \<open>unicode_get_cc\<close> is total, its indexed search is equal to reading the class table from the
  start, and classes are at most 255.
\<close>
theorem get_cc_reads_table:
  "unicode_get_cc c = Some (int (cc_at (the (cc_runs unicode_cc_table)) (unat c))) \<and> cc_of c \<le> 255"
  using unicode_get_cc_spec[of c] cc_of_byte[of c] by (simp add: cc_of_def)

text \<open>
  C8. For every Hangul syllable the decomposition into two or three letters and the pairwise
  composition are inverse to each other.
\<close>
theorem hangul_decompose_compose:
  assumes "c \<ge> 0xac00" and "c < 0xd7a4"
  shows "(\<exists>x y. hangul_decomp c = [x, y] \<and> compose_pair x y = Some c) \<or>
    (\<exists>x y z w. hangul_decomp c = [x, y, z] \<and> compose_pair x y = Some w \<and> compose_pair w z = Some c)"
  by (rule hangul_roundtrip[OF assms])

theorem hangul_decompose_compose_witness:
  "\<exists>w. hangul_decomp 0xd55c = [0x1112, 0x1161, 0x11ab] \<and> compose_pair 0x1112 0x1161 = Some w \<and>
     compose_pair w 0x11ab = Some 0xd55c"
  using hangul_decompose_compose[of "0xd55c"] by (simp add: hangul_decomp_def)

text \<open>
  C11. The composition of Hangul also accepts the code U+11A7, which stands for "no final" in the
  arithmetic but is a letter of its own: it disappears, the pair composes to the syllable without it.
\<close>
theorem compose_pair_drops_11a7:
  assumes "l < 19" and "v < 21"
  shows "compose_pair (0xac00 + (of_nat l * 588 + of_nat v * 28)) 0x11a7 =
           Some (0xac00 + (of_nat l * 588 + of_nat v * 28))"
  using hangul_compose(2)[OF assms, of 0] by simp

theorem compose_pair_drops_11a7_witness: "compose_pair 0xac00 0x11a7 = Some 0xac00"
  using compose_pair_drops_11a7[of 0 0] by simp

text \<open>
  C10. Texts of Latin-1 codes are their own NFC: the fast path returns them unchanged unless the
  allocation of the result fails.
\<close>
theorem normalize_keeps_latin1:
  assumes "\<forall>c \<in> set src. c < 0x100" and "4 * length src \<le> DBUF_LIMIT"
  shows "unicode_normalize src UNICODE_NFC h = Some (int (length src), src) \<or>
    unicode_normalize src UNICODE_NFC h = Some (-1, []) \<and> \<not> heap_ok h"
proof -
  have len: "4 * length src \<le> PTRDIFF_MAX" using assms(2) by (simp add: DBUF_LIMIT_def PTRDIFF_MAX_def)
  from assms(1) len show ?thesis by (cases rule: normalize_latin1[where h = h]) (use assms(2) in auto)
qed

theorem normalize_keeps_latin1_witness:
  "unicode_normalize [0x41, 0xe9] UNICODE_NFC [] = Some (2, [0x41, 0xe9])"
  using normalize_keeps_latin1[of "[0x41, 0xe9]" "[]"] by (simp add: DBUF_LIMIT_def)

end
