(* ===== verification/Unicode_Range.thy ===== *)
theory Unicode_Range
  imports Cutils_Bytes
begin

text \<open>
  Character ranges, \<open>quickjs/libunicode.c\<close> and \<open>quickjs/libunicode.h\<close>: a growable array of
  points, of which consecutive pairs are half-open intervals. Every operation of the package is
  modelled on the array itself, in place where the code works in place. The sets of code points
  the arrays stand for are the abstract view; the laws every provider of such sets owes its
  clients (the class compiler of the regular expressions) are the locale \<open>range_algebra\<close>.
\<close>

record char_range =
  cr_len :: nat
  cr_size :: nat
  cr_points :: "u32 list"
  cr_opaque :: "u32 heap"

definition INT_MAX :: nat where
  "INT_MAX = 2147483647"

definition UINT32_MAX :: u32 where
  "UINT32_MAX = 0xffffffff"

definition cr_init :: "u32 heap \<Rightarrow> char_range" where
  "cr_init h = \<lparr>cr_len = 0, cr_size = 0, cr_points = [], cr_opaque = h\<rparr>"

text \<open>
  \<open>cr->size * 3 / 2\<close> is \<open>int\<close> arithmetic: its overflow is undefined behaviour. The C \<open>int\<close>
  fields \<open>len\<close> and \<open>size\<close> are never negative.
\<close>

definition cr_realloc :: "char_range \<Rightarrow> nat \<Rightarrow> (int \<times> char_range) option" where
  "cr_realloc cr n =
     (if n > cr_size cr then
        if cr_size cr * 3 > INT_MAX then None
        else
          let new_size = max n (cr_size cr * 3 div 2)
          in case realloc_func 4 (cr_opaque cr) (cr_points cr) new_size of
               (None, h) \<Rightarrow> Some (-1, cr\<lparr>cr_opaque := h\<rparr>)
             | (Some b, h) \<Rightarrow>
                 Some (0, cr\<lparr>cr_points := b, cr_size := new_size, cr_opaque := h\<rparr>)
      else Some (0, cr))"

definition cr_copy :: "char_range \<Rightarrow> char_range \<Rightarrow> (int \<times> char_range) option" where
  "cr_copy cr cr1 =
     do {
       (r, cr) \<leftarrow> cr_realloc cr (cr_len cr1);
       if r \<noteq> 0 then Some (-1, cr)
       else do {
         xs \<leftarrow> mem_read (cr_points cr1) 0 (cr_len cr1);
         pts \<leftarrow> mem_write (cr_points cr) 0 xs;
         Some (0, cr\<lparr>cr_points := pts, cr_len := cr_len cr1\<rparr>)
       }
     }"

definition cr_add_point :: "char_range \<Rightarrow> u32 \<Rightarrow> (int \<times> char_range) option" where
  "cr_add_point cr v =
     do {
       (r, cr) \<leftarrow> (if cr_len cr \<ge> cr_size cr then cr_realloc cr (cr_len cr + 1) else Some (0, cr));
       if r \<noteq> 0 then Some (-1, cr)
       else do {
         pts \<leftarrow> mem_set (cr_points cr) (cr_len cr) v;
         Some (0, cr\<lparr>cr_points := pts, cr_len := cr_len cr + 1\<rparr>)
       }
     }"

definition cr_add_interval :: "char_range \<Rightarrow> u32 \<Rightarrow> u32 \<Rightarrow> (int \<times> char_range) option" where
  "cr_add_interval cr c1 c2 =
     do {
       (r, cr) \<leftarrow> (if cr_len cr + 2 > cr_size cr then cr_realloc cr (cr_len cr + 2) else Some (0, cr));
       if r \<noteq> 0 then Some (-1, cr)
       else do {
         pts \<leftarrow> mem_set (cr_points cr) (cr_len cr) c1;
         pts \<leftarrow> mem_set pts (cr_len cr + 1) c2;
         Some (0, cr\<lparr>cr_points := pts, cr_len := cr_len cr + 2\<rparr>)
       }
     }"

text \<open>
  Merging of consecutive intervals, in place. \<open>cr_merge_end\<close> is the inner \<open>while\<close>: the last
  \<open>j\<close> of a run of intervals that touch.
\<close>

function cr_merge_end :: "u32 list \<Rightarrow> nat \<Rightarrow> nat \<Rightarrow> nat" where
  "cr_merge_end pt len j =
     (if j + 3 < len \<and> pt ! (j + 1) = pt ! (j + 2) then cr_merge_end pt len (j + 2) else j)"
  by pat_completeness auto
termination
  by (relation "measure (\<lambda>(pt, len, j). len - j)") auto

declare cr_merge_end.simps [simp del]

lemma cr_merge_end_ge: "j \<le> cr_merge_end pt len j"
proof (induction pt len j rule: cr_merge_end.induct)
  case (1 pt len j)
  then show ?case by (subst cr_merge_end.simps) auto
qed

function cr_compress_loop :: "u32 list \<Rightarrow> nat \<Rightarrow> nat \<Rightarrow> nat \<Rightarrow> u32 list \<times> nat" where
  "cr_compress_loop pt len i k =
     (if i + 1 < len then
        if pt ! i = pt ! (i + 1) then cr_compress_loop pt len (i + 2) k
        else
          let j = cr_merge_end pt len i;
              pt1 = pt[k := pt ! i];
              pt2 = pt1[k + 1 := pt1 ! (j + 1)]
          in cr_compress_loop pt2 len (j + 2) (k + 2)
      else (pt, k))"
  by pat_completeness auto
termination
proof (relation "measure (\<lambda>(pt, len, i, k). len - i)", goal_cases)
  case 1
  show ?case by simp
next
  case (2 pt len i k)
  then show ?case by simp
next
  case (3 pt len i k j pt1 pt2)
  then show ?case using cr_merge_end_ge[of i pt len] by simp
qed

declare cr_compress_loop.simps [simp del]

definition cr_compress :: "char_range \<Rightarrow> char_range option" where
  "cr_compress cr =
     (if cr_len cr \<le> length (cr_points cr) then
        let (pt, k) = cr_compress_loop (cr_points cr) (cr_len cr) 0 0
        in Some (cr\<lparr>cr_points := pt, cr_len := k\<rparr>)
      else None)"

datatype cr_op_kind = CR_OP_UNION | CR_OP_INTER | CR_OP_XOR

text \<open>The inner \<open>switch\<close>: whether a position past \<open>a_idx\<close> and \<open>b_idx\<close> points is inside.\<close>

fun cr_op_in :: "cr_op_kind \<Rightarrow> bool \<Rightarrow> bool \<Rightarrow> bool" where
  "cr_op_in CR_OP_UNION a b = (a \<or> b)"
| "cr_op_in CR_OP_INTER a b = (a \<and> b)"
| "cr_op_in CR_OP_XOR a b = (a \<noteq> b)"

text \<open>
  The next point of \<open>a\<close> or \<open>b\<close> in increasing order, with the indices after it: the first half
  of the loop body of \<open>cr_op\<close>. The outer option is an out-of-bounds read, the inner one the
  loop's \<open>break\<close>.
\<close>

definition cr_next_point ::
  "u32 list \<Rightarrow> nat \<Rightarrow> u32 list \<Rightarrow> nat \<Rightarrow> nat \<Rightarrow> nat \<Rightarrow> (u32 \<times> nat \<times> nat) option option" where
  "cr_next_point a_pt a_len b_pt b_len a_idx b_idx =
     (if a_idx < a_len \<and> b_idx < b_len then
        do {
          va \<leftarrow> mem_get a_pt a_idx;
          vb \<leftarrow> mem_get b_pt b_idx;
          Some (Some (if va < vb then (va, a_idx + 1, b_idx)
                      else if va = vb then (va, a_idx + 1, b_idx + 1)
                      else (vb, a_idx, b_idx + 1)))
        }
      else if a_idx < a_len then do { va \<leftarrow> mem_get a_pt a_idx; Some (Some (va, a_idx + 1, b_idx)) }
      else if b_idx < b_len then do { vb \<leftarrow> mem_get b_pt b_idx; Some (Some (vb, a_idx, b_idx + 1)) }
      else Some None)"

lemma cr_next_point_progress:
  "cr_next_point a_pt a_len b_pt b_len a_idx b_idx = Some (Some (v, a', b')) \<Longrightarrow>
   a_len - a' + (b_len - b') < a_len - a_idx + (b_len - b_idx)"
  by (auto simp: cr_next_point_def Option.bind_eq_Some_conv split: if_splits)

function cr_op_loop ::
  "char_range \<Rightarrow> u32 list \<Rightarrow> nat \<Rightarrow> u32 list \<Rightarrow> nat \<Rightarrow> cr_op_kind \<Rightarrow> nat \<Rightarrow> nat
     \<Rightarrow> (int \<times> char_range) option" where
  "cr_op_loop cr a_pt a_len b_pt b_len op a_idx b_idx =
     (case cr_next_point a_pt a_len b_pt b_len a_idx b_idx of
        None \<Rightarrow> None
      | Some None \<Rightarrow> Some (0, cr)
      | Some (Some (v, a', b')) \<Rightarrow>
          (if cr_op_in op (odd a') (odd b') \<noteq> odd (cr_len cr) then
             case cr_add_point cr v of
               None \<Rightarrow> None
             | Some (r, cr') \<Rightarrow>
                 if r \<noteq> 0 then Some (-1, cr')
                 else cr_op_loop cr' a_pt a_len b_pt b_len op a' b'
           else cr_op_loop cr a_pt a_len b_pt b_len op a' b'))"
  by pat_completeness auto
termination
  by (relation "measure (\<lambda>(cr, a_pt, a_len, b_pt, b_len, op, a, b). a_len - a + (b_len - b))")
     (auto dest: cr_next_point_progress)

declare cr_op_loop.simps [simp del]

definition cr_op ::
  "char_range \<Rightarrow> u32 list \<Rightarrow> nat \<Rightarrow> u32 list \<Rightarrow> nat \<Rightarrow> cr_op_kind \<Rightarrow> (int \<times> char_range) option"
where
  "cr_op cr a_pt a_len b_pt b_len op =
     do {
       (r, cr) \<leftarrow> cr_op_loop cr a_pt a_len b_pt b_len op 0 0;
       if r \<noteq> 0 then Some (-1, cr)
       else do { cr \<leftarrow> cr_compress cr; Some (0, cr) }
     }"

definition cr_union1 :: "char_range \<Rightarrow> u32 list \<Rightarrow> nat \<Rightarrow> (int \<times> char_range) option" where
  "cr_union1 cr b_pt b_len =
     cr_op (cr\<lparr>cr_len := 0, cr_size := 0, cr_points := []\<rparr>) (cr_points cr) (cr_len cr)
       b_pt b_len CR_OP_UNION"

definition cr_union_interval :: "char_range \<Rightarrow> u32 \<Rightarrow> u32 \<Rightarrow> (int \<times> char_range) option" where
  "cr_union_interval cr c1 c2 = cr_union1 cr [c1, c2 + 1] 2"

definition cr_invert :: "char_range \<Rightarrow> (int \<times> char_range) option" where
  "cr_invert cr =
     do {
       (r, cr1) \<leftarrow> cr_realloc cr (cr_len cr + 2);
       if r \<noteq> 0 then Some (-1, cr1)
       else do {
         xs \<leftarrow> mem_read (cr_points cr1) 0 (cr_len cr);
         pts \<leftarrow> mem_write (cr_points cr1) 1 xs;
         pts \<leftarrow> mem_set pts 0 0;
         pts \<leftarrow> mem_set pts (cr_len cr + 1) UINT32_MAX;
         cr2 \<leftarrow> cr_compress (cr1\<lparr>cr_points := pts, cr_len := cr_len cr + 2\<rparr>);
         Some (0, cr2)
       }
     }"

section \<open>The sets of code points\<close>

fun in_ranges :: "u32 list \<Rightarrow> u32 \<Rightarrow> bool" where
  "in_ranges (a # b # r) x = ((a \<le> x \<and> x < b) \<or> in_ranges r x)"
| "in_ranges _ x = False"

definition cr_pts :: "char_range \<Rightarrow> u32 list" where
  "cr_pts cr = take (cr_len cr) (cr_points cr)"

definition cr_set :: "char_range \<Rightarrow> u32 set" where
  "cr_set cr = {x. in_ranges (cr_pts cr) x}"

definition CR_LIMIT :: nat where
  "CR_LIMIT = 2 ^ 28"

text \<open>
  \<open>cr_wf\<close> is the shape of the array; \<open>canonical\<close> what the comments of the header promise of the
  points (sorted, an even number), with no empty and no touching intervals.
\<close>

definition cr_wf :: "char_range \<Rightarrow> bool" where
  "cr_wf cr \<longleftrightarrow> length (cr_points cr) = cr_size cr \<and> cr_len cr \<le> cr_size cr
     \<and> cr_size cr \<le> CR_LIMIT * 3 div 2"

definition canonical :: "u32 list \<Rightarrow> bool" where
  "canonical ps \<longleftrightarrow> sorted_wrt (<) ps \<and> even (length ps)"

lemma canonical_sorted: "canonical ps \<Longrightarrow> sorted ps"
  by (auto simp: canonical_def strict_sorted_iff)

lemma cr_wf_init [simp]: "cr_wf (cr_init h)"
  by (simp add: cr_wf_def cr_init_def)

lemma cr_pts_init [simp]: "cr_pts (cr_init h) = []"
  by (simp add: cr_pts_def cr_init_def)

definition cr_nofail :: "char_range \<Rightarrow> bool" where
  "cr_nofail cr \<longleftrightarrow> heap_ok (cr_opaque cr)"

lemma cr_nofail_init [simp]: "cr_nofail (cr_init h) \<longleftrightarrow> heap_ok h"
  by (simp add: cr_nofail_def cr_init_def)

lemma length_cr_pts: "cr_wf cr \<Longrightarrow> length (cr_pts cr) = cr_len cr"
  by (simp add: cr_wf_def cr_pts_def)

text \<open>Membership counts points: \<open>x\<close> is inside when an odd number of points is at most \<open>x\<close>.\<close>

definition cnt :: "u32 list \<Rightarrow> u32 \<Rightarrow> nat" where
  "cnt ps x = length (filter (\<lambda>p. p \<le> x) ps)"

lemma cnt_simps [simp]:
  "cnt [] x = 0"
  "cnt (p # ps) x = (if p \<le> x then Suc (cnt ps x) else cnt ps x)"
  "cnt (ps @ qs) x = cnt ps x + cnt qs x"
  "cnt (replicate n v) x = (if v \<le> x then n else 0)"
  by (simp_all add: cnt_def)

lemma cnt_all: "\<forall>p \<in> set ps. p \<le> x \<Longrightarrow> cnt ps x = length ps"
  by (simp add: cnt_def)

lemma cnt_none: "\<forall>p \<in> set ps. x < p \<Longrightarrow> cnt ps x = 0"
  by (auto simp: cnt_def filter_empty_conv not_le)

lemma in_ranges_iff_odd:
  "sorted ps \<Longrightarrow> even (length ps) \<Longrightarrow> in_ranges ps x \<longleftrightarrow> odd (cnt ps x)"
proof (induction ps x rule: in_ranges.induct)
  case (1 a b r x)
  have none: "cnt r x = 0" if "x < b"
    by (rule cnt_none) (use 1 that in auto)
  show ?case
  proof (cases "b \<le> x")
    case True
    then have "a \<le> x" "\<not> x < b" using 1 by auto
    with True 1 show ?thesis by simp
  next
    case False
    then have "cnt r x = 0" by (intro none) simp
    moreover from this have "\<not> in_ranges r x" using 1 by simp
    ultimately show ?thesis using False by auto
  qed
qed simp_all

section \<open>Growing\<close>

lemma cr_realloc_spec:
  assumes wf: "cr_wf cr" and n: "n \<le> CR_LIMIT"
  obtains r cr' where "cr_realloc cr n = Some (r, cr')" and "cr_wf cr'"
    and "cr_len cr' = cr_len cr" and "cr_pts cr' = cr_pts cr"
    and "r = 0 \<Longrightarrow> n \<le> cr_size cr'" and "r \<noteq> 0 \<Longrightarrow> r = -1"
    and "cr_nofail cr \<Longrightarrow> r = 0 \<and> cr_nofail cr'"
proof (cases "n > cr_size cr")
  case False
  show thesis by (rule that[of 0 cr]) (use wf False in \<open>simp_all add: cr_realloc_def\<close>)
next
  case True
  let ?m = "max n (cr_size cr * 3 div 2)"
  have lim: "cr_size cr \<le> CR_LIMIT" using True n by simp
  then have m: "?m \<le> CR_LIMIT * 3 div 2" "cr_size cr \<le> ?m"
    using n True by (auto simp: div_le_mono)
  have eq: "cr_realloc cr n =
      (case realloc_func 4 (cr_opaque cr) (cr_points cr) ?m of
         (None, h) \<Rightarrow> Some (-1, cr\<lparr>cr_opaque := h\<rparr>)
       | (Some b, h) \<Rightarrow> Some (0, cr\<lparr>cr_points := b, cr_size := ?m, cr_opaque := h\<rparr>))"
    using True lim by (simp add: cr_realloc_def Let_def INT_MAX_def CR_LIMIT_def)
  show thesis
  proof (cases "realloc_func 4 (cr_opaque cr) (cr_points cr) ?m")
    case (Pair r h)
    note rok = realloc_func_ok[OF _ Pair]
    have fits: "?m * 4 \<le> PTRDIFF_MAX" using m by (simp add: CR_LIMIT_def PTRDIFF_MAX_def max_def)
    show thesis
    proof (cases r)
      case None
      show thesis
        by (rule that[of "-1" "cr\<lparr>cr_opaque := h\<rparr>"])
           (use wf Pair None eq rok fits in \<open>simp_all add: cr_wf_def cr_pts_def cr_nofail_def\<close>)
    next
      case (Some b)
      note b = realloc_func_Some[OF Pair[unfolded Some]]
      have keep: "take (cr_len cr) b = take (cr_len cr) (cr_points cr)"
      proof -
        have "take (length (cr_points cr)) b = cr_points cr"
          using b(3) wf m by (simp add: cr_wf_def)
        then have "take (cr_len cr) (take (length (cr_points cr)) b) = take (cr_len cr) (cr_points cr)"
          by simp
        then show ?thesis using wf by (simp add: cr_wf_def min_absorb1)
      qed
      show thesis
        by (rule that[of 0 "cr\<lparr>cr_points := b, cr_size := ?m, cr_opaque := h\<rparr>"])
           (use wf Pair Some eq b(1) m keep True rok fits in \<open>auto simp: cr_wf_def cr_pts_def cr_nofail_def\<close>)
    qed
  qed
qed

lemma cr_add_point_spec:
  assumes wf: "cr_wf cr" and n: "cr_len cr < CR_LIMIT"
  obtains r cr' where "cr_add_point cr v = Some (r, cr')" and "cr_wf cr'"
    and "r = 0 \<Longrightarrow> cr_pts cr' = cr_pts cr @ [v] \<and> cr_len cr' = cr_len cr + 1"
    and "r \<noteq> 0 \<Longrightarrow> r = -1 \<and> cr_pts cr' = cr_pts cr"
    and "cr_nofail cr \<Longrightarrow> r = 0 \<and> cr_nofail cr'"
proof -
  obtain r cr1 where r: "(if cr_len cr \<ge> cr_size cr then cr_realloc cr (cr_len cr + 1)
      else Some (0, cr)) = Some (r, cr1)"
    and cr1: "cr_wf cr1" "cr_len cr1 = cr_len cr" "cr_pts cr1 = cr_pts cr"
    and ok: "r = 0 \<Longrightarrow> cr_len cr < cr_size cr1" and bad: "r \<noteq> 0 \<Longrightarrow> r = -1"
    and nf: "cr_nofail cr \<Longrightarrow> r = 0 \<and> cr_nofail cr1"
  proof (cases "cr_len cr \<ge> cr_size cr")
    case True
    from cr_realloc_spec[OF wf, of "cr_len cr + 1"] n that True show thesis by fastforce
  next
    case False
    with that[of 0 cr] wf show thesis by simp
  qed
  show thesis
  proof (cases "r = 0")
    case True
    then have lt: "cr_len cr1 < length (cr_points cr1)" using ok cr1 by (simp add: cr_wf_def)
    let ?cr' = "cr1\<lparr>cr_points := (cr_points cr1)[cr_len cr1 := v], cr_len := cr_len cr1 + 1\<rparr>"
    have "cr_add_point cr v = Some (0, ?cr')"
      using r True lt by (simp add: cr_add_point_def mem_set_def)
    moreover have "cr_wf ?cr'" using cr1(1) lt by (simp add: cr_wf_def)
    moreover have "cr_pts ?cr' = cr_pts cr @ [v]"
      using lt cr1(3)[symmetric] by (simp add: cr_pts_def take_Suc_conv_app_nth)
    moreover have "cr_nofail cr \<Longrightarrow> cr_nofail ?cr'" using nf by (simp add: cr_nofail_def)
    ultimately show thesis using that[of 0 ?cr'] cr1(2) by simp
  next
    case False
    then have "cr_add_point cr v = Some (-1, cr1)" using r by (simp add: cr_add_point_def)
    then show thesis using cr1 False nf by (intro that[of "-1" cr1]) auto
  qed
qed

lemma cr_add_interval_spec:
  assumes wf: "cr_wf cr" and n: "cr_len cr + 2 \<le> CR_LIMIT"
  obtains r cr' where "cr_add_interval cr c1 c2 = Some (r, cr')" and "cr_wf cr'"
    and "r = 0 \<Longrightarrow> cr_pts cr' = cr_pts cr @ [c1, c2] \<and> cr_len cr' = cr_len cr + 2"
    and "r \<noteq> 0 \<Longrightarrow> r = -1 \<and> cr_pts cr' = cr_pts cr"
    and "cr_nofail cr \<Longrightarrow> r = 0 \<and> cr_nofail cr'"
proof -
  obtain r cr1 where r: "(if cr_len cr + 2 > cr_size cr then cr_realloc cr (cr_len cr + 2)
      else Some (0, cr)) = Some (r, cr1)"
    and cr1: "cr_wf cr1" "cr_len cr1 = cr_len cr" "cr_pts cr1 = cr_pts cr"
    and ok: "r = 0 \<Longrightarrow> cr_len cr + 2 \<le> cr_size cr1" and bad: "r \<noteq> 0 \<Longrightarrow> r = -1"
    and nf: "cr_nofail cr \<Longrightarrow> r = 0 \<and> cr_nofail cr1"
  proof (cases "cr_len cr + 2 > cr_size cr")
    case True
    from cr_realloc_spec[OF wf, of "cr_len cr + 2"] n that True show thesis by fastforce
  next
    case False
    with that[of 0 cr] wf show thesis by simp
  qed
  show thesis
  proof (cases "r = 0")
    case True
    let ?n = "cr_len cr1" and ?m = "cr_points cr1"
    have lt: "?n + 2 \<le> length ?m" using ok cr1 True by (simp add: cr_wf_def)
    let ?cr' = "cr1\<lparr>cr_points := ?m[?n := c1, ?n + 1 := c2], cr_len := ?n + 2\<rparr>"
    have "cr_add_interval cr c1 c2 = Some (0, ?cr')"
      using r True lt by (simp add: cr_add_interval_def mem_set_def)
    moreover have "cr_wf ?cr'" using cr1(1) lt by (simp add: cr_wf_def)
    moreover have "cr_pts ?cr' = cr_pts cr @ [c1, c2]"
      using lt cr1(3)[symmetric] by (simp add: cr_pts_def take_Suc_conv_app_nth numeral_2_eq_2)
    moreover have "cr_nofail cr \<Longrightarrow> cr_nofail ?cr'" using nf by (simp add: cr_nofail_def)
    ultimately show thesis using that[of 0 ?cr'] cr1(2) by simp
  next
    case False
    then have "cr_add_interval cr c1 c2 = Some (-1, cr1)" using r by (simp add: cr_add_interval_def)
    then show thesis using cr1 False nf by (intro that[of "-1" cr1]) auto
  qed
qed

section \<open>Merging\<close>

text \<open>
  The functional reference of \<open>cr_compress\<close>: drop empty intervals, extend an interval over
  those that touch it.
\<close>

fun merge_ext :: "u32 \<Rightarrow> u32 list \<Rightarrow> u32 \<times> u32 list" where
  "merge_ext b (c # d # r) = (if b = c then merge_ext d r else (b, c # d # r))"
| "merge_ext b r = (b, r)"

lemma merge_ext_length [termination_simp]: "length (snd (merge_ext b r)) \<le> length r"
  by (induction b r rule: merge_ext.induct) auto

lemma merge_ext_lengthD [termination_simp]: "(e, r') = merge_ext b r \<Longrightarrow> length r' \<le> length r"
  using merge_ext_length[of b r] by (metis snd_conv)

fun ranges_merge :: "u32 list \<Rightarrow> u32 list" where
  "ranges_merge (a # b # r) =
     (if a = b then ranges_merge r
      else let (e, r') = merge_ext b r in a # e # ranges_merge r')"
| "ranges_merge _ = []"

lemma drop_take_nth:
  "i < n \<Longrightarrow> n \<le> length xs \<Longrightarrow> drop i (take n xs) = xs ! i # drop (Suc i) (take n xs)"
  by (subst Cons_nth_drop_Suc[symmetric]) auto

lemma merge_ext_short: "length r \<le> 1 \<Longrightarrow> merge_ext b r = (b, r)"
  by (cases r rule: ranges_merge.cases) auto

lemma cr_merge_end_ext:
  assumes "j + 1 < n" and "n \<le> length pt"
  shows "merge_ext (pt ! (j + 1)) (drop (j + 2) (take n pt)) =
           (pt ! (cr_merge_end pt n j + 1), drop (cr_merge_end pt n j + 2) (take n pt))
         \<and> cr_merge_end pt n j + 1 < n"
  using assms
proof (induction pt n j rule: cr_merge_end.induct)
  case (1 pt n j)
  show ?case
  proof (cases "j + 3 < n")
    case True
    then have "drop (j + 2) (take n pt) = pt ! (j + 2) # pt ! (j + 3) # drop (j + 4) (take n pt)"
      using "1.prems"
      by (simp add: drop_take_nth numeral_2_eq_2 numeral_3_eq_3 eval_nat_numeral)
    with "1" True show ?thesis
      by (subst (1 2 3) cr_merge_end.simps) (auto simp: numeral_2_eq_2 numeral_3_eq_3 eval_nat_numeral)
  next
    case False
    have eq: "cr_merge_end pt n j = j" using False by (subst cr_merge_end.simps) simp
    have "length (drop (j + 2) (take n pt)) \<le> 1" using False "1.prems" by simp
    from merge_ext_short[OF this] eq "1.prems" show ?thesis by simp
  qed
qed

lemma cr_compress_loop_spec:
  assumes "k \<le> i" and "n \<le> length pt" and "cr_compress_loop pt n i k = (pt', k')"
  shows "length pt' = length pt \<and> k' \<le> k + (n - i) \<and>
         take k' pt' = take k pt @ ranges_merge (drop i (take n pt))"
  using assms
proof (induction pt n i k rule: cr_compress_loop.induct)
  case (1 pt n i k)
  show ?case
  proof (cases "i + 1 < n")
    case False
    then have "length (drop i (take n pt)) \<le> 1" by simp
    then have "ranges_merge (drop i (take n pt)) = []"
      by (cases "drop i (take n pt)" rule: ranges_merge.cases) auto
    with False "1.prems"(3) show ?thesis by (simp add: cr_compress_loop.simps[of pt n i k])
  next
    case True
    then have split: "drop i (take n pt) = pt ! i # pt ! (i + 1) # drop (i + 2) (take n pt)"
      using "1.prems" by (simp add: drop_take_nth numeral_2_eq_2)
    show ?thesis
    proof (cases "pt ! i = pt ! (i + 1)")
      case same: True
      with True "1.prems"(3) have "cr_compress_loop pt n (i + 2) k = (pt', k')"
        by (simp add: cr_compress_loop.simps[of pt n i k])
      with "1.IH"(1)[OF True same] "1.prems" split same show ?thesis by auto
    next
      case diff: False
      define j where "j = cr_merge_end pt n i"
      define pt2 where "pt2 = pt[k := pt ! i, k + 1 := pt ! (j + 1)]"
      have j: "i \<le> j" "j + 1 < n"
        and ext: "merge_ext (pt ! (i + 1)) (drop (i + 2) (take n pt)) =
          (pt ! (j + 1), drop (j + 2) (take n pt))"
        using cr_merge_end_ge[of i pt n] cr_merge_end_ext[OF True "1.prems"(2)]
        by (simp_all add: j_def)
      have nth: "pt[k := pt ! i] ! (j + 1) = pt ! (j + 1)" using j "1.prems" by simp
      have rec: "cr_compress_loop pt2 n (j + 2) (k + 2) = (pt', k')"
        using "1.prems"(3) True diff nth
        by (simp add: cr_compress_loop.simps[of pt n i k] Let_def j_def pt2_def)
      have "length pt' = length pt2 \<and> k' \<le> k + 2 + (n - (j + 2)) \<and>
          take k' pt' = take (k + 2) pt2 @ ranges_merge (drop (j + 2) (take n pt2))"
        by (rule "1.IH"(2)[OF True diff j_def refl])
           (use "1.prems" j rec nth in \<open>simp_all add: pt2_def\<close>)
      moreover have "k + 2 + (n - (j + 2)) \<le> k + (n - i)" using j by linarith
      moreover have "drop (j + 2) (take n pt2) = drop (j + 2) (take n pt)"
        using j "1.prems" by (simp add: pt2_def take_update_swap drop_update_cancel)
      moreover have "take (k + 2) pt2 = take k pt @ [pt ! i, pt ! (j + 1)]"
        using j "1.prems" by (simp add: pt2_def take_Suc_conv_app_nth numeral_2_eq_2)
      ultimately show ?thesis
        unfolding split using diff ext by (auto simp: pt2_def)
    qed
  qed
qed

lemma merge_ext_set: "merge_ext b r = (e, r') \<Longrightarrow> insert e (set r') \<subseteq> insert b (set r)"
  by (induction b r rule: merge_ext.induct) (auto split: if_splits)

lemma ranges_merge_set: "set (ranges_merge ps) \<subseteq> set ps"
proof (induction ps rule: ranges_merge.induct)
  case (1 a b r)
  obtain e r' where m: "merge_ext b r = (e, r')" by fastforce
  show ?case
  proof (cases "a = b")
    case True
    with "1.IH"(1) show ?thesis by auto
  next
    case False
    from "1.IH"(2)[OF False m[symmetric] refl] merge_ext_set[OF m] False m show ?thesis by auto
  qed
qed simp_all

lemma merge_ext_sem:
  assumes "merge_ext b r = (e, r')" and "sorted (a # b # r)" and "even (length r)"
  shows "(a \<le> x \<and> x < e \<or> in_ranges r' x) = (a \<le> x \<and> x < b \<or> in_ranges r x)"
    and "sorted (a # e # r')" and "even (length r')" and "b \<le> e" and "\<forall>y \<in> set r'. e < y"
proof -
  have "(a \<le> x \<and> x < e \<or> in_ranges r' x) = (a \<le> x \<and> x < b \<or> in_ranges r x)
      \<and> sorted (a # e # r') \<and> even (length r') \<and> b \<le> e \<and> (\<forall>y \<in> set r'. e < y)"
    using assms
  proof (induction b r rule: merge_ext.induct)
    case (1 b c d r)
    show ?case
    proof (cases "b = c")
      case True
      have srt: "sorted (a # d # r)" using "1.prems"(2) by auto
      have "merge_ext d r = (e, r')" and "even (length r)" using "1.prems" True by simp_all
      then have "(a \<le> x \<and> x < e \<or> in_ranges r' x) = (a \<le> x \<and> x < d \<or> in_ranges r x)
          \<and> sorted (a # e # r') \<and> even (length r') \<and> d \<le> e \<and> (\<forall>y \<in> set r'. e < y)"
        using "1.IH"[OF True _ srt] by blast
      moreover have ord: "a \<le> b" "b \<le> d" using "1.prems" True by auto
      moreover have "(a \<le> x \<and> x < d) = (a \<le> x \<and> x < b \<or> c \<le> x \<and> x < d)"
        using ord True by (cases "x < b") (auto simp: not_less)
      ultimately show ?thesis by auto
    next
      case False
      have "b < c" using False "1.prems"(2) by auto
      then have "\<forall>y \<in> set (c # d # r). b < y" using "1.prems"(2) by auto
      then show ?thesis using "1.prems" False by auto
    qed
  qed auto
  then show "(a \<le> x \<and> x < e \<or> in_ranges r' x) = (a \<le> x \<and> x < b \<or> in_ranges r x)"
    and "sorted (a # e # r')" and "even (length r')" and "b \<le> e" and "\<forall>y \<in> set r'. e < y"
    by blast+
qed

lemma ranges_merge_spec:
  assumes "sorted ps" and "even (length ps)"
  shows "in_ranges (ranges_merge ps) x = in_ranges ps x" and "canonical (ranges_merge ps)"
    and "length (ranges_merge ps) \<le> length ps"
proof -
  have "in_ranges (ranges_merge ps) x = in_ranges ps x \<and> canonical (ranges_merge ps)
      \<and> length (ranges_merge ps) \<le> length ps"
    using assms
  proof (induction ps rule: ranges_merge.induct)
    case (1 a b r)
    show ?case
    proof (cases "a = b")
      case True
      with 1 show ?thesis by auto
    next
      case False
      obtain e r' where m: "merge_ext b r = (e, r')" by fastforce
      have sr: "sorted (a # b # r)" "even (length r)" using "1.prems" by auto
      note ext = merge_ext_sem[OF m sr]
      have IH: "in_ranges (ranges_merge r') x = in_ranges r' x \<and> canonical (ranges_merge r')
          \<and> length (ranges_merge r') \<le> length r'"
        by (rule "1.IH"(2)[OF False m[symmetric] refl]) (use ext in auto)
      have "a < e" using False ext(4) sr(1) by auto
      moreover have "\<forall>y \<in> set (ranges_merge r'). e < y"
        using ext(5) ranges_merge_set[of r'] by auto
      ultimately have "canonical (a # e # ranges_merge r')"
        using IH by (auto simp: canonical_def)
      moreover have "length r' \<le> length r" using merge_ext_length[of b r] m by simp
      ultimately show ?thesis using False m IH ext(1)[of x] by simp
    qed
  qed (simp_all add: canonical_def)
  then show "in_ranges (ranges_merge ps) x = in_ranges ps x" and "canonical (ranges_merge ps)"
    and "length (ranges_merge ps) \<le> length ps" by blast+
qed

lemma cr_compress_spec:
  assumes wf: "cr_wf cr"
  obtains cr' where "cr_compress cr = Some cr'" and "cr_wf cr'"
    and "cr_pts cr' = ranges_merge (cr_pts cr)" and "cr_len cr' \<le> cr_len cr"
    and "cr_nofail cr' = cr_nofail cr"
proof -
  obtain pt k where l: "cr_compress_loop (cr_points cr) (cr_len cr) 0 0 = (pt, k)" by fastforce
  have n: "cr_len cr \<le> length (cr_points cr)" using wf by (simp add: cr_wf_def)
  note sp = cr_compress_loop_spec[OF _ n l, simplified]
  show thesis
    by (rule that[of "cr\<lparr>cr_points := pt, cr_len := k\<rparr>"])
       (use wf n sp l in \<open>auto simp: cr_compress_def cr_wf_def cr_pts_def cr_nofail_def\<close>)
qed

section \<open>Union, intersection, symmetric difference\<close>

text \<open>
  One step of the merge consumes one point from either or both operands; it is the least of
  what is left.
\<close>

lemma cr_next_point_spec:
  assumes "cr_next_point a_pt a_len b_pt b_len a b = Some (Some (v, a', b'))"
    and "a_len \<le> length a_pt" and "b_len \<le> length b_pt"
    and "a \<le> a_len" and "b \<le> b_len"
    and "sorted (take a_len a_pt)" and "sorted (take b_len b_pt)"
  shows "a \<le> a'" "b \<le> b'" "a' \<le> a_len" "b' \<le> b_len" "a' + b' > a + b"
    and "drop a (take a_len a_pt) = replicate (a' - a) v @ drop a' (take a_len a_pt)"
    and "drop b (take b_len b_pt) = replicate (b' - b) v @ drop b' (take b_len b_pt)"
    and "\<forall>q \<in> set (drop a' (take a_len a_pt)) \<union> set (drop b' (take b_len b_pt)). v \<le> q"
proof -
  let ?A = "take a_len a_pt" and ?B = "take b_len b_pt"
  have hdA: "drop a ?A = a_pt ! a # drop (Suc a) ?A" if "a < a_len"
    using drop_take_nth[OF that assms(2)] .
  have hdB: "drop b ?B = b_pt ! b # drop (Suc b) ?B" if "b < b_len"
    using drop_take_nth[OF that assms(3)] .
  have srt: "sorted (drop a ?A)" "sorted (drop b ?B)" using assms(6,7) by (simp_all only: sorted_wrt_drop)
  have geA: "\<forall>q \<in> set (drop (Suc a) ?A). a_pt ! a \<le> q" if "a < a_len"
    using srt(1) unfolding hdA[OF that] by simp
  have geB: "\<forall>q \<in> set (drop (Suc b) ?B). b_pt ! b \<le> q" if "b < b_len"
    using srt(2) unfolding hdB[OF that] by simp
  consider (both) "a < a_len" "b < b_len" | (onlya) "a < a_len" "\<not> b < b_len"
    | (onlyb) "\<not> a < a_len" "b < b_len"
    using assms(1) by (cases "a < a_len"; cases "b < b_len") (auto simp: cr_next_point_def)
  then have "a \<le> a' \<and> b \<le> b' \<and> a' \<le> a_len \<and> b' \<le> b_len \<and> a' + b' > a + b
    \<and> drop a ?A = replicate (a' - a) v @ drop a' ?A \<and> drop b ?B = replicate (b' - b) v @ drop b' ?B
    \<and> (\<forall>q \<in> set (drop a' ?A) \<union> set (drop b' ?B). v \<le> q)"
  proof cases
    case both
    note A = hdA[OF both(1)] geA[OF both(1)] and B = hdB[OF both(2)] geB[OF both(2)]
    from assms(1) both assms(2,3)
    have eq: "(v, a', b') = (if a_pt ! a < b_pt ! b then (a_pt ! a, a + 1, b)
        else if a_pt ! a = b_pt ! b then (a_pt ! a, a + 1, b + 1) else (b_pt ! b, a, b + 1))"
      by (simp add: cr_next_point_def mem_get_def)
    show ?thesis
    proof (cases "a_pt ! a < b_pt ! b")
      case True
      with eq A B both show ?thesis by auto
    next
      case False
      show ?thesis
      proof (cases "a_pt ! a = b_pt ! b")
        case True
        with eq A B both show ?thesis by auto
      next
        case neq: False
        with False have "b_pt ! b < a_pt ! a" by simp
        with eq neq False A B both show ?thesis by auto
      qed
    qed
  next
    case onlya
    note A = hdA[OF onlya(1)] geA[OF onlya(1)]
    from assms(1) onlya assms(2) have "v = a_pt ! a" "a' = a + 1" "b' = b"
      by (simp_all add: cr_next_point_def mem_get_def)
    with A onlya assms(5) show ?thesis by auto
  next
    case onlyb
    note B = hdB[OF onlyb(2)] geB[OF onlyb(2)]
    from assms(1) onlyb assms(3) have "v = b_pt ! b" "a' = a" "b' = b + 1"
      by (simp_all add: cr_next_point_def mem_get_def)
    with B onlyb assms(4) show ?thesis by auto
  qed
  then show "a \<le> a'" "b \<le> b'" "a' \<le> a_len" "b' \<le> b_len" "a' + b' > a + b"
    and "drop a ?A = replicate (a' - a) v @ drop a' ?A"
    and "drop b ?B = replicate (b' - b) v @ drop b' ?B"
    and "\<forall>q \<in> set (drop a' ?A) \<union> set (drop b' ?B). v \<le> q" by blast+
qed

lemma cr_next_point_total:
  assumes "a_len \<le> length a_pt" and "b_len \<le> length b_pt"
  shows "cr_next_point a_pt a_len b_pt b_len a b \<noteq> None"
  using assms by (auto simp: cr_next_point_def mem_get_def)

lemma cr_next_point_end:
  assumes "cr_next_point a_pt a_len b_pt b_len a b = Some None"
  shows "a_len \<le> a" and "b_len \<le> b"
  using assms by (auto simp: cr_next_point_def Option.bind_eq_Some_conv split: if_splits)

text \<open>
  The loop invariant: \<open>out\<close> (the points written so far) is sorted, no point left to read is
  smaller, and for every \<open>x\<close> the counts of points at most \<open>x\<close> agree in parity.
\<close>

definition cr_op_inv :: "cr_op_kind \<Rightarrow> u32 list \<Rightarrow> u32 list \<Rightarrow> nat \<Rightarrow> nat \<Rightarrow> u32 list \<Rightarrow> bool" where
  "cr_op_inv op A B a b out \<longleftrightarrow>
     sorted out \<and> length out \<le> a + b \<and> odd (length out) = cr_op_in op (odd a) (odd b)
     \<and> (\<forall>x. odd (cnt out x) = cr_op_in op (odd (cnt (take a A) x)) (odd (cnt (take b B) x)))
     \<and> (\<forall>p \<in> set out \<union> set (take a A) \<union> set (take b B).
          \<forall>q \<in> set (drop a A) \<union> set (drop b B). p \<le> q)"

lemma take_of_drop_eq:
  assumes "drop a A = replicate (a' - a) v @ drop a' A" and "a \<le> a'" and "a' \<le> length A"
  shows "take a' A = take a A @ replicate (a' - a) v"
proof -
  have "take a' A = take a A @ take (a' - a) (drop a A)"
    using assms(2) by (metis le_add_diff_inverse take_add)
  then show ?thesis using assms by simp
qed

lemma cr_op_inv_step:
  assumes inv: "cr_op_inv op A B a b out"
    and le: "a \<le> a'" "b \<le> b'" "a' \<le> length A" "b' \<le> length B" "a' + b' > a + b"
    and dA: "drop a A = replicate (a' - a) v @ drop a' A"
    and dB: "drop b B = replicate (b' - b) v @ drop b' B"
    and rest: "\<forall>q \<in> set (drop a' A) \<union> set (drop b' B). v \<le> q"
  defines "out' \<equiv> (if cr_op_in op (odd a') (odd b') \<noteq> odd (length out) then out @ [v] else out)"
  shows "cr_op_inv op A B a' b' out'"
proof -
  note tA = take_of_drop_eq[OF dA le(1,3)] and tB = take_of_drop_eq[OF dB le(2,4)]
  from inv have srt: "sorted out" and len: "length out \<le> a + b"
    and par: "odd (length out) = cr_op_in op (odd a) (odd b)"
    and sem: "\<And>x. odd (cnt out x) = cr_op_in op (odd (cnt (take a A) x)) (odd (cnt (take b B) x))"
    and sep: "\<forall>p \<in> set out \<union> set (take a A) \<union> set (take b B).
      \<forall>q \<in> set (drop a A) \<union> set (drop b B). p \<le> q"
    by (auto simp: cr_op_inv_def)
  have v: "v \<in> set (drop a A) \<union> set (drop b B)"
    unfolding dA dB using le by (cases "a' - a"; cases "b' - b") auto
  have below: "\<forall>p \<in> set out \<union> set (take a A) \<union> set (take b B). p \<le> v" using sep v by blast
  have ab: "length (take a A) = a" "length (take b B) = b" using le by auto
  have "odd (cnt out' x) = cr_op_in op (odd (cnt (take a' A) x)) (odd (cnt (take b' B) x))" for x
  proof (cases "v \<le> x")
    case True
    then have all: "\<forall>p \<in> set out \<union> set (take a A) \<union> set (take b B). p \<le> x"
      using below by (meson order_trans)
    have "cnt out x = length out" "cnt (take a A) x = a" "cnt (take b B) x = b"
      using all ab cnt_all[of out x] cnt_all[of "take a A" x] cnt_all[of "take b B" x] by auto
    then show ?thesis unfolding tA tB using True le par by (auto simp: out'_def)
  next
    case False
    then show ?thesis unfolding tA tB using sem[of x] by (simp add: out'_def)
  qed
  moreover have "sorted out'" using srt below by (auto simp: out'_def sorted_append)
  moreover have "odd (length out') = cr_op_in op (odd a') (odd b')"
    by (auto simp: out'_def)
  moreover have "length out' \<le> a' + b'" using len le by (simp add: out'_def)
  moreover have "\<forall>p \<in> set out' \<union> set (take a' A) \<union> set (take b' B).
      \<forall>q \<in> set (drop a' A) \<union> set (drop b' B). p \<le> q"
  proof (intro ballI)
    fix p q
    assume p: "p \<in> set out' \<union> set (take a' A) \<union> set (take b' B)"
      and q: "q \<in> set (drop a' A) \<union> set (drop b' B)"
    have "p = v \<or> p \<in> set out \<union> set (take a A) \<union> set (take b B)"
      using p unfolding tA tB by (auto simp: out'_def split: if_splits)
    moreover have "q \<in> set (drop a A) \<union> set (drop b B)" using q unfolding dA dB by auto
    ultimately show "p \<le> q" using sep rest q by blast
  qed
  ultimately show ?thesis by (simp add: cr_op_inv_def)
qed

lemma cr_op_loop_spec:
  assumes "a_len \<le> length a_pt" and "b_len \<le> length b_pt"
    and "sorted (take a_len a_pt)" and "sorted (take b_len b_pt)"
    and "a_len + b_len \<le> CR_LIMIT" and "cr_wf cr" and "a \<le> a_len" and "b \<le> b_len"
    and "cr_op_inv op (take a_len a_pt) (take b_len b_pt) a b (cr_pts cr)"
  shows "\<exists>r cr'. cr_op_loop cr a_pt a_len b_pt b_len op a b = Some (r, cr') \<and> cr_wf cr'
    \<and> (r = 0 \<longrightarrow> cr_op_inv op (take a_len a_pt) (take b_len b_pt) a_len b_len (cr_pts cr'))
    \<and> (r = 0 \<or> r = -1) \<and> (cr_nofail cr \<longrightarrow> r = 0 \<and> cr_nofail cr')"
  using assms
proof (induction cr a_pt a_len b_pt b_len op a b rule: cr_op_loop.induct)
  case (1 cr a_pt a_len b_pt b_len op a b)
  let ?A = "take a_len a_pt" and ?B = "take b_len b_pt"
  obtain nx where nx: "cr_next_point a_pt a_len b_pt b_len a b = Some nx"
    using cr_next_point_total[OF "1.prems"(1,2)] by blast
  show ?case
  proof (cases nx)
    case None
    with cr_next_point_end nx "1.prems"(7,8) have "a = a_len" "b = b_len" by fastforce+
    with nx None "1.prems"(6,9) show ?thesis by (subst cr_op_loop.simps) simp
  next
    case (Some t)
    obtain v a' b' where t: "t = (v, a', b')" by (cases t)
    note nx = nx[unfolded Some t]
    note st = cr_next_point_spec[OF nx "1.prems"(1,2,7,8,3,4)]
    have len: "cr_len cr = length (cr_pts cr)" using length_cr_pts[OF "1.prems"(6)] by simp
    have inv': "cr_op_inv op ?A ?B a' b'
        (if cr_op_in op (odd a') (odd b') \<noteq> odd (length (cr_pts cr))
         then cr_pts cr @ [v] else cr_pts cr)"
      by (rule cr_op_inv_step[OF "1.prems"(9) st(1,2) _ _ st(5-8)]) (use st(3,4) "1.prems"(1,2) in auto)
    show ?thesis
    proof (cases "cr_op_in op (odd a') (odd b') \<noteq> odd (cr_len cr)")
      case False
      from inv' False len have "cr_op_inv op ?A ?B a' b' (cr_pts cr)" by (auto split: if_splits)
      from "1.IH"(2)[OF nx refl refl refl False "1.prems"(1-6) st(3,4) this]
      show ?thesis using nx False by (subst cr_op_loop.simps) (simp split: if_splits)
    next
      case True
      have "cr_len cr < CR_LIMIT"
        using "1.prems"(5,9) st(3-5) unfolding len cr_op_inv_def by linarith
      then obtain r cr1 where add: "cr_add_point cr v = Some (r, cr1)" "cr_wf cr1"
        and ok: "r = 0 \<Longrightarrow> cr_pts cr1 = cr_pts cr @ [v]"
        and nf: "cr_nofail cr \<Longrightarrow> r = 0 \<and> cr_nofail cr1"
        by (rule cr_add_point_spec[OF "1.prems"(6)]) blast
      show ?thesis
      proof (cases "r = 0")
        case r: True
        from inv' True ok[OF r] len have "cr_op_inv op ?A ?B a' b' (cr_pts cr1)" by (auto split: if_splits)
        then show ?thesis
          using "1.IH"(1)[OF nx refl refl refl True add(1) refl _ "1.prems"(1-5) add(2) st(3,4)]
            nx True add(1) r nf
          by (subst cr_op_loop.simps) (simp; blast)
      next
        case False
        then show ?thesis using nx True add nf by (subst cr_op_loop.simps) auto
      qed
    qed
  qed
qed

lemma cr_op_inv_start: "cr_op_inv op A B 0 0 []"
  by (cases op) (auto simp: cr_op_inv_def)

text \<open>
  What one boolean operation on ranges promises: the result is canonical, well-formed, and a
  member of it is exactly what the operation says of the operands' members.
\<close>

lemma cr_op_spec:
  assumes "a_len \<le> length a_pt" and "b_len \<le> length b_pt"
    and "sorted (take a_len a_pt)" and "sorted (take b_len b_pt)"
    and "even a_len" and "even b_len"
    and "a_len + b_len \<le> CR_LIMIT" and "cr_wf cr" and "cr_len cr = 0"
  obtains r cr' where "cr_op cr a_pt a_len b_pt b_len op = Some (r, cr')"
    and "cr_wf cr'" and "r = 0 \<or> r = -1"
    and "r = 0 \<Longrightarrow> canonical (cr_pts cr')"
    and "r = 0 \<Longrightarrow> cr_len cr' \<le> a_len + b_len"
    and "\<And>x. r = 0 \<Longrightarrow> in_ranges (cr_pts cr') x =
           cr_op_in op (in_ranges (take a_len a_pt) x) (in_ranges (take b_len b_pt) x)"
    and "cr_nofail cr \<Longrightarrow> r = 0 \<and> cr_nofail cr'"
proof -
  let ?A = "take a_len a_pt" and ?B = "take b_len b_pt"
  have "cr_pts cr = []" using assms(9) by (simp add: cr_pts_def)
  then have "cr_op_inv op ?A ?B 0 0 (cr_pts cr)" by (simp add: cr_op_inv_start)
  from cr_op_loop_spec[OF assms(1-4,7,8) le0 le0 this] obtain r cr1
    where lp: "cr_op_loop cr a_pt a_len b_pt b_len op 0 0 = Some (r, cr1)" and wf: "cr_wf cr1"
      and ok: "r = 0 \<Longrightarrow> cr_op_inv op ?A ?B a_len b_len (cr_pts cr1)" and r: "r = 0 \<or> r = -1"
      and nf: "cr_nofail cr \<Longrightarrow> r = 0 \<and> cr_nofail cr1"
    by blast
  show thesis
  proof (cases "r = 0")
    case True
    note inv = ok[OF True, unfolded cr_op_inv_def]
    have srt: "sorted (cr_pts cr1)" using inv by blast
    have "odd (length (cr_pts cr1)) = cr_op_in op (odd a_len) (odd b_len)" using inv by blast
    then have ev: "even (length (cr_pts cr1))" using assms(5,6) by (cases op) simp_all
    have len: "length (cr_pts cr1) \<le> a_len + b_len" using inv by blast
    have sem: "in_ranges (cr_pts cr1) x = cr_op_in op (in_ranges ?A x) (in_ranges ?B x)" for x
    proof -
      have "odd (cnt (cr_pts cr1) x) = cr_op_in op (odd (cnt ?A x)) (odd (cnt ?B x))"
        using inv by simp
      then show ?thesis
        using in_ranges_iff_odd[OF srt ev] in_ranges_iff_odd[OF assms(3)]
          in_ranges_iff_odd[OF assms(4)] assms(1,2,5,6) by simp
    qed
    from cr_compress_spec[OF wf] obtain cr2 where c: "cr_compress cr1 = Some cr2" "cr_wf cr2"
      "cr_pts cr2 = ranges_merge (cr_pts cr1)" "cr_len cr2 \<le> cr_len cr1" "cr_nofail cr2 = cr_nofail cr1" by blast
    note mg = ranges_merge_spec[OF srt ev]
    show thesis
      by (rule that[of 0 cr2])
         (use lp True c mg sem len length_cr_pts[OF wf] nf in \<open>simp_all add: cr_op_def\<close>)
  next
    case False
    with r have "cr_op cr a_pt a_len b_pt b_len op = Some (-1, cr1)"
      using lp by (simp add: cr_op_def)
    with wf nf False show thesis by (intro that[of "-1" cr1]) auto
  qed
qed

definition cr_ready :: "nat \<Rightarrow> char_range \<Rightarrow> bool" where
  "cr_ready n cr \<longleftrightarrow> cr_wf cr \<and> sorted (cr_pts cr) \<and> even (cr_len cr) \<and> cr_len cr + n \<le> CR_LIMIT"

lemma cr_readyI:
  "cr_wf cr \<Longrightarrow> canonical (cr_pts cr) \<Longrightarrow> cr_len cr + n \<le> CR_LIMIT \<Longrightarrow> cr_ready n cr"
  using length_cr_pts by (auto simp: cr_ready_def canonical_sorted canonical_def)

lemma cr_wf_empty: "cr_wf (cr\<lparr>cr_len := 0, cr_size := 0, cr_points := []\<rparr>)"
  by (simp add: cr_wf_def)

lemma cr_union1_spec:
  assumes cr: "cr_ready b_len cr"
    and b: "b_len \<le> length b_pt" "sorted (take b_len b_pt)" "even b_len"
  obtains r cr' where "cr_union1 cr b_pt b_len = Some (r, cr')"
    and "cr_wf cr'" and "r = 0 \<or> r = -1" and "r = 0 \<Longrightarrow> canonical (cr_pts cr')"
    and "r = 0 \<Longrightarrow> cr_len cr' \<le> cr_len cr + b_len"
    and "\<And>x. r = 0 \<Longrightarrow> in_ranges (cr_pts cr') x \<longleftrightarrow> in_ranges (cr_pts cr) x \<or> in_ranges (take b_len b_pt) x"
    and "cr_nofail cr \<Longrightarrow> r = 0 \<and> cr_nofail cr'"
proof -
  let ?e = "cr\<lparr>cr_len := 0, cr_size := 0, cr_points := []\<rparr>"
  have a: "cr_len cr \<le> length (cr_points cr)" "sorted (take (cr_len cr) (cr_points cr))"
    "even (cr_len cr)" "cr_len cr + b_len \<le> CR_LIMIT"
    using cr by (auto simp: cr_ready_def cr_wf_def cr_pts_def)
  show thesis
    by (rule cr_op_spec[OF a(1) b(1) a(2) b(2) a(3) b(3) a(4) cr_wf_empty[of cr], of CR_OP_UNION])
       (auto intro!: that simp: cr_union1_def cr_pts_def cr_nofail_def)
qed

lemma u32_max_le: "UINT32_MAX \<le> x \<longleftrightarrow> x = UINT32_MAX"
proof -
  have m: "UINT32_MAX = -1" by (simp add: UINT32_MAX_def)
  show ?thesis unfolding m by (rule word_order.extremum_unique)
qed

lemma u32_le_max: "x \<le> UINT32_MAX"
  using u32_max_le[of x] by (metis linear)

lemma u32_less_max: "x \<noteq> UINT32_MAX \<Longrightarrow> x < UINT32_MAX"
  using u32_max_le[of x] by (simp only: not_le[symmetric]) simp

lemma cr_union_interval_spec:
  assumes cr: "cr_ready 2 cr" and le: "c1 \<le> c2" "c2 \<noteq> UINT32_MAX"
  obtains r cr' where "cr_union_interval cr c1 c2 = Some (r, cr')"
    and "cr_wf cr'" and "r = 0 \<or> r = -1" and "r = 0 \<Longrightarrow> canonical (cr_pts cr')"
    and "r = 0 \<Longrightarrow> cr_len cr' \<le> cr_len cr + 2"
    and "\<And>x. r = 0 \<Longrightarrow> in_ranges (cr_pts cr') x \<longleftrightarrow> in_ranges (cr_pts cr) x \<or> (c1 \<le> x \<and> x \<le> c2)"
    and "cr_nofail cr \<Longrightarrow> r = 0 \<and> cr_nofail cr'"
proof -
  have "c2 < UINT32_MAX" using le(2) by (rule u32_less_max)
  then have "unat c2 + 1 < 2 ^ 32" by (simp add: word_nat UINT32_MAX_def)
  then have n: "unat (c2 + 1) = unat c2 + 1" by (simp add: unat_word_ariths)
  have up: "(x < c2 + 1) = (x \<le> c2)" for x :: u32 using n by (simp add: word_nat less_Suc_eq_le)
  have "c1 \<le> c2 + 1" using le(1) n by (simp add: word_nat)
  then have srt: "sorted (take 2 [c1, c2 + 1])" by simp
  show thesis
    by (rule cr_union1_spec[OF cr _ srt]) (auto intro!: that simp: cr_union_interval_def up)
qed

lemma cr_invert_spec:
  assumes cr: "cr_ready 2 cr"
  obtains r cr' where "cr_invert cr = Some (r, cr')"
    and "cr_wf cr'" and "r = 0 \<or> r = -1" and "r = 0 \<Longrightarrow> canonical (cr_pts cr')"
    and "r = 0 \<Longrightarrow> cr_len cr' \<le> cr_len cr + 2"
    and "\<And>x. r = 0 \<Longrightarrow> in_ranges (cr_pts cr') x \<longleftrightarrow> x \<noteq> UINT32_MAX \<and> \<not> in_ranges (cr_pts cr) x"
    and "cr_nofail cr \<Longrightarrow> r = 0 \<and> cr_nofail cr'"
proof -
  let ?n = "cr_len cr"
  have wf: "cr_wf cr" and srt: "sorted (cr_pts cr)" and ev: "even ?n" and lim: "?n + 2 \<le> CR_LIMIT"
    using cr by (auto simp: cr_ready_def)
  from cr_realloc_spec[OF wf lim] obtain r cr1 where
    ra: "cr_realloc cr (?n + 2) = Some (r, cr1)" "cr_wf cr1" "cr_len cr1 = ?n" "cr_pts cr1 = cr_pts cr"
    and ok: "r = 0 \<Longrightarrow> ?n + 2 \<le> cr_size cr1" and bad: "r \<noteq> 0 \<Longrightarrow> r = -1"
    and nf: "cr_nofail cr \<Longrightarrow> r = 0 \<and> cr_nofail cr1" by blast
  show thesis
  proof (cases "r = 0")
    case False
    then show thesis using ra bad nf by (intro that[of "-1" cr1]) (auto simp: cr_invert_def)
  next
    case True
    let ?ps = "0 # cr_pts cr @ [UINT32_MAX]"
    have room: "?n + 2 \<le> length (cr_points cr1)" using ok[OF True] ra(2) by (simp add: cr_wf_def)
    have len: "length (cr_pts cr) = ?n" by (rule length_cr_pts[OF wf])
    have rd: "mem_read (cr_points cr1) 0 ?n = Some (cr_pts cr)"
      using room ra(3,4) by (simp add: cr_pts_def)
    obtain p0 rest where pts: "cr_points cr1 = p0 # rest" using room by (cases "cr_points cr1") auto
    define pts2 where "pts2 = (0 # cr_pts cr @ drop ?n rest)[?n + 1 := UINT32_MAX]"
    have take2: "take (?n + 2) pts2 = ?ps"
      using room len pts by (auto simp: pts2_def list_update_append take_Suc_conv_app_nth nth_append)
    have len2: "length pts2 = length (cr_points cr1)" using room len pts by (simp add: pts2_def)
    define cr2 where "cr2 = cr1\<lparr>cr_points := pts2, cr_len := ?n + 2\<rparr>"
    have wf2: "cr_wf cr2" using ra(2) ok[OF True] len2 by (simp add: cr2_def cr_wf_def)
    have p2: "cr_pts cr2 = ?ps" using take2 by (simp add: cr2_def cr_pts_def)
    from cr_compress_spec[OF wf2] obtain cr3 where c: "cr_compress cr2 = Some cr3" "cr_wf cr3"
      "cr_pts cr3 = ranges_merge ?ps" "cr_len cr3 \<le> cr_len cr2" "cr_nofail cr3 = cr_nofail cr2"
      unfolding p2 by blast
    have nf2: "cr_nofail cr2 = cr_nofail cr1" by (simp add: cr2_def cr_nofail_def)
    have "mem_write (cr_points cr1) 1 (cr_pts cr) = Some (p0 # cr_pts cr @ drop ?n rest)"
      using room len pts by simp
    moreover have "mem_set (p0 # cr_pts cr @ drop ?n rest) 0 0 = Some (0 # cr_pts cr @ drop ?n rest)"
      by simp
    moreover have "mem_set (0 # cr_pts cr @ drop ?n rest) (?n + 1) UINT32_MAX = Some pts2"
      using room len pts by (simp add: pts2_def)
    ultimately have "cr_invert cr = Some (0, cr3)"
      using ra(1) True c(1) unfolding cr_invert_def
      by (simp only: rd bind.bind_lunit prod.case cr2_def if_False simp_thms)
    moreover have srt2: "sorted ?ps"
      using srt u32_le_max by (auto simp: sorted_append)
    have ev2: "even (length ?ps)" using ev len by simp
    have "in_ranges ?ps x \<longleftrightarrow> x \<noteq> UINT32_MAX \<and> \<not> in_ranges (cr_pts cr) x" for x
    proof (cases "x = UINT32_MAX")
      case mx: True
      have "\<forall>p \<in> set (cr_pts cr). p \<le> x" using srt2 mx by (auto simp: sorted_append)
      then have "cnt (cr_pts cr) x = ?n" using cnt_all len by metis
      then show ?thesis using mx ev in_ranges_iff_odd[OF srt2 ev2, of x] by simp
    next
      case False
      then show ?thesis
        using in_ranges_iff_odd[OF srt2 ev2, of x] in_ranges_iff_odd[OF srt, of x] ev len
        by (simp add: u32_max_le)
    qed
    ultimately show thesis
      using that[of 0 cr3] c ranges_merge_spec[OF srt2 ev2] nf nf2 by (simp add: cr2_def)
  qed
qed

lemma cr_copy_spec:
  assumes wf: "cr_wf cr" and wf1: "cr_wf cr1" and n: "cr_len cr1 \<le> CR_LIMIT"
  obtains r cr' where "cr_copy cr cr1 = Some (r, cr')" and "cr_wf cr'"
    and "r = 0 \<Longrightarrow> cr_pts cr' = cr_pts cr1" and "r \<noteq> 0 \<Longrightarrow> r = -1 \<and> cr_pts cr' = cr_pts cr"
    and "cr_nofail cr \<Longrightarrow> r = 0 \<and> cr_nofail cr'"
proof -
  from cr_realloc_spec[OF wf n] obtain r c2 where
    ra: "cr_realloc cr (cr_len cr1) = Some (r, c2)" "cr_wf c2" "cr_pts c2 = cr_pts cr"
    and ok: "r = 0 \<Longrightarrow> cr_len cr1 \<le> cr_size c2" and bad: "r \<noteq> 0 \<Longrightarrow> r = -1"
    and nf: "cr_nofail cr \<Longrightarrow> r = 0 \<and> cr_nofail c2" by blast
  have l1: "cr_len cr1 \<le> length (cr_points cr1)" using wf1 by (simp add: cr_wf_def)
  show thesis
  proof (cases "r = 0")
    case False
    then show thesis using ra bad nf by (intro that[of "-1" c2]) (auto simp: cr_copy_def)
  next
    case True
    let ?pts = "take (cr_len cr1) (cr_points cr1) @ drop (cr_len cr1) (cr_points c2)"
    have room: "cr_len cr1 \<le> length (cr_points c2)" using ok[OF True] ra(2) by (simp add: cr_wf_def)
    show thesis
      by (rule that[of 0 "c2\<lparr>cr_points := ?pts, cr_len := cr_len cr1\<rparr>"])
         (use ra True room l1 ok nf in \<open>simp_all add: cr_copy_def mem_read_def mem_write_def cr_wf_def cr_pts_def cr_nofail_def min_absorb2\<close>)
  qed
qed

section \<open>What the clients of ranges rely on\<close>

text \<open>
  A client accumulates intervals and may complement the result at the end (this is what the
  class compiler and the property tables do). It relies on three laws only: adding an interval
  is set union, inversion is complement below the last code, and both report an allocation
  failure by a non-zero code. \<open>ready n r\<close> says that \<open>r\<close> has room for \<open>n\<close> more points under the
  size limit.
\<close>

locale range_algebra =
  fixes member :: "'r \<Rightarrow> u32 \<Rightarrow> bool"
    and ready :: "nat \<Rightarrow> 'r \<Rightarrow> bool"
    and add :: "'r \<Rightarrow> u32 \<Rightarrow> u32 \<Rightarrow> (int \<times> 'r) option"
    and invert :: "'r \<Rightarrow> (int \<times> 'r) option"
    and nofail :: "'r \<Rightarrow> bool"
  assumes ready_mono: "ready n r \<Longrightarrow> m \<le> n \<Longrightarrow> ready m r"
    and add_law: "ready (n + 2) r \<Longrightarrow> c1 \<le> c2 \<Longrightarrow> c2 \<noteq> UINT32_MAX \<Longrightarrow>
      \<exists>code r'. add r c1 c2 = Some (code, r') \<and> (code = 0 \<or> code = -1) \<and>
        (code = 0 \<longrightarrow> ready n r' \<and> (\<forall>x. member r' x = (member r x \<or> c1 \<le> x \<and> x \<le> c2))) \<and>
        (nofail r \<longrightarrow> code = 0 \<and> nofail r')"
    and invert_law: "ready (n + 2) r \<Longrightarrow>
      \<exists>code r'. invert r = Some (code, r') \<and> (code = 0 \<or> code = -1) \<and>
        (code = 0 \<longrightarrow> ready n r' \<and> (\<forall>x. member r' x = (x \<noteq> UINT32_MAX \<and> \<not> member r x))) \<and>
        (nofail r \<longrightarrow> code = 0 \<and> nofail r')"
begin

fun add_all :: "'r \<Rightarrow> (u32 \<times> u32) list \<Rightarrow> (int \<times> 'r) option" where
  "add_all r [] = Some (0, r)"
| "add_all r ((c1, c2) # ivs) =
     do {
       (code, r) \<leftarrow> add r c1 c2;
       if code \<noteq> 0 then Some (-1, r) else add_all r ivs
     }"

lemma add_all_spec:
  assumes "ready (n + 2 * length ivs) r" and "\<forall>(c1, c2) \<in> set ivs. c1 \<le> c2 \<and> c2 \<noteq> UINT32_MAX"
  shows "\<exists>code r'. add_all r ivs = Some (code, r') \<and> (code = 0 \<or> code = -1) \<and>
    (code = 0 \<longrightarrow> ready n r' \<and>
       (\<forall>x. member r' x = (member r x \<or> (\<exists>(c1, c2) \<in> set ivs. c1 \<le> x \<and> x \<le> c2)))) \<and>
    (nofail r \<longrightarrow> code = 0 \<and> nofail r')"
  using assms
proof (induction r ivs rule: add_all.induct)
  case (1 r)
  then show ?case by simp
next
  case (2 r c1 c2 ivs)
  have "ready (n + 2 * length ivs + 2) r" using "2.prems"(1) by (simp add: algebra_simps)
  from add_law[OF this, of c1 c2] "2.prems"(2) obtain code r1 where
    a: "add r c1 c2 = Some (code, r1)" "code = 0 \<or> code = -1"
    and ok: "code = 0 \<longrightarrow> ready (n + 2 * length ivs) r1
      \<and> (\<forall>x. member r1 x = (member r x \<or> c1 \<le> x \<and> x \<le> c2))"
    and nf: "nofail r \<longrightarrow> code = 0 \<and> nofail r1" by auto
  show ?case
  proof (cases "code = 0")
    case True
    with "2.IH"[OF a(1) refl] ok "2.prems" a nf show ?thesis by fastforce
  next
    case False
    with a nf show ?thesis by simp
  qed
qed

definition class_of :: "'r \<Rightarrow> bool \<Rightarrow> (u32 \<times> u32) list \<Rightarrow> (int \<times> 'r) option" where
  "class_of r neg ivs =
     do {
       (code, r) \<leftarrow> add_all r ivs;
       if code \<noteq> 0 then Some (-1, r)
       else if neg then invert r
       else Some (0, r)
     }"

lemma class_of_spec:
  assumes "ready (n + 2 + 2 * length ivs) r"
    and "\<forall>(c1, c2) \<in> set ivs. c1 \<le> c2 \<and> c2 \<noteq> UINT32_MAX" and "\<forall>x. \<not> member r x"
  shows "\<exists>code r'. class_of r neg ivs = Some (code, r') \<and> (code = 0 \<or> code = -1) \<and>
    (code = 0 \<longrightarrow> (\<forall>x. x \<noteq> UINT32_MAX \<longrightarrow>
       (member r' x \<longleftrightarrow> (\<exists>(c1, c2) \<in> set ivs. c1 \<le> x \<and> x \<le> c2) \<noteq> neg))) \<and>
    (nofail r \<longrightarrow> code = 0)"
proof -
  from add_all_spec[OF assms(1,2)] obtain code r1 where
    a: "add_all r ivs = Some (code, r1)" "code = 0 \<or> code = -1" "nofail r \<longrightarrow> code = 0 \<and> nofail r1"
    and ok: "code = 0 \<longrightarrow> ready (n + 2) r1 \<and>
       (\<forall>x. member r1 x = (member r x \<or> (\<exists>(c1, c2) \<in> set ivs. c1 \<le> x \<and> x \<le> c2)))" by blast
  show ?thesis
  proof (cases "code = 0 \<and> neg")
    case True
    from invert_law[of n r1] ok True obtain code' r2 where
      "invert r1 = Some (code', r2)" "code' = 0 \<or> code' = -1" "nofail r1 \<longrightarrow> code' = 0"
      "code' = 0 \<longrightarrow> (\<forall>x. member r2 x = (x \<noteq> UINT32_MAX \<and> \<not> member r1 x))" by blast
    with a ok True assms(3) show ?thesis by (auto simp: class_of_def)
  next
    case False
    with a ok assms(3) show ?thesis by (auto simp: class_of_def)
  qed
qed

end

interpretation cr: range_algebra "\<lambda>cr. in_ranges (cr_pts cr)" cr_ready cr_union_interval cr_invert
  cr_nofail
proof (unfold_locales, goal_cases)
  case (1 n r m)
  then show ?case by (simp add: cr_ready_def)
next
  case (2 n r c1 c2)
  have "cr_ready 2 r" and lim: "cr_len r + 2 + n \<le> CR_LIMIT" using 2 by (simp_all add: cr_ready_def)
  from cr_union_interval_spec[OF this(1) 2(2,3)] obtain code r' where
    "cr_union_interval r c1 c2 = Some (code, r')" "cr_wf r'" "code = 0 \<or> code = -1"
    "code = 0 \<Longrightarrow> canonical (cr_pts r')" "code = 0 \<Longrightarrow> cr_len r' \<le> cr_len r + 2"
    "\<And>x. code = 0 \<Longrightarrow> in_ranges (cr_pts r') x \<longleftrightarrow> in_ranges (cr_pts r) x \<or> (c1 \<le> x \<and> x \<le> c2)"
    "cr_nofail r \<Longrightarrow> code = 0 \<and> cr_nofail r'"
    by blast
  note R = this
  have rdy: "cr_ready n r'" if "code = 0"
    by (rule cr_readyI[OF R(2) R(4)[OF that]]) (use R(5)[OF that] lim in linarith)
  show ?case
    by (intro exI[of _ code] exI[of _ r'] conjI impI allI R(1,3) rdy R(6))
       (use R(7) in simp_all)
next
  case (3 n r)
  have "cr_ready 2 r" and lim: "cr_len r + 2 + n \<le> CR_LIMIT" using 3 by (simp_all add: cr_ready_def)
  from cr_invert_spec[OF this(1)] obtain code r' where
    "cr_invert r = Some (code, r')" "cr_wf r'" "code = 0 \<or> code = -1"
    "code = 0 \<Longrightarrow> canonical (cr_pts r')" "code = 0 \<Longrightarrow> cr_len r' \<le> cr_len r + 2"
    "\<And>x. code = 0 \<Longrightarrow> in_ranges (cr_pts r') x \<longleftrightarrow> x \<noteq> UINT32_MAX \<and> \<not> in_ranges (cr_pts r) x"
    "cr_nofail r \<Longrightarrow> code = 0 \<and> cr_nofail r'"
    by blast
  note R = this
  have rdy: "cr_ready n r'" if "code = 0"
    by (rule cr_readyI[OF R(2) R(4)[OF that]]) (use R(5)[OF that] lim in linarith)
  show ?case
    by (intro exI[of _ code] exI[of _ r'] conjI impI allI R(1,3) rdy R(6))
       (use R(7) in simp_all)
qed

section \<open>Properties of the range operations\<close>

text \<open>
  C4. \<open>cr_op\<close> computes union, intersection and symmetric difference: for sorted operands
  of even length it never leaves its arrays, and the result is canonical (strictly increasing, so
  neither empty nor touching ranges remain) and denotes the set operation on the operands' code
  points; it fails only on an allocation failure.
\<close>
theorem cr_op_set_semantics:
  assumes "sorted A" and "sorted B" and "even (length A)" and "even (length B)"
    and "length A + length B \<le> CR_LIMIT"
  shows "\<exists>r cr. cr_op (cr_init h) A (length A) B (length B) op = Some (r, cr) \<and> (r = 0 \<or> r = -1) \<and>
    (r = 0 \<longrightarrow> canonical (cr_pts cr) \<and>
       (\<forall>x. in_ranges (cr_pts cr) x = cr_op_in op (in_ranges A x) (in_ranges B x))) \<and>
    (heap_ok h \<longrightarrow> r = 0)"
  by (rule cr_op_spec[of "length A" A "length B" B "cr_init h" op])
     (use assms in \<open>auto simp: cr_init_def cr_wf_def cr_nofail_def\<close>)

theorem cr_op_set_semantics_witness:
  "\<exists>cr. cr_op (cr_init []) [1, 5, 8, 9] 4 [3, 8] 2 CR_OP_XOR = Some (0, cr) \<and>
     canonical (cr_pts cr) \<and> \<not> in_ranges (cr_pts cr) 4 \<and> in_ranges (cr_pts cr) 8"
proof -
  have len: "length [1, 5, 8, 9 :: u32] = 4" "length [3, 8 :: u32] = 2" by simp_all
  show ?thesis
    using cr_op_set_semantics[of "[1, 5, 8, 9]" "[3, 8]" "[]" CR_OP_XOR, unfolded len]
    by (auto simp: CR_LIMIT_def)
qed

text \<open>
  C33. \<open>cr_invert\<close> complements a range set within the codes below \<open>UINT32_MAX\<close>, also when
  the set is empty or starts at 0, and keeps it canonical.
\<close>
theorem cr_invert_complements:
  assumes "cr_ready 2 cr"
  shows "\<exists>r cr'. cr_invert cr = Some (r, cr') \<and> (r = 0 \<or> r = -1) \<and>
    (r = 0 \<longrightarrow> canonical (cr_pts cr') \<and>
       (\<forall>x. in_ranges (cr_pts cr') x \<longleftrightarrow> x \<noteq> UINT32_MAX \<and> \<not> in_ranges (cr_pts cr) x)) \<and>
    (cr_nofail cr \<longrightarrow> r = 0)"
  by (rule cr_invert_spec[OF assms]) auto

theorem cr_invert_complements_witness:
  "\<exists>cr. cr_invert \<lparr>cr_len = 2, cr_size = 4, cr_points = [0, 10, 0, 0], cr_opaque = []\<rparr> = Some (0, cr) \<and>
     canonical (cr_pts cr) \<and> (\<forall>x. in_ranges (cr_pts cr) x \<longleftrightarrow> x \<noteq> UINT32_MAX \<and> \<not> x < 10)"
  using cr_invert_complements[of "\<lparr>cr_len = 2, cr_size = 4, cr_points = [0, 10, 0, 0], cr_opaque = []\<rparr>"]
  by (auto simp: cr_ready_def cr_wf_def cr_pts_def CR_LIMIT_def cr_nofail_def)

text \<open>
  C34. \<open>cr_union_interval\<close> adds the closed interval \<open>c1\<close> to \<open>c2\<close> to a range set and to
  nothing else, whatever its position relative to the ranges already there.
\<close>
theorem cr_union_interval_adds:
  assumes "cr_ready 2 cr" and "c1 \<le> c2" and "c2 \<noteq> UINT32_MAX"
  shows "\<exists>r cr'. cr_union_interval cr c1 c2 = Some (r, cr') \<and> (r = 0 \<or> r = -1) \<and>
    (r = 0 \<longrightarrow> canonical (cr_pts cr') \<and> cr_len cr' \<le> cr_len cr + 2 \<and>
       (\<forall>x. in_ranges (cr_pts cr') x \<longleftrightarrow> in_ranges (cr_pts cr) x \<or> c1 \<le> x \<and> x \<le> c2)) \<and>
    (cr_nofail cr \<longrightarrow> r = 0)"
  by (rule cr_union_interval_spec[OF assms]) auto

theorem cr_union_interval_adds_witness:
  "\<exists>cr. cr_union_interval \<lparr>cr_len = 2, cr_size = 2, cr_points = [4, 10], cr_opaque = []\<rparr> 10 12 =
       Some (0, cr) \<and> (\<forall>x. in_ranges (cr_pts cr) x \<longleftrightarrow> 4 \<le> x \<and> x < 10 \<or> 10 \<le> x \<and> x \<le> 12)"
  using cr_union_interval_adds[of "\<lparr>cr_len = 2, cr_size = 2, cr_points = [4, 10], cr_opaque = []\<rparr>" 10 12]
  by (auto simp: cr_ready_def cr_wf_def cr_pts_def CR_LIMIT_def UINT32_MAX_def cr_nofail_def)

end
