(* ===== verification/Unicode_Props.thy ===== *)
theory Unicode_Props
  imports Unicode_Range Unicode_Lookup
begin

text \<open>
  Character ranges for Unicode properties, \<open>quickjs/libunicode.c\<close>: the decoders that turn a
  table into a range (binary properties, general categories, case changes, scripts), the small
  stack machine \<open>unicode_prop_ops\<close> that combines them, and the lookup of names.

  The C code passes the allocator of the range it fills to the ranges it creates on the way.
  Here the heap of outcomes is threaded: a new range starts with the outcomes its predecessor
  left, so every sequence of outcomes over all ranges is covered.
\<close>

section \<open>Binary properties\<close>

text \<open>Adding an interval and leaving with \<open>-1\<close> on failure, the idiom of all the decoders.\<close>

definition add_or_fail ::
  "bool \<Rightarrow> char_range \<Rightarrow> u32 \<Rightarrow> u32 \<Rightarrow> (char_range \<Rightarrow> (int \<times> char_range) option)
     \<Rightarrow> (int \<times> char_range) option" where
  "add_or_fail cond cr c1 c2 k =
     (if cond then
        do {
          (r, cr) \<leftarrow> cr_add_interval cr c1 c2;
          if r \<noteq> 0 then Some (-1, cr) else k cr
        }
      else k cr)"

lemma add_or_fail_cong [fundef_cong]:
  "cond = cond' \<Longrightarrow> cr = cr' \<Longrightarrow> c1 = c1' \<Longrightarrow> c2 = c2' \<Longrightarrow> (\<And>cr. k cr = k' cr) \<Longrightarrow>
   add_or_fail cond cr c1 c2 k = add_or_fail cond' cr' c1' c2' k'"
  by (simp add: add_or_fail_def cong: if_cong)

function prop1_loop :: "char_range \<Rightarrow> u32 \<Rightarrow> bool \<Rightarrow> u8 list \<Rightarrow> (int \<times> char_range) option" where
  "prop1_loop cr c inb [] = Some (0, cr)"
| "prop1_loop cr c inb (b # p) =
     (if b < 64 then
        let c1 = c + (drop_bit 3 (ucast b) + 1);
            c2 = c1 + ((ucast b AND 7) + 1) in
        add_or_fail inb cr c c1 (\<lambda>cr.
        add_or_fail (\<not> inb) cr c1 c2 (\<lambda>cr.
        prop1_loop cr c2 inb p))
      else
        case long_run b p of
          None \<Rightarrow> None
        | Some (n, p') \<Rightarrow>
            add_or_fail inb cr c (c + n) (\<lambda>cr.
            prop1_loop cr (c + n) (\<not> inb) p'))"
  by pat_completeness auto
termination
  by (relation "measure (\<lambda>(cr, c, inb, p). length p)") (auto dest: long_run_length)

definition unicode_prop1 :: "char_range \<Rightarrow> nat \<Rightarrow> (int \<times> char_range) option" where
  "unicode_prop1 cr prop_idx =
     do {
       t \<leftarrow> mem_get unicode_prop_table prop_idx;
       n \<leftarrow> mem_get unicode_prop_len_table prop_idx;
       prop1_loop cr 0 False (take n t)
     }"

section \<open>General categories\<close>

definition GC_MASK :: "nat \<Rightarrow> u32" where
  "GC_MASK gc = push_bit gc 1"

definition GC_MASKS :: "nat list \<Rightarrow> u32" where
  "GC_MASKS gcs = fold (\<lambda>gc m. m OR GC_MASK gc) gcs 0"

text \<open>One entry of the table: the length of the run less one, its category, the bytes after it.\<close>

definition gc_entry :: "u8 \<Rightarrow> u8 list \<Rightarrow> (u32 \<times> u32 \<times> u8 list) option" where
  "gc_entry b p =
     (let n = drop_bit 5 (ucast b) :: u32; v = ucast b AND 0x1f in
      if n = 7 then
        (case p of
           [] \<Rightarrow> None
         | p0 # p \<Rightarrow>
             if p0 < 128 then Some (ucast p0 + 7, v, p)
             else if p0 < 128 + 64 then
               (case p of
                  [] \<Rightarrow> None
                | p1 # p \<Rightarrow> Some ((push_bit 8 (ucast p0 - 128) OR ucast p1) + (7 + 128), v, p))
             else
               (case p of
                  p1 # p2 # p \<Rightarrow>
                    Some ((push_bit 16 (ucast p0 - 128 - 64) OR push_bit 8 (ucast p1) OR ucast p2)
                            + (7 + 128 + 0x4000), v, p)
                | _ \<Rightarrow> None))
      else Some (n, v, p))"

lemma gc_entry_length: "gc_entry b p = Some (n, v, p') \<Longrightarrow> length p' \<le> length p"
  by (auto simp: gc_entry_def Let_def split: if_splits list.splits)

text \<open>
  The loop over every second code of a run of alternating \<open>Lu\<close> and \<open>Ll\<close>. A wrap of \<open>c0\<close>
  would start the loop again below \<open>c\<close>; it is \<open>None\<close> here and excluded by the bounds of the
  table's codes.
\<close>

function add_every_second :: "char_range \<Rightarrow> u32 \<Rightarrow> u32 \<Rightarrow> (int \<times> char_range) option" where
  "add_every_second cr c0 c =
     (if c0 < c then
        if unat c0 + 2 < 2 ^ 32
        then add_or_fail True cr c0 (c0 + 1) (\<lambda>cr. add_every_second cr (c0 + 2) c)
        else None
      else Some (0, cr))"
  by pat_completeness auto
termination
  by (relation "measure (\<lambda>(cr, c0, c). unat c - unat c0)") (auto simp: word_less_nat_alt unat_word_ariths)

declare add_every_second.simps [simp del]

text \<open>What the loop does for one run \<open>[c0, c)\<close> of category \<open>v\<close>; \<open>31\<close> is a run of \<open>Lu\<close> / \<open>Ll\<close>.\<close>

definition gc1_entry ::
  "char_range \<Rightarrow> u32 \<Rightarrow> u32 \<Rightarrow> u32 \<Rightarrow> u32 \<Rightarrow> (int \<times> char_range) option" where
  "gc1_entry cr gc_mask c0 c v =
     (let lu_ll = GC_MASK UNICODE_GC_Lu OR GC_MASK UNICODE_GC_Ll in
      if v = 31 then
        let m = gc_mask AND lu_ll in
        if m \<noteq> 0 then
          if m = lu_ll then cr_add_interval cr c0 c
          else add_every_second cr (c0 + (if gc_mask AND GC_MASK UNICODE_GC_Ll \<noteq> 0 then 1 else 0)) c
        else Some (0, cr)
      else if drop_bit (unat v) gc_mask AND 1 \<noteq> 0 then cr_add_interval cr c0 c
      else Some (0, cr))"

function gc1_loop :: "char_range \<Rightarrow> u32 \<Rightarrow> u32 \<Rightarrow> u8 list \<Rightarrow> (int \<times> char_range) option" where
  "gc1_loop cr gc_mask c0 [] = Some (0, cr)"
| "gc1_loop cr gc_mask c0 (b # p) =
     (case gc_entry b p of
        None \<Rightarrow> None
      | Some (n, v, p') \<Rightarrow>
          (case gc1_entry cr gc_mask c0 (c0 + (n + 1)) v of
             None \<Rightarrow> None
           | Some (r, cr) \<Rightarrow>
               if r \<noteq> 0 then Some (-1, cr) else gc1_loop cr gc_mask (c0 + (n + 1)) p'))"
  by pat_completeness auto
termination
  by (relation "measure (\<lambda>(cr, m, c, p). length p)") (auto dest: gc_entry_length)

definition unicode_general_category1 :: "char_range \<Rightarrow> u32 \<Rightarrow> (int \<times> char_range) option" where
  "unicode_general_category1 cr gc_mask = gc1_loop cr gc_mask 0 unicode_gc_table"

section \<open>Case changes\<close>

definition CASE_U :: u32 where "CASE_U = 1"
definition CASE_L :: u32 where "CASE_L = 2"
definition CASE_F :: u32 where "CASE_F = 4"

lemmas CASE_defs = CASE_U_def CASE_L_def CASE_F_def

definition MR :: "u32 list \<Rightarrow> u32" where
  "MR types = fold (\<lambda>t m. m OR push_bit (unat t) 1) types 0"

definition tab_run_mask :: "u32 list" where
  "tab_run_mask =
     [MR [RUN_TYPE_U, RUN_TYPE_UF, RUN_TYPE_UL, RUN_TYPE_LSU, RUN_TYPE_U2L_399_EXT2,
          RUN_TYPE_UF_D20, RUN_TYPE_UF_D1_EXT, RUN_TYPE_U_EXT, RUN_TYPE_U_EXT2, RUN_TYPE_U_EXT3],
      MR [RUN_TYPE_L, RUN_TYPE_LF, RUN_TYPE_UL, RUN_TYPE_LSU, RUN_TYPE_U2L_399_EXT2,
          RUN_TYPE_LF_EXT, RUN_TYPE_L_EXT2],
      MR [RUN_TYPE_UF, RUN_TYPE_LF, RUN_TYPE_UL, RUN_TYPE_LSU, RUN_TYPE_U2L_399_EXT2,
          RUN_TYPE_LF_EXT, RUN_TYPE_UF_D20, RUN_TYPE_UF_D1_EXT, RUN_TYPE_LF_EXT]]"

definition case_run_mask :: "u32 \<Rightarrow> u32" where
  "case_run_mask case_mask =
     fold (\<lambda>i m. if drop_bit i case_mask AND 1 \<noteq> 0 then m OR tab_run_mask ! i else m) [0..<3] 0"

text \<open>The loop over every second code of an alternating run: \<open>for(i = 0; i < len; i += 2)\<close>.\<close>

function add_alternate :: "char_range \<Rightarrow> u32 \<Rightarrow> nat \<Rightarrow> nat \<Rightarrow> (int \<times> char_range) option" where
  "add_alternate cr code i n =
     (if i < n then
        add_or_fail True cr (code + of_nat i) (code + of_nat i + 1) (\<lambda>cr.
        add_alternate cr code (i + 2) n)
      else Some (0, cr))"
  by pat_completeness auto
termination
  by (relation "measure (\<lambda>(cr, code, i, n). n - i)") auto

declare add_alternate.simps [simp del]

text \<open>The \<open>switch\<close> for one entry whose type is in the mask.\<close>

definition case1_entry :: "char_range \<Rightarrow> u32 \<Rightarrow> u32 \<Rightarrow> (int \<times> char_range) option" where
  "case1_entry cr case_mask v =
     (let type = case_type v; code = run_code 17 v; n = run_len 17 v;
          up = (case_mask AND CASE_U \<noteq> 0);
          both = (up \<and> case_mask AND (CASE_L OR CASE_F) \<noteq> 0) in
      if type = RUN_TYPE_UL \<and> \<not> both then
        add_alternate cr (code + (if up then 1 else 0)) 0 (unat n)
      else if type = RUN_TYPE_LSU \<and> \<not> both then
        add_or_fail (\<not> up) cr code (code + 1) (\<lambda>cr.
        add_or_fail True cr (code + 1) (code + 2) (\<lambda>cr.
        add_or_fail up cr (code + 2) (code + 3) (\<lambda>cr.
        Some (0, cr))))
      else
        add_or_fail True cr code (code + n) (\<lambda>cr. Some (0, cr)))"

fun case1_loop :: "char_range \<Rightarrow> u32 \<Rightarrow> u32 \<Rightarrow> u32 list \<Rightarrow> (int \<times> char_range) option" where
  "case1_loop cr case_mask run_mask [] = Some (0, cr)"
| "case1_loop cr case_mask run_mask (v # vs) =
     (if drop_bit (unat (case_type v)) run_mask AND 1 \<noteq> 0 then
        case case1_entry cr case_mask v of
          None \<Rightarrow> None
        | Some (r, cr) \<Rightarrow> if r \<noteq> 0 then Some (-1, cr) else case1_loop cr case_mask run_mask vs
      else case1_loop cr case_mask run_mask vs)"

definition unicode_case1 :: "char_range \<Rightarrow> u32 \<Rightarrow> (int \<times> char_range) option" where
  "unicode_case1 cr case_mask =
     (if case_mask = 0 then Some (0, cr)
      else case1_loop cr case_mask (case_run_mask case_mask) case_conv_table1)"

section \<open>The stack machine\<close>

datatype prop_op =
    POP_GC u32
  | POP_PROP nat
  | POP_CASE u32
  | POP_UNION
  | POP_INTER
  | POP_XOR
  | POP_INVERT
  | POP_END

definition POP_STACK_LEN_MAX :: nat where
  "POP_STACK_LEN_MAX = 4"

text \<open>
  The stack has its top first. A failed \<open>assert\<close>, or running past the arguments, is \<open>None\<close>. The
  result is the final range of the caller, or the code \<open>-1\<close> with the caller's range and the
  heap left.
\<close>

definition prop_push ::
  "(char_range \<Rightarrow> (int \<times> char_range) option) \<Rightarrow> char_range list \<Rightarrow> u32 heap
     \<Rightarrow> (int \<times> char_range list \<times> u32 heap) option" where
  "prop_push f stack h =
     (if length stack < POP_STACK_LEN_MAX then
        do {
          (r, c) \<leftarrow> f (cr_init h);
          Some (r, c # stack, cr_opaque c)
        }
      else None)"

definition prop_binop ::
  "cr_op_kind \<Rightarrow> char_range list \<Rightarrow> u32 heap \<Rightarrow> (int \<times> char_range list \<times> u32 heap) option" where
  "prop_binop op stack h =
     (case stack of
        cr2 # cr1 # rest \<Rightarrow>
          if length stack < POP_STACK_LEN_MAX then
            do {
              (r, cr3) \<leftarrow> cr_op (cr_init h) (cr_points cr1) (cr_len cr1) (cr_points cr2) (cr_len cr2) op;
              Some (r, if r \<noteq> 0 then cr3 # stack else cr3 # rest, cr_opaque cr3)
            }
          else None
      | _ \<Rightarrow> None)"

definition prop_invert ::
  "char_range list \<Rightarrow> u32 heap \<Rightarrow> (int \<times> char_range list \<times> u32 heap) option" where
  "prop_invert stack h =
     (case stack of
        c # rest \<Rightarrow>
          do { (r, c) \<leftarrow> cr_invert (c\<lparr>cr_opaque := h\<rparr>); Some (r, c # rest, cr_opaque c) }
      | [] \<Rightarrow> None)"

fun prop_step ::
  "prop_op \<Rightarrow> char_range list \<Rightarrow> u32 heap \<Rightarrow> (int \<times> char_range list \<times> u32 heap) option" where
  "prop_step (POP_GC m) stack h = prop_push (\<lambda>c. unicode_general_category1 c m) stack h"
| "prop_step (POP_PROP i) stack h = prop_push (\<lambda>c. unicode_prop1 c i) stack h"
| "prop_step (POP_CASE m) stack h = prop_push (\<lambda>c. unicode_case1 c m) stack h"
| "prop_step POP_UNION stack h = prop_binop CR_OP_UNION stack h"
| "prop_step POP_INTER stack h = prop_binop CR_OP_INTER stack h"
| "prop_step POP_XOR stack h = prop_binop CR_OP_XOR stack h"
| "prop_step POP_INVERT stack h = prop_invert stack h"
| "prop_step POP_END stack h = None"

fun prop_ops_loop ::
  "char_range \<Rightarrow> prop_op list \<Rightarrow> char_range list \<Rightarrow> u32 heap \<Rightarrow> (int \<times> char_range) option" where
  "prop_ops_loop cr [] stack h = None"
| "prop_ops_loop cr (op # ops) stack h =
     (if op = POP_END then
        (case stack of
           [c] \<Rightarrow> cr_copy (cr\<lparr>cr_opaque := h\<rparr>) c
         | _ \<Rightarrow> None)
      else do {
        (r, stack, h) \<leftarrow> prop_step op stack h;
        if r \<noteq> 0 then Some (-1, cr\<lparr>cr_opaque := h\<rparr>) else prop_ops_loop cr ops stack h
      })"

definition unicode_prop_ops :: "char_range \<Rightarrow> prop_op list \<Rightarrow> (int \<times> char_range) option" where
  "unicode_prop_ops cr ops = prop_ops_loop cr ops [] (cr_opaque cr)"

section \<open>Names\<close>

text \<open>
  A name table is a sequence of zero-terminated strings, each a comma-separated list of aliases;
  an empty string ends it. \<open>find_alias\<close> is the inner loop at the suffix \<open>p\<close> of the table with
  the outer loop's test at each terminator; the result \<open>-1\<close> is "not found".
\<close>

definition alias_len :: "u8 list \<Rightarrow> nat" where
  "alias_len p = length (takeWhile (\<lambda>c. c \<noteq> 0 \<and> c \<noteq> 44) p)"

function find_alias :: "u8 list \<Rightarrow> int \<Rightarrow> u8 list \<Rightarrow> int option" where
  "find_alias p pos name =
     (let n = alias_len p in
      if n < length p then
        if n = length name \<and> take n p = name then Some pos
        else if p ! n = 44 then find_alias (drop (n + 1) p) pos name
        else
          (case drop (n + 1) p of
             [] \<Rightarrow> None
           | c # p' \<Rightarrow> if c = 0 then Some (-1) else find_alias (c # p') (pos + 1) name)
      else None)"
  by pat_completeness auto
termination
proof (relation "measure (\<lambda>(p, pos, name). length p)", goal_cases)
  case 1
  show ?case by simp
next
  case 2
  then show ?case by simp
next
  case (3 p pos name n c p')
  then have "Suc (length p') = length p - (n + 1)" by (metis length_Cons length_drop)
  with 3 show ?case by simp
qed

declare find_alias.simps [simp del]

definition unicode_find_name :: "u8 list \<Rightarrow> u8 list \<Rightarrow> int option" where
  "unicode_find_name name_table name =
     (case name_table of
        [] \<Rightarrow> None
      | c # _ \<Rightarrow> if c = 0 then Some (-1) else find_alias name_table 0 name)"

section \<open>Scripts\<close>

text \<open>One entry of the script table: length of the run less one, script, bytes after it.\<close>

definition script_entry :: "u8 \<Rightarrow> u8 list \<Rightarrow> (u32 \<times> u32 \<times> u8 list) option" where
  "script_entry b p =
     (let type = drop_bit 7 (ucast b) :: u32; n = ucast b AND 0x7f :: u32 in
      do {
        (n, p) \<leftarrow>
          (if n < 96 then Some (n, p)
           else if n < 112 then
             (case p of
                p0 # p \<Rightarrow> Some ((push_bit 8 (n - 96) OR ucast p0) + 96, p)
              | _ \<Rightarrow> None)
           else
             (case p of
                p0 # p1 # p \<Rightarrow>
                  Some ((push_bit 16 (n - 112) OR push_bit 8 (ucast p0) OR ucast p1) + (96 + 0x1000), p)
              | _ \<Rightarrow> None));
        if type = 0 then Some (n, 0, p)
        else (case p of p0 # p \<Rightarrow> Some (n, ucast p0, p) | _ \<Rightarrow> None)
      })"

lemma script_entry_length: "script_entry b p = Some (n, v, p') \<Longrightarrow> length p' \<le> length p"
  by (auto simp: script_entry_def Let_def Option.bind_eq_Some_conv split: if_splits list.splits)

function script_loop :: "char_range \<Rightarrow> u32 \<Rightarrow> u32 \<Rightarrow> u8 list \<Rightarrow> (int \<times> char_range) option" where
  "script_loop cr script_idx c [] = Some (0, cr)"
| "script_loop cr script_idx c (b # p) =
     (case script_entry b p of
        None \<Rightarrow> None
      | Some (n, v, p') \<Rightarrow>
          add_or_fail (v = script_idx) cr c (c + n + 1) (\<lambda>cr.
          script_loop cr script_idx (c + n + 1) p'))"
  by pat_completeness auto
termination
  by (relation "measure (\<lambda>(cr, s, c, p). length p)") (auto dest: script_entry_length)

text \<open>One entry of the extension table: run, list of scripts, bytes after it.\<close>

definition script_ext_entry :: "u8 \<Rightarrow> u8 list \<Rightarrow> (u32 \<times> u8 list \<times> u8 list) option" where
  "script_ext_entry b p =
     do {
       (n, p) \<leftarrow>
         (if b < 128 then Some (ucast b, p)
          else if b < 128 + 64 then
            (case p of
               p0 # p \<Rightarrow> Some ((push_bit 8 (ucast b - 128) OR ucast p0) + 128, p)
             | _ \<Rightarrow> None)
          else
            (case p of
               p0 # p1 # p \<Rightarrow>
                 Some ((push_bit 16 (ucast b - 128 - 64) OR push_bit 8 (ucast p0) OR ucast p1)
                         + (128 + 0x4000), p)
             | _ \<Rightarrow> None));
       case p of
         [] \<Rightarrow> None
       | v_len # p \<Rightarrow>
           if unat v_len \<le> length p then Some (n, take (unat v_len) p, drop (unat v_len) p) else None
     }"

lemma script_ext_entry_length: "script_ext_entry b p = Some (n, vs, p') \<Longrightarrow> length p' \<le> length p"
  by (auto simp: script_ext_entry_def Option.bind_eq_Some_conv split: if_splits list.splits)

function script_ext_loop ::
  "char_range \<Rightarrow> bool \<Rightarrow> u32 \<Rightarrow> u32 \<Rightarrow> u8 list \<Rightarrow> (int \<times> char_range) option" where
  "script_ext_loop cr2 is_common script_idx c [] = Some (0, cr2)"
| "script_ext_loop cr2 is_common script_idx c (b # p) =
     (case script_ext_entry b p of
        None \<Rightarrow> None
      | Some (n, vs, p') \<Rightarrow>
          add_or_fail (if is_common then vs \<noteq> [] else \<exists>v \<in> set vs. ucast v = script_idx)
            cr2 c (c + n + 1) (\<lambda>cr2.
          script_ext_loop cr2 is_common script_idx (c + n + 1) p'))"
  by pat_completeness auto
termination
  by (relation "measure (\<lambda>(cr, s, t, c, p). length p)") (auto dest: script_ext_entry_length)

text \<open>
  The error path of \<open>unicode_script\<close> ends in \<open>goto fail\<close>, a jump to itself: without extensions
  it never returns, with extensions it frees the two ranges again. Neither has a result: \<open>None\<close>.
\<close>

definition or_hang :: "(int \<times> char_range) option \<Rightarrow> char_range option" where
  "or_hang res = do { (r, cr) \<leftarrow> res; if r \<noteq> 0 then None else Some cr }"

definition unicode_script :: "char_range \<Rightarrow> u8 list \<Rightarrow> bool \<Rightarrow> (int \<times> char_range) option" where
  "unicode_script cr script_name is_ext =
     do {
       idx \<leftarrow> unicode_find_name unicode_script_name_table script_name;
       if idx < 0 then Some (-2, cr)
       else do {
         let script_idx = nat idx + (UNICODE_SCRIPT_Unknown + 1);
         let s = (of_nat script_idx :: u32);
         let is_common = (script_idx = UNICODE_SCRIPT_Common \<or> script_idx = UNICODE_SCRIPT_Inherited);
         if \<not> is_ext then do {
           cr \<leftarrow> or_hang (script_loop cr s 0 unicode_script_table);
           Some (0, cr)
         } else do {
           cr1 \<leftarrow> or_hang (script_loop (cr_init (cr_opaque cr)) s 0 unicode_script_table);
           cr2 \<leftarrow> or_hang (script_ext_loop (cr_init (cr_opaque cr1)) is_common s 0 unicode_script_ext_table);
           if is_common then do {
             cr2 \<leftarrow> or_hang (cr_invert cr2);
             cr \<leftarrow> or_hang (cr_op (cr\<lparr>cr_opaque := cr_opaque cr2\<rparr>) (cr_points cr1) (cr_len cr1)
                     (cr_points cr2) (cr_len cr2) CR_OP_INTER);
             Some (0, cr)
           } else do {
             cr \<leftarrow> or_hang (cr_op (cr\<lparr>cr_opaque := cr_opaque cr2\<rparr>) (cr_points cr1) (cr_len cr1)
                     (cr_points cr2) (cr_len cr2) CR_OP_UNION);
             Some (0, cr)
           }
         }
       }
     }"

section \<open>Categories and properties by name\<close>

definition unicode_gc_mask_table :: "u32 list" where
  "unicode_gc_mask_table =
     [GC_MASKS [UNICODE_GC_Lu, UNICODE_GC_Ll, UNICODE_GC_Lt],
      GC_MASKS [UNICODE_GC_Lu, UNICODE_GC_Ll, UNICODE_GC_Lt, UNICODE_GC_Lm, UNICODE_GC_Lo],
      GC_MASKS [UNICODE_GC_Mn, UNICODE_GC_Mc, UNICODE_GC_Me],
      GC_MASKS [UNICODE_GC_Nd, UNICODE_GC_Nl, UNICODE_GC_No],
      GC_MASKS [UNICODE_GC_Sm, UNICODE_GC_Sc, UNICODE_GC_Sk, UNICODE_GC_So],
      GC_MASKS [UNICODE_GC_Pc, UNICODE_GC_Pd, UNICODE_GC_Ps, UNICODE_GC_Pe, UNICODE_GC_Pi,
                UNICODE_GC_Pf, UNICODE_GC_Po],
      GC_MASKS [UNICODE_GC_Zs, UNICODE_GC_Zl, UNICODE_GC_Zp],
      GC_MASKS [UNICODE_GC_Cc, UNICODE_GC_Cf, UNICODE_GC_Cs, UNICODE_GC_Co, UNICODE_GC_Cn]]"

definition unicode_general_category :: "char_range \<Rightarrow> u8 list \<Rightarrow> (int \<times> char_range) option" where
  "unicode_general_category cr gc_name =
     do {
       gc_idx \<leftarrow> unicode_find_name unicode_gc_name_table gc_name;
       if gc_idx < 0 then Some (-2, cr)
       else if nat gc_idx \<le> UNICODE_GC_Co then
         unicode_general_category1 cr (push_bit (nat gc_idx) 1)
       else do {
         gc_mask \<leftarrow> mem_get unicode_gc_mask_table (nat gc_idx - UNICODE_GC_LC);
         unicode_general_category1 cr gc_mask
       }
     }"

definition prop_program :: "nat \<Rightarrow> prop_op list option" where
  "prop_program prop_idx =
     (if prop_idx = UNICODE_PROP_Assigned then
        Some [POP_GC (GC_MASK UNICODE_GC_Cn), POP_INVERT, POP_END]
      else if prop_idx = UNICODE_PROP_Math then
        Some [POP_GC (GC_MASK UNICODE_GC_Sm), POP_PROP UNICODE_PROP_Other_Math, POP_UNION, POP_END]
      else if prop_idx = UNICODE_PROP_Lowercase then
        Some [POP_GC (GC_MASK UNICODE_GC_Ll), POP_PROP UNICODE_PROP_Other_Lowercase, POP_UNION, POP_END]
      else if prop_idx = UNICODE_PROP_Uppercase then
        Some [POP_GC (GC_MASK UNICODE_GC_Lu), POP_PROP UNICODE_PROP_Other_Uppercase, POP_UNION, POP_END]
      else if prop_idx = UNICODE_PROP_Cased then
        Some [POP_GC (GC_MASKS [UNICODE_GC_Lu, UNICODE_GC_Ll, UNICODE_GC_Lt]),
              POP_PROP UNICODE_PROP_Other_Uppercase, POP_UNION,
              POP_PROP UNICODE_PROP_Other_Lowercase, POP_UNION, POP_END]
      else if prop_idx = UNICODE_PROP_Alphabetic then
        Some [POP_GC (GC_MASKS [UNICODE_GC_Lu, UNICODE_GC_Ll, UNICODE_GC_Lt, UNICODE_GC_Lm,
                                UNICODE_GC_Lo, UNICODE_GC_Nl]),
              POP_PROP UNICODE_PROP_Other_Uppercase, POP_UNION,
              POP_PROP UNICODE_PROP_Other_Lowercase, POP_UNION,
              POP_PROP UNICODE_PROP_Other_Alphabetic, POP_UNION, POP_END]
      else if prop_idx = UNICODE_PROP_Grapheme_Base then
        Some [POP_GC (GC_MASKS [UNICODE_GC_Cc, UNICODE_GC_Cf, UNICODE_GC_Cs, UNICODE_GC_Co,
                                UNICODE_GC_Cn, UNICODE_GC_Zl, UNICODE_GC_Zp, UNICODE_GC_Me,
                                UNICODE_GC_Mn]),
              POP_PROP UNICODE_PROP_Other_Grapheme_Extend, POP_UNION, POP_INVERT, POP_END]
      else if prop_idx = UNICODE_PROP_Grapheme_Extend then
        Some [POP_GC (GC_MASKS [UNICODE_GC_Me, UNICODE_GC_Mn]),
              POP_PROP UNICODE_PROP_Other_Grapheme_Extend, POP_UNION, POP_END]
      else if prop_idx = UNICODE_PROP_XID_Start then
        Some [POP_GC (GC_MASKS [UNICODE_GC_Lu, UNICODE_GC_Ll, UNICODE_GC_Lt, UNICODE_GC_Lm,
                                UNICODE_GC_Lo, UNICODE_GC_Nl]),
              POP_PROP UNICODE_PROP_Other_ID_Start, POP_UNION,
              POP_PROP UNICODE_PROP_Pattern_Syntax, POP_PROP UNICODE_PROP_Pattern_White_Space,
              POP_UNION, POP_PROP UNICODE_PROP_XID_Start1, POP_UNION, POP_INVERT, POP_INTER, POP_END]
      else if prop_idx = UNICODE_PROP_XID_Continue then
        Some [POP_GC (GC_MASKS [UNICODE_GC_Lu, UNICODE_GC_Ll, UNICODE_GC_Lt, UNICODE_GC_Lm,
                                UNICODE_GC_Lo, UNICODE_GC_Nl, UNICODE_GC_Mn, UNICODE_GC_Mc,
                                UNICODE_GC_Nd, UNICODE_GC_Pc]),
              POP_PROP UNICODE_PROP_Other_ID_Start, POP_UNION,
              POP_PROP UNICODE_PROP_Other_ID_Continue, POP_UNION,
              POP_PROP UNICODE_PROP_Pattern_Syntax, POP_PROP UNICODE_PROP_Pattern_White_Space,
              POP_UNION, POP_PROP UNICODE_PROP_XID_Continue1, POP_UNION, POP_INVERT, POP_INTER, POP_END]
      else if prop_idx = UNICODE_PROP_Changes_When_Titlecased then
        Some [POP_CASE CASE_U, POP_PROP UNICODE_PROP_Changes_When_Titlecased1, POP_XOR, POP_END]
      else if prop_idx = UNICODE_PROP_Changes_When_Casefolded then
        Some [POP_CASE CASE_F, POP_PROP UNICODE_PROP_Changes_When_Casefolded1, POP_XOR, POP_END]
      else if prop_idx = UNICODE_PROP_Changes_When_NFKC_Casefolded then
        Some [POP_CASE CASE_F, POP_PROP UNICODE_PROP_Changes_When_NFKC_Casefolded1, POP_XOR, POP_END]
      else if prop_idx = UNICODE_PROP_ID_Continue then
        Some [POP_PROP UNICODE_PROP_ID_Start, POP_PROP UNICODE_PROP_ID_Continue1, POP_XOR, POP_END]
      else None)"

definition unicode_prop :: "char_range \<Rightarrow> u8 list \<Rightarrow> (int \<times> char_range) option" where
  "unicode_prop cr prop_name =
     do {
       idx \<leftarrow> unicode_find_name unicode_prop_name_table prop_name;
       if idx < 0 then Some (-2, cr)
       else
         let prop_idx = nat idx + UNICODE_PROP_ASCII_Hex_Digit in
         if prop_idx = UNICODE_PROP_ASCII then
           do { (r, cr) \<leftarrow> cr_add_interval cr 0x00 (0x7f + 1); Some (if r \<noteq> 0 then -1 else 0, cr) }
         else if prop_idx = UNICODE_PROP_Any then
           do { (r, cr) \<leftarrow> cr_add_interval cr 0x00000 (0x10ffff + 1); Some (if r \<noteq> 0 then -1 else 0, cr) }
         else if prop_idx = UNICODE_PROP_Changes_When_Uppercased then unicode_case1 cr CASE_U
         else if prop_idx = UNICODE_PROP_Changes_When_Lowercased then unicode_case1 cr CASE_L
         else if prop_idx = UNICODE_PROP_Changes_When_Casemapped then
           unicode_case1 cr (CASE_U OR CASE_L OR CASE_F)
         else
           (case prop_program prop_idx of
              Some ops \<Rightarrow> unicode_prop_ops cr ops
            | None \<Rightarrow>
                if prop_idx \<ge> length unicode_prop_table then Some (-2, cr)
                else unicode_prop1 cr prop_idx)
     }"

section \<open>Decoding a table of runs builds the set the table stands for\<close>

text \<open>The points a table of runs adds: both ends of every run that is in.\<close>

fun runs_points :: "nat \<Rightarrow> bool \<Rightarrow> nat list \<Rightarrow> u32 list" where
  "runs_points c inb [] = []"
| "runs_points c inb (r # rs) =
     (if inb then [of_nat c, of_nat (c + r)] else []) @ runs_points (c + r) (\<not> inb) rs"

lemma length_runs_points: "length (runs_points c inb rs) \<le> 2 * length rs"
  by (induction c inb rs rule: runs_points.induct) auto

lemma even_runs_points: "even (length (runs_points c inb rs))"
  by (induction c inb rs rule: runs_points.induct) auto

lemma unat_of_nat_u32: "n < 2 ^ 32 \<Longrightarrow> unat (of_nat n :: u32) = n"
  by (simp add: unat_of_nat take_bit_nat_eq_self)

lemma runs_points_sorted:
  assumes "c + sum_list rs < 2 ^ 32" and "\<forall>r \<in> set rs. 0 < r"
  shows "sorted_wrt (<) (runs_points c inb rs)
    \<and> (\<forall>p \<in> set (runs_points c inb rs). (if inb then c \<le> unat p else c < unat p))"
  using assms
proof (induction c inb rs rule: runs_points.induct)
  case (2 c inb r rs)
  have IH: "sorted_wrt (<) (runs_points (c + r) (\<not> inb) rs)"
    "\<forall>p \<in> set (runs_points (c + r) (\<not> inb) rs). (if \<not> inb then c + r \<le> unat p else c + r < unat p)"
    using "2.IH" "2.prems" by auto
  have u: "unat (of_nat c :: u32) = c" "unat (of_nat (c + r) :: u32) = c + r" "0 < r"
    using "2.prems" by (simp_all add: unat_of_nat_u32 del: of_nat_add)
  show ?case
  proof (cases inb)
    case True
    then have "\<forall>p \<in> set (runs_points (c + r) False rs). c + r < unat p" using IH(2) by simp
    moreover from this have "\<forall>p \<in> set (runs_points (c + r) False rs). of_nat (c + r) < p"
      using u(2) by (simp add: word_less_nat_alt del: of_nat_add)
    moreover have "of_nat c < (of_nat (c + r) :: u32)"
      using u by (simp add: word_less_nat_alt del: of_nat_add)
    ultimately show ?thesis using True IH(1) u by (fastforce simp del: of_nat_add)
  next
    case False
    then have "\<forall>p \<in> set (runs_points (c + r) True rs). c + r \<le> unat p" using IH(2) by simp
    then show ?thesis using False IH(1) u(3) by fastforce
  qed
qed simp

lemma runs_points_lower:
  "c + sum_list rs < 2 ^ 32 \<Longrightarrow> \<forall>p \<in> set (runs_points c inb rs). c \<le> unat p"
proof (induction c inb rs rule: runs_points.induct)
  case (2 c inb r rs)
  have "unat (of_nat c :: u32) = c" "unat (of_nat (c + r) :: u32) = c + r"
    using "2.prems" by (simp_all add: unat_of_nat_u32 del: of_nat_add)
  then show ?case using "2.IH" "2.prems" by (fastforce simp del: of_nat_add)
qed simp

lemma in_ranges_lower: "in_ranges ps x \<Longrightarrow> \<exists>y \<in> set ps. y \<le> x"
  by (induction ps x rule: in_ranges.induct) auto

lemma runs_points_in:
  assumes "c + sum_list rs < 2 ^ 32" and "c \<le> unat x"
  shows "in_ranges (runs_points c inb rs) x = runs_in rs inb (unat x - c)"
  using assms
proof (induction c inb rs rule: runs_points.induct)
  case (2 c inb r rs)
  have u: "unat (of_nat c :: u32) = c" "unat (of_nat (c + r) :: u32) = c + r"
    using "2.prems" by (simp_all add: unat_of_nat_u32 del: of_nat_add)
  have le: "of_nat c \<le> x" using "2.prems"(2) u by (simp add: word_le_nat_alt)
  show ?case
  proof (cases "c + r \<le> unat x")
    case True
    then have "\<not> x < of_nat (c + r)" "\<not> unat x - c < r" "unat x - c - r = unat x - (c + r)"
      using u by (auto simp: word_less_nat_alt simp del: of_nat_add)
    then show ?thesis using "2.IH" "2.prems" True by (cases inb) (simp_all del: of_nat_add)
  next
    case False
    then have lt: "x < of_nat (c + r)" "unat x - c < r"
      using u "2.prems"(2) by (auto simp: word_less_nat_alt simp del: of_nat_add)
    have "\<not> in_ranges (runs_points (c + r) b rs) x" for b
      using in_ranges_lower[of "runs_points (c + r) b rs" x] runs_points_lower[of "c + r" rs b]
        "2.prems"(1) False by (fastforce simp: word_le_nat_alt)
    then show ?thesis using le lt by (cases inb) (simp_all del: of_nat_add)
  qed
qed simp

lemma add_or_fail_spec:
  assumes wf: "cr_wf cr" and room: "cr_len cr + 2 \<le> CR_LIMIT"
  obtains (ok) cr' where "add_or_fail cond cr c1 c2 k = k cr'" and "cr_wf cr'"
      and "cr_pts cr' = cr_pts cr @ (if cond then [c1, c2] else [])"
      and "cr_len cr' \<le> cr_len cr + 2" and "cr_nofail cr \<Longrightarrow> cr_nofail cr'"
  | (fail) cr' where "add_or_fail cond cr c1 c2 k = Some (-1, cr')" and "cr_wf cr'"
      and "\<not> cr_nofail cr"
proof (cases cond)
  case True
  from cr_add_interval_spec[OF wf room] obtain r cr' where
    a: "cr_add_interval cr c1 c2 = Some (r, cr')" "cr_wf cr'"
    and p: "r = 0 \<Longrightarrow> cr_pts cr' = cr_pts cr @ [c1, c2] \<and> cr_len cr' = cr_len cr + 2"
    and nf: "cr_nofail cr \<Longrightarrow> r = 0 \<and> cr_nofail cr'" by blast
  show thesis
  proof (cases "r = 0")
    case z: True
    show thesis by (rule ok[of cr']) (use a p[OF z] z True nf in \<open>simp_all add: add_or_fail_def\<close>)
  next
    case False
    then show thesis using a True nf by (intro fail[of cr']) (auto simp: add_or_fail_def)
  qed
next
  case False
  then show thesis using wf by (intro ok[of cr]) (simp_all add: add_or_fail_def)
qed

lemma prop1_loop_spec:
  assumes "table_runs p = Some rs" and "unat c + sum_list rs < 2 ^ 32"
    and "cr_wf cr" and "cr_len cr + 2 * length rs \<le> CR_LIMIT"
  shows "\<exists>r cr'. prop1_loop cr c inb p = Some (r, cr') \<and> cr_wf cr' \<and> (r = 0 \<or> r = -1) \<and>
    (r = 0 \<longrightarrow> cr_pts cr' = cr_pts cr @ runs_points (unat c) inb rs) \<and>
    (cr_nofail cr \<longrightarrow> r = 0 \<and> cr_nofail cr')"
  using assms
proof (induction cr c inb p arbitrary: rs rule: prop1_loop.induct)
  case (1 cr c inb)
  then show ?case by simp
next
  case (2 cr c inb b p)
  show ?case
  proof (cases "b < 64")
    case True
    define n1 :: u32 where "n1 = drop_bit 3 (ucast b) + 1"
    define n2 :: u32 where "n2 = (ucast b AND 7) + 1"
    from "2.prems"(1) True obtain rs' where rs: "table_runs p = Some rs'"
      "rs = unat n1 # unat n2 # rs'"
      using short_run_lens[OF True] by (auto simp: n1_def n2_def)
    have u1: "unat (c + n1) = unat c + unat n1"
      using "2.prems"(2) rs by (intro unat_add_less) simp
    have u2: "unat (c + n1 + n2) = unat c + unat n1 + unat n2"
      using "2.prems"(2) rs u1 by (subst unat_add_less) simp_all
    have w: "of_nat (unat c + unat n1) = c + n1" "of_nat (unat c + unat n1 + unat n2) = c + n1 + n2"
      by simp_all
    have step: "prop1_loop cr c inb (b # p) =
        add_or_fail inb cr c (c + n1) (\<lambda>cr. add_or_fail (\<not> inb) cr (c + n1) (c + n1 + n2) (\<lambda>cr.
          prop1_loop cr (c + n1 + n2) inb p))"
      using True by (simp add: n1_def n2_def Let_def)
    note IH = "2.IH"(1)[OF True refl refl, folded n1_def n2_def, OF rs(1)]
    have room: "cr_len cr + 2 \<le> CR_LIMIT" using "2.prems"(4) rs by simp
    show ?thesis
    proof (cases rule: add_or_fail_spec[OF "2.prems"(3) room, of inb c "c + n1"
        "\<lambda>cr. add_or_fail (\<not> inb) cr (c + n1) (c + n1 + n2) (\<lambda>cr. prop1_loop cr (c + n1 + n2) inb p)"])
      case (2 cr')
      then show ?thesis unfolding step by auto
    next
      case one: (1 cr1)
      have room1: "cr_len cr1 + 2 \<le> CR_LIMIT" using one(4) "2.prems"(4) rs by simp
      show ?thesis
      proof (cases rule: add_or_fail_spec[OF one(2) room1, of "\<not> inb" "c + n1" "c + n1 + n2"
          "\<lambda>cr. prop1_loop cr (c + n1 + n2) inb p"])
        case (2 cr')
        then show ?thesis unfolding step one(1) using one(5) by auto
      next
        case two: (1 cr2)
        have "cr_len cr2 + 2 * length rs' \<le> CR_LIMIT" using two(4) one(4) "2.prems"(4) rs by simp
        moreover have "unat (c + n1 + n2) + sum_list rs' < 2 ^ 32" using "2.prems"(2) rs u2 by simp
        ultimately obtain r cr' where "prop1_loop cr2 (c + n1 + n2) inb p = Some (r, cr')" "cr_wf cr'"
          "r = 0 \<or> r = -1" "r = 0 \<longrightarrow> cr_pts cr' = cr_pts cr2 @ runs_points (unat (c + n1 + n2)) inb rs'"
          "cr_nofail cr2 \<longrightarrow> r = 0 \<and> cr_nofail cr'"
          using IH[of cr2] two(2) by blast
        then show ?thesis unfolding step one(1) two(1) using two(3,5) one(3,5) rs u2 w
          by (intro exI[of _ r] exI[of _ cr']) (cases inb; simp)
      qed
    qed
  next
    case False
    with "2.prems"(1) obtain n p' rs' where l: "long_run b p = Some (n, p')"
      and rs: "table_runs p' = Some rs'" "rs = unat n # rs'"
      by (auto split: option.splits)
    have u1: "unat (c + n) = unat c + unat n"
      using "2.prems"(2) rs by (intro unat_add_less) simp
    have step: "prop1_loop cr c inb (b # p) =
        add_or_fail inb cr c (c + n) (\<lambda>cr. prop1_loop cr (c + n) (\<not> inb) p')"
      using False l by simp
    have room: "cr_len cr + 2 \<le> CR_LIMIT" using "2.prems"(4) rs by simp
    show ?thesis
    proof (cases rule: add_or_fail_spec[OF "2.prems"(3) room, of inb c "c + n"
        "\<lambda>cr. prop1_loop cr (c + n) (\<not> inb) p'"])
      case (2 cr')
      then show ?thesis unfolding step by auto
    next
      case one: (1 cr1)
      have "cr_len cr1 + 2 * length rs' \<le> CR_LIMIT" using one(4) "2.prems"(4) rs by simp
      moreover have "unat (c + n) + sum_list rs' < 2 ^ 32" using "2.prems"(2) rs u1 by simp
      ultimately obtain r cr' where "prop1_loop cr1 (c + n) (\<not> inb) p' = Some (r, cr')" "cr_wf cr'"
        "r = 0 \<or> r = -1" "r = 0 \<longrightarrow> cr_pts cr' = cr_pts cr1 @ runs_points (unat (c + n)) (\<not> inb) rs'"
        "cr_nofail cr1 \<longrightarrow> r = 0 \<and> cr_nofail cr'"
        using "2.IH"(2)[OF False l refl rs(1), of cr1] one(2) by blast
      then show ?thesis unfolding step one(1) using one(3,5) rs u1
        by (intro exI[of _ r] exI[of _ cr']) (cases inb; simp)
    qed
  qed
qed

text \<open>
  Every property table decodes, to runs within 32 bits. The check runs over the bytes once, with
  the sum of the runs as an accumulator.
\<close>

function runs_check :: "nat \<Rightarrow> u8 list \<Rightarrow> bool" where
  "runs_check acc [] = (acc < 2 ^ 32)"
| "runs_check acc (b # p) =
     (if b < 64 then runs_check (acc + (unat b div 8 + unat b mod 8 + 2)) p
      else
        (case long_run b p of
           None \<Rightarrow> False
         | Some (r, p') \<Rightarrow> runs_check (acc + unat r) p'))"
  by pat_completeness auto
termination
  by (relation "measure (\<lambda>(acc, p). length p)") (auto dest: long_run_length)

definition runs_ok :: "u8 list \<Rightarrow> bool" where
  "runs_ok t \<longleftrightarrow> (\<exists>rs. table_runs t = Some rs \<and> sum_list rs < 2 ^ 32 \<and> length t \<le> 2 ^ 16)"

lemma runs_check_spec:
  "runs_check acc p \<Longrightarrow> \<exists>rs. table_runs p = Some rs \<and> acc + sum_list rs < 2 ^ 32"
proof (induction acc p rule: runs_check.induct)
  case (2 acc b p)
  show ?case
  proof (cases "b < 64")
    case True
    with 2 obtain rs where "table_runs p = Some rs"
      "acc + (unat b div 8 + unat b mod 8 + 2) + sum_list rs < 2 ^ 32" by auto
    with True show ?thesis by simp
  next
    case False
    with "2.prems" obtain r p' where l: "long_run b p = Some (r, p')"
      and r: "runs_check (acc + unat r) p'" by (auto split: option.splits)
    from "2.IH"(2)[OF False l refl r] obtain rs where "table_runs p' = Some rs"
      "acc + unat r + sum_list rs < 2 ^ 32" by blast
    then show ?thesis using False l by simp
  qed
qed simp

lemma runs_okI: "runs_check 0 t \<Longrightarrow> length t \<le> 2 ^ 16 \<Longrightarrow> runs_ok t"
  using runs_check_spec[of 0 t] by (auto simp: runs_ok_def)

text \<open>An index that is right vouches for its table as well.\<close>

lemma runs_okI_index:
  assumes "index_ok t I n" and "length t \<le> 2 ^ 16"
  shows "runs_ok t"
  by (rule in_out.index_right_runs[OF assms(1)[unfolded index_ok_def]])
     (use assms(2) in \<open>auto simp: runs_ok_def\<close>)

lemmas runs_ok_eval = CR_LIMIT_def long_run.simps

lemma runs_ok_0:
  "runs_ok unicode_prop_IDS_Trinary_Operator_table"
  "runs_ok unicode_prop_Join_Control_table"
  "runs_ok unicode_prop_Regional_Indicator_table"
  "runs_ok unicode_prop_Emoji_Modifier_table"
  "runs_ok unicode_prop_ASCII_Hex_Digit_table"
  "runs_ok unicode_prop_IDS_Binary_Operator_table"
  "runs_ok unicode_prop_Radical_table"
  "runs_ok unicode_prop_Bidi_Control_table"
  "runs_ok unicode_prop_Other_ID_Start_table"
  "runs_ok unicode_prop_Pattern_White_Space_table"
  "runs_ok unicode_prop_Other_ID_Continue_table"
  "runs_ok unicode_prop_Hex_Digit_table"
  "runs_ok unicode_prop_Variation_Selector_table"
  "runs_ok unicode_prop_Other_Uppercase_table"
  "runs_ok unicode_prop_Logical_Order_Exception_table"
  "runs_ok unicode_prop_Prepended_Concatenation_Mark_table"
  "runs_ok unicode_prop_Changes_When_Titlecased1_table"
  "runs_ok unicode_prop_White_Space_table"
  "runs_ok unicode_prop_XID_Continue1_table"
  "runs_ok unicode_prop_Deprecated_table"
  "runs_ok unicode_prop_Hyphen_table"
  "runs_ok unicode_prop_Emoji_Component_table"
  "runs_ok unicode_prop_XID_Start1_table"
  "runs_ok unicode_prop_Quotation_Mark_table"
  "runs_ok unicode_prop_Other_Default_Ignorable_Code_Point_table"
  "runs_ok unicode_prop_Changes_When_Casefolded1_table"
  by (rule runs_okI; simp add: runs_ok_eval
      unicode_prop_IDS_Trinary_Operator_table_def
      unicode_prop_Join_Control_table_def
      unicode_prop_Regional_Indicator_table_def
      unicode_prop_Emoji_Modifier_table_def
      unicode_prop_ASCII_Hex_Digit_table_def
      unicode_prop_IDS_Binary_Operator_table_def
      unicode_prop_Radical_table_def
      unicode_prop_Bidi_Control_table_def
      unicode_prop_Other_ID_Start_table_def
      unicode_prop_Pattern_White_Space_table_def
      unicode_prop_Other_ID_Continue_table_def
      unicode_prop_Hex_Digit_table_def
      unicode_prop_Variation_Selector_table_def
      unicode_prop_Other_Uppercase_table_def
      unicode_prop_Logical_Order_Exception_table_def
      unicode_prop_Prepended_Concatenation_Mark_table_def
      unicode_prop_Changes_When_Titlecased1_table_def
      unicode_prop_White_Space_table_def
      unicode_prop_XID_Continue1_table_def
      unicode_prop_Deprecated_table_def
      unicode_prop_Hyphen_table_def
      unicode_prop_Emoji_Component_table_def
      unicode_prop_XID_Start1_table_def
      unicode_prop_Quotation_Mark_table_def
      unicode_prop_Other_Default_Ignorable_Code_Point_table_def
      unicode_prop_Changes_When_Casefolded1_table_def)+

lemma runs_ok_1:
  "runs_ok unicode_prop_Unified_Ideograph_table"
  "runs_ok unicode_prop_Other_Lowercase_table"
  "runs_ok unicode_prop_Default_Ignorable_Code_Point_table"
  "runs_ok unicode_prop_Dash_table"
  "runs_ok unicode_prop_Pattern_Syntax_table"
  "runs_ok unicode_prop_Other_Grapheme_Extend_table"
  "runs_ok unicode_prop_Ideographic_table"
  "runs_ok unicode_prop_Emoji_Modifier_Base_table"
  by (rule runs_okI; simp add: runs_ok_eval
      unicode_prop_Unified_Ideograph_table_def
      unicode_prop_Other_Lowercase_table_def
      unicode_prop_Default_Ignorable_Code_Point_table_def
      unicode_prop_Dash_table_def
      unicode_prop_Pattern_Syntax_table_def
      unicode_prop_Other_Grapheme_Extend_table_def
      unicode_prop_Ideographic_table_def
      unicode_prop_Emoji_Modifier_Base_table_def)+

lemma runs_ok_2:
  "runs_ok unicode_prop_Noncharacter_Code_Point_table"
  "runs_ok unicode_prop_Soft_Dotted_table"
  "runs_ok unicode_prop_Extender_table"
  "runs_ok unicode_prop_Emoji_Presentation_table"
  "runs_ok unicode_prop_Extended_Pictographic_table"
  by (rule runs_okI; simp add: runs_ok_eval
      unicode_prop_Noncharacter_Code_Point_table_def
      unicode_prop_Soft_Dotted_table_def
      unicode_prop_Extender_table_def
      unicode_prop_Emoji_Presentation_table_def
      unicode_prop_Extended_Pictographic_table_def)+

lemma runs_ok_3:
  "runs_ok unicode_prop_Bidi_Mirrored_table"
  "runs_ok unicode_prop_Sentence_Terminal_table"
  "runs_ok unicode_prop_Other_Math_table"
  by (rule runs_okI; simp add: runs_ok_eval
      unicode_prop_Bidi_Mirrored_table_def
      unicode_prop_Sentence_Terminal_table_def
      unicode_prop_Other_Math_table_def)+

lemma runs_ok_4:
  "runs_ok unicode_prop_Emoji_table"
  "runs_ok unicode_prop_Terminal_Punctuation_table"
  by (rule runs_okI; simp add: runs_ok_eval
      unicode_prop_Emoji_table_def
      unicode_prop_Terminal_Punctuation_table_def)+

lemma runs_ok_5:
  "runs_ok unicode_prop_Diacritic_table"
  "runs_ok unicode_prop_Other_Alphabetic_table"
  by (rule runs_okI; simp add: runs_ok_eval
      unicode_prop_Diacritic_table_parts
      unicode_prop_Other_Alphabetic_table_parts)+

lemma runs_ok_6:
  "runs_ok unicode_prop_Changes_When_NFKC_Casefolded1_table"
  by (rule runs_okI; simp add: runs_ok_eval
      unicode_prop_Changes_When_NFKC_Casefolded1_table_parts)+

lemma runs_ok_indexed:
  "runs_ok unicode_prop_ID_Start_table"
  "runs_ok unicode_prop_Case_Ignorable_table"
  "runs_ok unicode_prop_ID_Continue1_table"
  by (rule runs_okI_index, rule index_ok_ID_Start index_ok_Case_Ignorable index_ok_ID_Continue1,
      simp add: CR_LIMIT_def unicode_prop_ID_Start_table_parts
      unicode_prop_Case_Ignorable_table_parts
      unicode_prop_ID_Continue1_table_parts)+

lemma runs_ok_all: "t \<in> set unicode_prop_table \<Longrightarrow> runs_ok t"
  unfolding unicode_prop_table_def
  by (auto simp only: list.set insert_iff empty_iff runs_ok_indexed
      runs_ok_0 runs_ok_1 runs_ok_2 runs_ok_3 runs_ok_4 runs_ok_5 runs_ok_6)

end
