(* ===== verification/Unicode_Sets.thy ===== *)
theory Unicode_Sets
  imports Unicode_Props
begin

text \<open>
  The sets of code points that the property ranges of \<open>quickjs/libunicode.c\<close> denote: binary
  properties are the plain reading of their tables, and the same sets the predicates \<open>lre_is_*\<close>
  decide through the block index; general categories select the runs of their mask; the stack
  machine computes the boolean expression its program spells.
\<close>

section \<open>Binary properties\<close>

lemma unicode_prop_len_table_map: "unicode_prop_len_table = map length unicode_prop_table"
  by (simp add: unicode_prop_len_table_def unicode_prop_table_def)

definition fresh :: "char_range \<Rightarrow> bool" where
  "fresh cr \<longleftrightarrow> cr_wf cr \<and> cr_len cr = 0"

lemma fresh_init [simp]: "fresh (cr_init h)"
  by (simp add: fresh_def) (simp add: cr_init_def)

lemma fresh_pts: "fresh cr \<Longrightarrow> cr_pts cr = []"
  by (simp add: fresh_def cr_pts_def)

lemma unicode_prop1_spec:
  assumes idx: "prop_idx < length unicode_prop_table" and cr: "fresh cr"
  obtains r cr' where "unicode_prop1 cr prop_idx = Some (r, cr')" and "cr_wf cr'"
    and "r = 0 \<or> r = -1" and "r = 0 \<Longrightarrow> canonical (cr_pts cr')"
    and "r = 0 \<Longrightarrow> cr_set cr' = table_set (unicode_prop_table ! prop_idx)"
    and "r = 0 \<Longrightarrow> cr_len cr' \<le> 2 ^ 23" and "cr_nofail cr \<Longrightarrow> r = 0 \<and> cr_nofail cr'"
proof -
  define t where "t = unicode_prop_table ! prop_idx"
  have "runs_ok t" using idx by (simp add: t_def runs_ok_all)
  then obtain rs where rs: "table_runs t = Some rs" "sum_list rs < 2 ^ 32"
    and len: "length t \<le> 2 ^ 16" by (auto simp: runs_ok_def)
  have lrs: "2 * length rs \<le> 2 ^ 23" using table_runs_length[OF rs(1)] len by simp
  have wf: "cr_wf cr" and z: "cr_len cr = 0" using cr by (auto simp: fresh_def)
  have "cr_len cr + 2 * length rs \<le> CR_LIMIT" using lrs z by (simp add: CR_LIMIT_def)
  from prop1_loop_spec[OF rs(1) _ wf this, of 0 False] rs(2) obtain r cr' where
    lp: "prop1_loop cr 0 False t = Some (r, cr')" "cr_wf cr'" "r = 0 \<or> r = -1"
    and pts: "r = 0 \<longrightarrow> cr_pts cr' = cr_pts cr @ runs_points 0 False rs"
    and nf: "cr_nofail cr \<longrightarrow> r = 0 \<and> cr_nofail cr'" by auto
  have eq: "unicode_prop1 cr prop_idx = Some (r, cr')"
    using idx lp(1) by (simp add: unicode_prop1_def unicode_prop_len_table_map mem_get_def t_def)
  have p0: "cr_pts cr' = runs_points 0 False rs" if "r = 0" using pts that fresh_pts[OF cr] by simp
  have can: "canonical (runs_points 0 False rs)"
    using runs_points_sorted[of 0 rs False] rs even_runs_points table_runs_pos[OF rs(1)]
    by (auto simp: canonical_def)
  have "cr_set cr' = table_set t" if "r = 0"
    using p0[OF that] runs_points_in[of 0 rs _ False] rs by (auto simp: cr_set_def table_set_def)
  moreover have "cr_len cr' \<le> 2 ^ 23" if "r = 0"
    using p0[OF that] length_runs_points[of 0 False rs] length_cr_pts[OF lp(2)] lrs by simp
  ultimately show thesis using that[OF eq lp(2,3)] p0 can nf by (simp add: t_def)
qed

text \<open>The predicates that go through the block index decide the same sets.\<close>

lemma lre_is_id_start_spec: "lre_is_id_start c = Some (c \<in> table_set unicode_prop_ID_Start_table)"
  by (simp add: lre_is_id_start_def index_length lre_is_in_table_spec[OF index_ok_ID_Start])

lemma lre_is_case_ignorable_spec:
  "lre_is_case_ignorable c = Some (c \<in> table_set unicode_prop_Case_Ignorable_table)"
  by (simp add: lre_is_case_ignorable_def index_length lre_is_in_table_spec[OF index_ok_Case_Ignorable])

lemma lre_is_id_continue_spec:
  "lre_is_id_continue c = Some (c \<in> table_set unicode_prop_ID_Start_table \<union>
     table_set unicode_prop_ID_Continue1_table)"
  by (simp add: lre_is_id_continue_def lre_is_id_start_spec index_length
      lre_is_in_table_spec[OF index_ok_ID_Continue1])

section \<open>Accumulating increasing intervals\<close>

text \<open>
  The decoders of categories, scripts and case runs add intervals in increasing order. \<open>acc cr c S\<close>
  is their loop invariant: the points so far are sorted, lie at or below \<open>c\<close>, and denote \<open>S\<close>.
\<close>

definition acc :: "char_range \<Rightarrow> u32 \<Rightarrow> u32 set \<Rightarrow> bool" where
  "acc cr c S \<longleftrightarrow> cr_wf cr \<and> sorted (cr_pts cr) \<and> even (cr_len cr) \<and> (\<forall>p \<in> set (cr_pts cr). p \<le> c)
     \<and> cr_len cr \<le> 2 * unat c \<and> cr_set cr = S"

lemma acc_fresh: "fresh cr \<Longrightarrow> acc cr 0 {}"
  by (simp add: acc_def fresh_pts cr_set_def) (simp add: fresh_def)

lemma acc_mono: "acc cr c S \<Longrightarrow> c \<le> c' \<Longrightarrow> acc cr c' S"
  by (auto simp: acc_def word_le_nat_alt dest: order_trans)

lemma in_ranges_append:
  "even (length ps) \<Longrightarrow> in_ranges (ps @ qs) x \<longleftrightarrow> in_ranges ps x \<or> in_ranges qs x"
  by (induction ps x rule: in_ranges.induct) auto

lemma acc_add:
  assumes a: "acc cr c S" and le: "c \<le> c1" "c1 < c2" and lim: "unat c2 \<le> 2 ^ 27"
  obtains r cr' where "cr_add_interval cr c1 c2 = Some (r, cr')" and "r = 0 \<or> r = -1"
    and "cr_wf cr'" and "r = 0 \<Longrightarrow> acc cr' c2 (S \<union> {c1..<c2})"
    and "cr_nofail cr \<Longrightarrow> r = 0 \<and> cr_nofail cr'"
proof -
  have len: "cr_len cr \<le> 2 * unat c" "unat c < unat c2" using a le
    by (auto simp: acc_def word_le_nat_alt word_less_nat_alt)
  then have room: "cr_len cr + 2 \<le> CR_LIMIT" using lim by (simp add: CR_LIMIT_def)
  have wf: "cr_wf cr" using a by (simp add: acc_def)
  from cr_add_interval_spec[OF wf room] obtain r cr' where
    add: "cr_add_interval cr c1 c2 = Some (r, cr')" "cr_wf cr'"
    and ok: "r = 0 \<Longrightarrow> cr_pts cr' = cr_pts cr @ [c1, c2] \<and> cr_len cr' = cr_len cr + 2"
    and bad: "r \<noteq> 0 \<Longrightarrow> r = -1 \<and> cr_pts cr' = cr_pts cr"
    and nf: "cr_nofail cr \<Longrightarrow> r = 0 \<and> cr_nofail cr'" by blast
  have low: "\<forall>p \<in> set (cr_pts cr). p \<le> c1" using a le by (auto simp: acc_def dest: order_trans)
  have "acc cr' c2 (S \<union> {c1..<c2})" if "r = 0"
  proof -
    have "sorted (cr_pts cr @ [c1, c2])" using a low le by (auto simp: acc_def sorted_append dest: order_trans)
    moreover have "\<forall>p \<in> set (cr_pts cr @ [c1, c2]). p \<le> c2" using low le by (auto dest: order_trans)
    moreover have "in_ranges (cr_pts cr @ [c1, c2]) x \<longleftrightarrow> x \<in> S \<union> {c1..<c2}" for x
      using a in_ranges_append[of "cr_pts cr" "[c1, c2]" x] length_cr_pts[OF wf]
      by (auto simp: acc_def cr_set_def)
    ultimately show ?thesis using ok[OF that] add(2) a len
      by (auto simp: acc_def cr_set_def)
  qed
  then show thesis using that[OF add(1) _ add(2)] bad nf by blast
qed

lemma acc_add_or_fail:
  assumes a: "acc cr c S" and le: "c \<le> c1" "c1 < c2" and lim: "unat c2 \<le> 2 ^ 27"
  obtains (ok) cr' where "add_or_fail cond cr c1 c2 k = k cr'"
      and "acc cr' c2 (S \<union> (if cond then {c1..<c2} else {}))" and "cr_nofail cr \<Longrightarrow> cr_nofail cr'"
  | (fail) cr' where "add_or_fail cond cr c1 c2 k = Some (-1, cr')" and "cr_wf cr'"
      and "\<not> cr_nofail cr"
proof (cases cond)
  case True
  from acc_add[OF a le lim] obtain r cr' where
    add: "cr_add_interval cr c1 c2 = Some (r, cr')" "cr_wf cr'"
    and acc': "r = 0 \<Longrightarrow> acc cr' c2 (S \<union> {c1..<c2})"
    and nf: "cr_nofail cr \<Longrightarrow> r = 0 \<and> cr_nofail cr'" by blast
  show thesis
  proof (cases "r = 0")
    case z: True
    show thesis by (rule ok[of cr']) (use add acc'[OF z] z True nf in \<open>simp_all add: add_or_fail_def\<close>)
  next
    case False
    then show thesis using add True nf by (intro fail[of cr']) (auto simp: add_or_fail_def)
  qed
next
  case False
  have "acc cr c2 S" by (rule acc_mono[OF a]) (use le in auto)
  with False show thesis by (intro ok[of cr]) (simp_all add: add_or_fail_def)
qed

section \<open>General categories\<close>

text \<open>
  The plain reading of the table: runs of codes with their category. Category \<open>31\<close> stands for a
  run of alternating \<open>Lu\<close> and \<open>Ll\<close> that starts with \<open>Lu\<close>.
\<close>

function gc_runs :: "u8 list \<Rightarrow> (nat \<times> nat) list option" where
  "gc_runs [] = Some []"
| "gc_runs (b # p) =
     (case gc_entry b p of
        None \<Rightarrow> None
      | Some (n, v, p') \<Rightarrow> map_option (\<lambda>rs. (unat n + 1, unat v) # rs) (gc_runs p'))"
  by pat_completeness auto
termination
  by (relation "measure length") (auto dest: gc_entry_length)

fun gc_at :: "(nat \<times> nat) list \<Rightarrow> nat \<Rightarrow> nat option" where
  "gc_at [] x = None"
| "gc_at ((n, v) # rs) x =
     (if x < n then
        Some (if v = 31 then (if even x then UNICODE_GC_Lu else UNICODE_GC_Ll) else v)
      else gc_at rs (x - n))"

definition gc_selected :: "u32 \<Rightarrow> nat option \<Rightarrow> bool" where
  "gc_selected gc_mask g = (case g of None \<Rightarrow> False | Some g \<Rightarrow> bit gc_mask g)"

lemma drop_bit_and_1: "drop_bit n (m :: u32) AND 1 \<noteq> 0 \<longleftrightarrow> bit m n"
  by (simp add: bit_iff_odd_drop_bit and_one_eq odd_iff_mod_2_eq_one)

lemma every_second_nat:
  assumes "(a :: nat) < b"
  shows "(a \<le> x \<and> x < b \<and> even (x - a)) \<longleftrightarrow>
    x = a \<or> (a + 2 \<le> x \<and> x < b \<and> even (x - (a + 2)))"
proof (cases "a + 2 \<le> x")
  case True
  then obtain k where "x = a + 2 + k" using le_Suc_ex by blast
  then show ?thesis by simp
next
  case False
  then have "x < a \<or> x = a \<or> x = a + 1" by linarith
  then show ?thesis using assms by auto
qed

lemma add_every_second_spec:
  assumes "acc cr c S" and "c \<le> c0" and "unat c' \<le> 2 ^ 27" and "c \<le> c'"
  shows "\<exists>r cr'. add_every_second cr c0 c' = Some (r, cr') \<and> cr_wf cr' \<and> (r = 0 \<or> r = -1) \<and>
    (r = 0 \<longrightarrow> acc cr' c' (S \<union> {x. c0 \<le> x \<and> x < c' \<and> even (unat x - unat c0)})) \<and>
    (cr_nofail cr \<longrightarrow> r = 0 \<and> cr_nofail cr')"
  using assms
proof (induction cr c0 c' arbitrary: c S rule: add_every_second.induct)
  case (1 cr c0 c')
  show ?case
  proof (cases "c0 < c'")
    case False
    then have none: "{x. c0 \<le> x \<and> x < c' \<and> even (unat x - unat c0)} = {}" by auto
    show ?thesis using False acc_mono[OF "1.prems"(1,4)] unfolding none
      by (subst add_every_second.simps) (auto simp: acc_def)
  next
    case True
    then have lim: "unat c0 + 2 < 2 ^ 32" using "1.prems"(3) by (simp add: word_less_nat_alt)
    have u: "unat (c0 + 1) = unat c0 + 1" "unat (c0 + 2) = unat c0 + 2"
      using lim by (simp_all add: unat_add_less)
    have lt: "c0 < c0 + 1" "unat (c0 + 1) \<le> 2 ^ 27"
      using u True "1.prems"(3) by (simp_all add: word_less_nat_alt)
    have step: "add_every_second cr c0 c' =
        add_or_fail True cr c0 (c0 + 1) (\<lambda>cr. add_every_second cr (c0 + 2) c')"
      using True lim by (subst add_every_second.simps) simp
    show ?thesis
    proof (cases rule: acc_add_or_fail[OF "1.prems"(1,2) lt, of True "\<lambda>cr. add_every_second cr (c0 + 2) c'"])
      case (2 cr')
      then show ?thesis unfolding step by auto
    next
      case one: (1 cr1)
      have le: "c0 + 1 \<le> c0 + 2" "c0 + 1 \<le> c'"
        using u True by (simp_all add: word_le_nat_alt word_less_nat_alt)
      have split: "{c0..<c0 + 1} \<union> {x. c0 + 2 \<le> x \<and> x < c' \<and> even (unat x - unat (c0 + 2))}
          = {x. c0 \<le> x \<and> x < c' \<and> even (unat x - unat c0)}"
      proof (rule set_eqI)
        fix x
        note every_second_nat[of "unat c0" "unat c'" "unat x"]
        with True u show "x \<in> {c0..<c0 + 1} \<union> {x. c0 + 2 \<le> x \<and> x < c' \<and> even (unat x - unat (c0 + 2))}
            \<longleftrightarrow> x \<in> {x. c0 \<le> x \<and> x < c' \<and> even (unat x - unat c0)}"
          by (auto simp: word_le_nat_alt word_less_nat_alt)
      qed
      from "1.IH"[OF True lim one(2)[simplified] le(1) "1.prems"(3) le(2)] show ?thesis
        unfolding step one(1) using split one(3) by (simp add: Un_assoc; blast)
    qed
  qed
qed

lemma and_mask_bit: "m AND push_bit n 1 = (if bit m n then push_bit n 1 else (0 :: u32))"
  unfolding push_bit_of_1 by (rule bit_eqI) (auto simp: bit_and_iff bit_exp_iff)

lemma lu_ll_mask:
  fixes m :: u32
  defines "lu_ll \<equiv> GC_MASK UNICODE_GC_Lu OR GC_MASK UNICODE_GC_Ll"
  shows "m AND lu_ll = lu_ll \<longleftrightarrow> bit m UNICODE_GC_Lu \<and> bit m UNICODE_GC_Ll"
    and "m AND lu_ll = 0 \<longleftrightarrow> \<not> bit m UNICODE_GC_Lu \<and> \<not> bit m UNICODE_GC_Ll"
    and "m AND GC_MASK UNICODE_GC_Ll = 0 \<longleftrightarrow> \<not> bit m UNICODE_GC_Ll"
  unfolding lu_ll_def GC_MASK_def bit.conj_disj_distrib and_mask_bit
  by (auto simp: UNICODE_GC_defs split: if_splits)

definition gc_run_set :: "u32 \<Rightarrow> u32 \<Rightarrow> u32 \<Rightarrow> nat \<Rightarrow> u32 set" where
  "gc_run_set gc_mask c0 c v =
     {x. c0 \<le> x \<and> x < c \<and> gc_selected gc_mask (gc_at [(unat c - unat c0, v)] (unat x - unat c0))}"

lemma odd_diff_nat:
  "(a :: nat) \<le> x \<and> odd (x - a) \<longleftrightarrow> a + 1 \<le> x \<and> even (x - (a + 1))"
proof (cases "a + 1 \<le> x")
  case True
  then obtain k where "x = a + 1 + k" using le_Suc_ex by blast
  then show ?thesis by simp
qed auto

lemma gc1_entry_spec:
  assumes a: "acc cr c0 S" and lt: "c0 < c" and lim: "unat c \<le> 2 ^ 27"
  shows "\<exists>r cr'. gc1_entry cr gc_mask c0 c v = Some (r, cr') \<and> cr_wf cr' \<and> (r = 0 \<or> r = -1) \<and>
    (r = 0 \<longrightarrow> acc cr' c (S \<union> gc_run_set gc_mask c0 c (unat v))) \<and>
    (cr_nofail cr \<longrightarrow> r = 0 \<and> cr_nofail cr')"
proof -
  have le: "c0 \<le> c" using lt by simp
  have wf: "cr_wf cr" using a by (simp add: acc_def)
  have off: "unat x - unat c0 < unat c - unat c0" if "c0 \<le> x" "x < c" for x
    using that by (simp add: word_le_nat_alt word_less_nat_alt)
  have whole: "gc_run_set gc_mask c0 c (unat v) = {c0..<c}"
    if "\<And>k. gc_selected gc_mask (gc_at [(unat c - unat c0, unat v)] k) \<longleftrightarrow> k < unat c - unat c0"
    using that off by (auto simp: gc_run_set_def)
  have add: "\<exists>r cr'. cr_add_interval cr c0 c = Some (r, cr') \<and> cr_wf cr' \<and> (r = 0 \<or> r = -1) \<and>
      (r = 0 \<longrightarrow> acc cr' c (S \<union> {c0..<c})) \<and> (cr_nofail cr \<longrightarrow> r = 0 \<and> cr_nofail cr')"
    by (rule acc_add[OF a order_refl lt lim]) blast
  have skip: "acc cr c S" by (rule acc_mono[OF a le])
  show ?thesis
  proof (cases "v = 31")
    case False
    then have v: "unat v \<noteq> 31" by (simp add: word_unat_eq_iff)
    then have sel: "gc_selected gc_mask (gc_at [(unat c - unat c0, unat v)] k) \<longleftrightarrow>
        k < unat c - unat c0 \<and> bit gc_mask (unat v)" for k
      by (simp add: gc_selected_def)
    show ?thesis
    proof (cases "bit gc_mask (unat v)")
      case True
      then show ?thesis using False add whole sel by (simp add: gc1_entry_def drop_bit_and_1)
    next
      case nb: False
      then have "gc_run_set gc_mask c0 c (unat v) = {}" using sel by (simp add: gc_run_set_def)
      then show ?thesis using False nb skip wf by (simp add: gc1_entry_def drop_bit_and_1)
    qed
  next
    case True
    then have sel: "gc_selected gc_mask (gc_at [(unat c - unat c0, unat v)] k) \<longleftrightarrow>
        k < unat c - unat c0 \<and> bit gc_mask (if even k then UNICODE_GC_Lu else UNICODE_GC_Ll)" for k
      by (simp add: gc_selected_def)
    have u1: "unat (c0 + 1) = unat c0 + 1"
      using lt lim by (simp add: unat_add_less word_less_nat_alt)
    consider (both) "bit gc_mask UNICODE_GC_Lu" "bit gc_mask UNICODE_GC_Ll"
      | (neither) "\<not> bit gc_mask UNICODE_GC_Lu" "\<not> bit gc_mask UNICODE_GC_Ll"
      | (lu) "bit gc_mask UNICODE_GC_Lu" "\<not> bit gc_mask UNICODE_GC_Ll"
      | (ll) "\<not> bit gc_mask UNICODE_GC_Lu" "bit gc_mask UNICODE_GC_Ll" by blast
    then show ?thesis
    proof cases
      case both
      then show ?thesis using True add whole sel by (simp add: gc1_entry_def Let_def lu_ll_mask)
    next
      case neither
      then have "gc_run_set gc_mask c0 c (unat v) = {}" using sel by (simp add: gc_run_set_def)
      then show ?thesis using True neither skip wf by (simp add: gc1_entry_def Let_def lu_ll_mask)
    next
      case lu
      have "gc_run_set gc_mask c0 c (unat v) = {x. c0 \<le> x \<and> x < c \<and> even (unat x - unat c0)}"
        unfolding gc_run_set_def sel using lu off lt[unfolded word_less_nat_alt]
        by (auto split: if_splits)
      then show ?thesis
        using add_every_second_spec[OF a order_refl lim le] True lu
        by (simp add: gc1_entry_def Let_def lu_ll_mask)
    next
      case ll
      have "c0 \<le> c0 + 1" using u1 by (simp add: word_le_nat_alt)
      moreover have "gc_run_set gc_mask c0 c (unat v) =
          {x. c0 + 1 \<le> x \<and> x < c \<and> even (unat x - unat (c0 + 1))}"
      proof (rule set_eqI)
        fix x :: u32
        have "x \<in> gc_run_set gc_mask c0 c (unat v) \<longleftrightarrow>
            unat c0 \<le> unat x \<and> unat x < unat c \<and> odd (unat x - unat c0)"
          unfolding gc_run_set_def sel mem_Collect_eq using ll
          by (auto simp: word_le_nat_alt word_less_nat_alt split: if_splits)
        also have "\<dots> \<longleftrightarrow> unat c0 + 1 \<le> unat x \<and> unat x < unat c \<and> even (unat x - (unat c0 + 1))"
          using odd_diff_nat[of "unat c0" "unat x"] by blast
        finally show "x \<in> gc_run_set gc_mask c0 c (unat v) \<longleftrightarrow>
            x \<in> {x. c0 + 1 \<le> x \<and> x < c \<and> even (unat x - unat (c0 + 1))}"
          unfolding mem_Collect_eq word_le_nat_alt word_less_nat_alt u1 .
      qed
      ultimately show ?thesis
        using add_every_second_spec[OF a _ lim le, of "c0 + 1"] True ll
        by (simp add: gc1_entry_def Let_def lu_ll_mask)
    qed
  qed
qed

lemma gc_selected_cons:
  "gc_selected m (gc_at ((n, v) # rs) x) \<longleftrightarrow>
     (if x < n then gc_selected m (gc_at [(n, v)] x) else gc_selected m (gc_at rs (x - n)))"
  by (simp add: gc_selected_def)

lemma gc1_loop_spec:
  assumes "gc_runs p = Some rs" and "acc cr c0 S" and "unat c0 + sum_list (map fst rs) \<le> 2 ^ 27"
  shows "\<exists>r cr'. gc1_loop cr gc_mask c0 p = Some (r, cr') \<and> cr_wf cr' \<and> (r = 0 \<or> r = -1) \<and>
    (r = 0 \<longrightarrow> (\<exists>c. unat c \<le> unat c0 + sum_list (map fst rs) \<and> acc cr' c (S \<union> {x. c0 \<le> x \<and> gc_selected gc_mask (gc_at rs (unat x - unat c0))}))) \<and>
    (cr_nofail cr \<longrightarrow> r = 0 \<and> cr_nofail cr')"
  using assms
proof (induction cr gc_mask c0 p arbitrary: rs S rule: gc1_loop.induct)
  case (1 cr gc_mask c0)
  then show ?case by (auto simp: gc_selected_def acc_def)
next
  case (2 cr gc_mask c0 b p)
  from "2.prems"(1) obtain n v p' rs' where e: "gc_entry b p = Some (n, v, p')"
    and rs: "gc_runs p' = Some rs'" "rs = (unat n + 1, unat v) # rs'" by (auto split: option.splits)
  define c where "c = c0 + (n + 1)"
  have n1: "unat (n + 1) = unat n + 1"
    using "2.prems"(3) rs by (simp add: unat_add_less)
  have uc: "unat c = unat c0 + (unat n + 1)"
    using "2.prems"(3) rs n1 unfolding c_def by (subst unat_add_less) simp_all
  have lt: "c0 < c" and lim: "unat c \<le> 2 ^ 27"
    using uc "2.prems"(3) rs by (simp_all add: word_less_nat_alt)
  from gc1_entry_spec[OF "2.prems"(2) lt lim, of gc_mask v] obtain r1 cr1 where
    en: "gc1_entry cr gc_mask c0 c v = Some (r1, cr1)" "cr_wf cr1" "r1 = 0 \<or> r1 = -1"
    and ok: "r1 = 0 \<longrightarrow> acc cr1 c (S \<union> gc_run_set gc_mask c0 c (unat v))"
    and nf: "cr_nofail cr \<longrightarrow> r1 = 0 \<and> cr_nofail cr1" by blast
  have step: "gc1_loop cr gc_mask c0 (b # p) =
      (if r1 \<noteq> 0 then Some (-1, cr1) else gc1_loop cr1 gc_mask c p')"
    using e en(1) by (simp add: c_def)
  show ?case
  proof (cases "r1 = 0")
    case False
    then show ?thesis unfolding step using en nf by auto
  next
    case True
    have union: "gc_run_set gc_mask c0 c (unat v) \<union>
        {x. c \<le> x \<and> gc_selected gc_mask (gc_at rs' (unat x - unat c))} =
        {x. c0 \<le> x \<and> gc_selected gc_mask (gc_at rs (unat x - unat c0))}"
    proof (rule set_eqI)
      fix x
      show "x \<in> gc_run_set gc_mask c0 c (unat v) \<union>
          {x. c \<le> x \<and> gc_selected gc_mask (gc_at rs' (unat x - unat c))} \<longleftrightarrow>
        x \<in> {x. c0 \<le> x \<and> gc_selected gc_mask (gc_at rs (unat x - unat c0))}"
      proof (cases "x < c")
        case True
        then have "\<not> c \<le> x" "unat x - unat c0 < unat n + 1" if "c0 \<le> x"
          using that uc by (simp_all add: word_le_nat_alt word_less_nat_alt)
        then show ?thesis using True uc unfolding rs(2)
          by (auto simp: gc_run_set_def gc_selected_cons[of _ _ _ rs'] simp del: gc_at.simps)
      next
        case False
        then have "\<not> unat x - unat c0 < unat n + 1" "unat x - unat c0 - (unat n + 1) = unat x - unat c" "c0 \<le> x"
          using uc lt by (simp_all add: word_le_nat_alt word_less_nat_alt)
        then show ?thesis using False unfolding rs(2)
          by (auto simp: gc_run_set_def gc_selected_cons[of _ _ _ rs'] simp del: gc_at.simps)
      qed
    qed
    have e': "gc_entry b p = Some (n, v, p')" by (rule e)
    have "unat c + sum_list (map fst rs') \<le> 2 ^ 27" using uc "2.prems"(3) rs by simp
    from "2.IH"[OF e refl refl en(1)[unfolded c_def] refl _ rs(1), folded c_def, OF _ ok[rule_format, OF True] this]
    moreover have "unat c + sum_list (map fst rs') = unat c0 + sum_list (map fst rs)"
      using uc rs(2) by simp
    ultimately show ?thesis unfolding step using True union nf by (simp add: Un_assoc; blast)
  qed
qed

text \<open>
  The table decodes, to codes below \<open>2 ^ 27\<close>. It is checked piece by piece: \<open>gc_part\<close> consumes
  whole entries and hands what is left of a piece to the next one.
\<close>

function gc_part :: "nat \<Rightarrow> u8 list \<Rightarrow> nat \<times> u8 list" where
  "gc_part tot [] = (tot, [])"
| "gc_part tot (b # p) =
     (case gc_entry b p of
        None \<Rightarrow> (tot, b # p)
      | Some (n, v, p') \<Rightarrow> gc_part (tot + (unat n + 1)) p')"
  by pat_completeness auto
termination
  by (relation "measure (\<lambda>(tot, p). length p)") (auto dest: gc_entry_length)

fun gc_parts :: "nat \<Rightarrow> u8 list \<Rightarrow> u8 list list \<Rightarrow> bool" where
  "gc_parts tot l [] = (l = [] \<and> tot \<le> 2 ^ 22)"
| "gc_parts tot l (t # ts) = (case gc_part tot (l @ t) of (tot', l') \<Rightarrow> gc_parts tot' l' ts)"

lemma gc_entry_append:
  "gc_entry b p = Some (n, v, p') \<Longrightarrow> gc_entry b (p @ q) = Some (n, v, p' @ q)"
  by (auto simp: gc_entry_def Let_def split: if_splits list.splits)

lemma gc_part_spec:
  assumes "gc_part tot p = (tot', l)" and "gc_runs (l @ q) = Some rs'"
  shows "\<exists>rs. gc_runs (p @ q) = Some rs \<and> tot + sum_list (map fst rs) = tot' + sum_list (map fst rs')"
  using assms
proof (induction tot p rule: gc_part.induct)
  case (2 tot b p)
  show ?case
  proof (cases "gc_entry b p")
    case None
    with "2.prems" show ?thesis by simp
  next
    case (Some t)
    obtain n v p' where t: "t = (n, v, p')" by (cases t)
    from "2.IH"[OF Some[unfolded t] refl refl] "2.prems" Some t obtain rs where
      "gc_runs (p' @ q) = Some rs"
      "tot + (unat n + 1) + sum_list (map fst rs) = tot' + sum_list (map fst rs')" by auto
    then show ?thesis using gc_entry_append[OF Some[unfolded t], of q] by simp
  qed
qed simp

lemma gc_parts_spec:
  "gc_parts tot l ts \<Longrightarrow> \<exists>rs. gc_runs (l @ concat ts) = Some rs \<and> tot + sum_list (map fst rs) \<le> 2 ^ 22"
proof (induction tot l ts rule: gc_parts.induct)
  case (2 tot l t ts)
  obtain tot' l' where p: "gc_part tot (l @ t) = (tot', l')" by fastforce
  with 2 obtain rs' where "gc_runs (l' @ concat ts) = Some rs'"
    "tot' + sum_list (map fst rs') \<le> 2 ^ 22" by auto
  from gc_part_spec[OF p this(1)] this(2) show ?case by auto
qed simp

lemma gc_part_eval_0:
  "gc_part 0 ([] @ unicode_gc_table_0) = (505, [])"
  "gc_part 505 ([] @ unicode_gc_table_1) = (1552, [230])"
  "gc_part 1552 ([230] @ unicode_gc_table_2) = (2434, [])"
  by (simp_all add: gc_entry_def unicode_gc_table_0_def unicode_gc_table_1_def unicode_gc_table_2_def)

lemma gc_part_eval_1:
  "gc_part 2434 ([] @ unicode_gc_table_3) = (2816, [])"
  "gc_part 2816 ([] @ unicode_gc_table_4) = (3205, [229])"
  "gc_part 3205 ([229] @ unicode_gc_table_5) = (3724, [229])"
  by (simp_all add: gc_entry_def unicode_gc_table_3_def unicode_gc_table_4_def unicode_gc_table_5_def)

lemma gc_part_eval_2:
  "gc_part 3724 ([229] @ unicode_gc_table_6) = (4349, [])"
  "gc_part 4349 ([] @ unicode_gc_table_7) = (6150, [])"
  "gc_part 6150 ([] @ unicode_gc_table_8) = (7043, [])"
  by (simp_all add: gc_entry_def unicode_gc_table_6_def unicode_gc_table_7_def unicode_gc_table_8_def)

lemma gc_part_eval_3:
  "gc_part 7043 ([] @ unicode_gc_table_9) = (8064, [])"
  "gc_part 8064 ([] @ unicode_gc_table_10) = (8473, [])"
  "gc_part 8473 ([] @ unicode_gc_table_11) = (10132, [239])"
  by (simp_all add: gc_entry_def unicode_gc_table_9_def unicode_gc_table_10_def unicode_gc_table_11_def)

lemma gc_part_eval_4:
  "gc_part 10132 ([239] @ unicode_gc_table_12) = (11711, [])"
  "gc_part 11711 ([] @ unicode_gc_table_13) = (12549, [229])"
  "gc_part 12549 ([229] @ unicode_gc_table_14) = (42934, [255])"
  by (simp_all add: gc_entry_def unicode_gc_table_12_def unicode_gc_table_13_def unicode_gc_table_14_def)

lemma gc_part_eval_5:
  "gc_part 42934 ([255] @ unicode_gc_table_15) = (43644, [])"
  "gc_part 43644 ([] @ unicode_gc_table_16) = (64912, [])"
  "gc_part 64912 ([] @ unicode_gc_table_17) = (65513, [])"
  by (simp_all add: gc_entry_def unicode_gc_table_15_def unicode_gc_table_16_def unicode_gc_table_17_def)

lemma gc_part_eval_6:
  "gc_part 65513 ([] @ unicode_gc_table_18) = (67392, [229])"
  "gc_part 67392 ([229] @ unicode_gc_table_19) = (68528, [224])"
  "gc_part 68528 ([224] @ unicode_gc_table_20) = (70089, [])"
  by (simp_all add: gc_entry_def unicode_gc_table_18_def unicode_gc_table_19_def unicode_gc_table_20_def)

lemma gc_part_eval_7:
  "gc_part 70089 ([] @ unicode_gc_table_21) = (70864, [])"
  "gc_part 70864 ([] @ unicode_gc_table_22) = (72145, [])"
  "gc_part 72145 ([] @ unicode_gc_table_23) = (73465, [224])"
  by (simp_all add: gc_entry_def unicode_gc_table_21_def unicode_gc_table_22_def unicode_gc_table_23_def)

lemma gc_part_eval_8:
  "gc_part 73465 ([224] @ unicode_gc_table_24) = (100352, [229, 132])"
  "gc_part 100352 ([229, 132] @ unicode_gc_table_25) = (120068, [])"
  "gc_part 120068 ([] @ unicode_gc_table_26) = (123184, [])"
  by (simp_all add: gc_entry_def unicode_gc_table_24_def unicode_gc_table_25_def unicode_gc_table_26_def)

lemma gc_part_eval_9:
  "gc_part 123184 ([] @ unicode_gc_table_27) = (126635, [])"
  "gc_part 126635 ([] @ unicode_gc_table_28) = (129751, [])"
  "gc_part 129751 ([] @ unicode_gc_table_29) = (1114112, [])"
  by (simp_all add: gc_entry_def unicode_gc_table_27_def unicode_gc_table_28_def unicode_gc_table_29_def)

lemma unicode_gc_table_ok:
  "gc_parts 0 []
     [unicode_gc_table_0, unicode_gc_table_1, unicode_gc_table_2,
      unicode_gc_table_3, unicode_gc_table_4, unicode_gc_table_5,
      unicode_gc_table_6, unicode_gc_table_7, unicode_gc_table_8,
      unicode_gc_table_9, unicode_gc_table_10, unicode_gc_table_11,
      unicode_gc_table_12, unicode_gc_table_13, unicode_gc_table_14,
      unicode_gc_table_15, unicode_gc_table_16, unicode_gc_table_17,
      unicode_gc_table_18, unicode_gc_table_19, unicode_gc_table_20,
      unicode_gc_table_21, unicode_gc_table_22, unicode_gc_table_23,
      unicode_gc_table_24, unicode_gc_table_25, unicode_gc_table_26,
      unicode_gc_table_27, unicode_gc_table_28, unicode_gc_table_29]"
  by (simp only: gc_parts.simps prod.case
      gc_part_eval_0 gc_part_eval_1 gc_part_eval_2 gc_part_eval_3 gc_part_eval_4 gc_part_eval_5 gc_part_eval_6 gc_part_eval_7 gc_part_eval_8 gc_part_eval_9) simp

lemma unicode_gc_table_runs:
  obtains rs where "gc_runs unicode_gc_table = Some rs" and "sum_list (map fst rs) \<le> 2 ^ 22"
proof -
  from gc_parts_spec[OF unicode_gc_table_ok] show thesis
    using that by (auto simp: unicode_gc_table_def)
qed


definition gc_of :: "u32 \<Rightarrow> nat option" where
  "gc_of x = gc_at (the (gc_runs unicode_gc_table)) (unat x)"

text \<open>The category ranges select exactly the code points whose category is in the mask.\<close>

lemma unicode_general_category1_spec:
  assumes cr: "fresh cr"
  obtains r cr' where "unicode_general_category1 cr gc_mask = Some (r, cr')" and "cr_wf cr'"
    and "r = 0 \<or> r = -1" and "r = 0 \<Longrightarrow> sorted (cr_pts cr') \<and> even (cr_len cr')"
    and "r = 0 \<Longrightarrow> cr_set cr' = {x. gc_selected gc_mask (gc_of x)}"
    and "r = 0 \<Longrightarrow> cr_len cr' \<le> 2 ^ 23" and "cr_nofail cr \<Longrightarrow> r = 0 \<and> cr_nofail cr'"
proof -
  obtain rs where rs: "gc_runs unicode_gc_table = Some rs" "sum_list (map fst rs) \<le> 2 ^ 22"
    by (rule unicode_gc_table_runs)
  from gc1_loop_spec[OF rs(1) acc_fresh[OF cr], of gc_mask] rs(2) obtain r cr' where
    g: "gc1_loop cr gc_mask 0 unicode_gc_table = Some (r, cr')" "cr_wf cr'" "r = 0 \<or> r = -1"
    and ok: "r = 0 \<longrightarrow> (\<exists>c. unat c \<le> sum_list (map fst rs) \<and> acc cr' c ({} \<union> {x. 0 \<le> x \<and> gc_selected gc_mask (gc_at rs (unat x - unat 0))}))"
    and nf: "cr_nofail cr \<longrightarrow> r = 0 \<and> cr_nofail cr'" by auto
  have sets: "{} \<union> {x :: u32. 0 \<le> x \<and> gc_selected gc_mask (gc_at rs (unat x - unat (0 :: u32)))}
      = {x. gc_selected gc_mask (gc_of x)}"
    by (simp add: gc_of_def rs(1))
  show thesis
    by (rule that[of r cr']) (use g ok[unfolded sets] rs(2) nf in \<open>auto simp: unicode_general_category1_def acc_def gc_of_def rs(1)\<close>)
qed

section \<open>Case changes\<close>

text \<open>The codes one entry of the case table adds for a mask.\<close>

definition case_run_set :: "u32 \<Rightarrow> u32 \<Rightarrow> u32 set" where
  "case_run_set case_mask v =
     (let type = case_type v; code = run_code 17 v; n = run_len 17 v;
          up = (case_mask AND CASE_U \<noteq> 0);
          both = (up \<and> case_mask AND (CASE_L OR CASE_F) \<noteq> 0) in
      if \<not> bit (case_run_mask case_mask) (unat type) then {}
      else if type = RUN_TYPE_UL \<and> \<not> both then
        {x. unat code \<le> unat x \<and> unat x < unat code + unat n \<and>
            (if up then odd (unat x - unat code) else even (unat x - unat code))}
      else if type = RUN_TYPE_LSU \<and> \<not> both then
        (if up then {code + 1, code + 2} else {code, code + 1})
      else {code..<code + n})"

definition case_set :: "u32 \<Rightarrow> u32 set" where
  "case_set case_mask = (\<Union>v \<in> set case_conv_table1. case_run_set case_mask v)"

text \<open>
  What the decoder relies on: the runs increase, an alternating run has an even length and a
  run of \<open>Lsu\<close> triples has length three.
\<close>

definition case_entry_ok :: "u32 \<Rightarrow> bool" where
  "case_entry_ok v \<longleftrightarrow> run_len 17 v \<noteq> 0 \<and> (case_type v = RUN_TYPE_UL \<longrightarrow> run_len 17 v AND 1 = 0)
     \<and> (case_type v = RUN_TYPE_LSU \<longrightarrow> run_len 17 v = 3)"

fun runs_increase :: "nat \<Rightarrow> nat \<Rightarrow> u32 list \<Rightarrow> bool" where
  "runs_increase k c [] = True"
| "runs_increase k c (v # vs) =
     (c \<le> unat (run_code k v) \<and> runs_increase k (unat (run_code k v) + unat (run_len k v)) vs)"

lemma case_table_increases: "runs_increase 17 0 case_conv_table1"
  by (simp add: case_conv_table1_parts run_code_def run_len_def)

lemma case_entries_ok: "list_all case_entry_ok case_conv_table1"
  by (simp add: case_conv_table1_parts case_entry_ok_def run_len_def case_type_def)

lemma unat_run_code: "unat (run_code 17 v) < 2 ^ 17"
  using unat_u32_less[of v] by (simp add: run_code_def unat_drop_bit)

lemma unat_run_len: "unat (run_len k v) < 2 ^ 7"
proof -
  have "(0x7f :: u32) = mask 7" by (simp add: mask_eq_exp_minus_1)
  then show ?thesis by (simp only: run_len_def unat_and_mask) simp
qed

lemma add_alternate_spec:
  assumes "acc cr c S" and "unat c \<le> unat base + i" and "even i" and "even n"
    and "unat base + n \<le> unat e + 1" and "unat e < 2 ^ 27" and "c \<le> e"
  shows "\<exists>r cr'. add_alternate cr base i n = Some (r, cr') \<and> cr_wf cr' \<and> (r = 0 \<or> r = -1) \<and>
    (r = 0 \<longrightarrow> acc cr' e (S \<union> {x. unat base + i \<le> unat x \<and> unat x < unat base + n \<and>
       even (unat x - unat base)})) \<and>
    (cr_nofail cr \<longrightarrow> r = 0 \<and> cr_nofail cr')"
  using assms
proof (induction cr base i n arbitrary: c S rule: add_alternate.induct)
  case (1 cr base i n)
  show ?case
  proof (cases "i < n")
    case False
    then have none: "{x :: u32. unat base + i \<le> unat x \<and> unat x < unat base + n \<and>
       even (unat x - unat base)} = {}" by auto
    have "acc cr e S" using acc_mono[OF "1.prems"(1,7)] .
    then show ?thesis using False none by (subst add_alternate.simps) (auto simp: acc_def)
  next
    case True
    with "1.prems"(3,4) have i2: "i + 2 \<le> n" by presburger
    let ?b = "base + of_nat i :: u32"
    have u: "unat ?b = unat base + i" "unat (?b + 1) = unat base + i + 1"
    proof -
      have "unat (of_nat i :: u32) = i" using True "1.prems"(5,6) by (simp add: unat_of_nat_u32)
      then show u1: "unat ?b = unat base + i"
        using True "1.prems"(5,6) by (subst unat_add_less) simp_all
      show "unat (?b + 1) = unat base + i + 1"
        using u1 True "1.prems"(5,6) by (subst unat_add_less) simp_all
    qed
    have le: "c \<le> ?b" "?b < ?b + 1" "unat (?b + 1) \<le> 2 ^ 27" "?b + 1 \<le> e"
      using u True i2 "1.prems"(2,5,6) by (simp_all only: word_le_nat_alt word_less_nat_alt)
    have step: "add_alternate cr base i n =
        add_or_fail True cr ?b (?b + 1) (\<lambda>cr. add_alternate cr base (i + 2) n)"
      using True by (subst add_alternate.simps) simp
    show ?thesis
    proof (cases rule: acc_add_or_fail[OF "1.prems"(1) le(1,2,3), of True "\<lambda>cr. add_alternate cr base (i + 2) n"])
      case (2 cr')
      then show ?thesis unfolding step by auto
    next
      case one: (1 cr1)
      have "unat (?b + 1) \<le> unat base + (i + 2)" "even (i + 2)" using u "1.prems"(3) by simp_all
      from "1.IH"[OF True one(2)[simplified] this "1.prems"(4,5,6) le(4)]
      have IH: "\<exists>r cr'. add_alternate cr1 base (i + 2) n = Some (r, cr') \<and> cr_wf cr' \<and> (r = 0 \<or> r = -1) \<and>
        (r = 0 \<longrightarrow> acc cr' e (S \<union> {?b..<?b + 1} \<union> {x. unat base + (i + 2) \<le> unat x \<and>
          unat x < unat base + n \<and> even (unat x - unat base)})) \<and>
        (cr_nofail cr1 \<longrightarrow> r = 0 \<and> cr_nofail cr')" by simp
      have "S \<union> {?b..<?b + 1} \<union> {x. unat base + (i + 2) \<le> unat x \<and> unat x < unat base + n \<and> even (unat x - unat base)}
        = S \<union> {x. unat base + i \<le> unat x \<and> unat x < unat base + n \<and> even (unat x - unat base)}"
      proof -
        have "{?b..<?b + 1} \<union> {x. unat base + (i + 2) \<le> unat x \<and> unat x < unat base + n \<and> even (unat x - unat base)}
          = {x. unat base + i \<le> unat x \<and> unat x < unat base + n \<and> even (unat x - unat base)}"
        proof (rule set_eqI)
          fix x :: u32
          have "unat x = unat base + i \<or> (unat base + (i + 2) \<le> unat x \<and> even (unat x - unat base)) \<longleftrightarrow>
              unat base + i \<le> unat x \<and> even (unat x - unat base)"
          proof (cases "unat base + (i + 2) \<le> unat x")
            case False
            then have "unat x < unat base + i \<or> unat x = unat base + i \<or> unat x = unat base + i + 1"
              by linarith
            then show ?thesis using "1.prems"(3) by auto
          qed auto
          moreover have "unat base + i < unat base + n" using True by simp
          ultimately show "x \<in> {?b..<?b + 1} \<union> {x. unat base + (i + 2) \<le> unat x \<and> unat x < unat base + n \<and> even (unat x - unat base)}
              \<longleftrightarrow> x \<in> {x. unat base + i \<le> unat x \<and> unat x < unat base + n \<and> even (unat x - unat base)}"
            unfolding Un_iff atLeastLessThan_iff mem_Collect_eq word_le_nat_alt word_less_nat_alt u
            by linarith
        qed
        then show ?thesis by (simp only: Un_assoc)
      qed
      with IH one(3) show ?thesis unfolding step one(1) by (simp; blast)
    qed
  qed
qed

lemma case1_entry_spec:
  assumes a: "acc cr c0 S" and le: "unat c0 \<le> unat (run_code 17 v)" and ok: "case_entry_ok v"
    and bit: "bit (case_run_mask case_mask) (unat (case_type v))"
  shows "\<exists>r cr'. case1_entry cr case_mask v = Some (r, cr') \<and> cr_wf cr' \<and> (r = 0 \<or> r = -1) \<and>
    (r = 0 \<longrightarrow> acc cr' (run_code 17 v + run_len 17 v) (S \<union> case_run_set case_mask v)) \<and>
    (cr_nofail cr \<longrightarrow> r = 0 \<and> cr_nofail cr')"
proof -
  define code where "code = run_code 17 v"
  define n where "n = run_len 17 v"
  define up where "up \<longleftrightarrow> case_mask AND CASE_U \<noteq> 0"
  define both where "both \<longleftrightarrow> up \<and> case_mask AND (CASE_L OR CASE_F) \<noteq> 0"
  have b: "unat code < 2 ^ 17" "unat n < 2 ^ 7" "0 < unat n"
    using unat_run_code unat_run_len ok by (simp_all add: code_def n_def case_entry_ok_def unat_gt_0)
  have add: "unat (code + k) = unat code + unat k" if "unat k < 2 ^ 8" for k
    using b that by (intro unat_add_less) simp
  have un: "unat (code + n) = unat code + unat n" using add[of n] b by simp
  have u: "unat (code + 1) = unat code + 1" "unat (code + 2) = unat code + 2"
    "unat (code + 3) = unat code + 3" using add[of 1] add[of 2] add[of 3] by simp_all
  have c0: "c0 \<le> code" using le by (simp add: word_le_nat_alt code_def)
  have c0e: "c0 \<le> code + n" using c0 un by (simp add: word_le_nat_alt)
  have lim: "unat (code + n) \<le> 2 ^ 27" "unat (code + n) < 2 ^ 27" using un b by simp_all
  have set: "case_run_set case_mask v =
     (if case_type v = RUN_TYPE_UL \<and> \<not> both then
        {x. unat code \<le> unat x \<and> unat x < unat code + unat n \<and>
            (if up then odd (unat x - unat code) else even (unat x - unat code))}
      else if case_type v = RUN_TYPE_LSU \<and> \<not> both then
        (if up then {code + 1, code + 2} else {code, code + 1})
      else {code..<code + n})"
    using bit by (simp add: case_run_set_def Let_def code_def n_def up_def both_def)
  consider (ul) "case_type v = RUN_TYPE_UL" "\<not> both" | (lsu) "case_type v = RUN_TYPE_LSU" "\<not> both"
    | (def) "\<not> (case_type v = RUN_TYPE_UL \<and> \<not> both)" "\<not> (case_type v = RUN_TYPE_LSU \<and> \<not> both)"
    by blast
  then show ?thesis
  proof cases
    case def
    have eq: "case1_entry cr case_mask v = add_or_fail True cr code (code + n) (\<lambda>cr. Some (0, cr))"
      using def by (auto simp: case1_entry_def Let_def code_def n_def up_def both_def)
    have lt: "code < code + n" using un b by (simp add: word_less_nat_alt)
    have st: "case_run_set case_mask v = {code..<code + n}"
      unfolding set if_not_P[OF def(1)] if_not_P[OF def(2)] ..
    show ?thesis unfolding eq st code_def[symmetric] n_def[symmetric]
      by (rule acc_add_or_fail[OF a c0 lt lim(1), of True "\<lambda>cr. Some (0, cr)"]) (auto simp: acc_def)
  next
    case ul
    have ev: "even (unat n)"
    proof -
      have "n AND 1 = 0" using ok ul by (simp add: case_entry_ok_def n_def)
      then have "unat (n AND 1) = 0" by (simp only: unat_0)
      then show ?thesis unfolding unat_and_low by presburger
    qed
    let ?base = "code + (if up then 1 else 0)"
    have eq: "case1_entry cr case_mask v = add_alternate cr ?base 0 (unat n)"
      using ul by (auto simp: case1_entry_def Let_def code_def n_def up_def both_def)
    have ub: "unat ?base = unat code + (if up then 1 else 0)" using u by simp
    have pre: "unat c0 \<le> unat ?base + 0" "unat ?base + unat n \<le> unat (code + n) + 1"
      using ub c0 un by (auto simp: word_le_nat_alt)
    have "{x. unat ?base + 0 \<le> unat x \<and> unat x < unat ?base + unat n \<and> even (unat x - unat ?base)}
        = case_run_set case_mask v"
    proof (cases up)
      case False
      then show ?thesis using ul ub set by simp
    next
      case True
      have "unat code + 1 \<le> unat x \<and> unat x < unat code + 1 + unat n \<and> even (unat x - (unat code + 1)) \<longleftrightarrow>
          unat code \<le> unat x \<and> unat x < unat code + unat n \<and> odd (unat x - unat code)" for x :: u32
      proof (cases "unat x = unat code + unat n")
        case True
        then show ?thesis using ev b(3) by auto
      next
        case False
        then show ?thesis using odd_diff_nat[of "unat code" "unat x"] by auto
      qed
      then show ?thesis using True ul ub set by auto
    qed
    with add_alternate_spec[OF a pre(1) _ ev pre(2) lim(2) c0e] eq show ?thesis
      unfolding code_def[symmetric] n_def[symmetric] by simp
  next
    case lsu
    have n3: "n = 3" using ok lsu by (simp add: case_entry_ok_def n_def)
    have eq: "case1_entry cr case_mask v =
        add_or_fail (\<not> up) cr code (code + 1) (\<lambda>cr.
        add_or_fail True cr (code + 1) (code + 2) (\<lambda>cr.
        add_or_fail up cr (code + 2) (code + 3) (\<lambda>cr. Some (0, cr))))"
      using lsu by (auto simp: case1_entry_def Let_def code_def n_def up_def both_def)
    have lt: "code < code + 1" "code + 1 < code + 2" "code + 2 < code + 3"
      "unat (code + 1) \<le> 2 ^ 27" "unat (code + 2) \<le> 2 ^ 27" "unat (code + 3) \<le> 2 ^ 27"
      using u b by (simp_all add: word_less_nat_alt)
    have one: "{k..<k + 1} = {k}" if "unat (k + 1) = unat k + 1" for k :: u32
      using that by (auto simp: word_le_nat_alt word_less_nat_alt word_unat_eq_iff)
    have sg: "{code..<code + 1} = {code}" "{code + 1..<code + 2} = {code + 1}"
      "{code + 2..<code + 3} = {code + 2}"
      using one[of code] one[of "code + 1"] one[of "code + 2"] u by (simp_all add: add.assoc)
    show ?thesis
    proof (cases rule: acc_add_or_fail[OF a c0 lt(1,4), of "\<not> up" "\<lambda>cr.
        add_or_fail True cr (code + 1) (code + 2) (\<lambda>cr.
        add_or_fail up cr (code + 2) (code + 3) (\<lambda>cr. Some (0, cr)))"])
      case (2 cr')
      then show ?thesis unfolding eq by auto
    next
      case p1: (1 cr1)
      show ?thesis
      proof (cases rule: acc_add_or_fail[OF p1(2) order_refl lt(2,5), of True "\<lambda>cr.
          add_or_fail up cr (code + 2) (code + 3) (\<lambda>cr. Some (0, cr))"])
        case (2 cr')
        then show ?thesis unfolding eq p1(1) using p1(3) by auto
      next
        case p2: (1 cr2)
        show ?thesis
        proof (cases rule: acc_add_or_fail[OF p2(2) order_refl lt(3,6), of up "\<lambda>cr. Some (0, cr)"])
          case (2 cr')
          then show ?thesis unfolding eq p1(1) p2(1) using p1(3) p2(3) by auto
        next
          case p3: (1 cr3)
          have "case_run_set case_mask v = (if \<not> up then {code..<code + 1} else {}) \<union>
              {code + 1..<code + 2} \<union> (if up then {code + 2..<code + 3} else {})"
            using set lsu sg by auto
          then have "acc cr3 (code + n) (S \<union> case_run_set case_mask v)"
            using p3(2) n3 by (simp add: Un_assoc)
          then show ?thesis unfolding eq p1(1) p2(1) p3(1) code_def[symmetric] n_def[symmetric]
            using p1(3) p2(3) p3(3) by (auto simp: acc_def)
        qed
      qed
    qed
  qed
qed

lemma case1_loop_spec:
  assumes "runs_increase 17 (unat c0) vs" and "list_all case_entry_ok vs" and "acc cr c0 S"
  shows "\<exists>r cr' c. case1_loop cr case_mask (case_run_mask case_mask) vs = Some (r, cr') \<and> cr_wf cr' \<and>
    (r = 0 \<or> r = -1) \<and> (r = 0 \<longrightarrow> acc cr' c (S \<union> (\<Union>v \<in> set vs. case_run_set case_mask v)) \<and>
       (vs = [] \<and> c = c0 \<or> unat c < 2 ^ 18)) \<and> (cr_nofail cr \<longrightarrow> r = 0 \<and> cr_nofail cr')"
  using assms
proof (induction vs arbitrary: c0 S cr)
  case Nil
  then show ?case by (intro exI[of _ 0] exI[of _ cr] exI[of _ c0]) (auto simp: acc_def)
next
  case (Cons v vs)
  let ?c = "run_code 17 v + run_len 17 v"
  have uc: "unat ?c = unat (run_code 17 v) + unat (run_len 17 v)"
    using unat_run_code[of v] unat_run_len[of 17 v] by (intro unat_add_less) simp
  have inc: "runs_increase 17 (unat ?c) vs" "unat c0 \<le> unat (run_code 17 v)"
    using Cons.prems(1) uc by simp_all
  have ok: "case_entry_ok v" "list_all case_entry_ok vs" using Cons.prems(2) by simp_all
  have small: "unat ?c < 2 ^ 18" using uc unat_run_code[of v] unat_run_len[of 17 v] by simp
  have last: "vs = [] \<and> c = ?c \<or> unat c < 2 ^ 18 \<Longrightarrow> unat c < 2 ^ 18" for c
    using small by auto
  show ?case
  proof (cases "bit (case_run_mask case_mask) (unat (case_type v))")
    case False
    then have "case_run_set case_mask v = {}" by (simp add: case_run_set_def Let_def)
    moreover have "acc cr ?c S" using acc_mono[OF Cons.prems(3)] inc(2) uc by (simp add: word_le_nat_alt)
    ultimately show ?thesis
      using Cons.IH[OF inc(1) ok(2), of cr S] False last by (fastforce simp: drop_bit_and_1)
  next
    case True
    from case1_entry_spec[OF Cons.prems(3) inc(2) ok(1) True] obtain r1 cr1 where
      e: "case1_entry cr case_mask v = Some (r1, cr1)" "cr_wf cr1" "r1 = 0 \<or> r1 = -1"
      and a: "r1 = 0 \<longrightarrow> acc cr1 ?c (S \<union> case_run_set case_mask v)"
      and nf: "cr_nofail cr \<longrightarrow> r1 = 0 \<and> cr_nofail cr1" by blast
    show ?thesis
    proof (cases "r1 = 0")
      case r: True
      from Cons.IH[OF inc(1) ok(2) a[rule_format, OF r]] last show ?thesis
        using True e r nf by (fastforce simp: drop_bit_and_1 Un_assoc)
    next
      case False
      then show ?thesis using True e nf by (simp add: drop_bit_and_1)
    qed
  qed
qed

lemma unicode_case1_spec:
  assumes cr: "fresh cr" and m: "case_mask \<noteq> 0"
  obtains r cr' where "unicode_case1 cr case_mask = Some (r, cr')" and "cr_wf cr'"
    and "r = 0 \<or> r = -1" and "r = 0 \<Longrightarrow> sorted (cr_pts cr') \<and> even (cr_len cr')"
    and "r = 0 \<Longrightarrow> cr_set cr' = case_set case_mask" and "r = 0 \<Longrightarrow> cr_len cr' \<le> 2 ^ 23"
    and "cr_nofail cr \<Longrightarrow> r = 0 \<and> cr_nofail cr'"
proof -
  have "runs_increase 17 (unat (0 :: u32)) case_conv_table1" using case_table_increases by simp
  from case1_loop_spec[OF this case_entries_ok acc_fresh[OF cr], of case_mask] obtain r cr' c where
    l: "case1_loop cr case_mask (case_run_mask case_mask) case_conv_table1 = Some (r, cr')" "cr_wf cr'"
      "r = 0 \<or> r = -1"
    and a: "r = 0 \<longrightarrow> acc cr' c ({} \<union> (\<Union>v \<in> set case_conv_table1. case_run_set case_mask v)) \<and>
       (case_conv_table1 = [] \<and> c = 0 \<or> unat c < 2 ^ 18)"
    and nf: "cr_nofail cr \<longrightarrow> r = 0 \<and> cr_nofail cr'" by blast
  have "unat c < 2 ^ 18" if "r = 0" using a that by auto
  then show thesis
    by (intro that[of r cr']) (use l a m nf in \<open>auto simp: unicode_case1_def case_set_def acc_def\<close>)
qed

section \<open>Properties of the decoded tables\<close>

text \<open>
  C13. The two readers of a property table agree: the range set that \<open>unicode_prop1\<close> builds
  for \<open>ID_Start\<close> contains exactly the code points for which the indexed lookup
  \<open>lre_is_id_start\<close> answers true, and the lookup never leaves the table or its index.
\<close>
theorem id_start_agrees_with_ranges:
  "\<exists>r cr. unicode_prop1 (cr_init h) UNICODE_PROP_ID_Start = Some (r, cr) \<and> (r = 0 \<or> r = -1) \<and>
     (r = 0 \<longrightarrow> canonical (cr_pts cr) \<and> (\<forall>c. lre_is_id_start c = Some (in_ranges (cr_pts cr) c))) \<and>
     (heap_ok h \<longrightarrow> r = 0)"
proof -
  have idx: "UNICODE_PROP_ID_Start < length unicode_prop_table"
    and tab: "unicode_prop_table ! UNICODE_PROP_ID_Start = unicode_prop_ID_Start_table"
    by (simp_all add: UNICODE_PROP_defs unicode_prop_table_def)
  show ?thesis
    by (rule unicode_prop1_spec[OF idx fresh_init[of h]])
       (auto simp: tab lre_is_id_start_spec cr_set_def)
qed

theorem id_start_agrees_with_ranges_witness:
  "\<exists>cr. unicode_prop1 (cr_init []) UNICODE_PROP_ID_Start = Some (0, cr) \<and>
     (\<forall>c. lre_is_id_start c = Some (in_ranges (cr_pts cr) c))"
  using id_start_agrees_with_ranges[of "[]"] by auto

text \<open>
  C32. \<open>unicode_general_category1\<close> selects by category: every code point has at most one
  category in the run-length table, and the computed set holds exactly the code points whose
  category is in the mask (with the alternating upper/lower runs split by parity).
\<close>
theorem general_category_selects:
  "\<exists>r cr. unicode_general_category1 (cr_init h) gc_mask = Some (r, cr) \<and> (r = 0 \<or> r = -1) \<and>
     (r = 0 \<longrightarrow> sorted (cr_pts cr) \<and>
        (\<forall>x. in_ranges (cr_pts cr) x \<longleftrightarrow> (\<exists>g. gc_of x = Some g \<and> bit gc_mask g))) \<and>
     (heap_ok h \<longrightarrow> r = 0)"
  by (rule unicode_general_category1_spec[OF fresh_init[of h], of gc_mask])
     (auto simp: cr_set_def gc_selected_def set_eq_iff split: option.splits)

theorem general_category_selects_witness:
  "\<exists>cr. unicode_general_category1 (cr_init []) (GC_MASK UNICODE_GC_Lu) = Some (0, cr) \<and>
     (\<forall>x. in_ranges (cr_pts cr) x \<longleftrightarrow> (\<exists>g. gc_of x = Some g \<and> bit (GC_MASK UNICODE_GC_Lu) g))"
  using general_category_selects[of "[]" "GC_MASK UNICODE_GC_Lu"] by auto

text \<open>
  C36. \<open>lre_is_id_continue\<close> is total and extends \<open>lre_is_id_start\<close> by exactly the second
  table: every identifier start is an identifier part.
\<close>
theorem id_continue_extends_id_start:
  "\<exists>s t. lre_is_id_start c = Some s \<and> lre_is_id_continue c = Some t \<and>
     (t \<longleftrightarrow> s \<or> c \<in> table_set unicode_prop_ID_Continue1_table)"
  by (simp add: lre_is_id_start_spec lre_is_id_continue_spec)

end
