(* ===== verification/Unicode_Case.thy ===== *)
theory Unicode_Case
  imports Unicode_Sets
begin

text \<open>
  Case conversion, \<open>lre_case_conv\<close> in \<open>quickjs/libunicode.c\<close>: the binary search finds the run
  that covers a code; every access to the conversion tables is in bounds; and the ranges that
  \<open>unicode_case1\<close> decodes from the same table are exactly the codes the conversion changes.
\<close>

section \<open>The binary search\<close>

definition in_run :: "nat \<Rightarrow> u32 \<Rightarrow> u32 \<Rightarrow> bool" where
  "in_run k v c \<longleftrightarrow> run_code k v \<le> c \<and> c < run_code k v + run_len k v"

lemma runs_increase_lower:
  "runs_increase k c vs \<Longrightarrow> v \<in> set vs \<Longrightarrow> c \<le> unat (run_code k v)"
  by (induction k c vs rule: runs_increase.induct) fastforce+

lemma runs_increase_nth:
  assumes "runs_increase k c vs" and "i < j" and "j < length vs"
  shows "unat (run_code k (vs ! i)) + unat (run_len k (vs ! i)) \<le> unat (run_code k (vs ! j))"
  using assms
proof (induction k c vs arbitrary: i j rule: runs_increase.induct)
  case (2 k c v vs)
  obtain j' where j: "j = Suc j'" using "2.prems"(2) by (cases j) auto
  show ?case
  proof (cases i)
    case 0
    have "vs ! j' \<in> set vs" using j "2.prems"(3) by simp
    with runs_increase_lower[of k _ vs] "2.prems"(1) 0 j show ?thesis by simp
  next
    case (Suc i')
    with 2 j show ?thesis by simp
  qed
qed simp

text \<open>\<open>k\<close> is 17 or 18, so the end of a run does not wrap.\<close>

lemma run_end:
  assumes "k \<le> 18" and "7 \<le> k"
  shows "unat (run_code k v + run_len k v) = unat (run_code k v) + unat (run_len k v)"
proof -
  have "unat (run_code k v) < 2 ^ k"
  proof -
    have "unat v < 2 ^ k * 2 ^ (32 - k)" using unat_u32_less[of v] assms by (simp flip: power_add)
    then show ?thesis by (simp add: run_code_def unat_drop_bit less_mult_imp_div_less)
  qed
  also have "(2 :: nat) ^ k \<le> 2 ^ 18" using assms by (intro power_increasing) auto
  finally show ?thesis using unat_run_len[of k v] by (intro unat_add_less) simp
qed

lemma run_search_spec:
  assumes inc: "runs_increase k 0 tab" and k: "k \<le> 18" "7 \<le> k"
    and "0 \<le> lo" and "hi < int (length tab)" and "lo \<le> hi + 1"
    and "\<forall>i < nat lo. \<not> in_run k (tab ! i) c" and "\<forall>i < length tab. hi < int i \<longrightarrow> \<not> in_run k (tab ! i) c"
  shows "(\<exists>idx. run_search k tab c lo hi = Some (Some (idx, tab ! idx)) \<and> idx < length tab
        \<and> in_run k (tab ! idx) c)
    \<or> (run_search k tab c lo hi = Some None \<and> (\<forall>v \<in> set tab. \<not> in_run k v c))"
  using assms
proof (induction k tab c lo hi rule: run_search.induct)
  case (1 k tab c lo hi)
  note prems = "1.prems"
  show ?case
  proof (cases "lo \<le> hi")
    case False
    have "\<forall>i < length tab. \<not> in_run k (tab ! i) c"
    proof (intro allI impI)
      fix i assume i: "i < length tab"
      show "\<not> in_run k (tab ! i) c"
        using prems(7,8) i False by (cases "hi < int i") auto
    qed
    then have "\<forall>v \<in> set tab. \<not> in_run k v c" by (auto simp: in_set_conv_nth)
    then show ?thesis using False by (subst (2) run_search.simps) simp
  next
    case True
    define m where "m = (hi + lo) div 2"
    define n where "n = nat m"
    have m: "lo \<le> m" "m \<le> hi" using True by (auto simp: m_def)
    have n: "n < length tab" "int n = m" using m prems(4,5) by (auto simp: n_def)
    let ?v = "tab ! n"
    have v: "mem_get tab (nat m) = Some ?v" using n by (simp add: n_def)
    have step: "run_search k tab c lo hi =
        (if c < run_code k ?v then run_search k tab c lo (m - 1)
         else if c \<ge> run_code k ?v + run_len k ?v then run_search k tab c (m + 1) hi
         else Some (Some (n, ?v)))"
    proof -
      have "run_search k tab c lo hi = (case mem_get tab (nat m) of
          None \<Rightarrow> None
        | Some v \<Rightarrow>
            (if c < run_code k v then run_search k tab c lo (m - 1)
             else if c \<ge> run_code k v + run_len k v then run_search k tab c (m + 1) hi
             else Some (Some (nat m, v))))"
        using True by (subst run_search.simps) (simp only: Let_def m_def if_True)
      then show ?thesis unfolding v by (simp only: option.case n_def)
    qed
    note e = run_end[OF prems(2,3)]
    show ?thesis
    proof (cases "c < run_code k ?v")
      case lt: True
      have above: "\<not> in_run k (tab ! i) c" if "i < length tab" "m - 1 < int i" for i
      proof (cases "i = n")
        case True
        with lt show ?thesis by (auto simp: in_run_def)
      next
        case False
        then have "n < i" using that n by linarith
        from runs_increase_nth[OF prems(1) this that(1)] lt
        show ?thesis by (auto simp: in_run_def word_le_nat_alt word_less_nat_alt)
      qed
      have "(\<exists>idx. run_search k tab c lo (m - 1) = Some (Some (idx, tab ! idx)) \<and> idx < length tab
            \<and> in_run k (tab ! idx) c)
        \<or> (run_search k tab c lo (m - 1) = Some None \<and> (\<forall>v \<in> set tab. \<not> in_run k v c))"
        by (rule "1.IH"(1)[OF True m_def v lt])
           (use prems m above in auto)
      then show ?thesis unfolding step using lt by simp
    next
      case ge: False
      show ?thesis
      proof (cases "c \<ge> run_code k ?v + run_len k ?v")
        case past: True
        have below: "\<not> in_run k (tab ! i) c" if "i < nat (m + 1)" for i
        proof (cases "i = n")
          case True
          with past show ?thesis by (auto simp: in_run_def)
        next
          case False
          then have "i < n" using that n by linarith
          from runs_increase_nth[OF prems(1) this n(1)] past e
          show ?thesis by (auto simp: in_run_def word_le_nat_alt word_less_nat_alt)
        qed
        have "(\<exists>idx. run_search k tab c (m + 1) hi = Some (Some (idx, tab ! idx)) \<and> idx < length tab
              \<and> in_run k (tab ! idx) c)
          \<or> (run_search k tab c (m + 1) hi = Some None \<and> (\<forall>v \<in> set tab. \<not> in_run k v c))"
          by (rule "1.IH"(2)[OF True m_def v ge past])
             (use prems m below in \<open>auto\<close>)
        then show ?thesis unfolding step using ge past by simp
      next
        case False
        then have "in_run k ?v c" using ge by (simp add: in_run_def not_less not_le)
        then show ?thesis unfolding step using ge False n(1) by simp
      qed
    qed
  qed
qed

corollary run_search_table:
  assumes "runs_increase k 0 tab" and "k \<le> 18" and "7 \<le> k"
  shows "(\<exists>idx. run_search k tab c 0 (int (length tab) - 1) = Some (Some (idx, tab ! idx))
        \<and> idx < length tab \<and> in_run k (tab ! idx) c)
    \<or> (run_search k tab c 0 (int (length tab) - 1) = Some None \<and> (\<forall>v \<in> set tab. \<not> in_run k v c))"
  by (rule run_search_spec[OF assms]) auto

lemma lre_is_cased_spec:
  "lre_is_cased c = Some ((\<exists>v \<in> set case_conv_table1. in_run 17 v c) \<or> c \<in> table_set unicode_prop_Cased1_table)"
  using run_search_table[OF case_table_increases, of c]
  by (auto simp: lre_is_cased_def index_length lre_is_in_table_spec[OF index_ok_Cased1]
      intro: bexI[OF _ nth_mem])

section \<open>The conversion tables\<close>

definition case_data :: "u32 \<Rightarrow> u8 \<Rightarrow> u32" where
  "case_data v d = push_bit 8 (v AND 0xf) OR ucast d"

text \<open>
  What \<open>lre_case_conv\<close> relies on, for an entry with its byte of the second table: the indices
  it computes are in range, a single target differs from its source, and the runs whose target
  is one fixed code have length one.
\<close>

definition ext_ok :: "u32 \<Rightarrow> bool" where
  "ext_ok i \<longleftrightarrow> unat i < length case_conv_ext"

definition ext_val :: "u32 \<Rightarrow> u32" where
  "ext_val i = ucast (case_conv_ext ! unat i)"

definition conv_entry_ok :: "u32 \<Rightarrow> u8 \<Rightarrow> bool" where
  "conv_entry_ok v d =
     (let data = case_data v d; code = run_code 17 v; type = case_type v in
      if type \<le> RUN_TYPE_LF then
        unat data < length case_conv_table1 \<and> run_code 17 (case_conv_table1 ! unat data) \<noteq> code
      else if type = RUN_TYPE_UL \<or> type = RUN_TYPE_LSU then True
      else if type = RUN_TYPE_U2L_399_EXT2 then
        ext_ok (drop_bit 6 data) \<and> ext_ok (data AND 0x3f) \<and> ext_val (data AND 0x3f) \<noteq> code
      else if type = RUN_TYPE_UF_D20 then
        run_len 17 v = 1 \<and> data \<noteq> code \<and> data + 0x20 \<noteq> code
      else if type = RUN_TYPE_UF_D1_EXT then
        run_len 17 v = 1 \<and> ext_ok data \<and> ext_val data \<noteq> code \<and> ext_val data + 1 \<noteq> code
      else if type = RUN_TYPE_U_EXT \<or> type = RUN_TYPE_LF_EXT then
        run_len 17 v = 1 \<and> ext_ok data \<and> ext_val data \<noteq> code
      else if type = RUN_TYPE_U_EXT2 \<or> type = RUN_TYPE_L_EXT2 then
        ext_ok (drop_bit 6 data) \<and> ext_ok (data AND 0x3f)
      else
        type = RUN_TYPE_U_EXT3 \<and>
        ext_ok (drop_bit 8 data) \<and> ext_ok (drop_bit 4 data AND 0xf) \<and> ext_ok (data AND 0xf))"

text \<open>The check, piece by piece.\<close>

lemma length_case_parts:
  "length case_conv_table1_0 = 128" "length case_conv_table1_1 = 128" "length case_conv_table1_2 = 105"
  "length case_conv_table2_0 = 128" "length case_conv_table2_1 = 128" "length case_conv_table2_2 = 105"
  "length case_conv_ext = 58"
  by (simp_all add: case_conv_table1_parts case_conv_table2_parts case_conv_ext_def)

lemma length_case_tables: "length case_conv_table1 = 361" "length case_conv_table2 = 361"
  by (simp_all add: case_conv_table1_def case_conv_table2_def length_case_parts)

lemma case_conv_table1_nth:
  "n < 361 \<Longrightarrow> case_conv_table1 ! n =
     (if n < 128 then case_conv_table1_0 ! n
      else if n < 256 then case_conv_table1_1 ! (n - 128)
      else case_conv_table1_2 ! (n - 256))"
  by (auto simp: case_conv_table1_def nth_append length_case_parts)

lemmas conv_entry_eval = conv_entry_ok_def case_data_def run_code_def run_len_def case_type_def Let_def
  ext_ok_def ext_val_def length_case_parts case_conv_table1_nth length_case_tables

lemma conv_entries_ok_0: "list_all2 conv_entry_ok case_conv_table1_0 case_conv_table2_0"
  by (simp add: conv_entry_eval case_conv_ext_def case_conv_table1_0_def case_conv_table1_1_def
      case_conv_table1_2_def case_conv_table2_0_def)

lemma conv_entries_ok_1: "list_all2 conv_entry_ok case_conv_table1_1 case_conv_table2_1"
  by (simp add: conv_entry_eval case_conv_ext_def case_conv_table1_0_def case_conv_table1_1_def
      case_conv_table1_2_def case_conv_table2_1_def)

lemma conv_entries_ok_2: "list_all2 conv_entry_ok case_conv_table1_2 case_conv_table2_2"
  by (simp add: conv_entry_eval case_conv_ext_def case_conv_table1_0_def case_conv_table1_1_def
      case_conv_table1_2_def case_conv_table2_2_def)

lemma conv_entries_ok: "list_all2 conv_entry_ok case_conv_table1 case_conv_table2"
  unfolding case_conv_table1_def case_conv_table2_def
  by (intro list_all2_appendI conv_entries_ok_0 conv_entries_ok_1 conv_entries_ok_2)

section \<open>The ranges of case changes are the codes the conversion changes\<close>

definition conv_mask :: "u32 \<Rightarrow> u32" where
  "conv_mask conv_type = (if conv_type = 0 then CASE_U else if conv_type = 1 then CASE_L else CASE_F)"

lemma conv_masks: "conv_mask 0 = CASE_U" "conv_mask 1 = CASE_L" "conv_mask 2 = CASE_F"
  by (simp_all add: conv_mask_def)

lemma case_run_masks:
  "case_run_mask CASE_U = 11253" "case_run_mask CASE_L = 5242" "case_run_mask CASE_F = 1532"
  by (simp_all add: case_run_mask_def CASE_defs tab_run_mask_def MR_def upt_conv_Cons)

lemma single_masks:
  "CASE_U \<noteq> 0" "CASE_L AND CASE_U = 0" "CASE_F AND CASE_U = 0"
  "CASE_U AND (CASE_L OR CASE_F) = 0"
  by (simp_all add: CASE_defs)

text \<open>The set of one entry for a single conversion, type by type.\<close>

lemma case_run_set_single:
  assumes "conv_type = 0 \<or> conv_type = 1 \<or> conv_type = 2"
  shows "case_run_set (conv_mask conv_type) v =
    (let type = unat (case_type v); code = run_code 17 v; n = run_len 17 v in
     if type = 4 then
       {x. unat code \<le> unat x \<and> unat x < unat code + unat n \<and>
           (if conv_type = 0 then odd (unat x - unat code) else even (unat x - unat code))}
     else if type = 5 then (if conv_type = 0 then {code + 1, code + 2} else {code, code + 1})
     else if type \<in> (if conv_type = 0 then {0, 2, 6, 7, 8, 9, 11, 13}
                     else if conv_type = 1 then {1, 3, 6, 10, 12}
                     else {2, 3, 6, 7, 8, 10}) then {code..<code + n}
     else {})"
proof -
  have t: "unat (case_type v) < 16"
    using unat_and_low(4)[of "drop_bit (32 - 17 - 7 - 4) v"] by (simp add: case_type_def)
  have w: "case_type v = 4 \<longleftrightarrow> unat (case_type v) = 4" "case_type v = 5 \<longleftrightarrow> unat (case_type v) = 5"
    by (simp_all add: word_unat_eq_iff)
  have bits: "bit (11253 :: u32) k \<longleftrightarrow> k \<in> {0, 2, 4, 5, 6, 7, 8, 9, 11, 13}"
    "bit (5242 :: u32) k \<longleftrightarrow> k \<in> {1, 3, 4, 5, 6, 10, 12}"
    "bit (1532 :: u32) k \<longleftrightarrow> k \<in> {2, 3, 4, 5, 6, 7, 8, 10}" if "k < 16" for k
  proof -
    have "list_all (\<lambda>k. (bit (11253 :: u32) k \<longleftrightarrow> k \<in> {0, 2, 4, 5, 6, 7, 8, 9, 11, 13})
        \<and> (bit (5242 :: u32) k \<longleftrightarrow> k \<in> {1, 3, 4, 5, 6, 10, 12})
        \<and> (bit (1532 :: u32) k \<longleftrightarrow> k \<in> {2, 3, 4, 5, 6, 7, 8, 10})) [0..<16]"
      by (simp add: upt_conv_Cons)
    then show "bit (11253 :: u32) k \<longleftrightarrow> k \<in> {0, 2, 4, 5, 6, 7, 8, 9, 11, 13}"
      "bit (5242 :: u32) k \<longleftrightarrow> k \<in> {1, 3, 4, 5, 6, 10, 12}"
      "bit (1532 :: u32) k \<longleftrightarrow> k \<in> {2, 3, 4, 5, 6, 7, 8, 10}"
      using that by (simp_all only: list_all_iff set_upt atLeastLessThan_iff le0 simp_thms)
  qed
  have B: "bit (case_run_mask (conv_mask conv_type)) (unat (case_type v)) \<longleftrightarrow>
      unat (case_type v) \<in> (if conv_type = 0 then {0, 2, 4, 5, 6, 7, 8, 9, 11, 13}
         else if conv_type = 1 then {1, 3, 4, 5, 6, 10, 12} else {2, 3, 4, 5, 6, 7, 8, 10})"
    using assms
  proof (elim disjE)
    assume ct: "conv_type = 0"
    show ?thesis unfolding ct conv_masks case_run_masks bits(1)[OF t] by simp
  next
    assume ct: "conv_type = 1"
    show ?thesis unfolding ct conv_masks case_run_masks bits(2)[OF t] by simp
  next
    assume ct: "conv_type = 2"
    show ?thesis unfolding ct conv_masks case_run_masks bits(3)[OF t] by simp
  qed
  from assms show ?thesis
    unfolding case_run_set_def Let_def w B
    by (elim disjE) (auto simp: conv_mask_def single_masks)
qed

lemma ext_get_ok: "ext_ok i \<Longrightarrow> ext_get i = Some (ext_val i)"
  by (simp add: ext_get_def ext_ok_def ext_val_def mem_get_def)

definition conv_good :: "u32 \<Rightarrow> bool \<Rightarrow> u32 list option \<Rightarrow> bool" where
  "conv_good c moves res \<longleftrightarrow>
     (\<exists>r. res = Some r \<and> 1 \<le> length r \<and> length r \<le> 3 \<and> (r \<noteq> [c] \<longleftrightarrow> moves))"

lemma conv_good_simps [simp]:
  "conv_good c m (Some [y]) \<longleftrightarrow> (y \<noteq> c \<longleftrightarrow> m)"
  "conv_good c m (Some [y, z]) \<longleftrightarrow> m"
  "conv_good c m (Some [y, z, w]) \<longleftrightarrow> m"
  by (auto simp: conv_good_def)

lemma xor_1_neq: "(a :: u32) XOR 1 \<noteq> a"
proof
  assume "a XOR 1 = a"
  then have "a XOR (a XOR 1) = a XOR a" by simp
  then show False by (simp flip: xor.assoc)
qed

lemma in_run_len1:
  assumes "in_run 17 v c" and "run_len 17 v = 1"
  shows "c = run_code 17 v"
proof -
  have "unat (run_code 17 v + run_len 17 v) = unat (run_code 17 v) + 1"
    using run_end[of 17 v] assms(2) by simp
  then have "unat (run_code 17 v) \<le> unat c" "unat c < unat (run_code 17 v) + 1"
    using assms(1) by (simp_all only: in_run_def word_le_nat_alt word_less_nat_alt)
  then show ?thesis by (simp add: word_unat_eq_iff)
qed

lemma conv_entry_types:
  assumes "conv_entry_ok v d"
  shows "case_type v \<le> 3 \<or> case_type v = 4 \<or> case_type v = 5 \<or> case_type v = 6 \<or> case_type v = 7
    \<or> case_type v = 8 \<or> case_type v = 9 \<or> case_type v = 10 \<or> case_type v = 11
    \<or> case_type v = 12 \<or> case_type v = 13"
proof (rule ccontr)
  assume "\<not> ?thesis"
  then have no: "\<not> case_type v \<le> 3" "case_type v \<noteq> 4" "case_type v \<noteq> 5" "case_type v \<noteq> 6"
    "case_type v \<noteq> 7" "case_type v \<noteq> 8" "case_type v \<noteq> 9" "case_type v \<noteq> 10"
    "case_type v \<noteq> 11" "case_type v \<noteq> 12" "case_type v \<noteq> 13" by blast+
  show False using assms unfolding conv_entry_ok_def Let_def
    by (simp only: no if_False simp_thms)
qed

lemma case_conv_entry_good:
  assumes ok: "conv_entry_ok v d" and run: "in_run 17 v c"
    and ct: "conv_type = 0 \<or> conv_type = 1 \<or> conv_type = 2"
  shows "conv_good c (c \<in> case_run_set (conv_mask conv_type) v)
    (case_conv_entry c conv_type v (case_data v d))"
proof -
  define code where "code = run_code 17 v"
  define data where "data = case_data v d"
  define up where "up \<longleftrightarrow> conv_type = 0"
  have c: "code \<le> c" "c < code + run_len 17 v" using run by (simp_all add: in_run_def code_def)
  have mem: "c \<in> {code..<code + run_len 17 v}" using c by simp
  note set = case_run_set_single[OF ct, of v, unfolded Let_def code_def[symmetric]]
  have off: "unat (c - code) = unat c - unat code" using c(1) by (simp add: unat_sub)
  have cc: "unat c < unat code + unat (run_len 17 v)"
    using c(2) run_end[of 17 v] by (simp add: word_less_nat_alt code_def)
  consider (plain) "case_type v \<le> 3" | (ul) "case_type v = 4" | (lsu) "case_type v = 5"
    | (u2l) "case_type v = 6" | (d20) "case_type v = 7" | (d1) "case_type v = 8"
    | (uext) "case_type v = 9" | (lfext) "case_type v = 10" | (uext2) "case_type v = 11"
    | (lext2) "case_type v = 12" | (uext3) "case_type v = 13"
    using conv_entry_types[OF ok] by blast
  then show ?thesis
  proof cases
    case plain
    then have "unat (case_type v) \<le> 3" by (simp add: word_le_nat_alt)
    then have "unat (case_type v) = 0 \<or> unat (case_type v) = 1 \<or> unat (case_type v) = 2
      \<or> unat (case_type v) = 3" by linarith
    then have t: "case_type v = 0 \<or> case_type v = 1 \<or> case_type v = 2 \<or> case_type v = 3"
      by (simp add: word_unat_eq_iff)
    from ok plain have d: "unat data < length case_conv_table1"
      "run_code 17 (case_conv_table1 ! unat data) \<noteq> code"
      by (simp_all add: conv_entry_ok_def Let_def data_def code_def)
    have tgt: "drop_bit (32 - 17) (case_conv_table1 ! unat data) \<noteq> code"
      using d(2) by (simp add: run_code_def)
    have moved: "c - code + y \<noteq> c \<longleftrightarrow> y \<noteq> code" for y by (simp add: diff_add_eq)
    have "\<not> (2 :: u32) \<le> 1" by (simp add: word_le_nat_alt)
    then show ?thesis using t ct mem d(1) tgt moved
      unfolding set data_def[symmetric]
      by (elim disjE) (simp_all add: case_conv_entry_def Let_def code_def[symmetric] mem_get_def)
  next
    case ul
    have par: "(c - code) AND 1 = 1 \<longleftrightarrow> odd (unat c - unat code)" "(c - code) AND 1 = 0 \<longleftrightarrow> even (unat c - unat code)"
      using off unat_and_low(1)[of "c - code"] by (auto simp: word_unat_eq_iff odd_iff_mod_2_eq_one even_iff_mod_2_eq_zero)
    have moved: "((c - code) XOR 1) + code \<noteq> c"
    proof
      assume "((c - code) XOR 1) + code = c"
      then have "(c - code) XOR 1 = c - code" by (simp only: eq_diff_eq)
      then show False using xor_1_neq by blast
    qed
    show ?thesis using ul ct cc c par moved
      unfolding set data_def[symmetric]
      by (elim disjE) (auto simp: case_conv_entry_def Let_def code_def[symmetric] word_le_nat_alt)
  next
    case lsu
    have k: "c - code = 1 \<longleftrightarrow> c = code + 1" "c - code = 2 \<longleftrightarrow> c = code + 2" "c - code = 0 \<longleftrightarrow> c = code"
      by (auto simp: diff_eq_eq)
    show ?thesis using lsu ct k
      unfolding set data_def[symmetric]
      by (elim disjE) (auto simp: case_conv_entry_def Let_def code_def[symmetric])
  next
    case u2l
    from ok u2l have e: "ext_ok (drop_bit 6 data)" "ext_ok (data AND 0x3f)" "ext_val (data AND 0x3f) \<noteq> code"
      by (simp_all add: conv_entry_ok_def Let_def data_def code_def)
    show ?thesis using u2l ct mem e
      unfolding set data_def[symmetric]
      by (elim disjE) (simp_all add: case_conv_entry_def Let_def code_def[symmetric] ext_get_ok diff_add_eq)
  next
    case d20
    from ok d20 have e: "run_len 17 v = 1" "data \<noteq> code" "data + 0x20 \<noteq> code"
      by (simp_all add: conv_entry_ok_def Let_def data_def code_def)
    have "c = code" using in_run_len1[OF run e(1)] by (simp add: code_def)
    then show ?thesis using d20 ct mem e
      unfolding set data_def[symmetric]
      by (elim disjE) (simp_all add: case_conv_entry_def Let_def code_def[symmetric])
  next
    case d1
    from ok d1 have e: "run_len 17 v = 1" "ext_ok data" "ext_val data \<noteq> code" "ext_val data + 1 \<noteq> code"
      by (simp_all add: conv_entry_ok_def Let_def data_def code_def)
    have "c = code" using in_run_len1[OF run e(1)] by (simp add: code_def)
    then show ?thesis using d1 ct mem e
      unfolding set data_def[symmetric]
      by (elim disjE) (simp_all add: case_conv_entry_def Let_def code_def[symmetric] ext_get_ok)
  next
    case uext
    from ok uext have e: "run_len 17 v = 1" "ext_ok data" "ext_val data \<noteq> code"
      by (simp_all add: conv_entry_ok_def Let_def data_def code_def)
    have "c = code" using in_run_len1[OF run e(1)] by (simp add: code_def)
    then show ?thesis using uext ct mem e
      unfolding set data_def[symmetric]
      by (elim disjE) (simp_all add: case_conv_entry_def Let_def code_def[symmetric] ext_get_ok)
  next
    case lfext
    from ok lfext have e: "run_len 17 v = 1" "ext_ok data" "ext_val data \<noteq> code"
      by (simp_all add: conv_entry_ok_def Let_def data_def code_def)
    have "c = code" using in_run_len1[OF run e(1)] by (simp add: code_def)
    then show ?thesis using lfext ct mem e
      unfolding set data_def[symmetric]
      by (elim disjE) (simp_all add: case_conv_entry_def Let_def code_def[symmetric] ext_get_ok)
  next
    case uext2
    from ok uext2 have e: "ext_ok (drop_bit 6 data)" "ext_ok (data AND 0x3f)"
      by (simp_all add: conv_entry_ok_def Let_def data_def)
    show ?thesis using uext2 ct mem e
      unfolding set data_def[symmetric]
      by (elim disjE) (simp_all add: case_conv_entry_def Let_def code_def[symmetric] ext_get_ok)
  next
    case lext2
    from ok lext2 have e: "ext_ok (drop_bit 6 data)" "ext_ok (data AND 0x3f)"
      by (simp_all add: conv_entry_ok_def Let_def data_def)
    show ?thesis using lext2 ct mem e
      unfolding set data_def[symmetric]
      by (elim disjE) (simp_all add: case_conv_entry_def Let_def code_def[symmetric] ext_get_ok)
  next
    case uext3
    from ok uext3 have e: "ext_ok (drop_bit 8 data)" "ext_ok (drop_bit 4 data AND 0xf)" "ext_ok (data AND 0xf)"
      by (simp_all add: conv_entry_ok_def Let_def data_def)
    show ?thesis using uext3 ct mem e
      unfolding set data_def[symmetric]
      by (elim disjE) (simp_all add: case_conv_entry_def Let_def code_def[symmetric] ext_get_ok)
  qed
qed

lemma case_run_set_lower: "x \<in> case_run_set m v \<Longrightarrow> unat (run_code 17 v) \<le> unat x"
proof -
  assume x: "x \<in> case_run_set m v"
  have "unat (run_code 17 v + 1) = unat (run_code 17 v) + 1"
    "unat (run_code 17 v + 2) = unat (run_code 17 v) + 2"
    using unat_run_code[of v] by (simp_all add: unat_add_less)
  with x show ?thesis
    by (auto simp: case_run_set_def Let_def word_le_nat_alt split: if_splits)
qed

lemma case_run_set_in_run:
  assumes ok: "case_entry_ok v" and x: "x \<in> case_run_set m v"
  shows "in_run 17 v x"
proof -
  define code where "code = run_code 17 v"
  have k: "unat (code + 1) = unat code + 1" "unat (code + 2) = unat code + 2"
    using unat_run_code[of v] by (simp_all add: unat_add_less code_def)
  have e: "unat (code + run_len 17 v) = unat code + unat (run_len 17 v)"
    by (simp add: run_end code_def)
  have three: "unat (run_len 17 v) = 3" if "case_type v = 5"
    using ok that by (simp add: case_entry_ok_def)
  show ?thesis using x k e three
    unfolding case_run_set_def Let_def in_run_def code_def[symmetric] word_le_nat_alt word_less_nat_alt
    by (auto simp: word_le_nat_alt word_less_nat_alt split: if_splits)
qed

text \<open>Below 128 the table has the letters only.\<close>

lemma case_set_ascii:
  assumes c: "c < 128" and ct: "conv_type = 0 \<or> conv_type = 1 \<or> conv_type = 2"
  shows "c \<in> case_set (conv_mask conv_type) \<longleftrightarrow>
    (if conv_type = 0 then 97 \<le> c \<and> c \<le> 122 else 65 \<le> c \<and> c \<le> 90)"
proof -
  define rest where "rest = drop 2 case_conv_table1"
  have tab: "case_conv_table1 = 0x00209a30 # 0x00309a00 # rest"
    by (simp add: rest_def case_conv_table1_parts)
  have "runs_increase 17 128 rest" by (simp add: rest_def case_conv_table1_parts run_code_def run_len_def)
  then have "128 \<le> unat (run_code 17 v)" if "v \<in> set rest" for v
    using runs_increase_lower that by blast
  then have none: "c \<notin> case_run_set m v" if "v \<in> set rest" for m v
    using that case_run_set_lower[of c m v] c by (force simp: word_less_nat_alt)
  have e: "run_code 17 0x00209a30 = 65" "run_len 17 0x00209a30 = 26" "unat (case_type 0x00209a30) = 3"
    "run_code 17 0x00309a00 = 97" "run_len 17 0x00309a00 = 26" "unat (case_type 0x00309a00) = 0"
    by (simp_all add: run_code_def run_len_def case_type_def)
  have ends: "x < 91 \<longleftrightarrow> x \<le> 90" "x < 123 \<longleftrightarrow> x \<le> 122" for x :: u32
    by (auto simp: word_le_nat_alt word_less_nat_alt)
  have "c \<in> case_set (conv_mask conv_type) \<longleftrightarrow>
      c \<in> case_run_set (conv_mask conv_type) 0x00209a30 \<or> c \<in> case_run_set (conv_mask conv_type) 0x00309a00"
    using none by (simp add: case_set_def tab)
  also have "\<dots> \<longleftrightarrow> (if conv_type = 0 then 97 \<le> c \<and> c \<le> 122 else 65 \<le> c \<and> c \<le> 90)"
    unfolding case_run_set_single[OF ct] Let_def e using ct by (auto simp: ends)
  finally show ?thesis .
qed

text \<open>
  For every code and every conversion: the result has one to three codes, no table is read out
  of bounds, and it differs from the code itself exactly when the code is in the decoded range.
\<close>

lemma lre_case_conv_good:
  assumes ct: "conv_type = 0 \<or> conv_type = 1 \<or> conv_type = 2"
  shows "conv_good c (c \<in> case_set (conv_mask conv_type)) (lre_case_conv c conv_type)"
proof (cases "c < 128")
  case True
  have "c - 65 + 97 \<noteq> c" "c - 97 + 65 \<noteq> c" by simp_all
  then show ?thesis using True ct case_set_ascii[OF True ct]
    by (auto simp: lre_case_conv_def)
next
  case False
  have once: "v = w" if "v \<in> set case_conv_table1" "w \<in> set case_conv_table1"
    "in_run 17 v c" "in_run 17 w c" for v w
  proof -
    from that(1,2) obtain i j where ij: "i < length case_conv_table1" "v = case_conv_table1 ! i"
      "j < length case_conv_table1" "w = case_conv_table1 ! j" by (auto simp: in_set_conv_nth)
    have "\<not> i < j" "\<not> j < i"
      using runs_increase_nth[OF case_table_increases, of i j]
        runs_increase_nth[OF case_table_increases, of j i] ij that(3,4) run_end[of 17]
      by (auto simp: in_run_def word_le_nat_alt word_less_nat_alt)
    then show ?thesis using ij by simp
  qed
  note only = case_run_set_in_run
  have "(\<exists>idx. run_search 17 case_conv_table1 c 0 (int (length case_conv_table1) - 1) =
        Some (Some (idx, case_conv_table1 ! idx)) \<and> idx < length case_conv_table1
        \<and> in_run 17 (case_conv_table1 ! idx) c)
    \<or> (run_search 17 case_conv_table1 c 0 (int (length case_conv_table1) - 1) = Some None
        \<and> (\<forall>v \<in> set case_conv_table1. \<not> in_run 17 v c))"
    by (rule run_search_table[OF case_table_increases]) simp_all
  then show ?thesis
  proof (elim disjE exE conjE)
    fix idx
    assume s: "run_search 17 case_conv_table1 c 0 (int (length case_conv_table1) - 1) =
        Some (Some (idx, case_conv_table1 ! idx))"
      and idx: "idx < length case_conv_table1" and run: "in_run 17 (case_conv_table1 ! idx) c"
    let ?v = "case_conv_table1 ! idx" and ?d = "case_conv_table2 ! idx"
    have ok: "conv_entry_ok ?v ?d" using conv_entries_ok idx by (simp add: list_all2_conv_all_nth)
    have "c \<in> case_set (conv_mask conv_type) \<longleftrightarrow> c \<in> case_run_set (conv_mask conv_type) ?v"
      using only once[OF _ _ run] idx case_entries_ok nth_mem[OF idx]
      unfolding case_set_def list_all_iff by (metis UN_iff)
    moreover have "lre_case_conv c conv_type = case_conv_entry c conv_type ?v (case_data ?v ?d)"
      using False s idx by (simp add: lre_case_conv_def mem_get_def length_case_tables case_data_def)
    ultimately show ?thesis using case_conv_entry_good[OF ok run ct] by simp
  next
    assume s: "run_search 17 case_conv_table1 c 0 (int (length case_conv_table1) - 1) = Some None"
      and none: "\<forall>v \<in> set case_conv_table1. \<not> in_run 17 v c"
    have "c \<notin> case_set (conv_mask conv_type)"
      using only none case_entries_ok by (auto simp: case_set_def list_all_iff)
    then show ?thesis using False s by (simp add: lre_case_conv_def)
  qed
qed

section \<open>Properties of case conversion\<close>

text \<open>
  C5. The conversion routine and the set builder agree: \<open>lre_case_conv\<close> is total, returns
  one to three code points, and changes exactly the code points in the range set that
  \<open>unicode_case1\<close> builds for the same conversion (upper, lower or fold).
\<close>
theorem case_conv_agrees_with_case1:
  assumes "conv_type = 0 \<or> conv_type = 1 \<or> conv_type = 2"
  shows "\<exists>r cr. unicode_case1 (cr_init h) (conv_mask conv_type) = Some (r, cr) \<and> (r = 0 \<or> r = -1) \<and>
    (r = 0 \<longrightarrow> (\<forall>c. \<exists>res. lre_case_conv c conv_type = Some res \<and> 1 \<le> length res \<and> length res \<le> 3 \<and>
       (in_ranges (cr_pts cr) c \<longleftrightarrow> res \<noteq> [c]))) \<and>
    (heap_ok h \<longrightarrow> r = 0)"
proof -
  have "conv_mask conv_type \<noteq> 0" using assms by (auto simp: conv_masks CASE_U_def CASE_L_def CASE_F_def)
  then show ?thesis
  proof (rule unicode_case1_spec[OF fresh_init[of h]], goal_cases)
    case (1 r cr)
    have "r = 0 \<Longrightarrow> in_ranges (cr_pts cr) c \<longleftrightarrow> c \<in> case_set (conv_mask conv_type)" for c
      using 1(5) by (simp add: cr_set_def set_eq_iff)
    with 1(1,3,7) lre_case_conv_good[OF assms] show ?case
      by (intro exI[of _ r] exI[of _ cr]) (auto simp: conv_good_def)
  qed
qed

theorem case_conv_agrees_with_case1_witness:
  "\<exists>cr. unicode_case1 (cr_init []) CASE_L = Some (0, cr) \<and>
     (\<forall>c. \<exists>res. lre_case_conv c 1 = Some res \<and> 1 \<le> length res \<and>
        length res \<le> 3 \<and> (in_ranges (cr_pts cr) c \<longleftrightarrow> res \<noteq> [c]))"
  using case_conv_agrees_with_case1[of 1 "[]"] by (auto simp: conv_masks)

end
