(* ===== verification/Unicode_Compose.thy ===== *)
theory Unicode_Compose
  imports Unicode_Norm Unicode_Case
begin

text \<open>
  The composition table against the decomposition table: every entry refers to a canonical
  decomposition into a pair, and the pairs increase, so that the binary search finds a pair
  whenever there is one and what it finds decomposes into that pair.
\<close>

section \<open>Evaluating entries\<close>












































section \<open>The table\<close>










section \<open>The search\<close>






section \<open>Composition inverts canonical decomposition\<close>





section \<open>Properties of composition\<close>



end
