(* ===== verification/Unicode_Ops.thy ===== *)
theory Unicode_Ops
  imports Unicode_Sets
begin

text \<open>
  The stack machine \<open>unicode_prop_ops\<close> against its meaning on sets, the search for a name in a
  name table against the list of aliases the table encodes, and what the properties reached
  through them denote.
\<close>

section \<open>Programs of the stack machine\<close>













section \<open>Name tables\<close>

text \<open>The name table of a list of entries, each a list of aliases.\<close>

fun name_entry :: "u8 list list \<Rightarrow> u8 list" where
  "name_entry [] = [0]"
| "name_entry [a] = a @ [0]"
| "name_entry (a # as) = a @ 44 # name_entry as"

definition name_table :: "u8 list list list \<Rightarrow> u8 list" where
  "name_table es = concat (map name_entry es) @ [0]"

definition names_ok :: "u8 list list list \<Rightarrow> bool" where
  "names_ok es \<longleftrightarrow> (\<forall>as \<in> set es. as \<noteq> [] \<and> (\<forall>a \<in> set as. a \<noteq> [] \<and> 0 \<notin> set a \<and> 44 \<notin> set a))"

fun name_index :: "u8 list list list \<Rightarrow> int \<Rightarrow> u8 list \<Rightarrow> int" where
  "name_index [] pos name = -1"
| "name_index (as # es) pos name = (if name \<in> set as then pos else name_index es (pos + 1) name)"

lemma alias_len_append:
  assumes "0 \<notin> set a" and "44 \<notin> set a" and "d = 0 \<or> d = 44"
  shows "alias_len (a @ d # q) = length a"
proof -
  have "takeWhile (\<lambda>c. c \<noteq> 0 \<and> c \<noteq> 44) (a @ d # q) = a"
    using assms by (subst takeWhile_append2) auto
  then show ?thesis by (simp add: alias_len_def)
qed

lemma find_alias_entry:
  assumes "as \<noteq> []" and "\<forall>a \<in> set as. 0 \<notin> set a \<and> 44 \<notin> set a"
  shows "find_alias (name_entry as @ q) pos name =
    (if name \<in> set as then Some pos
     else case q of [] \<Rightarrow> None | c # p' \<Rightarrow> if c = 0 then Some (-1) else find_alias q (pos + 1) name)"
  using assms
proof (induction as rule: name_entry.induct)
  case 1
  then show ?case by simp
next
  case (2 a)
  have n: "alias_len (a @ 0 # q) = length a" using 2 by (intro alias_len_append) auto
  show ?case using n
    by (subst find_alias.simps) (auto simp: Let_def nth_append split: list.splits)
next
  case (3 a b as)
  have n: "alias_len (a @ 44 # name_entry (b # as) @ q) = length a"
    using 3 by (intro alias_len_append) auto
  have "find_alias (name_entry (a # b # as) @ q) pos name =
      (if name = a then Some pos else find_alias (name_entry (b # as) @ q) pos name)"
    using n by (subst find_alias.simps) (auto simp: Let_def nth_append)
  then show ?case using 3 by auto
qed

lemma name_entry_hd: "as \<noteq> [] \<Longrightarrow> \<forall>a \<in> set as. a \<noteq> [] \<and> 0 \<notin> set a \<Longrightarrow>
   \<exists>c p. name_entry as = c # p \<and> c \<noteq> 0"
  by (cases as rule: name_entry.cases) (auto simp: neq_Nil_conv)

lemma find_alias_table:
  assumes "names_ok (as # es)"
  shows "find_alias (name_table (as # es)) pos name = Some (name_index (as # es) pos name)"
  using assms
proof (induction es arbitrary: as pos)
  case Nil
  then show ?case using find_alias_entry[of as "[0]" pos name]
    by (simp add: name_table_def names_ok_def)
next
  case (Cons bs es)
  obtain c p where h: "name_entry bs = c # p" "c \<noteq> 0"
    using name_entry_hd[of bs] Cons.prems by (auto simp: names_ok_def)
  have "find_alias (name_table (as # bs # es)) pos name =
      (if name \<in> set as then Some pos else find_alias (name_table (bs # es)) (pos + 1) name)"
    using find_alias_entry[of as "name_table (bs # es)" pos name] Cons.prems h
    by (simp add: name_table_def names_ok_def)
  then show ?case using Cons.IH[of bs "pos + 1"] Cons.prems by (simp add: names_ok_def)
qed

text \<open>The search returns the position of the first entry that has the name among its aliases.\<close>

lemma unicode_find_name_spec:
  assumes "names_ok es"
  shows "unicode_find_name (name_table es) name = Some (name_index es 0 name)"
proof (cases es)
  case Nil
  then show ?thesis by (simp add: unicode_find_name_def name_table_def)
next
  case (Cons as es')
  obtain c p where "name_entry as = c # p" "c \<noteq> 0"
    using name_entry_hd[of as] assms Cons by (auto simp: names_ok_def)
  then have "\<exists>q. name_table es = c # q \<and> c \<noteq> 0" using Cons by (simp add: name_table_def)
  then show ?thesis using find_alias_table[of as es' 0 name] assms Cons
    by (auto simp: unicode_find_name_def)
qed

section \<open>Properties of the property machine\<close>



text \<open>
  C35. \<open>unicode_find_name\<close> on any well-formed table (zero-terminated entries of
  comma-separated aliases) returns the position of the first entry that has the name among its
  aliases, and -1 when there is none; it never reads past the table.
\<close>
theorem unicode_find_name_correct:
  assumes "names_ok es"
  shows "unicode_find_name (name_table es) name = Some (name_index es 0 name)"
  by (rule unicode_find_name_spec[OF assms])

theorem unicode_find_name_correct_witness:
  "unicode_find_name [76, 117, 44, 85, 0, 76, 108, 0, 0] [76, 108] = Some 1"
  using unicode_find_name_correct[of "[[[76, 117], [85]], [[76, 108]]]" "[76, 108]"]
  by (simp add: names_ok_def name_table_def)

end
