(* ===== verification/Regexp_Code.thy ===== *)
theory Regexp_Code
  imports Unicode_Range Unicode_Lookup Cutils_DynBuf Cutils_Bytes
begin

text \<open>
  What the compiler and the matcher of \<open>quickjs/libregexp.c\<close> share: the opcodes and their sizes,
  the header, the flags, the character tests and case folding, the predefined classes.
\<close>

section \<open>Opcodes and header\<close>

abbreviation (input) REOP_invalid :: u8 where "REOP_invalid \<equiv> 0"
abbreviation (input) REOP_char :: u8 where "REOP_char \<equiv> 1"
abbreviation (input) REOP_char32 :: u8 where "REOP_char32 \<equiv> 2"
abbreviation (input) REOP_dot :: u8 where "REOP_dot \<equiv> 3"
abbreviation (input) REOP_any :: u8 where "REOP_any \<equiv> 4"
abbreviation (input) REOP_line_start :: u8 where "REOP_line_start \<equiv> 5"
abbreviation (input) REOP_line_end :: u8 where "REOP_line_end \<equiv> 6"
abbreviation (input) REOP_goto :: u8 where "REOP_goto \<equiv> 7"
abbreviation (input) REOP_split_goto_first :: u8 where "REOP_split_goto_first \<equiv> 8"
abbreviation (input) REOP_split_next_first :: u8 where "REOP_split_next_first \<equiv> 9"
abbreviation (input) REOP_match :: u8 where "REOP_match \<equiv> 10"
abbreviation (input) REOP_save_start :: u8 where "REOP_save_start \<equiv> 11"
abbreviation (input) REOP_save_end :: u8 where "REOP_save_end \<equiv> 12"
abbreviation (input) REOP_save_reset :: u8 where "REOP_save_reset \<equiv> 13"
abbreviation (input) REOP_loop :: u8 where "REOP_loop \<equiv> 14"
abbreviation (input) REOP_push_i32 :: u8 where "REOP_push_i32 \<equiv> 15"
abbreviation (input) REOP_drop :: u8 where "REOP_drop \<equiv> 16"
abbreviation (input) REOP_word_boundary :: u8 where "REOP_word_boundary \<equiv> 17"
abbreviation (input) REOP_not_word_boundary :: u8 where "REOP_not_word_boundary \<equiv> 18"
abbreviation (input) REOP_back_reference :: u8 where "REOP_back_reference \<equiv> 19"
abbreviation (input) REOP_backward_back_reference :: u8 where "REOP_backward_back_reference \<equiv> 20"
abbreviation (input) REOP_range :: u8 where "REOP_range \<equiv> 21"
abbreviation (input) REOP_range32 :: u8 where "REOP_range32 \<equiv> 22"
abbreviation (input) REOP_lookahead :: u8 where "REOP_lookahead \<equiv> 23"
abbreviation (input) REOP_negative_lookahead :: u8 where "REOP_negative_lookahead \<equiv> 24"
abbreviation (input) REOP_push_char_pos :: u8 where "REOP_push_char_pos \<equiv> 25"
abbreviation (input) REOP_bne_char_pos :: u8 where "REOP_bne_char_pos \<equiv> 26"
abbreviation (input) REOP_prev :: u8 where "REOP_prev \<equiv> 27"
abbreviation (input) REOP_simple_greedy_quant :: u8 where "REOP_simple_greedy_quant \<equiv> 28"

text \<open>The second argument of each \<open>DEF\<close>: opcode \<open>i\<close> takes \<open>reopcode_size ! i\<close> bytes.\<close>

definition reopcode_size :: "nat list" where
  "reopcode_size =
     [1, 3, 5, 1, 1, 1, 1, 5, 5, 5,
      1, 2, 2, 3, 5, 5, 1, 1, 1, 2,
      2, 3, 3, 5, 5, 1, 5, 1, 17]"

definition REOP_COUNT :: nat where "REOP_COUNT = 29"
definition CAPTURE_COUNT_MAX :: nat where "CAPTURE_COUNT_MAX = 255"
definition STACK_SIZE_MAX :: nat where "STACK_SIZE_MAX = 255"
definition RE_HEADER_FLAGS :: nat where "RE_HEADER_FLAGS = 0"
definition RE_HEADER_CAPTURE_COUNT :: nat where "RE_HEADER_CAPTURE_COUNT = 1"
definition RE_HEADER_STACK_SIZE :: nat where "RE_HEADER_STACK_SIZE = 2"
definition RE_HEADER_LEN :: nat where "RE_HEADER_LEN = 7"

lemmas RE_HEADER_defs = RE_HEADER_FLAGS_def RE_HEADER_CAPTURE_COUNT_def RE_HEADER_STACK_SIZE_def
  RE_HEADER_LEN_def

text \<open>The size of the instruction at \<open>pos\<close>; the lists of ranges have a variable length.\<close>

definition instr_size :: "u8 list \<Rightarrow> nat \<Rightarrow> nat option" where
  "instr_size bc pos =
     do {
       op \<leftarrow> mem_get bc pos;
       n \<leftarrow> mem_get reopcode_size (unat op);
       if op = REOP_range then map_option (\<lambda>v. n + unat v * 4) (get_u16 bc (pos + 1))
       else if op = REOP_range32 then map_option (\<lambda>v. n + unat v * 8) (get_u16 bc (pos + 1))
       else Some n
     }"

lemma instr_size_pos: "instr_size bc pos = Some n \<Longrightarrow> 0 < n"
proof -
  have "list_all (\<lambda>k. 0 < k) reopcode_size" by (simp add: reopcode_size_def)
  then have "mem_get reopcode_size i = Some k \<Longrightarrow> 0 < k" for i k
    by (auto simp: list_all_length)
  then show "instr_size bc pos = Some n \<Longrightarrow> 0 < n"
    by (fastforce simp: instr_size_def Option.bind_eq_Some_conv simp del: mem_get_Some split: if_splits)
qed

abbreviation (input) LRE_FLAG_GLOBAL :: u8 where "LRE_FLAG_GLOBAL \<equiv> 1"
abbreviation (input) LRE_FLAG_IGNORECASE :: u8 where "LRE_FLAG_IGNORECASE \<equiv> 2"
abbreviation (input) LRE_FLAG_MULTILINE :: u8 where "LRE_FLAG_MULTILINE \<equiv> 4"
abbreviation (input) LRE_FLAG_DOTALL :: u8 where "LRE_FLAG_DOTALL \<equiv> 8"
abbreviation (input) LRE_FLAG_UTF16 :: u8 where "LRE_FLAG_UTF16 \<equiv> 16"
abbreviation (input) LRE_FLAG_STICKY :: u8 where "LRE_FLAG_STICKY \<equiv> 32"
abbreviation (input) LRE_FLAG_NAMED_GROUPS :: u8 where "LRE_FLAG_NAMED_GROUPS \<equiv> 128"

section \<open>Characters\<close>

abbreviation (input) CP_LS :: u32 where "CP_LS \<equiv> 0x2028"
abbreviation (input) CP_PS :: u32 where "CP_PS \<equiv> 0x2029"

definition is_digit :: "int \<Rightarrow> bool" where
  "is_digit c \<longleftrightarrow> c \<ge> 0x30 \<and> c \<le> 0x39"

definition is_line_terminator :: "u32 \<Rightarrow> bool" where
  "is_line_terminator c \<longleftrightarrow> c = 0x0a \<or> c = 0x0d \<or> c = CP_LS \<or> c = CP_PS"

definition is_word_char :: "u32 \<Rightarrow> bool" where
  "is_word_char c \<longleftrightarrow>
     (c \<ge> 0x30 \<and> c \<le> 0x39) \<or> (c \<ge> 0x61 \<and> c \<le> 0x7a) \<or> (c \<ge> 0x41 \<and> c \<le> 0x5a) \<or> c = 0x5f"

definition lre_canonicalize :: "u32 \<Rightarrow> bool \<Rightarrow> u32 option" where
  "lre_canonicalize c is_utf16 =
     (if is_utf16 then
        if c < 128 then Some (if c \<ge> 0x41 \<and> c \<le> 0x5a then c - 0x41 + 0x61 else c)
        else do { res \<leftarrow> lre_case_conv c 2; mem_get res 0 }
      else
        if c < 128 then Some (if c \<ge> 0x61 \<and> c \<le> 0x7a then c - 0x61 + 0x41 else c)
        else do {
          res \<leftarrow> lre_case_conv c 0;
          r0 \<leftarrow> mem_get res 0;
          Some (if length res = 1 \<and> r0 \<ge> 128 then r0 else c)
        })"

section \<open>Predefined classes\<close>

text \<open>The tables without their leading count, which is half their length.\<close>

definition char_range_d :: "u32 list" where
  "char_range_d = [0x0030, 0x0039 + 1]"

definition char_range_s :: "u32 list" where
  "char_range_s =
     [0x0009, 0x000D + 1, 0x0020, 0x0020 + 1, 0x00A0, 0x00A0 + 1, 0x1680, 0x1680 + 1,
      0x2000, 0x200A + 1, 0x2028, 0x2029 + 1, 0x202F, 0x202F + 1, 0x205F, 0x205F + 1,
      0x3000, 0x3000 + 1, 0xFEFF, 0xFEFF + 1]"

definition char_range_w :: "u32 list" where
  "char_range_w =
     [0x0030, 0x0039 + 1, 0x0041, 0x005A + 1, 0x005F, 0x005F + 1, 0x0061, 0x007A + 1]"

definition char_range_table :: "u32 list list" where
  "char_range_table = [char_range_d, char_range_s, char_range_w]"

fun is_space_loop :: "u32 list \<Rightarrow> u32 \<Rightarrow> bool" where
  "is_space_loop (low # high # r) c =
     (if c < low then False else if c < high then True else is_space_loop r c)"
| "is_space_loop _ c = False"

definition lre_is_space :: "u32 \<Rightarrow> bool" where
  "lre_is_space c = is_space_loop char_range_s c"

definition lre_id_start_table_ascii :: "u32 list" where
  "lre_id_start_table_ascii = [0x00000000, 0x00000010, 0x87FFFFFE, 0x07FFFFFE]"

definition lre_id_continue_table_ascii :: "u32 list" where
  "lre_id_continue_table_ascii = [0x00000000, 0x03FF0010, 0x87FFFFFE, 0x07FFFFFE]"

definition lre_js_is_ident_first :: "u32 \<Rightarrow> bool option" where
  "lre_js_is_ident_first c =
     (if c < 128 then
        do {
          w \<leftarrow> mem_get lre_id_start_table_ascii (unat (drop_bit 5 c));
          Some (drop_bit (unat (c AND 31)) w AND 1 \<noteq> 0)
        }
      else lre_is_id_start c)"

definition lre_js_is_ident_next :: "u32 \<Rightarrow> bool option" where
  "lre_js_is_ident_next c =
     (if c < 128 then
        do {
          w \<leftarrow> mem_get lre_id_continue_table_ascii (unat (drop_bit 5 c));
          Some (drop_bit (unat (c AND 31)) w AND 1 \<noteq> 0)
        }
      else do {
        b \<leftarrow> lre_is_id_continue c;
        Some (b \<or> c = 0x200C \<or> c = 0x200D)
      })"

fun cr_add_points :: "char_range \<Rightarrow> u32 list \<Rightarrow> (int \<times> char_range) option" where
  "cr_add_points cr [] = Some (0, cr)"
| "cr_add_points cr (v # vs) =
     (case cr_add_point cr v of
        None \<Rightarrow> None
      | Some (r, cr) \<Rightarrow> if r \<noteq> 0 then Some (-1, cr) else cr_add_points cr vs)"

definition cr_init_char_range :: "u32 heap \<Rightarrow> nat \<Rightarrow> (int \<times> char_range) option" where
  "cr_init_char_range h c =
     do {
       c_pt \<leftarrow> mem_get char_range_table (c div 2);
       (r, cr) \<leftarrow> cr_add_points (cr_init h) c_pt;
       if r \<noteq> 0 then Some (-1, cr)
       else if odd c then
         do { (r, cr) \<leftarrow> cr_invert cr; Some (if r \<noteq> 0 then -1 else 0, cr) }
       else Some (0, cr)
     }"

text \<open>
  \<open>cr_canonicalize\<close> adds the upper case of the ASCII lower case letters of a class. The outcomes
  of the allocator are threaded through the temporary range.
\<close>

definition cr_canonicalize :: "char_range \<Rightarrow> (int \<times> char_range) option" where
  "cr_canonicalize cr =
     do {
       (r, a) \<leftarrow> cr_op (cr_init (cr_opaque cr)) (cr_points cr) (cr_len cr) [0x61, 0x7a + 1] 2 CR_OP_INTER;
       let cr = cr\<lparr>cr_opaque := cr_opaque a\<rparr>;
       if r \<noteq> 0 then Some (r, cr)
       else cr_union1 cr (map (\<lambda>p. p + (0x41 - 0x61)) (take (cr_len a) (cr_points a))) (cr_len a)
     }"

end
