(* ===== verification/Regexp_Exec.thy ===== *)
theory Regexp_Exec
  imports Regexp_Code
begin

text \<open>
  The matcher of \<open>quickjs/libregexp.c\<close>: a virtual machine with an explicit stack of saved states.

  The subject string is the list of its units (bytes, or 16-bit words); the C pointers \<open>cptr\<close> and
  the captures are indices of units, \<open>NULL\<close> is \<open>None\<close>, and the program counter is an offset in the
  bytecode. \<open>StackInt\<close> values are 64-bit words, so a position on the stack is the address
  \<open>cbuf_addr + (index << shift)\<close>. \<open>None\<close> is undefined behaviour: an access out of bounds, a jump
  out of the bytecode, a failed \<open>assert\<close>, \<open>abort\<close>, or a pop from the empty stack.
\<close>

section \<open>State\<close>

datatype re_state_type =
    RE_EXEC_STATE_SPLIT
  | RE_EXEC_STATE_LOOKAHEAD
  | RE_EXEC_STATE_NEGATIVE_LOOKAHEAD
  | RE_EXEC_STATE_GREEDY_QUANT

record re_exec_state =
  rs_type :: re_state_type
  rs_count :: nat
  rs_cptr :: nat
  rs_pc :: nat
  rs_capture :: "nat option list"
  rs_stack :: "u64 list"

text \<open>What a match never changes: the bytecode, the subject and the header fields.\<close>

record re_ctx =
  bc_buf :: "u8 list"
  cbuf :: "u16 list"
  cbuf_addr :: u64
  cbuf_type :: nat
  capture_count :: nat
  stack_size_max :: nat
  multi_line :: bool
  ignore_case :: bool
  is_utf16 :: bool

record re_vm =
  vm_pc :: nat
  vm_cptr :: nat
  vm_capture :: "nat option list"
  vm_stack :: "u64 list"
  vm_stack_len :: nat
  state_stack :: "re_exec_state list"
  state_stack_size :: nat
  vm_heap :: "u8 heap"

definition cbuf_end :: "re_ctx \<Rightarrow> nat" where
  "cbuf_end s = length (cbuf s)"

section \<open>Characters of the subject\<close>

text \<open>
  The macros \<open>GET_CHAR\<close> to \<open>PREV_CHAR\<close>: the character, and the new position where the macro
  moves it. The limit is an argument of the macro, not always the end of the subject.
\<close>

definition surrogate_pair :: "u32 \<Rightarrow> u32 \<Rightarrow> u32" where
  "surrogate_pair hi lo = (push_bit 10 (hi AND 0x3ff) OR (lo AND 0x3ff)) + 0x10000"

definition get_unit :: "re_ctx \<Rightarrow> nat \<Rightarrow> u32 option" where
  "get_unit s i = map_option ucast (mem_get (cbuf s) i)"

definition PEEK_CHAR :: "re_ctx \<Rightarrow> nat \<Rightarrow> nat \<Rightarrow> u32 option" where
  "PEEK_CHAR s i lim =
     do {
       c \<leftarrow> get_unit s i;
       if c \<ge> 0xd800 \<and> c < 0xdc00 \<and> cbuf_type s = 2 \<and> i + 1 < lim then
         do {
           c1 \<leftarrow> get_unit s (i + 1);
           Some (if c1 \<ge> 0xdc00 \<and> c1 < 0xe000 then surrogate_pair c c1 else c)
         }
       else Some c
     }"

definition GET_CHAR :: "re_ctx \<Rightarrow> nat \<Rightarrow> nat \<Rightarrow> (u32 \<times> nat) option" where
  "GET_CHAR s i lim =
     do {
       c \<leftarrow> get_unit s i;
       if c \<ge> 0xd800 \<and> c < 0xdc00 \<and> cbuf_type s = 2 \<and> i + 1 < lim then
         do {
           c1 \<leftarrow> get_unit s (i + 1);
           Some (if c1 \<ge> 0xdc00 \<and> c1 < 0xe000 then (surrogate_pair c c1, i + 2) else (c, i + 1))
         }
       else Some (c, i + 1)
     }"

definition PEEK_PREV_CHAR :: "re_ctx \<Rightarrow> nat \<Rightarrow> nat \<Rightarrow> u32 option" where
  "PEEK_PREV_CHAR s i start =
     (if i = 0 then None
      else do {
        c \<leftarrow> get_unit s (i - 1);
        if c \<ge> 0xdc00 \<and> c < 0xe000 \<and> cbuf_type s = 2 \<and> i - 1 > start then
          do {
            c1 \<leftarrow> get_unit s (i - 2);
            Some (if c1 \<ge> 0xd800 \<and> c1 < 0xdc00 then surrogate_pair c1 c else c)
          }
        else Some c
      })"

definition GET_PREV_CHAR :: "re_ctx \<Rightarrow> nat \<Rightarrow> nat \<Rightarrow> (u32 \<times> nat) option" where
  "GET_PREV_CHAR s i start =
     (if i = 0 then None
      else do {
        c \<leftarrow> get_unit s (i - 1);
        if c \<ge> 0xdc00 \<and> c < 0xe000 \<and> cbuf_type s = 2 \<and> i - 1 > start then
          do {
            c1 \<leftarrow> get_unit s (i - 2);
            Some (if c1 \<ge> 0xd800 \<and> c1 < 0xdc00 then (surrogate_pair c1 c, i - 2) else (c, i - 1))
          }
        else Some (c, i - 1)
      })"

definition PREV_CHAR :: "re_ctx \<Rightarrow> nat \<Rightarrow> nat \<Rightarrow> nat option" where
  "PREV_CHAR s i start =
     (if i = 0 then None
      else if cbuf_type s = 2 then
        do {
          c \<leftarrow> get_unit s (i - 1);
          if c \<ge> 0xdc00 \<and> c < 0xe000 \<and> i - 1 > start then
            do {
              c \<leftarrow> get_unit s (i - 2);
              Some (if c \<ge> 0xd800 \<and> c < 0xdc00 then i - 2 else i - 1)
            }
          else Some (i - 1)
        }
      else Some (i - 1))"

definition canon_char :: "re_ctx \<Rightarrow> u32 \<Rightarrow> u32 option" where
  "canon_char s c = (if ignore_case s then lre_canonicalize c (is_utf16 s) else Some c)"

definition char_addr :: "re_ctx \<Rightarrow> nat \<Rightarrow> u64" where
  "char_addr s i = cbuf_addr s + of_nat (if cbuf_type s = 0 then i else 2 * i)"

lemma GET_CHAR_forward:
  assumes "GET_CHAR s i lim = Some (c, j)"
  shows "i < j \<and> j \<le> i + 2"
  using assms by (auto simp: GET_CHAR_def Option.bind_eq_Some_conv split: if_splits)

lemma GET_PREV_CHAR_backward:
  assumes "GET_PREV_CHAR s i start = Some (c, j)"
  shows "j < i \<and> i \<le> j + 2"
  using assms by (auto simp: GET_PREV_CHAR_def Option.bind_eq_Some_conv split: if_splits)

section \<open>Saved states\<close>

text \<open>
  \<open>sizeof(REExecState)\<close> is 32 with 64-bit pointers. The allocation is modelled by its outcome:
  the contents of the state stack move with it.
\<close>

definition re_state_size :: "re_ctx \<Rightarrow> nat" where
  "re_state_size s = 32 + capture_count s * 8 * 2 + stack_size_max s * 8"

definition lre_realloc :: "u8 heap \<Rightarrow> nat \<Rightarrow> bool \<times> u8 heap" where
  "lre_realloc h n =
     (case heap_next h of
        (None, h') \<Rightarrow> (False, h')
      | (Some _, h') \<Rightarrow> (n \<le> PTRDIFF_MAX, h'))"

definition push_state ::
  "re_ctx \<Rightarrow> re_vm \<Rightarrow> nat \<Rightarrow> nat \<Rightarrow> re_state_type \<Rightarrow> nat \<Rightarrow> (int \<times> re_vm) option" where
  "push_state s m pc cptr type count =
     (let grow = (length (state_stack m) + 1 > state_stack_size m);
          sz = szt (state_stack_size m * 3) div 2;
          new_size = (if sz < 8 then 8 else sz);
          (ok, h) = (if grow then lre_realloc (vm_heap m) (szt (new_size * re_state_size s))
                     else (True, vm_heap m));
          m = m\<lparr>vm_heap := h\<rparr> in
      if \<not> ok then Some (-1, m)
      else do {
        cap \<leftarrow> mem_read (vm_capture m) 0 (2 * capture_count s);
        stk \<leftarrow> mem_read (vm_stack m) 0 (vm_stack_len m);
        let rs = \<lparr>rs_type = type, rs_count = count, rs_cptr = cptr, rs_pc = pc,
                  rs_capture = cap, rs_stack = stk\<rparr>;
        Some (0, m\<lparr>state_stack := rs # state_stack m,
                   state_stack_size := (if grow then new_size else state_stack_size m)\<rparr>)
      })"

section \<open>One instruction\<close>

text \<open>
  How an instruction goes on: with the next one, at \<open>no_match\<close>, at \<open>match\<close>, with the return
  value \<open>-1\<close>, or with the loop of \<open>simple_greedy_quant\<close> (body, minimum, maximum).
\<close>

datatype vm_next =
    Go re_vm
  | NoMatch re_vm
  | Match re_vm
  | OutOfMemory re_vm
  | Greedy re_vm nat u32 u32

definition jump :: "u8 list \<Rightarrow> nat \<Rightarrow> u32 \<Rightarrow> nat option" where
  "jump bc pc val =
     (let t = int pc + sint val in
      if 0 \<le> t \<and> t \<le> int (length bc) then Some (nat t) else None)"

definition next_char :: "re_ctx \<Rightarrow> re_vm \<Rightarrow> (u32 \<Rightarrow> re_vm \<Rightarrow> vm_next option) \<Rightarrow> vm_next option" where
  "next_char s m k =
     (if vm_cptr m \<ge> cbuf_end s then Some (NoMatch m)
      else do {
        (c, i) \<leftarrow> GET_CHAR s (vm_cptr m) (cbuf_end s);
        k c (m\<lparr>vm_cptr := i\<rparr>)
      })"

definition check_next :: "bool \<Rightarrow> re_vm \<Rightarrow> vm_next" where
  "check_next ok m = (if ok then Go m else NoMatch m)"

definition test_char :: "re_ctx \<Rightarrow> re_vm \<Rightarrow> u32 \<Rightarrow> vm_next option" where
  "test_char s m val =
     next_char s m (\<lambda>c m. do { c \<leftarrow> canon_char s c; Some (check_next (val = c) m) })"

definition push_int :: "re_vm \<Rightarrow> u64 \<Rightarrow> re_vm option" where
  "push_int m v =
     do {
       stk \<leftarrow> mem_set (vm_stack m) (vm_stack_len m) v;
       Some (m\<lparr>vm_stack := stk, vm_stack_len := vm_stack_len m + 1\<rparr>)
     }"

text \<open>
  The binary search of \<open>range\<close> and \<open>range32\<close>; \<open>w\<close> is the width of a bound in bytes. Going below
  index 0 wraps \<open>idx_max\<close> to \<open>2^32 - 1\<close>, and the next probe, at \<open>2^31 - 1\<close>, is out of bounds.
\<close>

definition get_bound :: "re_ctx \<Rightarrow> nat \<Rightarrow> nat \<Rightarrow> u32 option" where
  "get_bound s w p = (if w = 2 then get_u16 (bc_buf s) p else get_u32 (bc_buf s) p)"

function range_search :: "re_ctx \<Rightarrow> nat \<Rightarrow> nat \<Rightarrow> u32 \<Rightarrow> nat \<Rightarrow> nat \<Rightarrow> bool option" where
  "range_search s w pc c idx_min idx_max =
     (if idx_min \<le> idx_max then
        let idx = (idx_min + idx_max) div 2 in
        case (get_bound s w (pc + idx * (2 * w)), get_bound s w (pc + idx * (2 * w) + w)) of
          (Some low, Some high) \<Rightarrow>
            if c < low then
              if idx = 0 then None else range_search s w pc c idx_min (idx - 1)
            else if c > high then range_search s w pc c (idx + 1) idx_max
            else Some True
        | _ \<Rightarrow> None
      else Some False)"
  by pat_completeness auto
termination
  by (relation "measure (\<lambda>(s, w, pc, c, lo, hi). hi + 1 - lo)") auto

declare range_search.simps [simp del]

definition range_test :: "re_ctx \<Rightarrow> nat \<Rightarrow> nat \<Rightarrow> nat \<Rightarrow> u32 \<Rightarrow> bool option" where
  "range_test s w pc n c =
     do {
       low \<leftarrow> get_bound s w pc;
       if c < low then Some False
       else if n = 0 then None
       else do {
         high \<leftarrow> get_bound s w (pc + (n - 1) * (2 * w) + w);
         if w = 2 \<and> c \<ge> 0xffff \<and> high = 0xffff then Some True
         else if c > high then Some False
         else range_search s w pc c 0 (n - 1)
       }
     }"

definition exec_range :: "re_ctx \<Rightarrow> nat \<Rightarrow> re_vm \<Rightarrow> vm_next option" where
  "exec_range s w m =
     do {
       n \<leftarrow> get_u16 (bc_buf s) (vm_pc m);
       let n = unat n;
       let m = m\<lparr>vm_pc := vm_pc m + 2\<rparr>;
       next_char s m (\<lambda>c m. do {
         c \<leftarrow> canon_char s c;
         ok \<leftarrow> range_test s w (vm_pc m) n c;
         Some (check_next ok (m\<lparr>vm_pc := vm_pc m + 2 * w * n\<rparr>))
       })
     }"

text \<open>
  The loops of the two back references, \<open>i\<close> in the captured text and \<open>cptr\<close> in the subject. The
  result is the end position, or \<open>None\<close> (the inner one) for the jump to \<open>no_match\<close>. A captured
  text may end before it starts, then there is nothing to compare.
\<close>

function back_ref_loop :: "re_ctx \<Rightarrow> nat \<Rightarrow> nat \<Rightarrow> nat \<Rightarrow> nat option option" where
  "back_ref_loop s i e cptr =
     (if i < e then
        if cptr \<ge> cbuf_end s then Some None
        else
          (case (GET_CHAR s i e, GET_CHAR s cptr (cbuf_end s)) of
             (Some (c1, i'), Some (c2, cptr')) \<Rightarrow>
               (case (canon_char s c1, canon_char s c2) of
                  (Some c1, Some c2) \<Rightarrow>
                    if c1 \<noteq> c2 then Some None else back_ref_loop s i' e cptr'
                | _ \<Rightarrow> None)
           | _ \<Rightarrow> None)
      else Some (Some cptr))"
  by pat_completeness auto
termination
  by (relation "measure (\<lambda>(s, i, e, cptr). e - i)") (auto dest!: GET_CHAR_forward[OF sym])

declare back_ref_loop.simps [simp del]

function back_ref_prev_loop :: "re_ctx \<Rightarrow> nat \<Rightarrow> nat \<Rightarrow> nat \<Rightarrow> nat option option" where
  "back_ref_prev_loop s i start cptr =
     (if i > start then
        if cptr = 0 then Some None
        else
          (case (GET_PREV_CHAR s i start, GET_PREV_CHAR s cptr 0) of
             (Some (c1, i'), Some (c2, cptr')) \<Rightarrow>
               (case (canon_char s c1, canon_char s c2) of
                  (Some c1, Some c2) \<Rightarrow>
                    if c1 \<noteq> c2 then Some None else back_ref_prev_loop s i' start cptr'
                | _ \<Rightarrow> None)
           | _ \<Rightarrow> None)
      else Some (Some cptr))"
  by pat_completeness auto
termination
  by (relation "measure (\<lambda>(s, i, start, cptr). i)") (auto dest!: GET_PREV_CHAR_backward[OF sym])

declare back_ref_prev_loop.simps [simp del]

fun reset_captures :: "nat \<Rightarrow> nat \<Rightarrow> nat option list \<Rightarrow> nat option list option" where
  "reset_captures val 0 cap = Some cap"
| "reset_captures val (Suc n) cap =
     do {
       cap \<leftarrow> mem_set cap (2 * val) None;
       cap \<leftarrow> mem_set cap (2 * val + 1) None;
       reset_captures (val + 1) n cap
     }"

definition exec_jump ::
  "re_ctx \<Rightarrow> re_vm \<Rightarrow> (u32 \<Rightarrow> re_vm \<Rightarrow> vm_next option) \<Rightarrow> vm_next option" where
  "exec_jump s m k =
     do {
       val \<leftarrow> get_u32 (bc_buf s) (vm_pc m);
       k val (m\<lparr>vm_pc := vm_pc m + 4\<rparr>)
     }"

definition exec_push ::
  "re_ctx \<Rightarrow> re_vm \<Rightarrow> nat \<Rightarrow> re_state_type \<Rightarrow> vm_next option" where
  "exec_push s m pc type =
     do {
       (ret, m) \<leftarrow> push_state s m pc (vm_cptr m) type 0;
       Some (if ret < 0 then OutOfMemory m else Go m)
     }"

definition exec_word_boundary :: "re_ctx \<Rightarrow> bool \<Rightarrow> re_vm \<Rightarrow> vm_next option" where
  "exec_word_boundary s negated m =
     do {
       v1 \<leftarrow> (if vm_cptr m = 0 then Some False
             else map_option is_word_char (PEEK_PREV_CHAR s (vm_cptr m) 0));
       v2 \<leftarrow> (if vm_cptr m \<ge> cbuf_end s then Some False
             else map_option is_word_char (PEEK_CHAR s (vm_cptr m) (cbuf_end s)));
       Some (check_next ((v1 \<noteq> v2) \<noteq> negated) m)
     }"

definition exec_back_reference :: "re_ctx \<Rightarrow> bool \<Rightarrow> re_vm \<Rightarrow> vm_next option" where
  "exec_back_reference s backward m =
     do {
       val \<leftarrow> mem_get (bc_buf s) (vm_pc m);
       let val = unat val;
       let m = m\<lparr>vm_pc := vm_pc m + 1\<rparr>;
       if val \<ge> capture_count s then Some (NoMatch m)
       else do {
         start \<leftarrow> mem_get (vm_capture m) (2 * val);
         e \<leftarrow> mem_get (vm_capture m) (2 * val + 1);
         case (start, e) of
           (Some start, Some e) \<Rightarrow>
             do {
               r \<leftarrow> (if backward then back_ref_prev_loop s e start (vm_cptr m)
                    else back_ref_loop s start e (vm_cptr m));
               case r of
                 None \<Rightarrow> Some (NoMatch m)
               | Some cptr \<Rightarrow> Some (Go (m\<lparr>vm_cptr := cptr\<rparr>))
             }
         | _ \<Rightarrow> Some (Go m)
       }
     }"

definition exec_save :: "re_ctx \<Rightarrow> nat \<Rightarrow> re_vm \<Rightarrow> vm_next option" where
  "exec_save s k m =
     do {
       val \<leftarrow> mem_get (bc_buf s) (vm_pc m);
       if unat val < capture_count s then
         do {
           cap \<leftarrow> mem_set (vm_capture m) (2 * unat val + k) (Some (vm_cptr m));
           Some (Go (m\<lparr>vm_pc := vm_pc m + 1, vm_capture := cap\<rparr>))
         }
       else None
     }"

text \<open>The \<open>switch\<close> on the opcode; \<open>vm_pc\<close> is already past the opcode byte.\<close>

definition exec_opcode :: "re_ctx \<Rightarrow> u8 \<Rightarrow> re_vm \<Rightarrow> vm_next option" where
  "exec_opcode s op m =
     (let bc = bc_buf s; pc = vm_pc m; cptr = vm_cptr m in
      if op = REOP_match then Some (Match m)
      else if op = REOP_char32 then
        do { val \<leftarrow> get_u32 bc pc; test_char s (m\<lparr>vm_pc := pc + 4\<rparr>) val }
      else if op = REOP_char then
        do { val \<leftarrow> get_u16 bc pc; test_char s (m\<lparr>vm_pc := pc + 2\<rparr>) val }
      else if op = REOP_split_goto_first then
        exec_jump s m (\<lambda>val m. do {
          pc \<leftarrow> jump (bc_buf s) (vm_pc m) val;
          exec_push s (m\<lparr>vm_pc := pc\<rparr>) (vm_pc m) RE_EXEC_STATE_SPLIT
        })
      else if op = REOP_split_next_first then
        exec_jump s m (\<lambda>val m. do {
          pc1 \<leftarrow> jump (bc_buf s) (vm_pc m) val;
          exec_push s m pc1 RE_EXEC_STATE_SPLIT
        })
      else if op = REOP_lookahead \<or> op = REOP_negative_lookahead then
        exec_jump s m (\<lambda>val m. do {
          pc1 \<leftarrow> jump (bc_buf s) (vm_pc m) val;
          exec_push s m pc1
            (if op = REOP_lookahead then RE_EXEC_STATE_LOOKAHEAD
             else RE_EXEC_STATE_NEGATIVE_LOOKAHEAD)
        })
      else if op = REOP_goto then
        exec_jump s m (\<lambda>val m. do { pc \<leftarrow> jump (bc_buf s) (vm_pc m) val; Some (Go (m\<lparr>vm_pc := pc\<rparr>)) })
      else if op = REOP_line_start then
        (if cptr = 0 then Some (Go m)
         else if \<not> multi_line s then Some (NoMatch m)
         else do { c \<leftarrow> PEEK_PREV_CHAR s cptr 0; Some (check_next (is_line_terminator c) m) })
      else if op = REOP_line_end then
        (if cptr = cbuf_end s then Some (Go m)
         else if \<not> multi_line s then Some (NoMatch m)
         else do { c \<leftarrow> PEEK_CHAR s cptr (cbuf_end s); Some (check_next (is_line_terminator c) m) })
      else if op = REOP_dot then
        (if cptr = cbuf_end s then Some (NoMatch m)
         else do {
           (c, i) \<leftarrow> GET_CHAR s cptr (cbuf_end s);
           Some (check_next (\<not> is_line_terminator c) (m\<lparr>vm_cptr := i\<rparr>))
         })
      else if op = REOP_any then
        (if cptr = cbuf_end s then Some (NoMatch m)
         else do { (c, i) \<leftarrow> GET_CHAR s cptr (cbuf_end s); Some (Go (m\<lparr>vm_cptr := i\<rparr>)) })
      else if op = REOP_save_start then exec_save s 0 m
      else if op = REOP_save_end then exec_save s 1 m
      else if op = REOP_save_reset then
        do {
          val \<leftarrow> mem_get bc pc;
          val2 \<leftarrow> mem_get bc (pc + 1);
          if unat val2 < capture_count s then
            do {
              cap \<leftarrow> reset_captures (unat val) (unat val2 + 1 - unat val) (vm_capture m);
              Some (Go (m\<lparr>vm_pc := pc + 2, vm_capture := cap\<rparr>))
            }
          else None
        }
      else if op = REOP_push_i32 then
        exec_jump s m (\<lambda>val m. map_option Go (push_int m (ucast val)))
      else if op = REOP_drop then
        (if vm_stack_len m = 0 then None
         else Some (Go (m\<lparr>vm_stack_len := vm_stack_len m - 1\<rparr>)))
      else if op = REOP_loop then
        exec_jump s m (\<lambda>val m.
          if vm_stack_len m = 0 then None
          else do {
            x \<leftarrow> mem_get (vm_stack m) (vm_stack_len m - 1);
            stk \<leftarrow> mem_set (vm_stack m) (vm_stack_len m - 1) (x - 1);
            let m = m\<lparr>vm_stack := stk\<rparr>;
            if x - 1 \<noteq> 0 then do { pc \<leftarrow> jump (bc_buf s) (vm_pc m) val; Some (Go (m\<lparr>vm_pc := pc\<rparr>)) }
            else Some (Go m)
          })
      else if op = REOP_push_char_pos then
        map_option Go (push_int m (char_addr s cptr))
      else if op = REOP_bne_char_pos then
        exec_jump s m (\<lambda>val m.
          if vm_stack_len m = 0 then None
          else do {
            x \<leftarrow> mem_get (vm_stack m) (vm_stack_len m - 1);
            let m = m\<lparr>vm_stack_len := vm_stack_len m - 1\<rparr>;
            if x \<noteq> char_addr s cptr then do { pc \<leftarrow> jump (bc_buf s) (vm_pc m) val; Some (Go (m\<lparr>vm_pc := pc\<rparr>)) }
            else Some (Go m)
          })
      else if op = REOP_word_boundary then exec_word_boundary s False m
      else if op = REOP_not_word_boundary then exec_word_boundary s True m
      else if op = REOP_back_reference then exec_back_reference s False m
      else if op = REOP_backward_back_reference then exec_back_reference s True m
      else if op = REOP_range then exec_range s 2 m
      else if op = REOP_range32 then exec_range s 4 m
      else if op = REOP_prev then
        (if cptr = 0 then Some (NoMatch m)
         else do { i \<leftarrow> PREV_CHAR s cptr 0; Some (Go (m\<lparr>vm_cptr := i\<rparr>)) })
      else if op = REOP_simple_greedy_quant then
        do {
          next_pos \<leftarrow> get_u32 bc pc;
          quant_min \<leftarrow> get_u32 bc (pc + 4);
          quant_max \<leftarrow> get_u32 bc (pc + 8);
          _ \<leftarrow> mem_read bc pc 16;
          pc1 \<leftarrow> jump (bc_buf s) (pc + 16) next_pos;
          Some (Greedy (m\<lparr>vm_pc := pc1\<rparr>) (pc + 16) quant_min quant_max)
        }
      else None)"

definition exec_step :: "re_ctx \<Rightarrow> re_vm \<Rightarrow> vm_next option" where
  "exec_step s m =
     do {
       op \<leftarrow> mem_get (bc_buf s) (vm_pc m);
       exec_opcode s op (m\<lparr>vm_pc := vm_pc m + 1\<rparr>)
     }"

section \<open>Going back to a saved state\<close>

fun prev_chars :: "re_ctx \<Rightarrow> nat \<Rightarrow> nat \<Rightarrow> nat option" where
  "prev_chars s 0 i = Some i"
| "prev_chars s (Suc n) i = do { i \<leftarrow> PREV_CHAR s i 0; prev_chars s n i }"

definition restore_stack :: "re_exec_state \<Rightarrow> re_vm \<Rightarrow> re_vm option" where
  "restore_stack rs m =
     do {
       stk \<leftarrow> mem_write (vm_stack m) 0 (rs_stack rs);
       Some (m\<lparr>vm_stack := stk, vm_stack_len := length (rs_stack rs)\<rparr>)
     }"

definition restore_capture :: "re_exec_state \<Rightarrow> re_vm \<Rightarrow> re_vm option" where
  "restore_capture rs m =
     do {
       cap \<leftarrow> mem_write (vm_capture m) 0 (rs_capture rs);
       Some (m\<lparr>vm_capture := cap\<rparr>)
     }"

definition pop_state1 :: "re_exec_state \<Rightarrow> re_exec_state list \<Rightarrow> re_vm \<Rightarrow> re_vm option" where
  "pop_state1 rs rest m =
     do {
       m \<leftarrow> restore_stack rs m;
       Some (m\<lparr>vm_pc := rs_pc rs, vm_cptr := rs_cptr rs, state_stack := rest\<rparr>)
     }"

definition pop_state :: "re_exec_state \<Rightarrow> re_exec_state list \<Rightarrow> re_vm \<Rightarrow> re_vm option" where
  "pop_state rs rest m = do { m \<leftarrow> restore_capture rs m; pop_state1 rs rest m }"

text \<open>One character class less for a greedy loop: its body ends \<open>char_count\<close> characters earlier.\<close>

definition retry_greedy ::
  "re_ctx \<Rightarrow> re_exec_state \<Rightarrow> re_exec_state list \<Rightarrow> re_vm \<Rightarrow> re_vm option" where
  "retry_greedy s rs rest m =
     do {
       m \<leftarrow> restore_capture rs m;
       m \<leftarrow> restore_stack rs m;
       char_count \<leftarrow> get_u32 (bc_buf s) (rs_pc rs + 12);
       cptr \<leftarrow> prev_chars s (unat char_count) (rs_cptr rs);
       next_pos \<leftarrow> get_u32 (bc_buf s) (rs_pc rs);
       pc \<leftarrow> jump (bc_buf s) (rs_pc rs + 16) next_pos;
       let rs = rs\<lparr>rs_cptr := cptr, rs_count := rs_count rs - 1\<rparr>;
       Some (m\<lparr>vm_pc := pc, vm_cptr := cptr,
               state_stack := (if rs_count rs = 0 then rest else rs # rest)\<rparr>)
     }"

text \<open>
  The loop at \<open>recurse\<close> with the outcome \<open>ret\<close>: it returns (\<open>Inl\<close>) when no state is left and
  resumes (\<open>Inr\<close>) at the first state that wants the outcome.
\<close>

fun backtrack ::
  "re_ctx \<Rightarrow> bool \<Rightarrow> re_exec_state list \<Rightarrow> re_vm \<Rightarrow> (bool \<times> re_vm + re_vm) option" where
  "backtrack s ret [] m = Some (Inl (ret, m\<lparr>state_stack := []\<rparr>))"
| "backtrack s ret (rs # rest) m =
     (case rs_type rs of
        RE_EXEC_STATE_SPLIT \<Rightarrow>
          if ret then backtrack s ret rest m else map_option Inr (pop_state rs rest m)
      | RE_EXEC_STATE_GREEDY_QUANT \<Rightarrow>
          if ret then backtrack s ret rest m else map_option Inr (retry_greedy s rs rest m)
      | RE_EXEC_STATE_LOOKAHEAD \<Rightarrow>
          if ret then map_option Inr (pop_state1 rs rest m) else backtrack s False rest m
      | RE_EXEC_STATE_NEGATIVE_LOOKAHEAD \<Rightarrow>
          if ret then backtrack s False rest m else map_option Inr (pop_state rs rest m))"

section \<open>The machine\<close>

text \<open>
  \<open>Ret code m\<close> is a return of \<open>lre_exec_backtrack\<close> with 1, 0 or -1; with \<open>no_recurse\<close> the C code
  returns the position instead of 1, which is \<open>vm_cptr m\<close>. \<open>Timeout\<close> means that the fuel was not
  enough, \<open>Undef\<close> is undefined behaviour.
\<close>

datatype vm_result = Ret int re_vm | Undef | Timeout

datatype greedy_result = Looped nat re_vm | GreedyRet int re_vm | GreedyUndef | GreedyTimeout

fun lre_exec_backtrack :: "nat \<Rightarrow> re_ctx \<Rightarrow> bool \<Rightarrow> re_vm \<Rightarrow> vm_result"
  and greedy_loop :: "nat \<Rightarrow> re_ctx \<Rightarrow> nat \<Rightarrow> u32 \<Rightarrow> nat \<Rightarrow> re_vm \<Rightarrow> greedy_result" where
  "lre_exec_backtrack 0 s no_recurse m = Timeout"
| "lre_exec_backtrack (Suc n) s no_recurse m =
     (case exec_step s m of
        None \<Rightarrow> Undef
      | Some (Go m) \<Rightarrow> lre_exec_backtrack n s no_recurse m
      | Some (OutOfMemory m) \<Rightarrow> Ret (-1) m
      | Some (Match m) \<Rightarrow>
          if no_recurse then Ret 1 m
          else
            (case backtrack s True (state_stack m) m of
               None \<Rightarrow> Undef
             | Some (Inl (ret, m)) \<Rightarrow> Ret (if ret then 1 else 0) m
             | Some (Inr m) \<Rightarrow> lre_exec_backtrack n s no_recurse m)
      | Some (NoMatch m) \<Rightarrow>
          if no_recurse then Ret 0 m
          else
            (case backtrack s False (state_stack m) m of
               None \<Rightarrow> Undef
             | Some (Inl (ret, m)) \<Rightarrow> Ret (if ret then 1 else 0) m
             | Some (Inr m) \<Rightarrow> lre_exec_backtrack n s no_recurse m)
      | Some (Greedy m pc1 quant_min quant_max) \<Rightarrow>
          (case greedy_loop n s pc1 quant_max 0 m of
             GreedyUndef \<Rightarrow> Undef
           | GreedyTimeout \<Rightarrow> Timeout
           | GreedyRet r m \<Rightarrow> Ret r m
           | Looped q m \<Rightarrow>
               if q < unat quant_min then
                 if no_recurse then Ret 0 m
                 else
                   (case backtrack s False (state_stack m) m of
                      None \<Rightarrow> Undef
                    | Some (Inl (ret, m)) \<Rightarrow> Ret (if ret then 1 else 0) m
                    | Some (Inr m) \<Rightarrow> lre_exec_backtrack n s no_recurse m)
               else if q > unat quant_min then
                 (case push_state s m (pc1 - 16) (vm_cptr m) RE_EXEC_STATE_GREEDY_QUANT
                         (q - unat quant_min) of
                    None \<Rightarrow> Undef
                  | Some (ret, m) \<Rightarrow>
                      if ret < 0 then Ret (-1) m else lre_exec_backtrack n s no_recurse m)
               else lre_exec_backtrack n s no_recurse m))"
| "greedy_loop 0 s pc1 quant_max q m = GreedyTimeout"
| "greedy_loop (Suc n) s pc1 quant_max q m =
     (case lre_exec_backtrack n s True (m\<lparr>vm_pc := pc1\<rparr>) of
        Undef \<Rightarrow> GreedyUndef
      | Timeout \<Rightarrow> GreedyTimeout
      | Ret r m' \<Rightarrow>
          let m' = m'\<lparr>vm_pc := vm_pc m, vm_stack_len := vm_stack_len m\<rparr> in
          if r = -1 then GreedyRet (-1) m'
          else if r = 0 then Looped q (m'\<lparr>vm_cptr := vm_cptr m\<rparr>)
          else if q + 1 \<ge> unat quant_max \<and> quant_max \<noteq> 0x7fffffff then Looped (q + 1) m'
          else greedy_loop n s pc1 quant_max (q + 1) m')"

definition re_ctx_of :: "u8 list \<Rightarrow> u16 list \<Rightarrow> u64 \<Rightarrow> nat \<Rightarrow> re_ctx option" where
  "re_ctx_of bc subject addr type =
     do {
       flags \<leftarrow> mem_get bc RE_HEADER_FLAGS;
       cc \<leftarrow> mem_get bc RE_HEADER_CAPTURE_COUNT;
       ss \<leftarrow> mem_get bc RE_HEADER_STACK_SIZE;
       let utf16 = (flags AND LRE_FLAG_UTF16 \<noteq> 0);
       Some \<lparr>bc_buf = bc, cbuf = subject, cbuf_addr = addr,
             cbuf_type = (if type = 1 \<and> utf16 then 2 else type),
             capture_count = unat cc, stack_size_max = unat ss,
             multi_line = (flags AND LRE_FLAG_MULTILINE \<noteq> 0),
             ignore_case = (flags AND LRE_FLAG_IGNORECASE \<noteq> 0),
             is_utf16 = utf16\<rparr>
     }"

text \<open>
  The caller provides \<open>capture\<close>, an array of at least \<open>2 * capture_count\<close> entries, and the
  contents of the \<open>alloca\<close> block are arbitrary (\<open>junk\<close>). The result is the return value and the
  captures.
\<close>

definition lre_exec_init :: "re_ctx \<Rightarrow> nat \<Rightarrow> u8 heap \<Rightarrow> (nat \<Rightarrow> u64) \<Rightarrow> re_vm" where
  "lre_exec_init s cindex h junk =
     \<lparr>vm_pc = RE_HEADER_LEN, vm_cptr = cindex,
      vm_capture = replicate (2 * capture_count s) None,
      vm_stack = map junk [0..<stack_size_max s], vm_stack_len = 0,
      state_stack = [], state_stack_size = 0, vm_heap = h\<rparr>"

definition lre_exec ::
  "nat \<Rightarrow> u8 list \<Rightarrow> u16 list \<Rightarrow> u64 \<Rightarrow> nat \<Rightarrow> nat \<Rightarrow> u8 heap \<Rightarrow> (nat \<Rightarrow> u64) \<Rightarrow> vm_result" where
  "lre_exec fuel bc subject addr type cindex h junk =
     (case re_ctx_of bc subject addr type of
        None \<Rightarrow> Undef
      | Some s \<Rightarrow> lre_exec_backtrack fuel s False (lre_exec_init s cindex h junk))"

definition lre_get_capture_count :: "u8 list \<Rightarrow> u8 option" where
  "lre_get_capture_count bc = mem_get bc RE_HEADER_CAPTURE_COUNT"

definition lre_get_flags :: "u8 list \<Rightarrow> u8 option" where
  "lre_get_flags bc = mem_get bc RE_HEADER_FLAGS"

end
