(* ===== verification/Regexp_Safe.thy ===== *)
theory Regexp_Safe
  imports Regexp_Verify "HOL-Library.Code_Target_Nat"
begin

text \<open>
  Soundness of the verifier: verified bytecode runs without undefined behaviour. First the walk
  over the characters of the subject in both directions, then the invariant of the machine, one
  lemma for every group of instructions, the loop of greedy quantifiers and the backtracking.
\<close>

section \<open>Walking over the subject\<close>

lemma canon_char_total: "\<exists>c'. canon_char s c = Some c'"
proof -
  have "\<exists>r. lre_case_conv c 2 = Some r \<and> 1 \<le> length r" "\<exists>r. lre_case_conv c 0 = Some r \<and> 1 \<le> length r"
    using lre_case_conv_good[of 2 c] lre_case_conv_good[of 0 c] by (auto simp: conv_good_def)
  then show ?thesis by (auto simp: canon_char_def lre_canonicalize_def mem_get_def)
qed

lemma get_unit_Some: "i < cbuf_end s \<Longrightarrow> get_unit s i = Some (ucast (cbuf s ! i))"
  by (simp add: get_unit_def mem_get_def cbuf_end_def)

definition is_high :: "re_ctx \<Rightarrow> nat \<Rightarrow> bool" where
  "is_high s i \<longleftrightarrow> (ucast (cbuf s ! i) :: u32) \<ge> 0xd800 \<and> (ucast (cbuf s ! i) :: u32) < 0xdc00"

definition is_low :: "re_ctx \<Rightarrow> nat \<Rightarrow> bool" where
  "is_low s i \<longleftrightarrow> (ucast (cbuf s ! i) :: u32) \<ge> 0xdc00 \<and> (ucast (cbuf s ! i) :: u32) < 0xe000"

lemma high_not_low: "is_high s i \<Longrightarrow> \<not> is_low s i"
  by (auto simp: is_high_def is_low_def)

text \<open>A pair starts at \<open>i\<close> when the subject is read as UTF-16.\<close>

definition pair_at :: "re_ctx \<Rightarrow> nat \<Rightarrow> nat \<Rightarrow> bool" where
  "pair_at s i lim \<longleftrightarrow> cbuf_type s = 2 \<and> i + 1 < lim \<and> is_high s i \<and> is_low s (i + 1)"

lemma GET_CHAR_step:
  assumes "i < lim" and "lim \<le> cbuf_end s"
  shows "\<exists>c. GET_CHAR s i lim = Some (c, if pair_at s i lim then i + 2 else i + 1)"
  using assms by (auto simp: GET_CHAR_def get_unit_Some pair_at_def is_high_def is_low_def)

lemma GET_PREV_CHAR_step:
  assumes "start < i" and "i \<le> cbuf_end s"
  shows "\<exists>c j. GET_PREV_CHAR s i start = Some (c, j) \<and> j \<le> cbuf_end s"
  using assms by (auto simp: GET_PREV_CHAR_def get_unit_Some)

lemma PEEK_CHAR_total: "i < cbuf_end s \<Longrightarrow> \<exists>c. PEEK_CHAR s i (cbuf_end s) = Some c"
  by (auto simp: PEEK_CHAR_def get_unit_Some)

lemma PEEK_PREV_CHAR_total:
  "0 < i \<Longrightarrow> i \<le> cbuf_end s \<Longrightarrow> \<exists>c. PEEK_PREV_CHAR s i 0 = Some c"
  by (auto simp: PEEK_PREV_CHAR_def get_unit_Some)

lemma PREV_CHAR_step:
  assumes "0 < i" and "i \<le> cbuf_end s"
  shows "PREV_CHAR s i 0 =
    Some (if cbuf_type s = 2 \<and> is_low s (i - 1) \<and> 1 < i \<and> is_high s (i - 2) then i - 2 else i - 1)"
  using assms by (auto simp: PREV_CHAR_def get_unit_Some is_high_def is_low_def)

text \<open>
  \<open>fwd s n i\<close>: the position after \<open>n\<close> characters from \<open>i\<close>. Going back over them with \<open>PREV_CHAR\<close>
  visits the same positions, except that the last step may run into the middle of a pair that
  ends at the first one.
\<close>

definition fwd1 :: "re_ctx \<Rightarrow> nat \<Rightarrow> nat option" where
  "fwd1 s i =
     (if i < cbuf_end s then Some (if pair_at s i (cbuf_end s) then i + 2 else i + 1) else None)"

fun fwd :: "re_ctx \<Rightarrow> nat \<Rightarrow> nat \<Rightarrow> nat option" where
  "fwd s 0 i = Some i"
| "fwd s (Suc n) i = Option.bind (fwd1 s i) (fwd s n)"

lemma fwd_add: "fwd s (m + n) i = Option.bind (fwd s m i) (fwd s n)"
  by (induction m arbitrary: i) (auto split: bind_split)

lemma fwd_Suc_right: "fwd s (Suc n) i = Option.bind (fwd s n i) (fwd1 s)"
  using fwd_add[of s n 1 i] by (auto split: bind_split)

lemma fwd1_bounds: "fwd1 s i = Some j \<Longrightarrow> i < j \<and> j \<le> cbuf_end s"
  by (auto simp: fwd1_def pair_at_def split: if_splits)

lemma fwd_bounds: "fwd s n i = Some j \<Longrightarrow> i \<le> cbuf_end s \<Longrightarrow> i + n \<le> j \<and> j \<le> cbuf_end s"
  by (induction n arbitrary: i) (auto simp: Option.bind_eq_Some_conv dest!: fwd1_bounds, fastforce+)

lemma PREV_CHAR_after_fwd1:
  assumes "fwd1 s i = Some j"
  shows "\<exists>i'. PREV_CHAR s j 0 = Some i' \<and> i' \<le> i"
proof -
  have "j \<le> i + 2" "0 < j" "j \<le> cbuf_end s" using assms fwd1_bounds[OF assms] by (auto simp: fwd1_def split: if_splits)
  then show ?thesis using assms
    by (auto simp: PREV_CHAR_step fwd1_def pair_at_def split: if_splits)
qed

lemma PREV_CHAR_after_fwd2:
  assumes "fwd1 s i = Some j" and "fwd1 s j = Some k"
  shows "PREV_CHAR s k 0 = Some j"
proof -
  have b: "i < j" "j < k" "k \<le> cbuf_end s" using assms fwd1_bounds by blast+
  have k: "k = (if pair_at s j (cbuf_end s) then j + 2 else j + 1)"
    using assms(2) by (auto simp: fwd1_def split: if_splits)
  have "\<not> (is_low s j \<and> is_high s (j - 1) \<and> cbuf_type s = 2)"
  proof
    assume *: "is_low s j \<and> is_high s (j - 1) \<and> cbuf_type s = 2"
    have "j = (if pair_at s i (cbuf_end s) then i + 2 else i + 1)"
      using assms(1) by (auto simp: fwd1_def split: if_splits)
    then consider "j = i + 2" "is_low s (j - 1)" | "j = i + 1" "\<not> pair_at s i (cbuf_end s)"
      by (auto simp: pair_at_def split: if_splits)
    then show False
    proof cases
      case 1 then show ?thesis using * high_not_low by blast
    next
      case 2 then show ?thesis using * b by (simp add: pair_at_def)
    qed
  qed
  then show ?thesis using b k
    by (auto simp: PREV_CHAR_step pair_at_def dest: high_not_low split: if_splits)
qed

lemma prev_chars_fwd:
  assumes "fwd s (n + m) b = Some p" and "0 < n"
  shows "\<exists>q. fwd s n b = Some q \<and> prev_chars s m p = Some q"
  using assms
proof (induction m arbitrary: p)
  case (Suc m)
  then obtain q where q: "fwd s (n + m) b = Some q" "fwd1 s q = Some p"
    by (auto simp: fwd_Suc_right Option.bind_eq_Some_conv simp del: fwd.simps)
  obtain o' where "fwd s (n + m - 1) b = Some o'" "fwd1 s o' = Some q"
    using q(1) Suc.prems(2) fwd_Suc_right[of s "n + m - 1" b]
    by (cases "fwd s (n + m - 1) b") auto
  then have "PREV_CHAR s p 0 = Some q" using q(2) by (intro PREV_CHAR_after_fwd2)
  with Suc.IH[OF q(1) Suc.prems(2)] show ?case by simp
qed simp

lemma prev_chars_Suc_right:
  "prev_chars s (Suc k) p = Option.bind (prev_chars s k p) (\<lambda>i. PREV_CHAR s i 0)"
proof (induction k arbitrary: p)
  case (Suc k)
  show ?case by (cases "PREV_CHAR s p 0") (use Suc in simp_all)
next
  case 0
  show ?case by (cases "PREV_CHAR s p 0") simp_all
qed

lemma prev_chars_fwd_all:
  assumes "fwd s m b = Some p"
  shows "\<exists>q. prev_chars s m p = Some q \<and> q \<le> b"
proof (cases m)
  case (Suc k)
  obtain q where q: "fwd s 1 b = Some q" "prev_chars s k p = Some q"
    using prev_chars_fwd[of s 1 k b p] assms Suc by auto
  then have f: "fwd1 s b = Some q" by (auto simp: Option.bind_eq_Some_conv)
  obtain b' where b': "PREV_CHAR s q 0 = Some b'" "b' \<le> b" using PREV_CHAR_after_fwd1[OF f] by blast
  then show ?thesis using q b' Suc prev_chars_Suc_right[of s k p] by simp
qed (use assms in simp)

section \<open>The invariant of the machine\<close>

definition cap_ok :: "re_ctx \<Rightarrow> nat option list \<Rightarrow> bool" where
  "cap_ok s cap \<longleftrightarrow>
     length cap = 2 * capture_count s \<and> (\<forall>i. Some i \<in> set cap \<longrightarrow> i \<le> cbuf_end s)"

text \<open>A saved greedy loop can go back over all the characters that its rounds have consumed.\<close>

definition saved_ok :: "re_ctx \<Rightarrow> (nat \<Rightarrow> nat option) \<Rightarrow> re_exec_state \<Rightarrow> bool" where
  "saved_ok s ht rs \<longleftrightarrow>
     cap_ok s (rs_capture rs) \<and> length (rs_stack rs) \<le> stack_size_max s \<and>
     rs_cptr rs \<le> cbuf_end s \<and>
     (if rs_type rs = RE_EXEC_STATE_GREEDY_QUANT then
        0 < rs_count rs \<and>
        (\<exists>val t k b.
           get_u32 (bc_buf s) (rs_pc rs) = Some val \<and> jump (bc_buf s) (rs_pc rs + 16) val = Some t \<and>
           ht t = Some (length (rs_stack rs)) \<and> get_u32 (bc_buf s) (rs_pc rs + 12) = Some k \<and>
           b \<le> cbuf_end s \<and> fwd s (unat k * rs_count rs) b = Some (rs_cptr rs))
      else ht (rs_pc rs) = Some (length (rs_stack rs)))"

definition vm_conf :: "re_ctx \<Rightarrow> (nat \<Rightarrow> nat option) \<Rightarrow> re_vm \<Rightarrow> bool" where
  "vm_conf s ht m \<longleftrightarrow>
     cap_ok s (vm_capture m) \<and> length (vm_stack m) = stack_size_max s \<and>
     vm_stack_len m \<le> stack_size_max s \<and> vm_cptr m \<le> cbuf_end s \<and>
     (\<forall>rs \<in> set (state_stack m). saved_ok s ht rs)"

definition vm_at :: "re_ctx \<Rightarrow> (nat \<Rightarrow> nat option) \<Rightarrow> re_vm \<Rightarrow> bool" where
  "vm_at s ht m \<longleftrightarrow> vm_conf s ht m \<and> ht (vm_pc m) = Some (vm_stack_len m)"

definition next_ok :: "re_ctx \<Rightarrow> (nat \<Rightarrow> nat option) \<Rightarrow> vm_next \<Rightarrow> bool" where
  "next_ok s ht x \<longleftrightarrow>
     (case x of
        Go m \<Rightarrow> vm_at s ht m
      | NoMatch m \<Rightarrow> vm_conf s ht m
      | Match m \<Rightarrow> vm_conf s ht m
      | OutOfMemory m \<Rightarrow> vm_conf s ht m
      | Greedy m pc1 quant_min quant_max \<Rightarrow>
          vm_at s ht m \<and> 16 \<le> pc1 \<and>
          (\<exists>val k. get_u32 (bc_buf s) (pc1 - 16) = Some val \<and> jump (bc_buf s) pc1 val = Some (vm_pc m) \<and>
                   get_u32 (bc_buf s) (pc1 - 4) = Some k \<and>
                   simple_body (bc_buf s) pc1 = Some (unat k)))"

lemma cap_ok_update:
  "cap_ok s cap \<Longrightarrow> (\<And>i. v = Some i \<Longrightarrow> i \<le> cbuf_end s) \<Longrightarrow> cap_ok s (cap[k := v])"
  using set_update_subset_insert[of cap k v] by (auto simp: cap_ok_def)

section \<open>Instructions that only move the position\<close>

lemma get_bound_Some:
  assumes "w = 2 \<or> w = 4" and "p + w \<le> length (bc_buf s)"
  shows "\<exists>v. get_bound s w p = Some v"
  using assms by (auto simp: get_bound_def get_u16_def get_u32_def mem_read_def)

lemma range_search_total:
  assumes w: "w = 2 \<or> w = 4" and len: "pc + 2 * w * n \<le> length (bc_buf s)"
    and low: "get_bound s w pc = Some low" and c: "low \<le> c"
    and "idx_max < n"
  shows "\<exists>b. range_search s w pc c idx_min idx_max = Some b"
  using assms(5)
proof (induction "idx_max + 1 - idx_min" arbitrary: idx_min idx_max rule: less_induct)
  case less
  show ?case
  proof (cases "idx_min \<le> idx_max")
    case True
    define idx where "idx = (idx_min + idx_max) div 2"
    have idx: "idx_min \<le> idx" "idx \<le> idx_max" using True by (auto simp: idx_def)
    then have "(idx + 1) * (2 * w) \<le> n * (2 * w)" using less.prems by (intro mult_right_mono) simp_all
    then have room: "pc + idx * (2 * w) + w + w \<le> length (bc_buf s)"
      using len by (simp add: algebra_simps)
    obtain lo hi where b: "get_bound s w (pc + idx * (2 * w)) = Some lo"
        "get_bound s w (pc + idx * (2 * w) + w) = Some hi"
      using get_bound_Some[OF w, of "pc + idx * (2 * w)" s]
        get_bound_Some[OF w, of "pc + idx * (2 * w) + w" s] room by auto
    have "idx \<noteq> 0" if "c < lo" using b low c that by (cases idx) auto
    then show ?thesis
      using less.hyps[of "idx - 1" idx_min] less.hyps[of idx_max "idx + 1"] less.prems idx b
      by (subst range_search.simps) (auto simp: idx_def[symmetric] Let_def)
  qed (subst range_search.simps, auto)
qed

lemma range_test_total:
  assumes w: "w = 2 \<or> w = 4" and len: "pc + 2 * w * n \<le> length (bc_buf s)" and n: "n \<noteq> 0"
  shows "\<exists>b. range_test s w pc n c = Some b"
proof -
  have "(n - 1 + 1) * (2 * w) \<le> n * (2 * w)" using n by (intro mult_right_mono) simp_all
  then have room: "pc + (n - 1) * (2 * w) + w + w \<le> length (bc_buf s)"
    using len by (simp add: algebra_simps)
  obtain lo hi where "get_bound s w pc = Some lo" "get_bound s w (pc + (n - 1) * (2 * w) + w) = Some hi"
    using get_bound_Some[OF w, of pc s] get_bound_Some[OF w, of "pc + (n - 1) * (2 * w) + w" s] room
    by auto
  then show ?thesis using range_search_total[OF w len, of lo c "n - 1" 0] n
    by (auto simp: range_test_def)
qed

lemma next_char_cases:
  assumes "vm_cptr m \<le> cbuf_end s"
  shows "next_char s m k = Some (NoMatch m) \<or>
    (\<exists>c i. fwd1 s (vm_cptr m) = Some i \<and> next_char s m k = k c (m\<lparr>vm_cptr := i\<rparr>))"
proof (cases "vm_cptr m < cbuf_end s")
  case True
  then show ?thesis using GET_CHAR_step[OF True order_refl] by (auto simp: next_char_def fwd1_def)
qed (simp add: next_char_def)

definition simple_outcome :: "re_ctx \<Rightarrow> u8 \<Rightarrow> nat \<Rightarrow> re_vm \<Rightarrow> vm_next option \<Rightarrow> bool" where
  "simple_outcome s op pos' m x \<longleftrightarrow>
     (\<exists>i. x = Some (Go (m\<lparr>vm_pc := pos', vm_cptr := i\<rparr>)) \<and>
          (if is_char_op op then fwd1 s (vm_cptr m) = Some i else i = vm_cptr m)) \<or>
     (\<exists>p i. x = Some (NoMatch (m\<lparr>vm_pc := p, vm_cptr := i\<rparr>)) \<and> i \<le> cbuf_end s)"

lemma next_char_outcome:
  assumes cptr: "vm_cptr m \<le> cbuf_end s" and op: "is_char_op op"
    and k: "\<And>c i. \<exists>ok. k c (m\<lparr>vm_pc := p, vm_cptr := i\<rparr>) =
      Some (check_next ok (m\<lparr>vm_pc := pos', vm_cptr := i\<rparr>))"
  shows "simple_outcome s op pos' m (next_char s (m\<lparr>vm_pc := p\<rparr>) k)"
proof -
  from cptr have "vm_cptr (m\<lparr>vm_pc := p\<rparr>) \<le> cbuf_end s" by simp
  from next_char_cases[OF this, of k] show ?thesis
proof (elim disjE exE conjE)
  fix c i assume f: "fwd1 s (vm_cptr (m\<lparr>vm_pc := p\<rparr>)) = Some i"
    and "next_char s (m\<lparr>vm_pc := p\<rparr>) k = k c (m\<lparr>vm_pc := p, vm_cptr := i\<rparr>)"
  moreover obtain ok where "k c (m\<lparr>vm_pc := p, vm_cptr := i\<rparr>) =
      Some (check_next ok (m\<lparr>vm_pc := pos', vm_cptr := i\<rparr>))" using k by blast
  moreover have "i \<le> cbuf_end s" using fwd1_bounds[OF f] by simp
  ultimately show ?thesis using op by (auto simp: simple_outcome_def check_next_def)
next
  assume "next_char s (m\<lparr>vm_pc := p\<rparr>) k = Some (NoMatch (m\<lparr>vm_pc := p\<rparr>))"
  moreover have "m\<lparr>vm_pc := p\<rparr> = m\<lparr>vm_pc := p, vm_cptr := vm_cptr m\<rparr>" by simp
  ultimately show ?thesis using cptr unfolding simple_outcome_def by metis
qed
qed

lemma test_char_outcome:
  assumes "vm_cptr m \<le> cbuf_end s" and "is_char_op op"
  shows "simple_outcome s op p m (test_char s (m\<lparr>vm_pc := p\<rparr>) val)"
  unfolding test_char_def
proof (rule next_char_outcome[OF assms])
  fix c i
  obtain c' where "canon_char s c = Some c'" using canon_char_total by blast
  then show "\<exists>ok. do { c \<leftarrow> canon_char s c;
      Some (check_next (val = c) (m\<lparr>vm_pc := p, vm_cptr := i\<rparr>)) } =
    Some (check_next ok (m\<lparr>vm_pc := p, vm_cptr := i\<rparr>))" by auto
qed

lemma exec_range_outcome:
  assumes cptr: "vm_cptr m \<le> cbuf_end s" and op: "is_char_op op" and w: "w = 2 \<or> w = 4"
    and "range_next (bc_buf s) w pos = Some pos'"
  shows "simple_outcome s op pos' m (exec_range s w (m\<lparr>vm_pc := pos + 1\<rparr>))"
proof -
  obtain n where n: "get_u16 (bc_buf s) (pos + 1) = Some n" "n \<noteq> 0"
    and len: "pos + 3 + 2 * w * unat n \<le> length (bc_buf s)" and pos': "pos' = pos + 3 + 2 * w * unat n"
    using assms(4) by (auto simp: range_next_def Option.bind_eq_Some_conv split: if_splits)
  have "unat n \<noteq> 0" using n by (simp add: unat_eq_0)
  note total = range_test_total[OF w len this]
  have "simple_outcome s op pos' m (next_char s (m\<lparr>vm_pc := pos + 3\<rparr>) (\<lambda>c m. do {
         c \<leftarrow> canon_char s c;
         ok \<leftarrow> range_test s w (vm_pc m) (unat n) c;
         Some (check_next ok (m\<lparr>vm_pc := vm_pc m + 2 * w * unat n\<rparr>)) }))"
  proof (rule next_char_outcome[OF cptr op])
    fix c i
    obtain c' where c': "canon_char s c = Some c'" using canon_char_total by blast
    obtain b where "range_test s w (pos + 3) (unat n) c' = Some b" using total by blast
    with c' show "\<exists>ok. do {
         c \<leftarrow> canon_char s c;
         ok \<leftarrow> range_test s w (vm_pc (m\<lparr>vm_pc := pos + 3, vm_cptr := i\<rparr>)) (unat n) c;
         Some (check_next ok (m\<lparr>vm_pc := pos + 3, vm_cptr := i,
           vm_pc := vm_pc (m\<lparr>vm_pc := pos + 3, vm_cptr := i\<rparr>) + 2 * w * unat n\<rparr>)) } =
      Some (check_next ok (m\<lparr>vm_pc := pos', vm_cptr := i\<rparr>))" by (auto simp: pos' check_next_def)
  qed
  then show ?thesis using n by (simp add: exec_range_def Let_def numeral_3_eq_3)
qed

lemma exec_word_boundary_total:
  assumes "vm_cptr m \<le> cbuf_end s"
  shows "\<exists>ok. exec_word_boundary s negated m = Some (check_next ok m)"
  using assms PEEK_CHAR_total[of "vm_cptr m" s] PEEK_PREV_CHAR_total[of "vm_cptr m" s]
  by (cases "vm_cptr m = 0"; cases "vm_cptr m < cbuf_end s") (auto simp: exec_word_boundary_def)

lemma simple_outcome_test:
  assumes "vm_cptr m \<le> cbuf_end s" and "\<not> is_char_op op" and "x = Some (check_next ok (m\<lparr>vm_pc := pos'\<rparr>))"
  shows "simple_outcome s op pos' m x"
proof -
  have "m\<lparr>vm_pc := p\<rparr> = m\<lparr>vm_pc := p, vm_cptr := vm_cptr m\<rparr>" for p by simp
  then show ?thesis using assms unfolding simple_outcome_def check_next_def by metis
qed

lemma simple_outcome_next_char:
  assumes "vm_cptr m \<le> cbuf_end s" and "is_char_op op"
  shows "simple_outcome s op p m (if vm_cptr m = cbuf_end s then Some (NoMatch (m\<lparr>vm_pc := p\<rparr>))
    else do { (c, i) \<leftarrow> GET_CHAR s (vm_cptr m) (cbuf_end s); Some (check_next (P c) (m\<lparr>vm_pc := p, vm_cptr := i\<rparr>)) })"
  using next_char_outcome[OF assms, of "\<lambda>c m. Some (check_next (P c) m)" p p, OF exI, OF refl] assms(1)
  by (auto simp: next_char_def)

lemma exec_simple:
  assumes op: "mem_get (bc_buf s) (vm_pc m) = Some op"
    and nx: "simple_next (bc_buf s) op (vm_pc m) = Some pos'" and cptr: "vm_cptr m \<le> cbuf_end s"
  shows "simple_outcome s op pos' m (exec_step s m)"
proof -
  let ?m = "m\<lparr>vm_pc := vm_pc m + 1\<rparr>"
  note step = exec_step_def op exec_opcode_def Let_def
  have pc: "Suc (vm_pc m) + 4 = vm_pc m + 5" by simp
  from nx consider (char) v where "op = REOP_char" "get_u16 (bc_buf s) (vm_pc m + 1) = Some v" "pos' = vm_pc m + 3"
    | (char32) v where "op = REOP_char32" "get_u32 (bc_buf s) (vm_pc m + 1) = Some v" "pos' = vm_pc m + 5"
    | (dot) "op = REOP_dot" "pos' = vm_pc m + 1" | (any) "op = REOP_any" "pos' = vm_pc m + 1"
    | (test) "is_test_op op" "pos' = vm_pc m + 1"
    | (range) "op = REOP_range" "range_next (bc_buf s) 2 (vm_pc m) = Some pos'"
    | (range32) "op = REOP_range32" "range_next (bc_buf s) 4 (vm_pc m) = Some pos'"
    by (auto simp: simple_next_def split: if_splits)
  then show ?thesis
  proof cases
    case char
    have "exec_step s m = test_char s (m\<lparr>vm_pc := vm_pc m + 3\<rparr>) v"
      using char by (simp add: step numeral_3_eq_3)
    then show ?thesis using char test_char_outcome[OF cptr, of op] by (simp add: is_char_op_def)
  next
    case char32
    have "exec_step s m = test_char s (m\<lparr>vm_pc := Suc (vm_pc m) + 4\<rparr>) v"
      using char32 by (simp add: step)
    then have "exec_step s m = test_char s (m\<lparr>vm_pc := vm_pc m + 5\<rparr>) v" unfolding pc .
    then show ?thesis using char32 test_char_outcome[OF cptr, of op] by (simp add: is_char_op_def)
  next
    case dot
    then show ?thesis using simple_outcome_next_char[OF cptr, of op "vm_pc m + 1" "\<lambda>c. \<not> is_line_terminator c"]
      by (cases "vm_cptr m = cbuf_end s") (simp_all add: step is_char_op_def)
  next
    case any
    then show ?thesis using simple_outcome_next_char[OF cptr, of op "vm_pc m + 1" "\<lambda>c. True"]
      by (cases "vm_cptr m = cbuf_end s") (simp_all add: step is_char_op_def check_next_def)
  next
    case range
    then show ?thesis using exec_range_outcome[OF cptr, of op 2 "vm_pc m" pos']
      by (simp add: step is_char_op_def)
  next
    case range32
    then show ?thesis using exec_range_outcome[OF cptr, of op 4 "vm_pc m" pos']
      by (simp add: step is_char_op_def)
  next
    case test
    have "\<exists>ok. exec_step s m = Some (check_next ok ?m)"
    proof -
      consider "op = REOP_line_start" | "op = REOP_line_end" | "op = REOP_word_boundary"
        | "op = REOP_not_word_boundary" using test by (auto simp: is_test_op_def)
      then show ?thesis
      proof cases
        case 1
        show ?thesis
        proof (cases "vm_cptr m = 0 \<or> \<not> multi_line s")
          case True
          with 1 have "exec_step s m = Some (check_next (vm_cptr m = 0) ?m)"
            by (auto simp add: step check_next_def)
          then show ?thesis by blast
        next
          case False
          then obtain c where "PEEK_PREV_CHAR s (vm_cptr m) 0 = Some c"
            using PEEK_PREV_CHAR_total cptr by blast
          with False 1 have "exec_step s m = Some (check_next (is_line_terminator c) ?m)"
            by (simp add: step)
          then show ?thesis by blast
        qed
      next
        case 2
        show ?thesis
        proof (cases "vm_cptr m = cbuf_end s \<or> \<not> multi_line s")
          case True
          with 2 have "exec_step s m = Some (check_next (vm_cptr m = cbuf_end s) ?m)"
            by (auto simp add: step check_next_def)
          then show ?thesis by blast
        next
          case False
          then obtain c where "PEEK_CHAR s (vm_cptr m) (cbuf_end s) = Some c"
            using PEEK_CHAR_total[of "vm_cptr m" s] cptr by (meson le_neq_implies_less)
          with False 2 have "exec_step s m = Some (check_next (is_line_terminator c) ?m)"
            by (simp add: step)
          then show ?thesis by blast
        qed
      next
        case 3
        then show ?thesis using exec_word_boundary_total[of ?m s False] cptr by (simp add: step)
      next
        case 4
        then show ?thesis using exec_word_boundary_total[of ?m s True] cptr by (simp add: step)
      qed
    qed
    moreover have "\<not> is_char_op op" using test by (auto simp: is_test_op_def is_char_op_def)
    ultimately show ?thesis using simple_outcome_test[OF cptr] test(2) by blast
  qed
qed

section \<open>The other instructions\<close>

lemma vm_conf_updates [simp]:
  "vm_conf s ht (m\<lparr>vm_pc := p\<rparr>) = vm_conf s ht m"
  "vm_conf s ht (m\<lparr>vm_heap := h\<rparr>) = vm_conf s ht m"
  "vm_conf s ht (m\<lparr>state_stack_size := n\<rparr>) = vm_conf s ht m"
  by (simp_all add: vm_conf_def)

lemma vm_conf_cptr: "vm_conf s ht m \<Longrightarrow> i \<le> cbuf_end s \<Longrightarrow> vm_conf s ht (m\<lparr>vm_cptr := i\<rparr>)"
  by (simp add: vm_conf_def)

lemma vm_conf_len: "vm_conf s ht m \<Longrightarrow> n \<le> stack_size_max s \<Longrightarrow> vm_conf s ht (m\<lparr>vm_stack_len := n\<rparr>)"
  by (simp add: vm_conf_def)

lemma vm_conf_stack:
  "vm_conf s ht m \<Longrightarrow> length stk = stack_size_max s \<Longrightarrow> vm_conf s ht (m\<lparr>vm_stack := stk\<rparr>)"
  by (simp add: vm_conf_def)

lemma vm_conf_capture: "vm_conf s ht m \<Longrightarrow> cap_ok s cap \<Longrightarrow> vm_conf s ht (m\<lparr>vm_capture := cap\<rparr>)"
  by (simp add: vm_conf_def)

lemma vm_conf_states:
  "vm_conf s ht m \<Longrightarrow> (\<And>rs. rs \<in> set st \<Longrightarrow> saved_ok s ht rs) \<Longrightarrow> vm_conf s ht (m\<lparr>state_stack := st\<rparr>)"
  by (simp add: vm_conf_def)

lemma vm_conf_cptr_le: "vm_conf s ht m \<Longrightarrow> vm_cptr m \<le> cbuf_end s"
  by (simp add: vm_conf_def)

definition saved_of :: "re_vm \<Rightarrow> nat \<Rightarrow> nat \<Rightarrow> re_state_type \<Rightarrow> nat \<Rightarrow> re_exec_state" where
  "saved_of m pc cptr type count =
     \<lparr>rs_type = type, rs_count = count, rs_cptr = cptr, rs_pc = pc,
      rs_capture = vm_capture m, rs_stack = take (vm_stack_len m) (vm_stack m)\<rparr>"

lemma saved_of_simps [simp]:
  "rs_type (saved_of m pc cptr type count) = type"
  "rs_count (saved_of m pc cptr type count) = count"
  "rs_cptr (saved_of m pc cptr type count) = cptr"
  "rs_pc (saved_of m pc cptr type count) = pc"
  "rs_capture (saved_of m pc cptr type count) = vm_capture m"
  "rs_stack (saved_of m pc cptr type count) = take (vm_stack_len m) (vm_stack m)"
  by (simp_all add: saved_of_def)

lemma push_state_cases:
  assumes "vm_conf s ht m"
  shows "(\<exists>h. push_state s m pc cptr type count = Some (-1, m\<lparr>vm_heap := h\<rparr>)) \<or>
    (\<exists>h n. push_state s m pc cptr type count =
       Some (0, m\<lparr>vm_heap := h, state_stack := saved_of m pc cptr type count # state_stack m,
                state_stack_size := n\<rparr>))"
proof -
  have reads: "mem_read (vm_capture m) 0 (2 * capture_count s) = Some (vm_capture m)"
    "mem_read (vm_stack m) 0 (vm_stack_len m) = Some (take (vm_stack_len m) (vm_stack m))"
    using assms by (simp_all add: vm_conf_def cap_ok_def)
  define grow where "grow = (length (state_stack m) + 1 > state_stack_size m)"
  define new_size where
    "new_size = (if szt (state_stack_size m * 3) div 2 < 8 then 8
                 else szt (state_stack_size m * 3) div 2)"
  obtain ok h where ok: "(if grow then lre_realloc (vm_heap m) (szt (new_size * re_state_size s))
      else (True, vm_heap m)) = (ok, h)" by fastforce
  have e: "push_state s m pc cptr type count =
    (if ok then Some (0, m\<lparr>vm_heap := h, state_stack := saved_of m pc cptr type count # state_stack m,
                          state_stack_size := (if grow then new_size else state_stack_size m)\<rparr>)
     else Some (-1, m\<lparr>vm_heap := h\<rparr>))"
    unfolding push_state_def Let_def grow_def[symmetric] new_size_def[symmetric] ok
    by (simp add: reads saved_of_def)
  show ?thesis
  proof (cases ok)
    case True
    from e[unfolded if_P[OF True]] show ?thesis by blast
  next
    case False
    from e[unfolded if_not_P[OF False]] show ?thesis by blast
  qed
qed

lemma saved_of_ok:
  assumes "vm_conf s ht m" and "cptr \<le> cbuf_end s" and "ht pc = Some (vm_stack_len m)"
    and "type \<noteq> RE_EXEC_STATE_GREEDY_QUANT"
  shows "saved_ok s ht (saved_of m pc cptr type count)"
  using assms by (simp add: saved_ok_def vm_conf_def min_def)

lemma exec_push_ok:
  assumes "vm_conf s ht m" and "ht pc = Some (vm_stack_len m)" and "ht (vm_pc m) = Some (vm_stack_len m)"
    and "type \<noteq> RE_EXEC_STATE_GREEDY_QUANT"
  shows "\<exists>x. exec_push s m pc type = Some x \<and> next_ok s ht x"
proof -
  note sv = saved_of_ok[OF assms(1) vm_conf_cptr_le[OF assms(1)] assms(2,4), of 0]
  have "vm_conf s ht (m\<lparr>vm_heap := h, state_stack := saved_of m pc (vm_cptr m) type 0 # state_stack m,
      state_stack_size := n\<rparr>)" for h n
    using assms(1) sv by (simp add: vm_conf_def)
  then show ?thesis using push_state_cases[OF assms(1), of pc "vm_cptr m" type 0] assms(1,3)
    by (auto simp: exec_push_def next_ok_def vm_at_def)
qed

lemma reset_captures_total:
  assumes "cap_ok s cap" and "n = 0 \<or> v + n \<le> capture_count s"
  shows "\<exists>cap'. reset_captures v n cap = Some cap' \<and> cap_ok s cap'"
  using assms
proof (induction v n cap rule: reset_captures.induct)
  case (2 v n cap)
  have *: "2 * v + 1 < length cap" using 2 by (auto simp: cap_ok_def)
  have "cap_ok s (cap[2 * v := None, 2 * v + 1 := None])" using 2(2) by (intro cap_ok_update) simp_all
  with 2(1)[of "cap[2 * v := None]" "cap[2 * v := None, 2 * v + 1 := None]"] * 2(3)
  show ?case by (auto simp: mem_set_def)
qed simp

lemma back_ref_loop_total:
  assumes "e \<le> cbuf_end s" and "cptr \<le> cbuf_end s"
  shows "\<exists>r. back_ref_loop s i e cptr = Some r \<and> (\<forall>c. r = Some c \<longrightarrow> c \<le> cbuf_end s)"
  using assms
proof (induction "e - i" arbitrary: i cptr rule: less_induct)
  case less
  show ?case
  proof (cases "i < e \<and> cptr < cbuf_end s")
    case True
    obtain c1 i' where c1: "GET_CHAR s i e = Some (c1, i')" using GET_CHAR_step[of i e s] True less by auto
    obtain c2 j where c2: "GET_CHAR s cptr (cbuf_end s) = Some (c2, j)" and j: "fwd1 s cptr = Some j"
      using GET_CHAR_step[of cptr "cbuf_end s" s] True by (auto simp: fwd1_def)
    obtain d1 d2 where d: "canon_char s c1 = Some d1" "canon_char s c2 = Some d2"
      using canon_char_total by blast
    have "i < i'" using GET_CHAR_forward[OF c1] by simp
    then have "\<exists>r. back_ref_loop s i' e j = Some r \<and> (\<forall>c. r = Some c \<longrightarrow> c \<le> cbuf_end s)"
      using less fwd1_bounds[OF j] True by (intro less) auto
    then show ?thesis using c1 c2 d True by (subst back_ref_loop.simps) auto
  next
    case False
    then show ?thesis using less.prems by (subst back_ref_loop.simps) auto
  qed
qed

lemma back_ref_prev_loop_total:
  assumes "i \<le> cbuf_end s" and "cptr \<le> cbuf_end s"
  shows "\<exists>r. back_ref_prev_loop s i start cptr = Some r \<and> (\<forall>c. r = Some c \<longrightarrow> c \<le> cbuf_end s)"
  using assms
proof (induction i arbitrary: cptr rule: less_induct)
  case (less i)
  show ?case
  proof (cases "start < i \<and> 0 < cptr")
    case True
    obtain c1 i' where c1: "GET_PREV_CHAR s i start = Some (c1, i')" "i' \<le> cbuf_end s"
      using GET_PREV_CHAR_step[of start i s] True less by auto
    obtain c2 j where c2: "GET_PREV_CHAR s cptr 0 = Some (c2, j)" "j \<le> cbuf_end s"
      using GET_PREV_CHAR_step[of 0 cptr s] True less by auto
    obtain d1 d2 where d: "canon_char s c1 = Some d1" "canon_char s c2 = Some d2"
      using canon_char_total by blast
    have "i' < i" using GET_PREV_CHAR_backward[OF c1(1)] by simp
    then have "\<exists>r. back_ref_prev_loop s i' start j = Some r \<and> (\<forall>c. r = Some c \<longrightarrow> c \<le> cbuf_end s)"
      using c1 c2 by (intro less) auto
    then show ?thesis using c1 c2 d True by (subst back_ref_prev_loop.simps) auto
  next
    case False
    then show ?thesis using less.prems by (subst back_ref_prev_loop.simps) auto
  qed
qed

lemma simple_outcome_ok:
  assumes "simple_outcome s op pos' m x" and conf: "vm_conf s ht m"
    and "ht pos' = Some (vm_stack_len m)"
  shows "\<exists>y. x = Some y \<and> next_ok s ht y"
proof -
  have "vm_conf s ht (m\<lparr>vm_pc := p, vm_cptr := i\<rparr>)" if "i \<le> cbuf_end s" for p i
    using vm_conf_cptr[of s ht "m\<lparr>vm_pc := p\<rparr>"] conf that by simp
  moreover have "i \<le> cbuf_end s" if "if is_char_op op then fwd1 s (vm_cptr m) = Some i else i = vm_cptr m" for i
    using that fwd1_bounds[of s "vm_cptr m" i] vm_conf_cptr_le[OF conf] by (auto split: if_splits)
  ultimately show ?thesis using assms(1,3) by (auto simp: simple_outcome_def next_ok_def vm_at_def)
qed

lemma jump_succsE:
  assumes "jump_succs bc pos h falls = Some ss" and "\<forall>(p, h') \<in> set ss. ht p = Some h'"
  obtains val t where "get_u32 bc (pos + 1) = Some val" and "jump bc (pos + 5) val = Some t"
    and "ht t = Some h" and "falls \<Longrightarrow> ht (pos + 5) = Some h"
  using assms by (auto simp: jump_succs_def Option.bind_eq_Some_conv split: if_splits)

lemma exec_jump_eq:
  assumes "get_u32 (bc_buf s) (p + 1) = Some val"
  shows "exec_jump s (m\<lparr>vm_pc := Suc p\<rparr>) k = k val (m\<lparr>vm_pc := p + 5\<rparr>)"
  using assms by (simp add: exec_jump_def add.commute[of 5])

text \<open>Fold of \<open>next_ok\<close> for an instruction that goes on.\<close>

lemma go_ok:
  "vm_conf s ht m \<Longrightarrow> ht (vm_pc m) = Some (vm_stack_len m) \<Longrightarrow> next_ok s ht (Go m)"
  by (simp add: next_ok_def vm_at_def)

lemma exec_split_ok:
  assumes m: "vm_at s ht m" and op: "mem_get (bc_buf s) (vm_pc m) = Some op"
    and o: "op = REOP_split_goto_first \<or> op = REOP_split_next_first \<or> op = REOP_lookahead \<or>
            op = REOP_negative_lookahead"
    and sc: "jump_succs (bc_buf s) (vm_pc m) (vm_stack_len m) True = Some ss"
    and ss: "\<forall>(p, h') \<in> set ss. ht p = Some h'"
  shows "\<exists>x. exec_step s m = Some x \<and> next_ok s ht x"
proof -
  have conf: "vm_conf s ht m" using m by (simp add: vm_at_def)
  obtain val t where v: "get_u32 (bc_buf s) (vm_pc m + 1) = Some val"
    and j: "jump (bc_buf s) (vm_pc m + 5) val = Some t"
    and t: "ht t = Some (vm_stack_len m)" "ht (vm_pc m + 5) = Some (vm_stack_len m)"
    using jump_succsE[OF sc ss] by metis
  note step = exec_step_def op exec_opcode_def Let_def exec_jump_eq[OF v]
  have push: "\<exists>x. exec_push s (m\<lparr>vm_pc := p\<rparr>) p' type = Some x \<and> next_ok s ht x"
    if "ht p = Some (vm_stack_len m)" "ht p' = Some (vm_stack_len m)"
      "type \<noteq> RE_EXEC_STATE_GREEDY_QUANT" for p p' type
    using that conf by (intro exec_push_ok) simp_all
  from o show ?thesis
  proof (elim disjE)
    assume "op = REOP_split_goto_first"
    then have "exec_step s m = exec_push s (m\<lparr>vm_pc := t\<rparr>) (vm_pc m + 5) RE_EXEC_STATE_SPLIT"
      by (simp add: step j)
    then show ?thesis using push t by simp
  next
    assume "op = REOP_split_next_first"
    then have "exec_step s m = exec_push s (m\<lparr>vm_pc := vm_pc m + 5\<rparr>) t RE_EXEC_STATE_SPLIT"
      by (simp add: step j)
    then show ?thesis using push t by simp
  next
    assume "op = REOP_lookahead"
    then have "exec_step s m = exec_push s (m\<lparr>vm_pc := vm_pc m + 5\<rparr>) t RE_EXEC_STATE_LOOKAHEAD"
      by (simp add: step j)
    then show ?thesis using push t by simp
  next
    assume "op = REOP_negative_lookahead"
    then have "exec_step s m =
        exec_push s (m\<lparr>vm_pc := vm_pc m + 5\<rparr>) t RE_EXEC_STATE_NEGATIVE_LOOKAHEAD"
      by (simp add: step j)
    then show ?thesis using push t by simp
  qed
qed

lemma exec_loop_ok:
  assumes m: "vm_at s ht m" and op: "mem_get (bc_buf s) (vm_pc m) = Some op"
    and o: "op = REOP_goto \<or> op = REOP_loop \<and> vm_stack_len m \<noteq> 0"
    and sc: "jump_succs (bc_buf s) (vm_pc m) (vm_stack_len m) (op = REOP_loop) = Some ss"
    and ss: "\<forall>(p, h') \<in> set ss. ht p = Some h'"
  shows "\<exists>x. exec_step s m = Some x \<and> next_ok s ht x"
proof -
  have conf: "vm_conf s ht m" using m by (simp add: vm_at_def)
  obtain val t where v: "get_u32 (bc_buf s) (vm_pc m + 1) = Some val"
    and j: "jump (bc_buf s) (vm_pc m + 5) val = Some t" and t: "ht t = Some (vm_stack_len m)"
    and nxt: "op = REOP_loop \<Longrightarrow> ht (vm_pc m + 5) = Some (vm_stack_len m)"
    using jump_succsE[OF sc ss] by metis
  note step = exec_step_def op exec_opcode_def Let_def exec_jump_eq[OF v]
  from o show ?thesis
  proof (elim disjE conjE)
    assume "op = REOP_goto"
    then have "exec_step s m = Some (Go (m\<lparr>vm_pc := t\<rparr>))" by (simp add: step j)
    then show ?thesis using t conf by (auto intro: go_ok)
  next
    assume lp: "op = REOP_loop" and h: "vm_stack_len m \<noteq> 0"
    define x where "x = vm_stack m ! (vm_stack_len m - 1)"
    define stk where "stk = (vm_stack m)[vm_stack_len m - 1 := x - 1]"
    have idx: "vm_stack_len m - 1 < length (vm_stack m)" using conf h by (auto simp: vm_conf_def)
    then have rd: "mem_get (vm_stack m) (vm_stack_len m - 1) = Some x"
        "mem_set (vm_stack m) (vm_stack_len m - 1) (x - 1) = Some stk"
      by (simp_all add: x_def stk_def)
    have "exec_step s m = Some (Go (m\<lparr>vm_pc := (if x - 1 \<noteq> 0 then t else vm_pc m + 5), vm_stack := stk\<rparr>))"
      using lp h by (simp add: step j rd[unfolded One_nat_def])
    moreover have "vm_conf s ht (m\<lparr>vm_pc := p, vm_stack := stk\<rparr>)" for p
      using vm_conf_stack[of s ht "m\<lparr>vm_pc := p\<rparr>" stk] conf by (simp add: stk_def vm_conf_def)
    ultimately show ?thesis using t nxt[OF lp] by (auto intro!: go_ok)
  qed
qed

lemma exec_bne_ok:
  assumes m: "vm_at s ht m" and op: "mem_get (bc_buf s) (vm_pc m) = Some REOP_bne_char_pos"
    and h: "vm_stack_len m \<noteq> 0"
    and sc: "jump_succs (bc_buf s) (vm_pc m) (vm_stack_len m - 1) True = Some ss"
    and ss: "\<forall>(p, h') \<in> set ss. ht p = Some h'"
  shows "\<exists>x. exec_step s m = Some x \<and> next_ok s ht x"
proof -
  have conf: "vm_conf s ht m" using m by (simp add: vm_at_def)
  obtain val t where v: "get_u32 (bc_buf s) (vm_pc m + 1) = Some val"
    and j: "jump (bc_buf s) (vm_pc m + 5) val = Some t"
    and t: "ht t = Some (vm_stack_len m - 1)" "ht (vm_pc m + 5) = Some (vm_stack_len m - 1)"
    using jump_succsE[OF sc ss] by metis
  note step = exec_step_def op exec_opcode_def Let_def exec_jump_eq[OF v]
  have "vm_stack_len m - 1 < length (vm_stack m)" using conf h by (auto simp: vm_conf_def)
  then have rd: "mem_get (vm_stack m) (vm_stack_len m - 1) = Some (vm_stack m ! (vm_stack_len m - 1))"
    by simp
  have "exec_step s m = Some (Go (m\<lparr>vm_pc :=
      (if vm_stack m ! (vm_stack_len m - 1) \<noteq> char_addr s (vm_cptr m) then t else vm_pc m + 5),
      vm_stack_len := vm_stack_len m - 1\<rparr>))"
    using h by (simp add: step j rd[unfolded One_nat_def])
  moreover have "vm_conf s ht (m\<lparr>vm_pc := p, vm_stack_len := vm_stack_len m - 1\<rparr>)" for p
    using conf by (auto simp: vm_conf_def)
  ultimately show ?thesis using t by (auto intro!: go_ok)
qed

lemma exec_save_ok:
  fixes k :: nat
  assumes m: "vm_at s ht m" and op: "mem_get (bc_buf s) (vm_pc m) = Some op"
    and o: "op = REOP_save_start \<and> k = 0 \<or> op = REOP_save_end \<and> k = 1"
    and v: "mem_get (bc_buf s) (vm_pc m + 1) = Some v" and cc: "unat v < capture_count s"
    and nxt: "ht (vm_pc m + 2) = Some (vm_stack_len m)"
  shows "\<exists>x. exec_step s m = Some x \<and> next_ok s ht x"
proof -
  have conf: "vm_conf s ht m" using m by (simp add: vm_at_def)
  then have cap: "cap_ok s (vm_capture m)" and cptr: "vm_cptr m \<le> cbuf_end s" by (auto simp: vm_conf_def)
  define cap' where "cap' = (vm_capture m)[2 * unat v + k := Some (vm_cptr m)]"
  have "2 * unat v + k < length (vm_capture m)" using cap cc o by (auto simp: cap_ok_def)
  then have st: "mem_set (vm_capture m) (2 * unat v + k) (Some (vm_cptr m)) = Some cap'"
    by (simp add: cap'_def)
  have "exec_step s m = exec_save s k (m\<lparr>vm_pc := vm_pc m + 1\<rparr>)"
    using o by (elim disjE conjE) (simp_all add: exec_step_def op exec_opcode_def Let_def)
  also have "\<dots> = Some (Go (m\<lparr>vm_pc := vm_pc m + 2, vm_capture := cap'\<rparr>))"
    using v cc st by (simp add: exec_save_def del: mem_get_Some mem_set_Some)
  finally have "exec_step s m = Some (Go (m\<lparr>vm_pc := vm_pc m + 2, vm_capture := cap'\<rparr>))" .
  moreover have "cap_ok s cap'" unfolding cap'_def using cap cptr by (intro cap_ok_update) simp_all
  then have "vm_conf s ht (m\<lparr>vm_pc := vm_pc m + 2, vm_capture := cap'\<rparr>)"
    using conf by (simp add: vm_conf_def)
  ultimately show ?thesis using nxt by (auto intro!: go_ok)
qed

lemma exec_save_reset_ok:
  assumes m: "vm_at s ht m" and op: "mem_get (bc_buf s) (vm_pc m) = Some REOP_save_reset"
    and v: "mem_get (bc_buf s) (vm_pc m + 1) = Some v" "mem_get (bc_buf s) (vm_pc m + 2) = Some v2"
    and cc: "unat v2 < capture_count s" and nxt: "ht (vm_pc m + 3) = Some (vm_stack_len m)"
  shows "\<exists>x. exec_step s m = Some x \<and> next_ok s ht x"
proof -
  have conf: "vm_conf s ht m" using m by (simp add: vm_at_def)
  then have cap: "cap_ok s (vm_capture m)" by (auto simp: vm_conf_def)
  have "unat v2 + 1 - unat v = 0 \<or> unat v + (unat v2 + 1 - unat v) \<le> capture_count s"
    using cc by linarith
  from reset_captures_total[OF cap this] obtain cap' where
    rs: "reset_captures (unat v) (unat v2 + 1 - unat v) (vm_capture m) = Some cap'"
    and cap': "cap_ok s cap'" by blast
  have "exec_step s m = Some (Go (m\<lparr>vm_pc := vm_pc m + 3, vm_capture := cap'\<rparr>))"
    using v cc rs by (simp add: exec_step_def op exec_opcode_def Let_def numeral_3_eq_3 del: mem_get_Some)
  moreover have "vm_conf s ht (m\<lparr>vm_pc := vm_pc m + 3, vm_capture := cap'\<rparr>)"
    using conf cap' by (simp add: vm_conf_def)
  ultimately show ?thesis using nxt by (auto intro!: go_ok)
qed

lemma exec_back_reference_ok:
  assumes m: "vm_at s ht m" and op: "mem_get (bc_buf s) (vm_pc m) = Some op"
    and o: "op = REOP_back_reference \<and> \<not> b \<or> op = REOP_backward_back_reference \<and> b"
    and v: "mem_get (bc_buf s) (vm_pc m + 1) = Some v"
    and nxt: "ht (vm_pc m + 2) = Some (vm_stack_len m)"
  shows "\<exists>x. exec_step s m = Some x \<and> next_ok s ht x"
proof -
  have conf: "vm_conf s ht m" using m by (simp add: vm_at_def)
  then have cap: "cap_ok s (vm_capture m)" and cptr: "vm_cptr m \<le> cbuf_end s" by (auto simp: vm_conf_def)
  let ?m = "m\<lparr>vm_pc := vm_pc m + 2\<rparr>"
  have eq: "exec_step s m = exec_back_reference s b (m\<lparr>vm_pc := vm_pc m + 1\<rparr>)"
    using o by (elim disjE conjE) (simp_all add: exec_step_def op exec_opcode_def Let_def)
  show ?thesis
  proof (cases "unat v < capture_count s")
    case False
    then have "exec_step s m = Some (NoMatch ?m)"
      using v by (simp add: eq exec_back_reference_def Let_def del: mem_get_Some)
    then show ?thesis using conf by (simp add: next_ok_def)
  next
    case True
    define st en where "st = vm_capture m ! (2 * unat v)" and "en = vm_capture m ! (2 * unat v + 1)"
    have len: "2 * unat v + 1 < length (vm_capture m)" using True cap by (simp add: cap_ok_def)
    then have rd: "mem_get (vm_capture m) (2 * unat v) = Some st"
      "mem_get (vm_capture m) (Suc (2 * unat v)) = Some en"
      by (simp_all add: st_def en_def)
    show ?thesis
    proof (cases "st = None \<or> en = None")
      case none: True
      then have "exec_step s m = Some (Go ?m)"
        using v rd True
        by (cases st) (simp_all add: eq exec_back_reference_def Let_def del: mem_get_Some)
      then show ?thesis using conf nxt by (auto intro!: go_ok)
    next
      case False
      then obtain i e where ie: "st = Some i" "en = Some e" by auto
      have "Some e \<in> set (vm_capture m)" using nth_mem[OF len] ie by (simp add: en_def)
      then have "e \<le> cbuf_end s" using cap by (simp add: cap_ok_def)
      then obtain r where
        r: "(if b then back_ref_prev_loop s e i (vm_cptr m) else back_ref_loop s i e (vm_cptr m)) = Some r"
        and c: "\<And>c. r = Some c \<Longrightarrow> c \<le> cbuf_end s"
        using back_ref_prev_loop_total[of e s "vm_cptr m" i] back_ref_loop_total[of e s "vm_cptr m" i] cptr
        by (cases b) auto
      have "exec_step s m = Some (case r of None \<Rightarrow> NoMatch ?m | Some c \<Rightarrow> Go (?m\<lparr>vm_cptr := c\<rparr>))"
        using v rd True ie r
        by (cases r; cases b) (simp_all add: eq exec_back_reference_def Let_def del: mem_get_Some)
      moreover have "vm_conf s ht (?m\<lparr>vm_cptr := c\<rparr>)" if "r = Some c" for c
        using conf c[OF that] by (simp add: vm_conf_def)
      ultimately show ?thesis using conf nxt
        by (cases r) (auto simp: next_ok_def vm_at_def)
    qed
  qed
qed

lemma push_int_ok:
  assumes conf: "vm_conf s ht m" and h: "vm_stack_len m < stack_size_max s"
    and nxt: "ht (vm_pc m) = Some (vm_stack_len m + 1)"
  shows "\<exists>x. map_option Go (push_int m v) = Some x \<and> next_ok s ht x"
proof -
  define stk where "stk = (vm_stack m)[vm_stack_len m := v]"
  have "mem_set (vm_stack m) (vm_stack_len m) v = Some stk"
    using conf h by (simp add: stk_def vm_conf_def)
  then have "push_int m v = Some (m\<lparr>vm_stack := stk, vm_stack_len := vm_stack_len m + 1\<rparr>)"
    by (simp add: push_int_def del: mem_set_Some)
  moreover have "vm_conf s ht (m\<lparr>vm_stack := stk, vm_stack_len := vm_stack_len m + 1\<rparr>)"
    using conf h by (simp add: stk_def vm_conf_def)
  ultimately show ?thesis using nxt by (auto intro!: go_ok)
qed

lemma exec_step_ok:
  assumes code: "code_ok (bc_buf s) (capture_count s) (stack_size_max s) ht" and m: "vm_at s ht m"
  shows "\<exists>x. exec_step s m = Some x \<and> next_ok s ht x"
proof -
  have conf: "vm_conf s ht m" and here: "ht (vm_pc m) = Some (vm_stack_len m)"
    using m by (auto simp: vm_at_def)
  from conf have len: "vm_stack_len m \<le> stack_size_max s" and cptr: "vm_cptr m \<le> cbuf_end s"
    by (auto simp: vm_conf_def)
  from code here obtain ss where
    sc: "instr_succs (bc_buf s) (capture_count s) (stack_size_max s) (vm_pc m) (vm_stack_len m) = Some ss"
    and ss: "\<forall>(p, h') \<in> set ss. ht p = Some h'" unfolding code_ok_def by blast
  then obtain op where op: "mem_get (bc_buf s) (vm_pc m) = Some op"
    by (auto simp: instr_succs_def Option.bind_eq_Some_conv simp del: mem_get_Some)
  note step = exec_step_def op exec_opcode_def Let_def
  note sc' = sc[unfolded instr_succs_def op Option.bind.bind_lunit]
  consider (match) "op = REOP_match" | (simple) "is_char_op op \<or> is_test_op op" | (prev) "op = REOP_prev"
    | (split) "op = REOP_split_goto_first \<or> op = REOP_split_next_first \<or> op = REOP_lookahead \<or>
               op = REOP_negative_lookahead"
    | (goto) "op = REOP_goto" | (loop) "op = REOP_loop" | (bne) "op = REOP_bne_char_pos"
    | (save) "op = REOP_save_start \<or> op = REOP_save_end" | (reset) "op = REOP_save_reset"
    | (backref) "op = REOP_back_reference \<or> op = REOP_backward_back_reference"
    | (pushi) "op = REOP_push_i32" | (pushc) "op = REOP_push_char_pos" | (drop) "op = REOP_drop"
    | (greedy) "op = REOP_simple_greedy_quant"
    using sc' by (simp split: if_split_asm)
  then show ?thesis
  proof cases
    case match
    then show ?thesis using conf by (simp add: step next_ok_def)
  next
    case simple
    then obtain p where p: "simple_next (bc_buf s) op (vm_pc m) = Some p" "ss = [(p, vm_stack_len m)]"
      using sc' by (auto simp: is_char_op_def is_test_op_def split: if_split_asm)
    have "simple_outcome s op p m (exec_step s m)" by (rule exec_simple[OF op p(1) cptr])
    from simple_outcome_ok[OF this conf] show ?thesis using ss p(2) by simp
  next
    case prev
    then have nxt: "ht (vm_pc m + 1) = Some (vm_stack_len m)"
      using sc' ss by (auto simp: is_char_op_def is_test_op_def)
    show ?thesis
    proof (cases "vm_cptr m = 0")
      case True
      then show ?thesis using prev conf by (simp add: step next_ok_def)
    next
      case False
      have "\<exists>i. PREV_CHAR s (vm_cptr m) 0 = Some i \<and> i \<le> cbuf_end s"
        using PREV_CHAR_step[of "vm_cptr m" s] False cptr by auto
      then obtain i where i: "PREV_CHAR s (vm_cptr m) 0 = Some i" "i \<le> cbuf_end s" by blast
      then have "exec_step s m = Some (Go (m\<lparr>vm_pc := vm_pc m + 1, vm_cptr := i\<rparr>))"
        using prev False by (simp add: step)
      then show ?thesis using nxt i(2) conf vm_conf_cptr[of s ht "m\<lparr>vm_pc := vm_pc m + 1\<rparr>" i]
        by (auto intro!: go_ok)
    qed
  next
    case split
    then have "jump_succs (bc_buf s) (vm_pc m) (vm_stack_len m) True = Some ss"
      using sc' by (auto simp: is_char_op_def is_test_op_def)
    then show ?thesis by (rule exec_split_ok[OF m op split _ ss])
  next
    case goto
    then have "jump_succs (bc_buf s) (vm_pc m) (vm_stack_len m) (op = REOP_loop) = Some ss"
      using sc' by (simp add: is_char_op_def is_test_op_def)
    then show ?thesis using goto by (intro exec_loop_ok[OF m op _ _ ss]) simp_all
  next
    case loop
    then have "vm_stack_len m \<noteq> 0" and "jump_succs (bc_buf s) (vm_pc m) (vm_stack_len m) True = Some ss"
      using sc' by (simp_all add: is_char_op_def is_test_op_def split: if_split_asm)
    then show ?thesis using loop by (intro exec_loop_ok[OF m op _ _ ss]) simp_all
  next
    case bne
    then have "vm_stack_len m \<noteq> 0" and "jump_succs (bc_buf s) (vm_pc m) (vm_stack_len m - 1) True = Some ss"
      using sc' by (simp_all add: is_char_op_def is_test_op_def split: if_split_asm)
    then show ?thesis using bne op by (intro exec_bne_ok[OF m _ _ _ ss]) simp_all
  next
    case save
    then obtain v where "mem_get (bc_buf s) (vm_pc m + 1) = Some v" "unat v < capture_count s"
      "ss = [(vm_pc m + 2, vm_stack_len m)]"
      using sc' by (auto simp: is_char_op_def is_test_op_def Option.bind_eq_Some_conv
          simp del: mem_get_Some split: if_split_asm)
    then show ?thesis using save ss exec_save_ok[OF m op] by (elim disjE) auto
  next
    case reset
    then obtain v v2 where "mem_get (bc_buf s) (vm_pc m + 1) = Some v"
      "mem_get (bc_buf s) (vm_pc m + 2) = Some v2" "unat v2 < capture_count s"
      "ss = [(vm_pc m + 3, vm_stack_len m)]"
      using sc' by (auto simp: is_char_op_def is_test_op_def Option.bind_eq_Some_conv
          simp del: mem_get_Some split: if_split_asm)
    then show ?thesis using reset op ss by (intro exec_save_reset_ok[OF m]) simp_all
  next
    case backref
    then obtain v where "mem_get (bc_buf s) (vm_pc m + 1) = Some v" "ss = [(vm_pc m + 2, vm_stack_len m)]"
      using sc' by (auto simp: is_char_op_def is_test_op_def simp del: mem_get_Some split: if_split_asm)
    then show ?thesis using backref ss exec_back_reference_ok[OF m op] by (elim disjE) auto
  next
    case pushi
    then obtain v where v: "get_u32 (bc_buf s) (vm_pc m + 1) = Some v"
      and h: "vm_stack_len m < stack_size_max s" "ss = [(vm_pc m + 5, vm_stack_len m + 1)]"
      using sc' by (auto simp: is_char_op_def is_test_op_def split: if_split_asm)
    have "exec_step s m = map_option Go (push_int (m\<lparr>vm_pc := vm_pc m + 5\<rparr>) (ucast v))"
      using pushi by (simp add: step exec_jump_eq[OF v])
    then show ?thesis using push_int_ok[of s ht "m\<lparr>vm_pc := vm_pc m + 5\<rparr>"] conf h ss by simp
  next
    case pushc
    then have h: "vm_stack_len m < stack_size_max s" "ss = [(vm_pc m + 1, vm_stack_len m + 1)]"
      using sc' by (auto simp: is_char_op_def is_test_op_def split: if_split_asm)
    have "exec_step s m = map_option Go (push_int (m\<lparr>vm_pc := vm_pc m + 1\<rparr>) (char_addr s (vm_cptr m)))"
      using pushc by (simp add: step)
    then show ?thesis using push_int_ok[of s ht "m\<lparr>vm_pc := vm_pc m + 1\<rparr>"] conf h ss by simp
  next
    case drop
    then have h: "vm_stack_len m \<noteq> 0" "ss = [(vm_pc m + 1, vm_stack_len m - 1)]"
      using sc' by (auto simp: is_char_op_def is_test_op_def split: if_split_asm)
    then have "exec_step s m = Some (Go (m\<lparr>vm_pc := vm_pc m + 1, vm_stack_len := vm_stack_len m - 1\<rparr>))"
      using drop by (simp add: step)
    moreover have "vm_conf s ht (m\<lparr>vm_pc := vm_pc m + 1, vm_stack_len := vm_stack_len m - 1\<rparr>)"
      using conf by (auto simp: vm_conf_def)
    ultimately show ?thesis using ss h by (auto intro!: go_ok)
  next
    case greedy
    then obtain bs val k t where g: "mem_read (bc_buf s) (vm_pc m + 1) 16 = Some bs"
      "get_u32 (bc_buf s) (vm_pc m + 1) = Some val" "get_u32 (bc_buf s) (vm_pc m + 13) = Some k"
      "jump (bc_buf s) (vm_pc m + 17) val = Some t"
      "simple_body (bc_buf s) (vm_pc m + 17) = Some (unat k)" "ss = [(t, vm_stack_len m)]"
      using sc' by (auto simp: is_char_op_def is_test_op_def Option.bind_eq_Some_conv
          simp del: mem_read_Some split: if_split_asm)
    then have "vm_pc m + 17 \<le> length (bc_buf s)" by simp
    then obtain qmin qmax where q: "get_u32 (bc_buf s) (vm_pc m + 5) = Some qmin"
      "get_u32 (bc_buf s) (vm_pc m + 9) = Some qmax" by (auto simp: get_u32_def mem_read_def)
    have "exec_step s m = Some (Greedy (m\<lparr>vm_pc := t\<rparr>) (vm_pc m + 17) qmin qmax)"
      using greedy by (simp add: step g[folded Suc_eq_plus1] g q add.commute[of _ "vm_pc m"] del: mem_read_Some)
    then show ?thesis using g ss conf
      by (auto simp: next_ok_def vm_at_def add.commute[of _ "vm_pc m"])
  qed
qed

section \<open>Greedy loops\<close>

text \<open>The body of a greedy loop only moves the position, by the characters that it counts.\<close>

lemma simple_body_run:
  assumes "simple_body (bc_buf s) (vm_pc m) = Some k" and "vm_cptr m \<le> cbuf_end s"
  shows "case lre_exec_backtrack n s True m of
      Undef \<Rightarrow> False
    | Timeout \<Rightarrow> True
    | Ret r m' \<Rightarrow> (\<exists>p i. m' = m\<lparr>vm_pc := p, vm_cptr := i\<rparr>) \<and> vm_cptr m' \<le> cbuf_end s \<and>
        (r = 0 \<or> r = 1 \<and> fwd s k (vm_cptr m) = Some (vm_cptr m'))"
  using assms
proof (induction n arbitrary: m k)
  case (Suc n)
  define pc op where "pc = vm_pc m" and "op = bc_buf s ! pc"
  have body: "pc < length (bc_buf s)" "simple_body (bc_buf s) pc =
      (if op = REOP_match then Some 0
       else (case simple_next (bc_buf s) op pc of
             None \<Rightarrow> None
           | Some pos' \<Rightarrow> map_option (\<lambda>k. if is_char_op op then k + 1 else k) (simple_body (bc_buf s) pos')))"
    using Suc.prems(1) unfolding op_def pc_def
    by (subst (asm) simple_body.simps, simp split: if_splits)+
  have get: "mem_get (bc_buf s) pc = Some op" using body(1) by (simp add: op_def)
  show ?case
  proof (cases "op = REOP_match")
    case True
    then have "exec_step s m = Some (Match (m\<lparr>vm_pc := pc + 1\<rparr>))"
      by (simp add: exec_step_def exec_opcode_def get[unfolded pc_def] pc_def)
    moreover have "k = 0" using True body Suc.prems(1) by (simp add: pc_def)
    moreover have "\<exists>p i. m\<lparr>vm_pc := Suc pc\<rparr> = m\<lparr>vm_pc := p, vm_cptr := i\<rparr>"
      by (rule exI[of _ "Suc pc"], rule exI[of _ "vm_cptr m"]) simp
    ultimately show ?thesis using Suc.prems(2) by auto
  next
    case False
    then obtain pos' k' where nx: "simple_next (bc_buf s) op pc = Some pos'"
      and k': "simple_body (bc_buf s) pos' = Some k'" and k: "k = (if is_char_op op then k' + 1 else k')"
      using body Suc.prems(1) unfolding pc_def[symmetric]
      by (cases "simple_next (bc_buf s) op pc";
          cases "simple_body (bc_buf s) (the (simple_next (bc_buf s) op pc))") auto
    have "simple_outcome s op pos' m (exec_step s m)"
      using exec_simple[of s m op pos'] get nx Suc.prems(2) by (simp add: pc_def)
    then show ?thesis unfolding simple_outcome_def
    proof (elim disjE exE conjE)
      fix i
      assume x: "exec_step s m = Some (Go (m\<lparr>vm_pc := pos', vm_cptr := i\<rparr>))"
        and i: "if is_char_op op then fwd1 s (vm_cptr m) = Some i else i = vm_cptr m"
      let ?m = "m\<lparr>vm_pc := pos', vm_cptr := i\<rparr>"
      have ile: "i \<le> cbuf_end s" using i fwd1_bounds Suc.prems(2) by (auto split: if_splits)
      have "fwd s k (vm_cptr m) = fwd s k' i" using i k by (auto split: if_splits)
      with Suc.IH[of ?m k'] k' ile show ?thesis
        by (cases "lre_exec_backtrack n s True ?m") (auto simp: x)
    next
      fix p i assume "exec_step s m = Some (NoMatch (m\<lparr>vm_pc := p, vm_cptr := i\<rparr>))" and "i \<le> cbuf_end s"
      then show ?thesis by (auto intro: exI[of _ p] exI[of _ i])
    qed
  qed
qed simp

lemma greedy_loop_run:
  assumes "simple_body (bc_buf s) pc1 = Some k" and "vm_cptr m \<le> cbuf_end s"
  shows "case greedy_loop n s pc1 quant_max q m of
      GreedyUndef \<Rightarrow> False
    | GreedyTimeout \<Rightarrow> True
    | GreedyRet r m' \<Rightarrow> False
    | Looped q' m' \<Rightarrow> (\<exists>i. m' = m\<lparr>vm_cptr := i\<rparr>) \<and> vm_cptr m' \<le> cbuf_end s \<and> q \<le> q' \<and>
        fwd s (k * (q' - q)) (vm_cptr m) = Some (vm_cptr m')"
  using assms(2)
proof (induction n arbitrary: m q)
  case (Suc n)
  show ?case
  proof (cases "lre_exec_backtrack n s True (m\<lparr>vm_pc := pc1\<rparr>)")
    case (Ret r m')
    then obtain p i where m': "m' = m\<lparr>vm_pc := p, vm_cptr := i\<rparr>" and i: "i \<le> cbuf_end s"
      and r: "r = 0 \<or> r = 1 \<and> fwd s k (vm_cptr m) = Some i"
      using simple_body_run[of s "m\<lparr>vm_pc := pc1\<rparr>" k n] assms(1) Suc.prems by auto
    let ?m = "m\<lparr>vm_cptr := i\<rparr>"
    have m_back: "m'\<lparr>vm_pc := vm_pc m, vm_stack_len := vm_stack_len m\<rparr> = ?m" by (simp add: m')
    from r show ?thesis
    proof
      assume "r = 0"
      then show ?thesis using Ret Suc.prems by (auto simp: m_back Let_def intro: exI[of _ "vm_cptr m"])
    next
      assume one: "r = 1 \<and> fwd s k (vm_cptr m) = Some i"
      show ?thesis
      proof (cases "q + 1 \<ge> unat quant_max \<and> quant_max \<noteq> 0x7fffffff")
        case True
        then show ?thesis using Ret one i by (auto simp: m_back Let_def)
      next
        case False
        then have eq: "greedy_loop (Suc n) s pc1 quant_max q m = greedy_loop n s pc1 quant_max (q + 1) ?m"
          using Ret one by (auto simp add: m_back Let_def)
        have fw: "fwd s (k * (q' - q)) (vm_cptr m) = fwd s (k * (q' - (q + 1))) i" if "q + 1 \<le> q'" for q'
        proof -
          have "k * (q' - q) = k + k * (q' - (q + 1))" using that
            by (metis Suc_diff_le Suc_eq_plus1 diff_Suc_Suc mult_Suc_right)
          then show ?thesis using one by (simp add: fwd_add)
        qed
        show ?thesis unfolding eq using Suc.IH[of ?m "q + 1"] i
          by (cases "greedy_loop n s pc1 quant_max (q + 1) ?m") (auto simp: fw)
      qed
    qed
  qed (use simple_body_run[of s "m\<lparr>vm_pc := pc1\<rparr>" k n] assms(1) Suc.prems in auto)
qed simp

section \<open>Backtracking\<close>

lemma restore_capture_ok:
  assumes "vm_conf s ht m" and "cap_ok s (rs_capture rs)"
  shows "restore_capture rs m = Some (m\<lparr>vm_capture := rs_capture rs\<rparr>)"
  using assms by (simp add: restore_capture_def vm_conf_def cap_ok_def mem_write_def)

lemma restore_stack_ok:
  assumes "vm_conf s ht m" and "length (rs_stack rs) \<le> stack_size_max s"
  obtains stk where "restore_stack rs m = Some (m\<lparr>vm_stack := stk, vm_stack_len := length (rs_stack rs)\<rparr>)"
    and "length stk = stack_size_max s" and "take (length (rs_stack rs)) stk = rs_stack rs"
proof -
  have "length (rs_stack rs) \<le> length (vm_stack m)" using assms by (simp add: vm_conf_def)
  then show ?thesis using that[of "rs_stack rs @ drop (length (rs_stack rs)) (vm_stack m)"] assms
    by (simp add: restore_stack_def mem_write_def vm_conf_def)
qed

lemma pop_state1_ok:
  assumes conf: "vm_conf s ht m" and rs: "saved_ok s ht rs" and ty: "rs_type rs \<noteq> RE_EXEC_STATE_GREEDY_QUANT"
    and rest: "\<forall>r \<in> set rest. saved_ok s ht r"
  shows "\<exists>m'. pop_state1 rs rest m = Some m' \<and> vm_at s ht m'"
proof -
  have rs': "length (rs_stack rs) \<le> stack_size_max s" "rs_cptr rs \<le> cbuf_end s"
    "ht (rs_pc rs) = Some (length (rs_stack rs))" using rs ty by (auto simp: saved_ok_def)
  obtain stk where "restore_stack rs m = Some (m\<lparr>vm_stack := stk, vm_stack_len := length (rs_stack rs)\<rparr>)"
    "length stk = stack_size_max s" by (rule restore_stack_ok[OF conf rs'(1)])
  then show ?thesis using conf rs' rest by (simp add: pop_state1_def vm_at_def vm_conf_def)
qed

lemma pop_state_ok:
  assumes conf: "vm_conf s ht m" and rs: "saved_ok s ht rs" and ty: "rs_type rs \<noteq> RE_EXEC_STATE_GREEDY_QUANT"
    and rest: "\<forall>r \<in> set rest. saved_ok s ht r"
  shows "\<exists>m'. pop_state rs rest m = Some m' \<and> vm_at s ht m'"
proof -
  have cap: "cap_ok s (rs_capture rs)" using rs by (simp add: saved_ok_def)
  show ?thesis using pop_state1_ok[OF vm_conf_capture[OF conf cap] rs ty rest]
    by (simp add: pop_state_def restore_capture_ok[OF conf cap])
qed

lemma retry_greedy_ok:
  assumes conf: "vm_conf s ht m" and rs: "saved_ok s ht rs" and ty: "rs_type rs = RE_EXEC_STATE_GREEDY_QUANT"
    and rest: "\<forall>r \<in> set rest. saved_ok s ht r"
  shows "\<exists>m'. retry_greedy s rs rest m = Some m' \<and> vm_at s ht m'"
proof -
  have cap: "cap_ok s (rs_capture rs)" and len: "length (rs_stack rs) \<le> stack_size_max s"
    and cnt: "0 < rs_count rs"
    using rs ty by (auto simp: saved_ok_def)
  obtain val t k b where g: "get_u32 (bc_buf s) (rs_pc rs) = Some val"
    "jump (bc_buf s) (rs_pc rs + 16) val = Some t" "ht t = Some (length (rs_stack rs))"
    "get_u32 (bc_buf s) (rs_pc rs + 12) = Some k" "b \<le> cbuf_end s"
    "fwd s (unat k * rs_count rs) b = Some (rs_cptr rs)"
    using rs ty by (auto simp: saved_ok_def)
  let ?m = "m\<lparr>vm_capture := rs_capture rs\<rparr>"
  obtain stk where stk: "restore_stack rs ?m = Some (?m\<lparr>vm_stack := stk, vm_stack_len := length (rs_stack rs)\<rparr>)"
    "length stk = stack_size_max s" by (rule restore_stack_ok[OF vm_conf_capture[OF conf cap] len])
  have "\<exists>q. prev_chars s (unat k) (rs_cptr rs) = Some q \<and> q \<le> cbuf_end s \<and>
      (rs_count rs = 1 \<or> fwd s (unat k * (rs_count rs - 1)) b = Some q)"
  proof (cases "rs_count rs = 1 \<or> k = 0")
    case True
    then have "unat k * rs_count rs = unat k" "k = 0 \<Longrightarrow> prev_chars s (unat k) (rs_cptr rs) = Some (rs_cptr rs)"
      by auto
    then show ?thesis using prev_chars_fwd_all[of s "unat k" b "rs_cptr rs"] g True rs
      by (cases "k = 0") (auto simp: saved_ok_def)
  next
    case False
    then have pos: "0 < unat k * (rs_count rs - 1)" using cnt by (simp add: unat_gt_0)
    have "unat k * (rs_count rs - 1) + unat k = unat k * rs_count rs" using cnt
      by (metis Suc_pred' add.commute mult_Suc_right)
    then obtain q where q: "fwd s (unat k * (rs_count rs - 1)) b = Some q"
      "prev_chars s (unat k) (rs_cptr rs) = Some q"
      using prev_chars_fwd[OF _ pos, of s "unat k" b "rs_cptr rs"] g(6) by auto
    then show ?thesis using fwd_bounds[OF q(1)] g(5) by auto
  qed
  then obtain q where q: "prev_chars s (unat k) (rs_cptr rs) = Some q" "q \<le> cbuf_end s"
    "rs_count rs = 1 \<or> fwd s (unat k * (rs_count rs - 1)) b = Some q" by blast
  let ?rs = "rs\<lparr>rs_cptr := q, rs_count := rs_count rs - 1\<rparr>"
  have "saved_ok s ht ?rs" if "rs_count rs \<noteq> 1"
    using that rs ty g q cnt unfolding saved_ok_def by auto
  then show ?thesis using conf rest g q stk len cap cnt restore_capture_ok[OF conf cap]
    by (auto simp: retry_greedy_def vm_at_def vm_conf_def Let_def)
qed

lemma backtrack_ok:
  assumes "vm_conf s ht m" and "\<forall>rs \<in> set st. saved_ok s ht rs"
  shows "(\<exists>b m'. backtrack s ret st m = Some (Inl (b, m')) \<and> vm_conf s ht m') \<or>
    (\<exists>m'. backtrack s ret st m = Some (Inr m') \<and> vm_at s ht m')"
  using assms(2)
proof (induction st arbitrary: ret)
  case Nil
  then show ?case using vm_conf_states[OF assms(1), of "[]"] by simp
next
  case (Cons rs rest)
  then have rs: "saved_ok s ht rs" and rest: "\<forall>r \<in> set rest. saved_ok s ht r" by simp_all
  note IH = Cons.IH[OF rest]
  show ?case
    using IH[of True] IH[of False] pop_state_ok[OF assms(1) rs _ rest] pop_state1_ok[OF assms(1) rs _ rest]
      retry_greedy_ok[OF assms(1) rs _ rest]
    by (cases "rs_type rs"; cases ret) auto
qed

section \<open>Soundness\<close>

definition result_ok :: "re_ctx \<Rightarrow> (nat \<Rightarrow> nat option) \<Rightarrow> vm_result \<Rightarrow> bool" where
  "result_ok s ht res \<longleftrightarrow>
     (case res of
        Undef \<Rightarrow> False
      | Timeout \<Rightarrow> True
      | Ret r m \<Rightarrow> (r = -1 \<or> r = 0 \<or> r = 1) \<and> vm_conf s ht m)"

lemma recurse_ok:
  assumes conf: "vm_conf s ht m"
    and IH: "\<And>m'. vm_at s ht m' \<Longrightarrow> result_ok s ht (lre_exec_backtrack n s False m')"
  shows "result_ok s ht
    (case backtrack s b (state_stack m) m of
       None \<Rightarrow> Undef
     | Some (Inl (ret, m)) \<Rightarrow> Ret (if ret then 1 else 0) m
     | Some (Inr m) \<Rightarrow> lre_exec_backtrack n s False m)"
proof -
  have "\<forall>rs \<in> set (state_stack m). saved_ok s ht rs" using conf by (simp add: vm_conf_def)
  from backtrack_ok[OF conf this, of b] IH show ?thesis by (auto simp: result_ok_def)
qed

lemma lre_exec_backtrack_ok:
  assumes code: "code_ok (bc_buf s) (capture_count s) (stack_size_max s) ht" and "vm_at s ht m"
  shows "result_ok s ht (lre_exec_backtrack n s False m)"
  using assms(2)
proof (induction n arbitrary: m)
  case 0
  then show ?case by (simp add: result_ok_def)
next
  case (Suc n)
  obtain x where x: "exec_step s m = Some x" and ok: "next_ok s ht x"
    using exec_step_ok[OF code Suc.prems] by blast
  show ?case
  proof (cases x)
    case (Go m')
    then show ?thesis using x ok Suc.IH by (simp add: next_ok_def)
  next
    case (NoMatch m')
    then show ?thesis using x ok recurse_ok[OF _ Suc.IH, of m' False] by (simp add: next_ok_def)
  next
    case (Match m')
    then show ?thesis using x ok recurse_ok[OF _ Suc.IH, of m' True] by (simp add: next_ok_def)
  next
    case (OutOfMemory m')
    then show ?thesis using x ok by (simp add: next_ok_def result_ok_def)
  next
    case (Greedy m' pc1 qmin qmax)
    then have at: "vm_at s ht m'" and conf: "vm_conf s ht m'" and pc1: "16 \<le> pc1" using ok
      by (auto simp: next_ok_def vm_at_def)
    obtain val k where g: "get_u32 (bc_buf s) (pc1 - 16) = Some val"
      "jump (bc_buf s) pc1 val = Some (vm_pc m')" "get_u32 (bc_buf s) (pc1 - 4) = Some k"
      "simple_body (bc_buf s) pc1 = Some (unat k)" using Greedy ok by (auto simp: next_ok_def)
    note run = greedy_loop_run[OF g(4) vm_conf_cptr_le[OF conf], where n = n and quant_max = qmax and q = 0]
    show ?thesis
    proof (cases "greedy_loop n s pc1 qmax 0 m'")
      case (Looped q m2)
      then obtain i where m2: "m2 = m'\<lparr>vm_cptr := i\<rparr>" and i: "i \<le> cbuf_end s"
        and f: "fwd s (unat k * q) (vm_cptr m') = Some i" using run by auto
      have conf2: "vm_conf s ht m2" and at2: "vm_at s ht m2"
        using conf at i by (auto simp: m2 vm_at_def vm_conf_def)
      consider (less) "q < unat qmin" | (more) "q > unat qmin" | (eq) "q = unat qmin" by linarith
      then show ?thesis
      proof cases
        case less
        then show ?thesis using x Greedy Looped recurse_ok[OF conf2 Suc.IH, of False] by simp
      next
        case eq
        then show ?thesis using x Greedy Looped Suc.IH[OF at2] by simp
      next
        case more
        let ?c = "q - unat qmin"
        have "unat k * unat qmin + unat k * ?c = unat k * q" using more
          by (metis add_diff_inverse_nat distrib_left not_less_iff_gr_or_eq)
        then obtain b where "fwd s (unat k * unat qmin) (vm_cptr m') = Some b" "fwd s (unat k * ?c) b = Some i"
          using f fwd_add[of s "unat k * unat qmin" "unat k * ?c" "vm_cptr m'"]
          by (cases "fwd s (unat k * unat qmin) (vm_cptr m')") auto
        moreover from this(1) have "b \<le> cbuf_end s" using fwd_bounds vm_conf_cptr_le[OF conf] by blast
        moreover have "pc1 - 16 + 12 = pc1 - 4" "pc1 - 16 + 16 = pc1" using pc1 by simp_all
        moreover have "min (length (vm_stack m2)) (vm_stack_len m2) = vm_stack_len m2"
          "ht (vm_pc m2) = Some (vm_stack_len m2)" using conf2 at2 by (auto simp: vm_conf_def vm_at_def)
        ultimately have sv: "saved_ok s ht (saved_of m2 (pc1 - 16) (vm_cptr m2) RE_EXEC_STATE_GREEDY_QUANT ?c)"
          using conf2 g more i unfolding saved_ok_def by (auto simp: m2 vm_conf_def)
        have "vm_at s ht (m2\<lparr>vm_heap := h, state_stack := saved_of m2 (pc1 - 16) (vm_cptr m2)
            RE_EXEC_STATE_GREEDY_QUANT ?c # state_stack m2, state_stack_size := l\<rparr>)" for h l
          using at2 sv by (simp add: vm_at_def vm_conf_def)
        moreover have "vm_conf s ht (m2\<lparr>vm_heap := h\<rparr>)" for h using conf2 by simp
        ultimately show ?thesis
          using x Greedy Looped more Suc.IH
            push_state_cases[OF conf2, of "pc1 - 16" "vm_cptr m2" RE_EXEC_STATE_GREEDY_QUANT ?c]
          by (auto simp: result_ok_def)
      qed
    qed (use run x Greedy in \<open>auto simp: result_ok_def\<close>)
  qed
qed

lemma lre_exec_safe:
  assumes "bytecode_ok bc" and "cindex \<le> length subject"
  shows "case lre_exec fuel bc subject addr type cindex h junk of
      Undef \<Rightarrow> False
    | Timeout \<Rightarrow> True
    | Ret r m \<Rightarrow> (r = -1 \<or> r = 0 \<or> r = 1) \<and>
        length (vm_capture m) = 2 * unat (bc ! RE_HEADER_CAPTURE_COUNT) \<and>
        (\<forall>i. Some i \<in> set (vm_capture m) \<longrightarrow> i \<le> length subject)"
proof -
  obtain n where n: "get_u32 bc 3 = Some n" and len: "RE_HEADER_LEN \<le> length bc"
    and start: "map_of (heights (length bc) bc RE_HEADER_LEN (RE_HEADER_LEN + unat n) 0) RE_HEADER_LEN = Some 0"
    and chk: "check_heights bc (unat (bc ! RE_HEADER_CAPTURE_COUNT)) (unat (bc ! RE_HEADER_STACK_SIZE))
      (heights (length bc) bc RE_HEADER_LEN (RE_HEADER_LEN + unat n) 0)"
    using assms(1) by (auto simp: bytecode_ok_def Let_def split: option.splits)
  define ht where "ht = map_of (heights (length bc) bc RE_HEADER_LEN (RE_HEADER_LEN + unat n) 0)"
  have "0 < length bc" "1 < length bc" "2 < length bc" using len by (auto simp: RE_HEADER_LEN_def)
  then have "\<exists>s. re_ctx_of bc subject addr type = Some s \<and> bc_buf s = bc \<and> cbuf s = subject \<and>
      capture_count s = unat (bc ! RE_HEADER_CAPTURE_COUNT) \<and>
      stack_size_max s = unat (bc ! RE_HEADER_STACK_SIZE)"
    by (simp add: re_ctx_of_def Let_def RE_HEADER_defs mem_get_def)
  then obtain s where s: "re_ctx_of bc subject addr type = Some s" and f: "bc_buf s = bc" "cbuf s = subject"
    "capture_count s = unat (bc ! RE_HEADER_CAPTURE_COUNT)" "stack_size_max s = unat (bc ! RE_HEADER_STACK_SIZE)"
    by blast
  have "code_ok (bc_buf s) (capture_count s) (stack_size_max s) ht"
    using check_heights_code_ok[OF chk] by (simp add: f ht_def)
  moreover have "vm_at s ht (lre_exec_init s cindex h junk)"
    using assms(2) start
    by (auto simp: vm_at_def vm_conf_def cap_ok_def lre_exec_init_def cbuf_end_def f ht_def)
  ultimately have "result_ok s ht (lre_exec_backtrack fuel s False (lre_exec_init s cindex h junk))"
    by (rule lre_exec_backtrack_ok)
  then show ?thesis
    by (auto simp: lre_exec_def s result_ok_def vm_conf_def cap_ok_def cbuf_end_def f split: vm_result.splits)
qed

text \<open>
  C12. Verified bytecode is memory safe: when the verifier accepts a compiled regular
  expression, matching it against any subject, from any position in it, with any outcomes of the
  allocator and any number of steps, never runs into undefined behaviour; the result is 1, 0 or
  -1, and the captures are positions of the subject.
\<close>
theorem verified_exec_safe:
  assumes "bytecode_ok bc" and "cindex \<le> length subject"
  shows "case lre_exec fuel bc subject addr type cindex h junk of
      Undef \<Rightarrow> False
    | Timeout \<Rightarrow> True
    | Ret r m \<Rightarrow> (r = -1 \<or> r = 0 \<or> r = 1) \<and>
        length (vm_capture m) = 2 * unat (bc ! RE_HEADER_CAPTURE_COUNT) \<and>
        (\<forall>i. Some i \<in> set (vm_capture m) \<longrightarrow> i \<le> length subject)"
  using lre_exec_safe[OF assms] .

definition sample_code :: "u8 list" where
  "sample_code =
     [0, 1, 0, 19, 0, 0, 0,
      REOP_split_goto_first, 6, 0, 0, 0, REOP_any, REOP_goto, 0xf5, 0xff, 0xff, 0xff,
      REOP_save_start, 0, REOP_char, 0x61, 0, REOP_save_end, 0, REOP_match]"

lemma bytecode_ok_sample: "bytecode_ok sample_code"
  by code_simp

theorem verified_exec_safe_witness:
  "bytecode_ok sample_code \<and>
   (case lre_exec 40 sample_code [0x78, 0x61] 0 0 0 [] (\<lambda>_. 0) of
      Undef \<Rightarrow> False
    | Timeout \<Rightarrow> False
    | Ret r m \<Rightarrow> r = 1 \<and> vm_capture m = [Some 1, Some 2] \<and>
        (\<forall>i. Some i \<in> set (vm_capture m) \<longrightarrow> i \<le> length [0x78, 0x61 :: u16]))"
proof -
  have "case lre_exec 40 sample_code [0x78, 0x61] 0 0 0 [] (\<lambda>_. 0) of
      Undef \<Rightarrow> False | Timeout \<Rightarrow> False | Ret r m \<Rightarrow> r = 1 \<and> vm_capture m = [Some 1, Some 2]"
    by code_simp
  moreover note verified_exec_safe[OF bytecode_ok_sample, of 0 "[0x78, 0x61]" 40 0 0 "[]" "\<lambda>_. 0"]
  ultimately show ?thesis using bytecode_ok_sample by (auto split: vm_result.splits)
qed

end
