(* ===== verification/Regexp_Emit.thy ===== *)
theory Regexp_Emit
  imports Regexp_Code Cutils_Utf8 Unicode_Props
begin

text \<open>
  The lower half of the compiler of \<open>quickjs/libregexp.c\<close>: the parse state, the emitters of
  bytecode, numbers and escapes, Unicode properties, and character classes.

  The pattern is an object of \<open>buf_end + 1\<close> bytes, the last one zero; C pointers into it are
  offsets. Positions in the bytecode are C \<open>int\<close>s (\<open>int_of_size\<close> converts a size). Each
  \<open>CharRange\<close> that the parser creates takes the outcomes of its allocations from \<open>cr_heaps\<close>.
  Sums of a code size and a small constant are not checked for the overflow of \<open>int\<close>.
\<close>

section \<open>The parse state\<close>

definition TMP_BUF_SIZE :: nat where "TMP_BUF_SIZE = 128"
definition CLASS_RANGE_BASE :: int where "CLASS_RANGE_BASE = 0x40000000"
definition UTF8_CHAR_LEN_MAX :: nat where "UTF8_CHAR_LEN_MAX = 6"
definition INT32_MAX :: int where "INT32_MAX = 2147483647"

record re_parse_state =
  byte_code :: dynbuf
  buf_ptr :: nat
  pattern :: "u8 list"
  buf_end :: nat
  ps_is_utf16 :: bool
  ps_ignore_case :: bool
  ps_dotall :: bool
  ps_capture_count :: nat
  total_capture_count :: int
  has_named_captures :: int
  group_names :: dynbuf
  tmp_buf :: "u8 list"
  cr_heaps :: "u32 heap list"

text \<open>
  The outcome of the recursive functions: 0, a negative return code, or that the fuel of the
  model was not enough.
\<close>

datatype parse_ret = POk | PErr | PFuel

definition ascii :: "string \<Rightarrow> u8 list" where
  "ascii s = map of_char s"

definition int_of_size :: "nat \<Rightarrow> int" where
  "int_of_size n = sint (of_nat n :: u32)"

definition code_size :: "re_parse_state \<Rightarrow> nat" where
  "code_size s = dsize (byte_code s)"

definition new_range_heap :: "re_parse_state \<Rightarrow> u32 heap \<times> re_parse_state" where
  "new_range_heap s =
     (case cr_heaps s of [] \<Rightarrow> ([], s) | h # hs \<Rightarrow> (h, s\<lparr>cr_heaps := hs\<rparr>))"

text \<open>\<open>error_msg\<close> and \<open>tmp_buf\<close> share their memory; \<open>msg\<close> is the formatted message.\<close>

definition re_parse_error :: "re_parse_state \<Rightarrow> u8 list \<Rightarrow> (int \<times> re_parse_state) option" where
  "re_parse_error s msg =
     do {
       t \<leftarrow> mem_write (tmp_buf s) 0 (take (TMP_BUF_SIZE - 1) msg @ [0]);
       Some (-1, s\<lparr>tmp_buf := t\<rparr>)
     }"

definition re_parse_out_of_memory :: "re_parse_state \<Rightarrow> (int \<times> re_parse_state) option" where
  "re_parse_out_of_memory s = re_parse_error s (ascii ''out of memory'')"

section \<open>Emitters\<close>

text \<open>The emitters ignore the return codes of the buffer; its sticky flag records failures.\<close>

definition re_emit_op :: "re_parse_state \<Rightarrow> u8 \<Rightarrow> re_parse_state option" where
  "re_emit_op s op =
     do { (r, b) \<leftarrow> dbuf_putc (byte_code s) op; Some (s\<lparr>byte_code := b\<rparr>) }"

definition emit_u16 :: "re_parse_state \<Rightarrow> u16 \<Rightarrow> re_parse_state option" where
  "emit_u16 s v = do { (r, b) \<leftarrow> dbuf_put_u16 (byte_code s) v; Some (s\<lparr>byte_code := b\<rparr>) }"

definition emit_u32 :: "re_parse_state \<Rightarrow> u32 \<Rightarrow> re_parse_state option" where
  "emit_u32 s v = do { (r, b) \<leftarrow> dbuf_put_u32 (byte_code s) v; Some (s\<lparr>byte_code := b\<rparr>) }"

definition re_emit_op_u32 :: "re_parse_state \<Rightarrow> u8 \<Rightarrow> u32 \<Rightarrow> (int \<times> re_parse_state) option" where
  "re_emit_op_u32 s op val =
     do {
       s \<leftarrow> re_emit_op s op;
       let pos = int_of_size (code_size s);
       s \<leftarrow> emit_u32 s val;
       Some (pos, s)
     }"

definition re_emit_goto :: "re_parse_state \<Rightarrow> u8 \<Rightarrow> u32 \<Rightarrow> (int \<times> re_parse_state) option" where
  "re_emit_goto s op val =
     do {
       s \<leftarrow> re_emit_op s op;
       let pos = int_of_size (code_size s);
       s \<leftarrow> emit_u32 s (val - of_int (pos + 4));
       Some (pos, s)
     }"

definition re_emit_op_u8 :: "re_parse_state \<Rightarrow> u8 \<Rightarrow> u32 \<Rightarrow> re_parse_state option" where
  "re_emit_op_u8 s op val = do { s \<leftarrow> re_emit_op s op; re_emit_op s (ucast val) }"

definition re_emit_op_u16 :: "re_parse_state \<Rightarrow> u8 \<Rightarrow> u32 \<Rightarrow> re_parse_state option" where
  "re_emit_op_u16 s op val = do { s \<leftarrow> re_emit_op s op; emit_u16 s (ucast val) }"

definition dbuf_insert :: "dynbuf \<Rightarrow> int \<Rightarrow> nat \<Rightarrow> (int \<times> dynbuf) option" where
  "dbuf_insert s pos len =
     do {
       (r, s) \<leftarrow> dbuf_realloc s (szt (dsize s + len));
       if r \<noteq> 0 then Some (-1, s)
       else if pos < 0 \<or> nat pos > dsize s then None
       else do {
         xs \<leftarrow> mem_read (buf s) (nat pos) (dsize s - nat pos);
         b \<leftarrow> mem_write (buf s) (nat pos + len) xs;
         Some (0, s\<lparr>buf := b, dsize := dsize s + len\<rparr>)
       }
     }"

section \<open>Numbers and escapes\<close>

function parse_digits_loop :: "u8 list \<Rightarrow> nat \<Rightarrow> u64 \<Rightarrow> bool \<Rightarrow> (int \<times> nat) option option" where
  "parse_digits_loop m p v allow_overflow =
     (if p < length m then
        let c = m ! p in
        if c < 0x30 \<or> c > 0x39 then Some (Some (uint v, p))
        else
          let v = v * 10 + ucast c - 0x30 in
          if v \<ge> 0x7fffffff then
            if allow_overflow then parse_digits_loop m (p + 1) 0x7fffffff allow_overflow
            else Some None
          else parse_digits_loop m (p + 1) v allow_overflow
      else None)"
  by pat_completeness auto
termination
  by (relation "measure (\<lambda>(m, p, v, a). length m - p)") auto

declare parse_digits_loop.simps [simp del]

definition parse_digits :: "u8 list \<Rightarrow> nat \<Rightarrow> bool \<Rightarrow> (int \<times> nat) option" where
  "parse_digits m p allow_overflow =
     map_option (\<lambda>r. case r of None \<Rightarrow> (-1, p) | Some (v, p') \<Rightarrow> (v, p'))
       (parse_digits_loop m p 0 allow_overflow)"

definition re_parse_expect :: "re_parse_state \<Rightarrow> nat \<Rightarrow> u8 \<Rightarrow> (int \<times> nat \<times> re_parse_state) option" where
  "re_parse_expect s p c =
     do {
       b \<leftarrow> mem_get (pattern s) p;
       if b \<noteq> c then
         do { (r, s) \<leftarrow> re_parse_error s (ascii ''expecting '' @ [0x27, c, 0x27]); Some (r, p, s) }
       else Some (0, p + 1, s)
     }"

text \<open>
  The loops over hexadecimal digits: exactly \<open>n\<close> of them, or up to a closing brace. The inner
  option is the \<open>return -1\<close> (or the \<open>break\<close>) at a character that is no digit.
\<close>

fun hex_digits :: "u8 list \<Rightarrow> nat \<Rightarrow> nat \<Rightarrow> u32 \<Rightarrow> (u32 \<times> nat) option option" where
  "hex_digits m p 0 c = Some (Some (c, p))"
| "hex_digits m p (Suc n) c =
     do {
       b \<leftarrow> mem_get m p;
       let h = from_hex (uint b);
       if h < 0 then Some None else hex_digits m (p + 1) n (push_bit 4 c OR of_int h)
     }"

function hex_brace :: "u8 list \<Rightarrow> nat \<Rightarrow> u32 \<Rightarrow> (u32 \<times> nat) option option" where
  "hex_brace m p c =
     (if p < length m then
        let h = from_hex (uint (m ! p)) in
        if h < 0 then Some None
        else
          let c = push_bit 4 c OR of_int h in
          if c > 0x10FFFF then Some None
          else
            (case mem_get m (p + 1) of
               None \<Rightarrow> None
             | Some b \<Rightarrow> if b = 0x7d then Some (Some (c, p + 1)) else hex_brace m (p + 1) c)
      else None)"
  by pat_completeness auto
termination
  by (relation "measure (\<lambda>(m, p, c). length m - p)") auto

declare hex_brace.simps [simp del]

definition escape_hex :: "u8 list \<Rightarrow> nat \<Rightarrow> u8 \<Rightarrow> nat \<Rightarrow> (u32 \<times> nat) option option" where
  "escape_hex m p c allow_utf16 =
     do {
       b \<leftarrow> mem_get m p;
       if b = 0x7b \<and> allow_utf16 \<noteq> 0 then
         do {
           r \<leftarrow> hex_brace m (p + 1) 0;
           Some (map_option (\<lambda>(v, q). (v, q + 1)) r)
         }
       else do {
         r \<leftarrow> hex_digits m p (if c = 0x78 then 2 else 4) 0;
         case r of
           None \<Rightarrow> Some None
         | Some (v, p) \<Rightarrow>
             if v \<ge> 0xd800 \<and> v < 0xdc00 \<and> allow_utf16 = 2 then
               do {
                 b0 \<leftarrow> mem_get m p;
                 b1 \<leftarrow> (if b0 = 0x5c then mem_get m (p + 1) else Some 0);
                 if b0 = 0x5c \<and> b1 = 0x75 then
                   do {
                     r1 \<leftarrow> hex_digits m (p + 2) 4 0;
                     case r1 of
                       None \<Rightarrow> Some (Some (v, p))
                     | Some (v1, _) \<Rightarrow>
                         if v1 \<ge> 0xdc00 \<and> v1 < 0xe000 then
                           Some (Some ((push_bit 10 (v AND 0x3ff) OR (v1 AND 0x3ff)) + 0x10000, p + 6))
                         else Some (Some (v, p))
                   }
                 else Some (Some (v, p))
               }
             else Some (Some (v, p))
       }
     }"

text \<open>A legacy octal escape; the first digit \<open>c\<close> is read.\<close>

definition escape_octal :: "u8 list \<Rightarrow> nat \<Rightarrow> u32 \<Rightarrow> (u32 \<times> nat) option" where
  "escape_octal m p c =
     do {
       b \<leftarrow> mem_get m p;
       let v = (ucast b - 0x30 :: u32);
       if v > 7 then Some (c, p)
       else do {
         let c = push_bit 3 c OR v;
         if c \<ge> 32 then Some (c, p + 1)
         else do {
           b \<leftarrow> mem_get m (p + 1);
           let v = (ucast b - 0x30 :: u32);
           if v > 7 then Some (c, p + 1) else Some (push_bit 3 c OR v, p + 2)
         }
       }
     }"

definition lre_parse_escape :: "u8 list \<Rightarrow> nat \<Rightarrow> nat \<Rightarrow> (int \<times> nat) option" where
  "lre_parse_escape m p0 allow_utf16 =
     do {
       c \<leftarrow> mem_get m p0;
       let p = p0 + 1;
       if c = 0x62 then Some (0x08, p)
       else if c = 0x66 then Some (0x0c, p)
       else if c = 0x6e then Some (0x0a, p)
       else if c = 0x72 then Some (0x0d, p)
       else if c = 0x74 then Some (0x09, p)
       else if c = 0x76 then Some (0x0b, p)
       else if c = 0x78 \<or> c = 0x75 then
         do {
           r \<leftarrow> escape_hex m p c allow_utf16;
           case r of None \<Rightarrow> Some (-1, p0) | Some (v, p) \<Rightarrow> Some (uint v, p)
         }
       else if c \<ge> 0x30 \<and> c \<le> 0x37 then
         if allow_utf16 = 2 then
           do {
             b \<leftarrow> (if c \<noteq> 0x30 then Some 0 else mem_get m p);
             if c \<noteq> 0x30 \<or> is_digit (uint b) then Some (-1, p0) else Some (0, p)
           }
         else do {
           (v, p) \<leftarrow> escape_octal m p (ucast c - 0x30);
           Some (uint v, p)
         }
       else Some (-2, p0)
     }"

section \<open>Unicode properties\<close>

definition is_unicode_char :: "u8 \<Rightarrow> bool" where
  "is_unicode_char c \<longleftrightarrow>
     (c \<ge> 0x30 \<and> c \<le> 0x39) \<or> (c \<ge> 0x41 \<and> c \<le> 0x5a) \<or> (c \<ge> 0x61 \<and> c \<le> 0x7a) \<or> c = 0x5f"

text \<open>
  The loops that copy a name into an array of 64 bytes. The inner option is the exit for a name
  that is too long; the store of the terminator follows in \<open>prop_name\<close>.
\<close>

function prop_name_loop :: "u8 list \<Rightarrow> nat \<Rightarrow> u8 list \<Rightarrow> (u8 list \<times> nat) option option" where
  "prop_name_loop m p name =
     (if p < length m then
        if is_unicode_char (m ! p) then
          if length name > 64 - 1 then Some None
          else prop_name_loop m (p + 1) (name @ [m ! p])
        else Some (Some (name, p))
      else None)"
  by pat_completeness auto
termination
  by (relation "measure (\<lambda>(m, p, name). length m - p)") auto

declare prop_name_loop.simps [simp del]

definition terminate_name :: "u8 list \<Rightarrow> u8 list option" where
  "terminate_name name = (if length name < 64 then Some name else None)"

definition property_range ::
  "char_range \<Rightarrow> u8 list \<Rightarrow> u8 list \<Rightarrow> (int \<times> string \<times> char_range) option" where
  "property_range cr name value =
     (if name = ascii ''Script'' \<or> name = ascii ''sc'' \<or>
         name = ascii ''Script_Extensions'' \<or> name = ascii ''scx'' then
        do {
          (ret, cr) \<leftarrow> unicode_script cr value
            (name = ascii ''Script_Extensions'' \<or> name = ascii ''scx'');
          Some (ret, if ret = -2 then ''unknown unicode script'' else ''out of memory'', cr)
        }
      else if name = ascii ''General_Category'' \<or> name = ascii ''gc'' then
        do {
          (ret, cr) \<leftarrow> unicode_general_category cr value;
          Some (ret, if ret = -2 then ''unknown unicode general category'' else ''out of memory'', cr)
        }
      else if value = [] then
        do {
          (ret, cr) \<leftarrow> unicode_general_category cr name;
          if ret = -1 then Some (ret, ''out of memory'', cr)
          else if ret < 0 then
            do {
              (ret, cr) \<leftarrow> unicode_prop cr name;
              Some (ret, if ret = -2 then ''unknown unicode property name'' else ''out of memory'', cr)
            }
          else Some (0, [], cr)
        }
      else Some (-2, ''unknown unicode property name'', cr))"

definition parse_unicode_property ::
  "re_parse_state \<Rightarrow> nat \<Rightarrow> bool \<Rightarrow> (int \<times> char_range \<times> nat \<times> re_parse_state) option" where
  "parse_unicode_property s p0 is_inv =
     do {
       let m = pattern s;
       let fail = (\<lambda>s msg. do { (r, s) \<leftarrow> re_parse_error s (ascii msg); Some (r, cr_init [], p0, s) });
       b \<leftarrow> mem_get m p0;
       if b \<noteq> 0x7b then fail s (''expecting '' @ [CHR 0x27, CHR ''{'', CHR 0x27] @ '' after '' @ [CHR 0x5c] @ ''p'')
       else do {
         r \<leftarrow> prop_name_loop m (p0 + 1) [];
         case r of
           None \<Rightarrow> fail s ''unknown unicode property name''
         | Some (name, p) \<Rightarrow> do {
             name \<leftarrow> terminate_name name;
             b \<leftarrow> mem_get m p;
             r \<leftarrow> (if b = 0x3d then prop_name_loop m (p + 1) [] else Some (Some ([], p)));
             case r of
               None \<Rightarrow> fail s ''unknown unicode property value''
             | Some (value, p) \<Rightarrow> do {
                 value \<leftarrow> terminate_name value;
                 b \<leftarrow> mem_get m p;
                 if b \<noteq> 0x7d then fail s (''expecting '' @ [CHR 0x27, CHR ''}'', CHR 0x27])
                 else do {
                   let (h, s) = new_range_heap s;
                   (ret, msg, cr) \<leftarrow> property_range (cr_init h) name value;
                   if ret \<noteq> 0 then fail s msg
                   else if is_inv then
                     do {
                       (r, cr) \<leftarrow> cr_invert cr;
                       if r \<noteq> 0 then Some (-1, cr, p0, s) else Some (0, cr, p + 1, s)
                     }
                   else Some (0, cr, p + 1, s)
                 }
               }
           }
       }
     }"

section \<open>Character classes\<close>

text \<open>
  The result of \<open>get_class_atom\<close>: a character, \<open>CLASS_RANGE_BASE\<close> with the range in the second
  component, or \<open>-1\<close>.
\<close>

text \<open>
  A code of \<open>CLASS_RANGE_BASE\<close> or more (UTF-8 sequences of six bytes reach it) is taken for a range by
  every caller, which then uses a \<open>CharRange\<close> that was never initialised: undefined.
\<close>

definition normal_char ::
  "re_parse_state \<Rightarrow> nat \<Rightarrow> u8 \<Rightarrow> (int \<times> char_range \<times> nat \<times> re_parse_state) option" where
  "normal_char s p c =
     (if c \<ge> 128 then
        do {
          (v, q) \<leftarrow> unicode_from_utf8 (pattern s) p (int UTF8_CHAR_LEN_MAX);
          if (of_int v :: u32) > 0xffff \<and> \<not> ps_is_utf16 s then
            do {
              (r, s) \<leftarrow> re_parse_error s (ascii ''malformed unicode char'');
              Some (r, cr_init [], p, s)
            }
          else if v \<ge> CLASS_RANGE_BASE then None
          else Some (v, cr_init [], q, s)
        }
      else Some (uint c, cr_init [], p + 1, s))"

definition syntax_chars :: "u8 list" where
  "syntax_chars = ascii (''^$'' @ [CHR 0x5c] @ ''.*+?()[]{}|/'')"

definition class_escape ::
  "re_parse_state \<Rightarrow> nat \<Rightarrow> nat \<Rightarrow> (int \<times> char_range \<times> nat \<times> re_parse_state) option" where
  "class_escape s p k =
     do {
       let (h, s) = new_range_heap s;
       (r, cr) \<leftarrow> cr_init_char_range h k;
       if r \<noteq> 0 then Some (-1, cr, p, s) else Some (CLASS_RANGE_BASE, cr, p + 1, s)
     }"

definition invalid_escape ::
  "re_parse_state \<Rightarrow> nat \<Rightarrow> (int \<times> char_range \<times> nat \<times> re_parse_state) option" where
  "invalid_escape s p =
     do {
       (r, s) \<leftarrow> re_parse_error s (ascii ''invalid escape sequence in regular expression'');
       Some (r, cr_init [], p, s)
     }"

text \<open>After a backslash; \<open>p\<close> is the position of the character \<open>c\<close> behind it.\<close>

definition get_class_escape ::
  "re_parse_state \<Rightarrow> nat \<Rightarrow> u8 \<Rightarrow> bool \<Rightarrow> (int \<times> char_range \<times> nat \<times> re_parse_state) option" where
  "get_class_escape s p c inclass =
     (if c = 0x64 then class_escape s p 0
      else if c = 0x44 then class_escape s p 1
      else if c = 0x73 then class_escape s p 2
      else if c = 0x53 then class_escape s p 3
      else if c = 0x77 then class_escape s p 4
      else if c = 0x57 then class_escape s p 5
      else if c = 0x63 then
        do {
          d \<leftarrow> mem_get (pattern s) (p + 1);
          if (d \<ge> 0x61 \<and> d \<le> 0x7a) \<or> (d \<ge> 0x41 \<and> d \<le> 0x5a) \<or>
             (((d \<ge> 0x30 \<and> d \<le> 0x39) \<or> d = 0x5f) \<and> inclass \<and> \<not> ps_is_utf16 s) then
            Some (uint (d AND 0x1f), cr_init [], p + 2, s)
          else if ps_is_utf16 s then invalid_escape s p
          else Some (0x5c, cr_init [], p, s)
        }
      else if (c = 0x70 \<or> c = 0x50) \<and> ps_is_utf16 s then
        do {
          (r, cr, q, s) \<leftarrow> parse_unicode_property s (p + 1) (c = 0x50);
          if r \<noteq> 0 then Some (-1, cr, p, s) else Some (CLASS_RANGE_BASE, cr, q, s)
        }
      else do {
        (ret, q) \<leftarrow> lre_parse_escape (pattern s) p (if ps_is_utf16 s then 2 else 0);
        if ret \<ge> 0 then Some (ret, cr_init [], q, s)
        else if ret = -2 \<and> c \<noteq> 0 \<and> c \<in> set syntax_chars then normal_char s p c
        else if ps_is_utf16 s then invalid_escape s p
        else normal_char s p c
      })"

definition get_class_atom ::
  "re_parse_state \<Rightarrow> nat \<Rightarrow> bool \<Rightarrow> (int \<times> char_range \<times> nat \<times> re_parse_state) option" where
  "get_class_atom s p inclass =
     do {
       let unexpected_end = do {
         (r, s) \<leftarrow> re_parse_error s (ascii ''unexpected end'');
         Some (r, cr_init [], p, s)
       };
       c \<leftarrow> mem_get (pattern s) p;
       if c = 0x5c then
         if p + 1 \<ge> buf_end s then unexpected_end
         else do { c \<leftarrow> mem_get (pattern s) (p + 1); get_class_escape s (p + 1) c inclass }
       else if c = 0 \<and> p \<ge> buf_end s then unexpected_end
       else normal_char s p c
     }"

text \<open>The loops of \<open>re_emit_range\<close> over the points, two at a time.\<close>

function emit_range16 :: "re_parse_state \<Rightarrow> u32 list \<Rightarrow> nat \<Rightarrow> nat \<Rightarrow> re_parse_state option" where
  "emit_range16 s pts len i =
     (if i < len then
        case (mem_get pts i, mem_get pts (i + 1)) of
          (Some lo, Some hi) \<Rightarrow>
            let high = (if hi - 1 = UINT32_MAX - 1 then 0xffff else hi - 1) in
            (case Option.bind (emit_u16 s (ucast lo)) (\<lambda>s. emit_u16 s (ucast high)) of
               None \<Rightarrow> None
             | Some s \<Rightarrow> emit_range16 s pts len (i + 2))
        | _ \<Rightarrow> None
      else Some s)"
  by pat_completeness auto
termination
  by (relation "measure (\<lambda>(s, pts, len, i). len - i)") auto

function emit_range32 :: "re_parse_state \<Rightarrow> u32 list \<Rightarrow> nat \<Rightarrow> nat \<Rightarrow> re_parse_state option" where
  "emit_range32 s pts len i =
     (if i < len then
        case (mem_get pts i, mem_get pts (i + 1)) of
          (Some lo, Some hi) \<Rightarrow>
            (case Option.bind (emit_u32 s lo) (\<lambda>s. emit_u32 s (hi - 1)) of
               None \<Rightarrow> None
             | Some s \<Rightarrow> emit_range32 s pts len (i + 2))
        | _ \<Rightarrow> None
      else Some s)"
  by pat_completeness auto
termination
  by (relation "measure (\<lambda>(s, pts, len, i). len - i)") auto

declare emit_range16.simps [simp del] emit_range32.simps [simp del]

definition re_emit_range :: "re_parse_state \<Rightarrow> char_range \<Rightarrow> (int \<times> re_parse_state) option" where
  "re_emit_range s cr =
     (let len = cr_len cr div 2; pts = cr_points cr in
      if len \<ge> 65535 then re_parse_error s (ascii ''too many ranges'')
      else if len = 0 then
        do { (pos, s) \<leftarrow> re_emit_op_u32 s REOP_char32 0xffffffff; Some (0, s) }
      else do {
        high \<leftarrow> mem_get pts (cr_len cr - 1);
        high \<leftarrow> (if high = UINT32_MAX then mem_get pts (cr_len cr - 2) else Some high);
        if high \<le> 0xffff then
          do {
            s \<leftarrow> re_emit_op_u16 s REOP_range (of_nat len);
            s \<leftarrow> emit_range16 s pts (cr_len cr) 0;
            Some (0, s)
          }
        else do {
          s \<leftarrow> re_emit_op_u16 s REOP_range32 (of_nat len);
          s \<leftarrow> emit_range32 s pts (cr_len cr) 0;
          Some (0, s)
        }
      })"

text \<open>
  The loop of \<open>re_parse_char_class\<close> over the members of the class, with one unit of fuel for each.
  \<open>add_class_atom\<close> is the code at \<open>class_atom\<close>.
\<close>

definition add_class_atom :: "char_range \<Rightarrow> int \<Rightarrow> char_range \<Rightarrow> (int \<times> char_range) option" where
  "add_class_atom cr c1 cr1 =
     (if c1 \<ge> CLASS_RANGE_BASE then cr_union1 cr (cr_points cr1) (cr_len cr1)
      else cr_union_interval cr (of_int c1) (of_int c1))"

definition class_error ::
  "re_parse_state \<Rightarrow> string \<Rightarrow> char_range \<Rightarrow> nat \<Rightarrow> (parse_ret \<times> char_range \<times> nat \<times> re_parse_state) option"
  where
  "class_error s msg cr p =
     do { (r, s) \<leftarrow> re_parse_error s (ascii msg); Some (PErr, cr, p, s) }"

fun char_class_loop ::
  "nat \<Rightarrow> re_parse_state \<Rightarrow> char_range \<Rightarrow> nat \<Rightarrow> (parse_ret \<times> char_range \<times> nat \<times> re_parse_state) option"
  where
  "char_class_loop 0 s cr p = Some (PFuel, cr, p, s)"
| "char_class_loop (Suc n) s cr p =
     do {
       b \<leftarrow> mem_get (pattern s) p;
       if b = 0x5d then Some (POk, cr, p, s)
       else do {
         (c1, cr1, p, s) \<leftarrow> get_class_atom s p True;
         if c1 < 0 then Some (PErr, cr, p, s)
         else do {
           let add = (\<lambda>s p. do {
             (r, cr) \<leftarrow> add_class_atom cr c1 cr1;
             if r \<noteq> 0 then class_error s ''out of memory'' cr p else char_class_loop n s cr p
           });
           b \<leftarrow> mem_get (pattern s) p;
           b1 \<leftarrow> (if b = 0x2d then mem_get (pattern s) (p + 1) else Some 0x5d);
           if b = 0x2d \<and> b1 \<noteq> 0x5d then
             if c1 \<ge> CLASS_RANGE_BASE then
               if ps_is_utf16 s then class_error s ''invalid class range'' cr p else add s p
             else do {
               (c2, cr2, p0, s) \<leftarrow> get_class_atom s (p + 1) True;
               if c2 < 0 then Some (PErr, cr, p, s)
               else if c2 \<ge> CLASS_RANGE_BASE then
                 if ps_is_utf16 s then class_error s ''invalid class range'' cr p else add s p
               else if c2 < c1 then class_error s ''invalid class range'' cr p0
               else do {
                 (r, cr) \<leftarrow> cr_union_interval cr (of_int c1) (of_int c2);
                 if r \<noteq> 0 then class_error s ''out of memory'' cr p0
                 else char_class_loop n s cr p0
               }
             }
           else add s p
         }
       }
     }"

definition re_parse_char_class ::
  "nat \<Rightarrow> re_parse_state \<Rightarrow> nat \<Rightarrow> (parse_ret \<times> nat \<times> re_parse_state) option" where
  "re_parse_char_class n s p0 =
     do {
       let (h, s) = new_range_heap s;
       let oom = (\<lambda>s. do { (r, s) \<leftarrow> re_parse_out_of_memory s; Some (PErr, p0, s) });
       b \<leftarrow> mem_get (pattern s) (p0 + 1);
       let invert = (b = 0x5e);
       (r, cr, p, s) \<leftarrow> char_class_loop n s (cr_init h) (if invert then p0 + 2 else p0 + 1);
       if r \<noteq> POk then Some (r, p0, s)
       else do {
         (r, cr) \<leftarrow> (if ps_ignore_case s then cr_canonicalize cr else Some (0, cr));
         if r \<noteq> 0 then oom s
         else do {
           (r, cr) \<leftarrow> (if invert then cr_invert cr else Some (0, cr));
           if r \<noteq> 0 then oom s
           else do {
             (r, s) \<leftarrow> re_emit_range s cr;
             if r \<noteq> 0 then Some (PErr, p0, s) else Some (POk, p + 1, s)
           }
         }
       }
     }"

end
