(* ===== verification/Regexp_Parse.thy ===== *)
theory Regexp_Parse
  imports Regexp_Emit
begin

text \<open>
  The upper half of the compiler of \<open>quickjs/libregexp.c\<close>: the analyses of emitted code, group
  names, the recursive descent over terms, alternatives and disjunctions, and \<open>lre_compile\<close>.

  The three recursive functions take fuel: one unit for each call of \<open>re_parse_disjunction\<close>, and
  the same amount bounds the terms of an alternative, the alternatives of a disjunction and the
  members of a class. Their result is a \<open>parse_ret\<close>; only \<open>PFuel\<close> has no counterpart in C.
\<close>

section \<open>Analyses of emitted code\<close>

text \<open>The code is the part of the object \<open>m\<close> from \<open>base\<close> on, \<open>len\<close> bytes long.\<close>

fun set_bits :: "nat \<Rightarrow> nat \<Rightarrow> u8 list \<Rightarrow> u8 list option" where
  "set_bits val 0 bm = Some bm"
| "set_bits val (Suc n) bm =
     do { b \<leftarrow> mem_get bm val; bm \<leftarrow> mem_set bm val (b OR 1); set_bits (val + 1) n bm }"

definition or_bit :: "u8 list \<Rightarrow> u8 \<Rightarrow> u8 \<Rightarrow> u8 list option" where
  "or_bit bm val x = do { b \<leftarrow> mem_get bm (unat val); mem_set bm (unat val) (b OR x) }"

text \<open>One instruction of \<open>re_check_advance\<close>: \<open>ret\<close>, \<open>has_back_reference\<close>, the bitmap.\<close>

definition check_advance_step ::
  "u8 list \<Rightarrow> nat \<Rightarrow> int \<times> bool \<times> u8 list \<Rightarrow> (int \<times> bool \<times> u8 list) option" where
  "check_advance_step m i st =
     (case st of (ret, back, bm) \<Rightarrow> do {
       op \<leftarrow> mem_get m i;
       if op = REOP_range \<or> op = REOP_range32 \<or> op = REOP_char \<or> op = REOP_char32 \<or>
          op = REOP_dot \<or> op = REOP_any then
         Some (if ret = -2 then 1 else ret, back, bm)
       else if op = REOP_line_start \<or> op = REOP_line_end \<or> op = REOP_push_i32 \<or>
               op = REOP_push_char_pos \<or> op = REOP_drop \<or> op = REOP_word_boundary \<or>
               op = REOP_not_word_boundary \<or> op = REOP_prev then
         Some st
       else if op = REOP_save_start \<or> op = REOP_save_end then
         do { val \<leftarrow> mem_get m (i + 1); bm \<leftarrow> or_bit bm val 1; Some (ret, back, bm) }
       else if op = REOP_save_reset then
         do {
           val \<leftarrow> mem_get m (i + 1);
           lst \<leftarrow> mem_get m (i + 2);
           bm \<leftarrow> set_bits (unat val) (unat lst - unat val) bm;
           Some (ret, back, bm)
         }
       else if op = REOP_back_reference \<or> op = REOP_backward_back_reference then
         do { val \<leftarrow> mem_get m (i + 1); bm \<leftarrow> or_bit bm val 2; Some (ret, True, bm) }
       else Some (if ret = -2 then 0 else ret, back, bm)
     })"

function check_advance_loop ::
  "u8 list \<Rightarrow> nat \<Rightarrow> nat \<Rightarrow> nat \<Rightarrow> int \<times> bool \<times> u8 list \<Rightarrow> (int \<times> bool \<times> u8 list) option" where
  "check_advance_loop m base len pos st =
     (if pos < len then
        case (instr_size m (base + pos), check_advance_step m (base + pos) st) of
          (Some n, Some st) \<Rightarrow> check_advance_loop m base len (pos + n) st
        | _ \<Rightarrow> None
      else Some st)"
  by pat_completeness auto
termination
  by (relation "measure (\<lambda>(m, base, len, pos, st). len - pos)")
     (auto dest!: instr_size_pos[OF sym])

declare check_advance_loop.simps [simp del]

definition re_check_advance :: "u8 list \<Rightarrow> nat \<Rightarrow> nat \<Rightarrow> int option" where
  "re_check_advance m base len =
     do {
       (ret, back, bm) \<leftarrow> check_advance_loop m base len 0 (-2, False, replicate CAPTURE_COUNT_MAX 0);
       Some (if back \<and> 3 \<in> set bm then -1 else if ret = -2 then 0 else ret)
     }"

function simple_quantifier_loop :: "u8 list \<Rightarrow> nat \<Rightarrow> nat \<Rightarrow> nat \<Rightarrow> int \<Rightarrow> int option" where
  "simple_quantifier_loop m base len pos count =
     (if pos < len then
        case (mem_get m (base + pos), instr_size m (base + pos)) of
          (Some op, Some n) \<Rightarrow>
            if op = REOP_range \<or> op = REOP_range32 \<or> op = REOP_char \<or> op = REOP_char32 \<or>
               op = REOP_dot \<or> op = REOP_any then
              simple_quantifier_loop m base len (pos + n) (count + 1)
            else if op = REOP_line_start \<or> op = REOP_line_end \<or> op = REOP_word_boundary \<or>
                    op = REOP_not_word_boundary then
              simple_quantifier_loop m base len (pos + n) count
            else Some (-1)
        | _ \<Rightarrow> None
      else Some count)"
  by pat_completeness auto
termination
  by (relation "measure (\<lambda>(m, base, len, pos, count). len - pos)")
     (auto dest!: instr_size_pos[OF sym])

declare simple_quantifier_loop.simps [simp del]

definition re_is_simple_quantifier :: "u8 list \<Rightarrow> nat \<Rightarrow> nat \<Rightarrow> int option" where
  "re_is_simple_quantifier m base len = simple_quantifier_loop m base len 0 0"

text \<open>The loop of \<open>compute_stack_size\<close>, which fails an \<open>assert\<close> on unknown or cut instructions.\<close>

function stack_size_loop :: "u8 list \<Rightarrow> nat \<Rightarrow> nat \<Rightarrow> nat \<Rightarrow> nat \<Rightarrow> nat \<Rightarrow> int option" where
  "stack_size_loop m base len pos depth max_size =
     (if pos < len then
        case (mem_get m (base + pos), instr_size m (base + pos)) of
          (Some op, Some n) \<Rightarrow>
            (case mem_get reopcode_size (unat op) of
               None \<Rightarrow> None
             | Some k \<Rightarrow>
                 if pos + k > len then None
                 else if op = REOP_push_i32 \<or> op = REOP_push_char_pos then
                   if depth + 1 > max_size then
                     if depth + 1 > STACK_SIZE_MAX then Some (-1)
                     else stack_size_loop m base len (pos + n) (depth + 1) (depth + 1)
                   else stack_size_loop m base len (pos + n) (depth + 1) max_size
                 else if op = REOP_drop \<or> op = REOP_bne_char_pos then
                   if depth = 0 then None
                   else stack_size_loop m base len (pos + n) (depth - 1) max_size
                 else stack_size_loop m base len (pos + n) depth max_size)
        | _ \<Rightarrow> None
      else Some (int max_size))"
  by pat_completeness auto
termination
  by (relation "measure (\<lambda>(m, base, len, pos, depth, max_size). len - pos)")
     (auto dest!: instr_size_pos[OF sym])

declare stack_size_loop.simps [simp del]

definition compute_stack_size :: "u8 list \<Rightarrow> nat \<Rightarrow> int option" where
  "compute_stack_size m len = stack_size_loop m RE_HEADER_LEN (len - RE_HEADER_LEN) 0 0 0"

section \<open>Group names\<close>

text \<open>
  \<open>group_name_loop m p b q is_utf16\<close>: \<open>q\<close> is the write offset in \<open>b\<close>, an array of
  \<open>TMP_BUF_SIZE\<close> bytes. The result is the return value, the array and the position after the
  name; on failure the position is meaningless and the caller keeps its own.
\<close>

definition group_name_char :: "u8 list \<Rightarrow> nat \<Rightarrow> bool \<Rightarrow> (u32 \<times> nat) option option" where
  "group_name_char m p is_utf16 =
     do {
       c \<leftarrow> mem_get m p;
       if c = 0x5c then
         do {
           d \<leftarrow> mem_get m (p + 1);
           if d \<noteq> 0x75 then Some None
           else do {
             (v, p) \<leftarrow> lre_parse_escape m (p + 1) (if is_utf16 then 2 else 0);
             Some (Some (of_int v, p))
           }
         }
       else if c \<ge> 128 then
         do { (v, p) \<leftarrow> unicode_from_utf8 m p (int UTF8_CHAR_LEN_MAX); Some (Some (of_int v, p)) }
       else Some (Some (ucast c, p + 1))
     }"

lemma unicode_to_utf8_pos: "c \<le> 0x10FFFF \<Longrightarrow> 0 < length (unicode_to_utf8 c)"
  by (auto simp: unicode_to_utf8_def word_le_nat_alt word_less_nat_alt)

function group_name_loop ::
  "u8 list \<Rightarrow> nat \<Rightarrow> u8 list \<Rightarrow> nat \<Rightarrow> bool \<Rightarrow> (int \<times> u8 list \<times> nat) option" where
  "group_name_loop m p b q is_utf16 =
     (case mem_get m p of
        None \<Rightarrow> None
      | Some c0 \<Rightarrow>
          if c0 = 0x3e then
            if q = 0 then Some (-1, b, p)
            else map_option (\<lambda>b. (0, b, p + 1)) (mem_set b q 0)
          else
            (case group_name_char m p is_utf16 of
               None \<Rightarrow> None
             | Some None \<Rightarrow> Some (-1, b, p)
             | Some (Some (c, p')) \<Rightarrow>
                 if c > 0x10FFFF then Some (-1, b, p)
                 else
                   (case (if q = 0 then lre_js_is_ident_first c else lre_js_is_ident_next c) of
                      None \<Rightarrow> None
                    | Some ok \<Rightarrow>
                        if \<not> ok then Some (-1, b, p)
                        else if q + UTF8_CHAR_LEN_MAX + 1 > TMP_BUF_SIZE then Some (-1, b, p)
                        else
                          (case mem_write b q (unicode_to_utf8 c) of
                             None \<Rightarrow> None
                           | Some b' \<Rightarrow>
                               group_name_loop m p' b' (q + length (unicode_to_utf8 c)) is_utf16))))"
  by pat_completeness auto
termination
  by (relation "measure (\<lambda>(m, p, b, q, u). TMP_BUF_SIZE - q)")
     (auto simp: not_less intro!: diff_less_mono2 dest: unicode_to_utf8_pos)

declare group_name_loop.simps [simp del]

definition re_parse_group_name ::
  "u8 list \<Rightarrow> u8 list \<Rightarrow> nat \<Rightarrow> bool \<Rightarrow> (int \<times> u8 list \<times> nat) option" where
  "re_parse_group_name m b p0 is_utf16 =
     do {
       (r, b, p) \<leftarrow> group_name_loop m p0 b 0 is_utf16;
       Some (r, b, if r = 0 then p else p0)
     }"

definition cstr :: "u8 list \<Rightarrow> u8 list" where
  "cstr b = takeWhile (\<lambda>c. c \<noteq> 0) b"

text \<open>The scanners never move backwards.\<close>

lemma utf8_loop_mono: "utf8_loop m p n c = Some (Some (v, q)) \<Longrightarrow> p \<le> q"
  by (induction m p n c rule: utf8_loop.induct)
     (fastforce simp: Option.bind_eq_Some_conv split: if_splits)+

lemma unicode_from_utf8_mono: "unicode_from_utf8 m p k = Some (v, q) \<Longrightarrow> p \<le> q"
  by (fastforce simp: unicode_from_utf8_def Option.bind_eq_Some_conv dest: utf8_loop_mono
      split: if_splits option.splits prod.splits)

lemma hex_digits_mono: "hex_digits m p n c = Some (Some (v, q)) \<Longrightarrow> p \<le> q"
  by (induction m p n c rule: hex_digits.induct)
     (fastforce simp: Option.bind_eq_Some_conv Let_def split: if_splits)+

lemma hex_brace_mono: "hex_brace m p c = Some (Some (v, q)) \<Longrightarrow> p \<le> q"
proof (induction m p c rule: hex_brace.induct)
  case (1 m p c)
  show ?case
    using 1(2) 1(1)[OF _ refl _ refl]
    by (subst (asm) hex_brace.simps)
       (force simp: Let_def split: if_splits option.splits)
qed

lemma escape_hex_mono:
  assumes "escape_hex m p c a = Some (Some (v, q))"
  shows "p \<le> q"
proof -
  let ?n = "if c = 0x78 then 2 else 4 :: nat"
  obtain b where b: "mem_get m p = Some b"
    using assms by (cases "mem_get m p") (auto simp: escape_hex_def)
  show ?thesis
  proof (cases "b = 0x7b \<and> a \<noteq> 0")
    case True
    then show ?thesis
      using assms b
      by (cases "hex_brace m (p + 1) 0")
         (auto simp: escape_hex_def simp del: mem_get_Some dest: hex_brace_mono)
  next
    case False
    then obtain v1 p1 where h: "hex_digits m p ?n 0 = Some (Some (v1, p1))"
      using assms b
      by (cases "hex_digits m p ?n 0") (auto simp: escape_hex_def simp del: mem_get_Some split: option.splits)
    have "p1 \<le> q"
      using assms b False h
      by (auto simp: escape_hex_def Option.bind_eq_Some_conv simp del: mem_get_Some
          split: if_splits option.splits)
    with hex_digits_mono[OF h] show ?thesis by simp
  qed
qed

lemma escape_octal_mono: "escape_octal m p c = Some (v, q) \<Longrightarrow> p \<le> q"
  by (auto simp: escape_octal_def Option.bind_eq_Some_conv Let_def split: if_splits)

lemma lre_parse_escape_mono:
  assumes "lre_parse_escape m p a = Some (v, q)"
  shows "p \<le> q"
proof -
  obtain c where c: "mem_get m p = Some c"
    using assms by (cases "mem_get m p") (auto simp: lre_parse_escape_def)
  consider "c = 0x78 \<or> c = 0x75" | "c \<ge> 0x30 \<and> c \<le> 0x37"
    | "\<not> (c = 0x78 \<or> c = 0x75)" "\<not> (c \<ge> 0x30 \<and> c \<le> 0x37)" by blast
  then show ?thesis
  proof cases
    case 1
    then show ?thesis
      using assms c
      by (cases "escape_hex m (p + 1) c a")
         (auto simp: lre_parse_escape_def simp del: mem_get_Some dest!: escape_hex_mono
           split: option.splits)
  next
    case 2
    then show ?thesis
      using assms c
      by (auto simp: lre_parse_escape_def Option.bind_eq_Some_conv simp del: mem_get_Some
          dest!: escape_octal_mono split: if_splits)
  next
    case 3
    then show ?thesis
      using assms c by (auto simp: lre_parse_escape_def simp del: mem_get_Some split: if_splits)
  qed
qed

lemma group_name_char_mono: "group_name_char m p u = Some (Some (c, q)) \<Longrightarrow> p \<le> q"
  by (auto simp: group_name_char_def Option.bind_eq_Some_conv split: if_splits
      dest!: unicode_from_utf8_mono lre_parse_escape_mono)

lemma group_name_loop_mono: "group_name_loop m p b q u = Some (r, b', p') \<Longrightarrow> p \<le> p'"
proof (induction m p b q u rule: group_name_loop.induct)
  case (1 m p b q u)
  show ?case
    using 1(2) 1(1)
    by (subst (asm) group_name_loop.simps)
       (fastforce dest: group_name_char_mono split: if_splits option.splits simp del: mem_get_Some)
qed

lemma re_parse_group_name_mono: "re_parse_group_name m b p u = Some (r, b', p') \<Longrightarrow> p \<le> p'"
  by (auto simp: re_parse_group_name_def Option.bind_eq_Some_conv dest: group_name_loop_mono)

section \<open>Counting captures and looking up names\<close>

function skip_class :: "u8 list \<Rightarrow> nat \<Rightarrow> nat \<Rightarrow> nat option" where
  "skip_class m e p =
     (if p < e then
        case mem_get m p of
          None \<Rightarrow> None
        | Some c \<Rightarrow>
            if c = 0x5d then Some p
            else skip_class m e (if c = 0x5c then p + 2 else p + 1)
      else Some p)"
  by pat_completeness auto
termination
  by (relation "measure (\<lambda>(m, e, p). e - p)") auto

declare skip_class.simps [simp del]

lemma skip_class_mono: "skip_class m e p = Some q \<Longrightarrow> p \<le> q"
proof (induction m e p rule: skip_class.induct)
  case (1 m e p)
  show ?case
    using 1(2) 1(1)
    by (subst (asm) skip_class.simps)
       (fastforce split: if_splits option.splits simp del: mem_get_Some)
qed

text \<open>
  The body of the \<open>case '('\<close> of \<open>re_parse_captures\<close>: the position, the index, the flag, and
  whether the wanted name is found.
\<close>

definition capture_paren ::
  "u8 list \<Rightarrow> bool \<Rightarrow> u8 list option \<Rightarrow> nat \<Rightarrow> int \<Rightarrow> int \<Rightarrow> (nat \<times> int \<times> int \<times> bool) option" where
  "capture_paren m u nm p idx named =
     do {
       c1 \<leftarrow> mem_get m (p + 1);
       if c1 \<noteq> 0x3f then Some (p, idx + 1, named, False)
       else do {
         c2 \<leftarrow> mem_get m (p + 2);
         c3 \<leftarrow> (if c2 = 0x3c then mem_get m (p + 3) else Some 0);
         if c2 = 0x3c \<and> c3 \<noteq> 0x3d \<and> c3 \<noteq> 0x21 then
           case nm of
             None \<Rightarrow> Some (p, idx + 1, 1, False)
           | Some nm \<Rightarrow> do {
               (r, b, p) \<leftarrow> re_parse_group_name m (replicate TMP_BUF_SIZE 0) (p + 3) u;
               if r = 0 \<and> cstr b = nm then Some (p, idx, 1, True) else Some (p, idx + 1, 1, False)
             }
         else Some (p, idx, named, False)
       }
     }"

lemma capture_paren_mono: "capture_paren m u nm p idx named = Some (q, r) \<Longrightarrow> p \<le> q"
  by (auto simp: capture_paren_def Option.bind_eq_Some_conv
      dest!: re_parse_group_name_mono split: if_splits option.splits)

function captures_loop ::
  "u8 list \<Rightarrow> nat \<Rightarrow> bool \<Rightarrow> u8 list option \<Rightarrow> nat \<Rightarrow> int \<Rightarrow> int \<Rightarrow> (int \<times> int) option" where
  "captures_loop m e u nm p idx named =
     (if p < e then
        case mem_get m p of
          None \<Rightarrow> None
        | Some c \<Rightarrow>
            if c = 0x28 then
              (case capture_paren m u nm p idx named of
                 None \<Rightarrow> None
               | Some (q, idx, named, found) \<Rightarrow>
                   if found then Some (idx, named) else captures_loop m e u nm (q + 1) idx named)
            else if c = 0x5c then captures_loop m e u nm (p + 2) idx named
            else if c = 0x5b then
              (case skip_class m e (p + 1) of
                 None \<Rightarrow> None
               | Some q \<Rightarrow> captures_loop m e u nm (q + 1) idx named)
            else captures_loop m e u nm (p + 1) idx named
      else Some (if nm \<noteq> None then -1 else idx, named))"
  by pat_completeness auto
termination
  by (relation "measure (\<lambda>(m, e, u, nm, p, idx, named). e - p)")
     (auto dest!: capture_paren_mono skip_class_mono)

declare captures_loop.simps [simp del]

text \<open>The result and what is stored in \<open>has_named_captures\<close>.\<close>

definition re_parse_captures :: "re_parse_state \<Rightarrow> u8 list option \<Rightarrow> (int \<times> int) option" where
  "re_parse_captures s nm = captures_loop (pattern s) (buf_end s) (ps_is_utf16 s) nm 0 1 0"

definition re_count_captures :: "re_parse_state \<Rightarrow> (int \<times> re_parse_state) option" where
  "re_count_captures s =
     (if total_capture_count s < 0 then
        do {
          (n, named) \<leftarrow> re_parse_captures s None;
          Some (n, s\<lparr>total_capture_count := n, has_named_captures := named\<rparr>)
        }
      else Some (total_capture_count s, s))"

definition re_has_named_captures :: "re_parse_state \<Rightarrow> (int \<times> re_parse_state) option" where
  "re_has_named_captures s =
     do {
       (_, s) \<leftarrow> (if has_named_captures s < 0 then re_count_captures s else Some (0, s));
       Some (has_named_captures s, s)
     }"

function find_group_loop :: "u8 list \<Rightarrow> nat \<Rightarrow> u8 list \<Rightarrow> nat \<Rightarrow> int \<Rightarrow> int option" where
  "find_group_loop b e nm p idx =
     (if p < e then
        case strlen b p of
          None \<Rightarrow> None
        | Some len \<Rightarrow>
            if len = length nm \<and> take len (drop p b) = nm then Some idx
            else find_group_loop b e nm (p + len + 1) (idx + 1)
      else Some (-1))"
  by pat_completeness auto
termination
  by (relation "measure (\<lambda>(b, e, nm, p, idx). e - p)") auto

declare find_group_loop.simps [simp del]

definition find_group_name :: "re_parse_state \<Rightarrow> u8 list \<Rightarrow> int option" where
  "find_group_name s nm = find_group_loop (buf (group_names s)) (dsize (group_names s)) nm 0 1"

section \<open>Stores into the bytecode\<close>

definition set_code :: "re_parse_state \<Rightarrow> int \<Rightarrow> u8 \<Rightarrow> re_parse_state option" where
  "set_code s i v =
     (if i < 0 then None
      else do {
        b \<leftarrow> mem_set (buf (byte_code s)) (nat i) v;
        Some (s\<lparr>byte_code := (byte_code s)\<lparr>buf := b\<rparr>\<rparr>)
      })"

definition put_code_u32 :: "re_parse_state \<Rightarrow> int \<Rightarrow> u32 \<Rightarrow> re_parse_state option" where
  "put_code_u32 s i v =
     (if i < 0 then None
      else do {
        b \<leftarrow> put_u32 (buf (byte_code s)) (nat i) v;
        Some (s\<lparr>byte_code := (byte_code s)\<lparr>buf := b\<rparr>\<rparr>)
      })"

definition code_insert :: "re_parse_state \<Rightarrow> int \<Rightarrow> nat \<Rightarrow> (int \<times> re_parse_state) option" where
  "code_insert s pos len =
     do { (r, b) \<leftarrow> dbuf_insert (byte_code s) pos len; Some (r, s\<lparr>byte_code := b\<rparr>) }"

definition copy_atom :: "re_parse_state \<Rightarrow> int \<Rightarrow> int \<Rightarrow> re_parse_state option" where
  "copy_atom s start len =
     (if start < 0 \<or> len < 0 then None
      else do {
        (r, b) \<leftarrow> dbuf_put_self (byte_code s) (nat start) (nat len);
        Some (s\<lparr>byte_code := b\<rparr>)
      })"

definition code_len :: "re_parse_state \<Rightarrow> int" where
  "code_len s = int_of_size (code_size s)"

section \<open>Atoms\<close>

text \<open>
  The outcome of the first switch of \<open>re_parse_term\<close>: the return code, \<open>last_atom_start\<close>,
  \<open>last_capture_count\<close>, the position \<open>p\<close> and the state. An atom that takes no quantifier
  leaves \<open>-1\<close> in \<open>last_atom_start\<close>.
\<close>

type_synonym atom_res = "(parse_ret \<times> int \<times> nat \<times> nat \<times> re_parse_state) option"

definition term_error :: "re_parse_state \<Rightarrow> string \<Rightarrow> atom_res" where
  "term_error s msg =
     do { (r, s) \<leftarrow> re_parse_error s (ascii msg); Some (PErr, -1, 0, 0, s) }"

definition emit_prev_if :: "bool \<Rightarrow> re_parse_state \<Rightarrow> re_parse_state option" where
  "emit_prev_if backward s = (if backward then re_emit_op s REOP_prev else Some s)"

text \<open>The code at \<open>normal_char\<close>.\<close>

definition emit_char_atom ::
  "re_parse_state \<Rightarrow> nat \<Rightarrow> int \<Rightarrow> char_range \<Rightarrow> bool \<Rightarrow> atom_res" where
  "emit_char_atom s p c cr backward =
     do {
       let start = code_len s;
       let lcc = ps_capture_count s;
       s \<leftarrow> emit_prev_if backward s;
       if c \<ge> CLASS_RANGE_BASE then
         do {
           (r, s) \<leftarrow> re_emit_range s cr;
           if r \<noteq> 0 then Some (PErr, start, lcc, p, s)
           else do { s \<leftarrow> emit_prev_if backward s; Some (POk, start, lcc, p, s) }
         }
       else do {
         v \<leftarrow> (if ps_ignore_case s then lre_canonicalize (of_int c) (ps_is_utf16 s) else Some (of_int c));
         s \<leftarrow> (if v \<le> 0xffff then re_emit_op_u16 s REOP_char v
               else do { (pos, s) \<leftarrow> re_emit_op_u32 s REOP_char32 v; Some s });
         s \<leftarrow> emit_prev_if backward s;
         Some (POk, start, lcc, p, s)
       }
     }"

text \<open>The code at \<open>parse_class_atom\<close>.\<close>

definition parse_class_atom :: "re_parse_state \<Rightarrow> nat \<Rightarrow> bool \<Rightarrow> atom_res" where
  "parse_class_atom s p backward =
     do {
       (c, cr, p, s) \<leftarrow> get_class_atom s p False;
       if c < 0 then Some (PErr, -1, 0, p, s) else emit_char_atom s p c cr backward
     }"

definition parse_dot :: "re_parse_state \<Rightarrow> nat \<Rightarrow> bool \<Rightarrow> atom_res" where
  "parse_dot s p backward =
     do {
       let start = code_len s;
       s \<leftarrow> emit_prev_if backward s;
       s \<leftarrow> re_emit_op s (if ps_dotall s then REOP_any else REOP_dot);
       s \<leftarrow> emit_prev_if backward s;
       Some (POk, start, ps_capture_count s, p + 1, s)
     }"

definition parse_class :: "nat \<Rightarrow> re_parse_state \<Rightarrow> nat \<Rightarrow> bool \<Rightarrow> atom_res" where
  "parse_class n s p backward =
     do {
       let start = code_len s;
       let lcc = ps_capture_count s;
       s \<leftarrow> emit_prev_if backward s;
       (r, p, s) \<leftarrow> re_parse_char_class n s p;
       if r \<noteq> POk then Some (r, start, lcc, p, s)
       else do { s \<leftarrow> emit_prev_if backward s; Some (POk, start, lcc, p, s) }
     }"

text \<open>A brace that does not start a repetition count is an ordinary character (Annex B).\<close>

definition parse_brace :: "re_parse_state \<Rightarrow> nat \<Rightarrow> bool \<Rightarrow> atom_res" where
  "parse_brace s p backward =
     do {
       let m = pattern s;
       if ps_is_utf16 s then term_error s ''syntax error''
       else do {
         d \<leftarrow> mem_get m (p + 1);
         if \<not> is_digit (uint d) then parse_class_atom s p backward
         else do {
           (_, p1) \<leftarrow> parse_digits m (p + 1) True;
           b \<leftarrow> mem_get m p1;
           p1 \<leftarrow> (if b = 0x2c then
                    do {
                      d \<leftarrow> mem_get m (p1 + 1);
                      if is_digit (uint d) then map_option snd (parse_digits m (p1 + 1) True)
                      else Some (p1 + 1)
                    }
                  else Some p1);
           b \<leftarrow> mem_get m p1;
           if b \<noteq> 0x7d then parse_class_atom s p backward else term_error s ''nothing to repeat''
         }
       }
     }"

section \<open>Groups\<close>

text \<open>
  \<open>dj\<close> is \<open>re_parse_disjunction\<close>. The continuation \<open>k\<close> is the code between the disjunction and
  the test for the closing parenthesis.
\<close>

type_synonym disj_fun = "bool \<Rightarrow> re_parse_state \<Rightarrow> (parse_ret \<times> re_parse_state) option"

definition parse_group_body ::
  "disj_fun \<Rightarrow> re_parse_state \<Rightarrow> nat \<Rightarrow> bool \<Rightarrow> (re_parse_state \<Rightarrow> re_parse_state option) \<Rightarrow>
   (parse_ret \<times> nat \<times> re_parse_state) option" where
  "parse_group_body dj s p backward k =
     do {
       (r, s) \<leftarrow> dj backward (s\<lparr>buf_ptr := p\<rparr>);
       if r \<noteq> POk then Some (r, p, s)
       else do {
         let p = buf_ptr s;
         s \<leftarrow> k s;
         (e, p, s) \<leftarrow> re_parse_expect s p 0x29;
         Some (if e \<noteq> 0 then PErr else POk, p, s)
       }
     }"

definition parse_lookahead ::
  "disj_fun \<Rightarrow> re_parse_state \<Rightarrow> nat \<Rightarrow> bool \<Rightarrow> bool \<Rightarrow> atom_res" where
  "parse_lookahead dj s p is_neg is_backward_lookahead =
     do {
       let start = (if \<not> ps_is_utf16 s \<and> \<not> is_backward_lookahead then code_len s else -1);
       let lcc = ps_capture_count s;
       (pos, s) \<leftarrow> re_emit_op_u32 s (if is_neg then REOP_negative_lookahead else REOP_lookahead) 0;
       (r, p, s) \<leftarrow> parse_group_body dj s p is_backward_lookahead Some;
       if r \<noteq> POk then Some (r, start, lcc, p, s)
       else do {
         s \<leftarrow> re_emit_op s REOP_match;
         if dbuf_error (byte_code s) then Some (PErr, start, lcc, p, s)
         else do {
           s \<leftarrow> put_code_u32 s pos (of_nat (code_size s) - of_int (pos + 4));
           Some (POk, start, lcc, p, s)
         }
       }
     }"

text \<open>The code at \<open>parse_capture\<close>.\<close>

definition parse_capture :: "disj_fun \<Rightarrow> re_parse_state \<Rightarrow> nat \<Rightarrow> bool \<Rightarrow> atom_res" where
  "parse_capture dj s p backward =
     (if ps_capture_count s \<ge> CAPTURE_COUNT_MAX then term_error s ''too many captures''
      else do {
        let start = code_len s;
        let lcc = ps_capture_count s;
        let idx = (of_nat lcc :: u32);
        let s = s\<lparr>ps_capture_count := lcc + 1\<rparr>;
        s \<leftarrow> re_emit_op_u8 s (if backward then REOP_save_end else REOP_save_start) idx;
        (r, p, s) \<leftarrow> parse_group_body dj s p backward
          (\<lambda>s. re_emit_op_u8 s (if backward then REOP_save_start else REOP_save_end) idx);
        Some (r, start, lcc, p, s)
      })"

definition put_group_name :: "re_parse_state \<Rightarrow> u8 list \<Rightarrow> re_parse_state option" where
  "put_group_name s xs =
     do { (r, g) \<leftarrow> dbuf_put (group_names s) xs; Some (s\<lparr>group_names := g\<rparr>) }"

definition parse_named_group :: "disj_fun \<Rightarrow> re_parse_state \<Rightarrow> nat \<Rightarrow> bool \<Rightarrow> atom_res" where
  "parse_named_group dj s p backward =
     do {
       (r, t, p) \<leftarrow> re_parse_group_name (pattern s) (tmp_buf s) p (ps_is_utf16 s);
       let s = s\<lparr>tmp_buf := t\<rparr>;
       if r \<noteq> 0 then term_error s ''invalid group name''
       else do {
         i \<leftarrow> find_group_name s (cstr t);
         if i > 0 then term_error s ''duplicate group name''
         else do {
           s \<leftarrow> put_group_name s (cstr t @ [0]);
           parse_capture dj (s\<lparr>has_named_captures := 1\<rparr>) p backward
         }
       }
     }"

definition parse_group :: "disj_fun \<Rightarrow> re_parse_state \<Rightarrow> nat \<Rightarrow> bool \<Rightarrow> atom_res" where
  "parse_group dj s p backward =
     do {
       let m = pattern s;
       c1 \<leftarrow> mem_get m (p + 1);
       if c1 \<noteq> 0x3f then
         do { s \<leftarrow> put_group_name s [0]; parse_capture dj s (p + 1) backward }
       else do {
         c2 \<leftarrow> mem_get m (p + 2);
         if c2 = 0x3a then
           do {
             let start = code_len s;
             let lcc = ps_capture_count s;
             (r, p, s) \<leftarrow> parse_group_body dj s (p + 3) backward Some;
             Some (r, start, lcc, p, s)
           }
         else if c2 = 0x3d \<or> c2 = 0x21 then parse_lookahead dj s (p + 3) (c2 = 0x21) False
         else if c2 = 0x3c then
           do {
             c3 \<leftarrow> mem_get m (p + 3);
             if c3 = 0x3d \<or> c3 = 0x21 then parse_lookahead dj s (p + 4) (c3 = 0x21) True
             else parse_named_group dj s (p + 3) backward
           }
         else term_error s ''invalid group''
       }
     }"

section \<open>Escapes\<close>

text \<open>The code at \<open>emit_back_reference\<close>.\<close>

definition emit_back_reference :: "re_parse_state \<Rightarrow> nat \<Rightarrow> int \<Rightarrow> bool \<Rightarrow> atom_res" where
  "emit_back_reference s p c backward =
     do {
       let start = code_len s;
       s \<leftarrow> re_emit_op_u8 s (if backward then REOP_backward_back_reference else REOP_back_reference)
              (of_int c);
       Some (POk, start, ps_capture_count s, p, s)
     }"

definition utf16_or_named :: "re_parse_state \<Rightarrow> (bool \<times> re_parse_state) option" where
  "utf16_or_named s =
     (if ps_is_utf16 s then Some (True, s)
      else do { (h, s) \<leftarrow> re_has_named_captures s; Some (h \<noteq> 0, s) })"

definition named_ref_error :: "re_parse_state \<Rightarrow> nat \<Rightarrow> bool \<Rightarrow> string \<Rightarrow> atom_res" where
  "named_ref_error s p backward msg =
     do {
       (strict, s) \<leftarrow> utf16_or_named s;
       if strict then term_error s msg else parse_class_atom s p backward
     }"

text \<open>\<open>p\<close> is the position of the backslash of \<open>\k\<close>.\<close>

definition parse_named_ref :: "re_parse_state \<Rightarrow> nat \<Rightarrow> bool \<Rightarrow> atom_res" where
  "parse_named_ref s p backward =
     do {
       b \<leftarrow> mem_get (pattern s) (p + 2);
       if b \<noteq> 0x3c then named_ref_error s p backward ''expecting group name''
       else do {
         (r, t, p1) \<leftarrow> re_parse_group_name (pattern s) (tmp_buf s) (p + 3) (ps_is_utf16 s);
         let s = s\<lparr>tmp_buf := t\<rparr>;
         if r \<noteq> 0 then named_ref_error s p backward ''invalid group name''
         else do {
           c \<leftarrow> find_group_name s (cstr t);
           c \<leftarrow> (if c < 0 then map_option fst (re_parse_captures s (Some (cstr t))) else Some c);
           if c < 0 then named_ref_error s p backward ''group name not defined''
           else emit_back_reference s p1 c backward
         }
       }
     }"

definition octal_digit :: "u8 list \<Rightarrow> nat \<Rightarrow> (int \<times> nat) option" where
  "octal_digit m p =
     do {
       b \<leftarrow> mem_get m p;
       Some (if b \<ge> 0x30 \<and> b \<le> 0x37 then (uint b - 0x30, p + 1) else (-1, p))
     }"

definition parse_zero_escape :: "re_parse_state \<Rightarrow> nat \<Rightarrow> bool \<Rightarrow> atom_res" where
  "parse_zero_escape s p backward =
     do {
       let m = pattern s;
       let p = p + 2;
       if ps_is_utf16 s then
         do {
           b \<leftarrow> mem_get m p;
           if is_digit (uint b) then
             term_error s ''invalid decimal escape in regular expression''
           else emit_char_atom s p 0 (cr_init []) backward
         }
       else do {
         (d, p) \<leftarrow> octal_digit m p;
         if d < 0 then emit_char_atom s p 0 (cr_init []) backward
         else do {
           (e, p) \<leftarrow> octal_digit m p;
           emit_char_atom s p (if e < 0 then d else d * 8 + e) (cr_init []) backward
         }
       }
     }"

text \<open>A decimal escape that is no back reference, read as legacy octal (Annex B.1.4).\<close>

definition legacy_octal :: "u8 list \<Rightarrow> nat \<Rightarrow> (int \<times> nat) option" where
  "legacy_octal m q =
     do {
       b \<leftarrow> mem_get m q;
       if b \<le> 0x37 then
         do {
           let (c, p) = (if b \<le> 0x33 then (uint b - 0x30, q + 1) else (0, q));
           (d, p) \<leftarrow> octal_digit m p;
           if d < 0 then Some (c, p)
           else do {
             let c = c * 8 + d;
             (e, p) \<leftarrow> octal_digit m p;
             Some (if e < 0 then c else c * 8 + e, p)
           }
         }
       else Some (uint b, q + 1)
     }"

definition parse_decimal_escape :: "re_parse_state \<Rightarrow> nat \<Rightarrow> bool \<Rightarrow> atom_res" where
  "parse_decimal_escape s p backward =
     do {
       let q = p + 1;
       (c, p) \<leftarrow> parse_digits (pattern s) q False;
       (bad, s) \<leftarrow> (if c < 0 then Some (True, s)
                    else if c \<ge> int (ps_capture_count s) then
                      do { (n, s) \<leftarrow> re_count_captures s; Some (c \<ge> n, s) }
                    else Some (False, s));
       if \<not> bad then emit_back_reference s p c backward
       else if \<not> ps_is_utf16 s then
         do { (c, p) \<leftarrow> legacy_octal (pattern s) q; emit_char_atom s p c (cr_init []) backward }
       else term_error s ''back reference out of range in reguar expression''
     }"

definition parse_escape_atom :: "re_parse_state \<Rightarrow> nat \<Rightarrow> bool \<Rightarrow> atom_res" where
  "parse_escape_atom s p backward =
     do {
       c \<leftarrow> mem_get (pattern s) (p + 1);
       if c = 0x62 \<or> c = 0x42 then
         do {
           s \<leftarrow> re_emit_op s (if c \<noteq> 0x62 then REOP_not_word_boundary else REOP_word_boundary);
           Some (POk, -1, 0, p + 2, s)
         }
       else if c = 0x6b then parse_named_ref s p backward
       else if c = 0x30 then parse_zero_escape s p backward
       else if c \<ge> 0x31 \<and> c \<le> 0x39 then parse_decimal_escape s p backward
       else parse_class_atom s p backward
     }"

text \<open>The first switch of \<open>re_parse_term\<close>.\<close>

definition parse_atom :: "nat \<Rightarrow> disj_fun \<Rightarrow> re_parse_state \<Rightarrow> bool \<Rightarrow> atom_res" where
  "parse_atom n dj s backward =
     do {
       let p = buf_ptr s;
       c \<leftarrow> mem_get (pattern s) p;
       if c = 0x5e then
         do { s \<leftarrow> re_emit_op s REOP_line_start; Some (POk, -1, 0, p + 1, s) }
       else if c = 0x24 then
         do { s \<leftarrow> re_emit_op s REOP_line_end; Some (POk, -1, 0, p + 1, s) }
       else if c = 0x2e then parse_dot s p backward
       else if c = 0x7b then parse_brace s p backward
       else if c = 0x2a \<or> c = 0x2b \<or> c = 0x3f then term_error s ''nothing to repeat''
       else if c = 0x28 then parse_group dj s p backward
       else if c = 0x5c then parse_escape_atom s p backward
       else if c = 0x5b then parse_class n s p backward
       else if (c = 0x5d \<or> c = 0x7d) \<and> ps_is_utf16 s then term_error s ''syntax error''
       else parse_class_atom s p backward
     }"

section \<open>Quantifiers\<close>

text \<open>
  The second switch up to the label \<open>quantifier\<close>: no quantifier (the position), or the bounds
  and the position behind them.
\<close>

datatype quant = NoQuant nat | Quant int int nat

type_synonym quant_res = "(parse_ret \<times> quant \<times> re_parse_state) option"

definition quant_error :: "re_parse_state \<Rightarrow> quant_res" where
  "quant_error s =
     do {
       (r, s) \<leftarrow> re_parse_error s (ascii ''invalid repetition count'');
       Some (PErr, NoQuant 0, s)
     }"

definition parse_count_quant :: "re_parse_state \<Rightarrow> nat \<Rightarrow> quant_res" where
  "parse_count_quant s p1 =
     do {
       let m = pattern s;
       d \<leftarrow> mem_get m (p1 + 1);
       if \<not> is_digit (uint d) then
         if ps_is_utf16 s then quant_error s else Some (POk, NoQuant p1, s)
       else do {
         (quant_min, p) \<leftarrow> parse_digits m (p1 + 1) True;
         b \<leftarrow> mem_get m p;
         (quant_max, p, invalid) \<leftarrow> (if b = 0x2c then
             do {
               d \<leftarrow> mem_get m (p + 1);
               if is_digit (uint d) then
                 do { (v, p) \<leftarrow> parse_digits m (p + 1) True; Some (v, p, v < quant_min) }
               else Some (INT32_MAX, p + 1, False)
             }
           else Some (quant_min, p, False));
         if invalid then quant_error s
         else do {
           b \<leftarrow> mem_get m p;
           if b \<noteq> 0x7d \<and> \<not> ps_is_utf16 s then Some (POk, NoQuant p1, s)
           else do {
             (r, p, s) \<leftarrow> re_parse_expect s p 0x7d;
             if r \<noteq> 0 then Some (PErr, NoQuant p, s) else Some (POk, Quant quant_min quant_max p, s)
           }
         }
       }
     }"

definition parse_quant :: "re_parse_state \<Rightarrow> nat \<Rightarrow> quant_res" where
  "parse_quant s p =
     do {
       c \<leftarrow> mem_get (pattern s) p;
       if c = 0x2a then Some (POk, Quant 0 INT32_MAX (p + 1), s)
       else if c = 0x2b then Some (POk, Quant 1 INT32_MAX (p + 1), s)
       else if c = 0x3f then Some (POk, Quant 0 1 (p + 1), s)
       else if c = 0x7b then parse_count_quant s p
       else Some (POk, NoQuant p, s)
     }"

definition term_oom :: "re_parse_state \<Rightarrow> (parse_ret \<times> re_parse_state) option" where
  "term_oom s = do { (r, s) \<leftarrow> re_parse_out_of_memory s; Some (PErr, s) }"

text \<open>The continuation \<open>k\<close> runs when the insertion succeeds; a failure is \<open>goto out_of_memory\<close>.\<close>

definition with_insert ::
  "re_parse_state \<Rightarrow> int \<Rightarrow> nat \<Rightarrow> (re_parse_state \<Rightarrow> (parse_ret \<times> re_parse_state) option) \<Rightarrow>
   (parse_ret \<times> re_parse_state) option" where
  "with_insert s pos len k =
     do { (r, s) \<leftarrow> code_insert s pos len; if r \<noteq> 0 then term_oom s else k s }"

definition emit_goto_op :: "re_parse_state \<Rightarrow> u8 \<Rightarrow> int \<Rightarrow> re_parse_state option" where
  "emit_goto_op s op target = map_option snd (re_emit_goto s op (of_int target))"

definition split_op :: "bool \<Rightarrow> u8" where
  "split_op greedy = (if greedy then REOP_split_next_first else REOP_split_goto_first)"

text \<open>The header of the optimised loop over a simple atom.\<close>

definition emit_simple_quant ::
  "re_parse_state \<Rightarrow> int \<Rightarrow> int \<Rightarrow> int \<Rightarrow> int \<Rightarrow> (parse_ret \<times> re_parse_state) option" where
  "emit_simple_quant s start quant_min quant_max len =
     do {
       s \<leftarrow> re_emit_op s REOP_match;
       with_insert s start 17 (\<lambda>s. do {
         s \<leftarrow> set_code s start REOP_simple_greedy_quant;
         s \<leftarrow> put_code_u32 s (start + 1) (of_nat (code_size s) - of_int start - 17);
         s \<leftarrow> put_code_u32 s (start + 5) (of_int quant_min);
         s \<leftarrow> put_code_u32 s (start + 9) (of_int quant_max);
         s \<leftarrow> put_code_u32 s (start + 13) (of_int len);
         Some (POk, s)
       })
     }"

text \<open>The three shapes of a quantifier whose minimum is zero; \<open>add\<close> is the zero advance check.\<close>

definition emit_star ::
  "re_parse_state \<Rightarrow> int \<Rightarrow> int \<Rightarrow> bool \<Rightarrow> bool \<Rightarrow> (parse_ret \<times> re_parse_state) option" where
  "emit_star s start len greedy add =
     with_insert s start (if add then 6 else 5) (\<lambda>s. do {
       s \<leftarrow> set_code s start (split_op greedy);
       s \<leftarrow> put_code_u32 s (start + 1) (of_int (len + 5 + (if add then 1 else 0)));
       if add then
         do {
           s \<leftarrow> set_code s (start + 5) REOP_push_char_pos;
           s \<leftarrow> emit_goto_op s REOP_bne_char_pos start;
           Some (POk, s)
         }
       else do { s \<leftarrow> emit_goto_op s REOP_goto start; Some (POk, s) }
     })"

definition emit_bounded ::
  "re_parse_state \<Rightarrow> int \<Rightarrow> int \<Rightarrow> int \<Rightarrow> bool \<Rightarrow> (parse_ret \<times> re_parse_state) option" where
  "emit_bounded s start len quant_max greedy =
     with_insert s start 10 (\<lambda>s. do {
       s \<leftarrow> set_code s start REOP_push_i32;
       s \<leftarrow> put_code_u32 s (start + 1) (of_int quant_max);
       s \<leftarrow> set_code s (start + 5) (split_op greedy);
       s \<leftarrow> put_code_u32 s (start + 6) (of_int (len + 5));
       s \<leftarrow> emit_goto_op s REOP_loop (start + 5);
       s \<leftarrow> re_emit_op s REOP_drop;
       Some (POk, s)
     })"

definition emit_optional ::
  "re_parse_state \<Rightarrow> int \<Rightarrow> int \<Rightarrow> bool \<Rightarrow> (parse_ret \<times> re_parse_state) option" where
  "emit_optional s start len greedy =
     with_insert s start 5 (\<lambda>s. do {
       s \<leftarrow> set_code s start (split_op greedy);
       s \<leftarrow> put_code_u32 s (start + 1) (of_int len);
       Some (POk, s)
     })"

definition emit_min_zero ::
  "re_parse_state \<Rightarrow> int \<Rightarrow> nat \<Rightarrow> int \<Rightarrow> int \<Rightarrow> bool \<Rightarrow> bool \<Rightarrow>
   (parse_ret \<times> re_parse_state) option" where
  "emit_min_zero s start lcc len quant_max greedy add =
     (let rest = (\<lambda>s start.
        if quant_max = 0 then
          Some (POk, s\<lparr>byte_code := (byte_code s)\<lparr>dsize := nat start\<rparr>\<rparr>)
        else if quant_max = 1 then emit_optional s start len greedy
        else if quant_max = INT32_MAX then emit_star s start len greedy add
        else emit_bounded s start len quant_max greedy)
      in
        if lcc \<noteq> ps_capture_count s then
          with_insert s start 3 (\<lambda>s. do {
            s \<leftarrow> set_code s start REOP_save_reset;
            s \<leftarrow> set_code s (start + 1) (of_nat lcc);
            s \<leftarrow> set_code s (start + 2) (of_int (int (ps_capture_count s) - 1));
            rest s (start + 3)
          })
        else rest s start)"

text \<open>The copies of the atom behind the required iterations.\<close>

definition emit_tail ::
  "re_parse_state \<Rightarrow> int \<Rightarrow> int \<Rightarrow> int \<Rightarrow> int \<Rightarrow> bool \<Rightarrow> bool \<Rightarrow> re_parse_state option" where
  "emit_tail s start len quant_min quant_max greedy add =
     (if quant_max = INT32_MAX then
        do {
          let pos = code_len s;
          (_, s) \<leftarrow> re_emit_op_u32 s (split_op greedy) (of_int (len + 5 + (if add then 1 else 0)));
          s \<leftarrow> (if add then re_emit_op s REOP_push_char_pos else Some s);
          s \<leftarrow> copy_atom s start len;
          emit_goto_op s (if add then REOP_bne_char_pos else REOP_goto) pos
        }
      else if quant_max > quant_min then
        do {
          (_, s) \<leftarrow> re_emit_op_u32 s REOP_push_i32 (of_int (quant_max - quant_min));
          let pos = code_len s;
          (_, s) \<leftarrow> re_emit_op_u32 s (split_op greedy) (of_int (len + 5));
          s \<leftarrow> copy_atom s start len;
          s \<leftarrow> emit_goto_op s REOP_loop pos;
          re_emit_op s REOP_drop
        }
      else Some s)"

definition emit_min_pos ::
  "re_parse_state \<Rightarrow> int \<Rightarrow> int \<Rightarrow> int \<Rightarrow> int \<Rightarrow> bool \<Rightarrow> bool \<Rightarrow>
   (parse_ret \<times> re_parse_state) option" where
  "emit_min_pos s start len quant_min quant_max greedy add =
     (let rest = (\<lambda>s start. map_option (Pair POk) (emit_tail s start len quant_min quant_max greedy add))
      in
        if quant_min = 1 then rest s start
        else
          with_insert s start 5 (\<lambda>s. do {
            s \<leftarrow> set_code s start REOP_push_i32;
            s \<leftarrow> put_code_u32 s (start + 1) (of_int quant_min);
            let start = start + 5;
            s \<leftarrow> emit_goto_op s REOP_loop start;
            s \<leftarrow> re_emit_op s REOP_drop;
            rest s start
          }))"

definition emit_general_quant ::
  "re_parse_state \<Rightarrow> int \<Rightarrow> nat \<Rightarrow> int \<Rightarrow> int \<Rightarrow> bool \<Rightarrow> bool \<Rightarrow>
   (parse_ret \<times> re_parse_state) option" where
  "emit_general_quant s start lcc quant_min quant_max greedy add =
     (let len = code_len s - start in
      if quant_min = 0 then emit_min_zero s start lcc len quant_max greedy add
      else if quant_min = 1 \<and> quant_max = INT32_MAX \<and> \<not> add then
        do {
          s \<leftarrow> emit_goto_op s (if greedy then REOP_split_goto_first else REOP_split_next_first) start;
          Some (POk, s)
        }
      else emit_min_pos s start len quant_min quant_max greedy add)"

text \<open>The code at \<open>quantifier\<close>, behind the test for a question mark.\<close>

definition emit_quant ::
  "re_parse_state \<Rightarrow> int \<Rightarrow> nat \<Rightarrow> int \<Rightarrow> int \<Rightarrow> bool \<Rightarrow> (parse_ret \<times> re_parse_state) option" where
  "emit_quant s start lcc quant_min quant_max greedy =
     (if greedy then
        if dbuf_error (byte_code s) then term_oom s
        else do {
          let code = buf (byte_code s);
          let n = code_size s - nat start;
          len \<leftarrow> (if quant_max > 0 then re_is_simple_quantifier code (nat start) n else Some 0);
          if len > 0 then emit_simple_quant s start quant_min quant_max len
          else do {
            adv \<leftarrow> re_check_advance code (nat start) n;
            emit_general_quant s start lcc quant_min quant_max greedy (adv = 0)
          }
        }
      else emit_general_quant s start lcc quant_min quant_max greedy False)"

section \<open>Terms, alternatives, disjunctions\<close>

definition re_parse_term ::
  "nat \<Rightarrow> disj_fun \<Rightarrow> bool \<Rightarrow> re_parse_state \<Rightarrow> (parse_ret \<times> re_parse_state) option" where
  "re_parse_term n dj backward s =
     do {
       (r, start, lcc, p, s) \<leftarrow> parse_atom n dj s backward;
       if r \<noteq> POk then Some (r, s)
       else if start < 0 then Some (POk, s\<lparr>buf_ptr := p\<rparr>)
       else do {
         (r, q, s) \<leftarrow> parse_quant s p;
         if r \<noteq> POk then Some (r, s)
         else case q of
           NoQuant p \<Rightarrow> Some (POk, s\<lparr>buf_ptr := p\<rparr>)
         | Quant quant_min quant_max p \<Rightarrow> do {
             b \<leftarrow> mem_get (pattern s) p;
             let greedy = (b \<noteq> 0x3f);
             (r, s) \<leftarrow> emit_quant s start lcc quant_min quant_max greedy;
             if r \<noteq> POk then Some (r, s)
             else Some (POk, s\<lparr>buf_ptr := if greedy then p else p + 1\<rparr>)
           }
       }
     }"

text \<open>The terms of a lookbehind are emitted in reverse: the new one moves to the front.\<close>

definition reverse_term :: "re_parse_state \<Rightarrow> nat \<Rightarrow> nat \<Rightarrow> (parse_ret \<times> re_parse_state) option" where
  "reverse_term s start term_start =
     do {
       let e = code_size s;
       let term_size = e - term_start;
       (r, b) \<leftarrow> dbuf_realloc (byte_code s) (szt (e + term_size));
       let s = s\<lparr>byte_code := b\<rparr>;
       if r \<noteq> 0 then Some (PErr, s)
       else do {
         xs \<leftarrow> mem_read (buf b) start (e - start);
         m \<leftarrow> mem_write (buf b) (start + term_size) xs;
         xs \<leftarrow> mem_read m e term_size;
         m \<leftarrow> mem_write m start xs;
         Some (POk, s\<lparr>byte_code := b\<lparr>buf := m\<rparr>\<rparr>)
       }
     }"

text \<open>The loops over terms and over alternatives, with one unit of fuel for each.\<close>

fun alternative_loop ::
  "nat \<Rightarrow> nat \<Rightarrow> disj_fun \<Rightarrow> bool \<Rightarrow> nat \<Rightarrow> re_parse_state \<Rightarrow> (parse_ret \<times> re_parse_state) option"
  where
  "alternative_loop 0 n dj backward start s = Some (PFuel, s)"
| "alternative_loop (Suc k) n dj backward start s =
     (if buf_ptr s \<ge> buf_end s then Some (POk, s)
      else do {
        c \<leftarrow> mem_get (pattern s) (buf_ptr s);
        if c = 0x7c \<or> c = 0x29 then Some (POk, s)
        else do {
          let term_start = code_size s;
          (r, s) \<leftarrow> re_parse_term n dj backward s;
          if r \<noteq> POk then Some (r, s)
          else if backward then
            do {
              (r, s) \<leftarrow> reverse_term s start term_start;
              if r \<noteq> POk then Some (r, s) else alternative_loop k n dj backward start s
            }
          else alternative_loop k n dj backward start s
        }
      })"

definition re_parse_alternative ::
  "nat \<Rightarrow> disj_fun \<Rightarrow> bool \<Rightarrow> re_parse_state \<Rightarrow> (parse_ret \<times> re_parse_state) option" where
  "re_parse_alternative n dj backward s = alternative_loop n n dj backward (code_size s) s"

fun disjunction_loop ::
  "nat \<Rightarrow> nat \<Rightarrow> disj_fun \<Rightarrow> bool \<Rightarrow> int \<Rightarrow> re_parse_state \<Rightarrow> (parse_ret \<times> re_parse_state) option"
  where
  "disjunction_loop 0 n dj backward start s = Some (PFuel, s)"
| "disjunction_loop (Suc k) n dj backward start s =
     do {
       c \<leftarrow> mem_get (pattern s) (buf_ptr s);
       if c \<noteq> 0x7c then Some (POk, s)
       else do {
         let s = s\<lparr>buf_ptr := buf_ptr s + 1\<rparr>;
         let len = code_len s - start;
         with_insert s start 5 (\<lambda>s. do {
           s \<leftarrow> set_code s start REOP_split_next_first;
           s \<leftarrow> put_code_u32 s (start + 1) (of_int (len + 5));
           (pos, s) \<leftarrow> re_emit_op_u32 s REOP_goto 0;
           (r, s) \<leftarrow> re_parse_alternative n dj backward s;
           if r \<noteq> POk then Some (r, s)
           else do {
             s \<leftarrow> put_code_u32 s pos (of_int (code_len s - (pos + 4)));
             disjunction_loop k n dj backward start s
           }
         })
       }
     }"

primrec re_parse_disjunction :: "nat \<Rightarrow> disj_fun" where
  "re_parse_disjunction 0 = (\<lambda>backward s. Some (PFuel, s))"
| "re_parse_disjunction (Suc n) =
     (\<lambda>backward s. do {
       let start = code_len s;
       (r, s) \<leftarrow> re_parse_alternative n (re_parse_disjunction n) backward s;
       if r \<noteq> POk then Some (r, s)
       else disjunction_loop n n (re_parse_disjunction n) backward start s
     })"

section \<open>Compilation\<close>

text \<open>
  The allocator outcomes of the two buffers and of the ranges are arguments. The result is the
  return code of the parser, the returned object (no bytes for a null pointer; only its first
  \<open>*plen\<close> bytes are in use), \<open>*plen\<close> and the object behind \<open>error_msg\<close>. The pattern \<open>str\<close> has no
  terminator.
\<close>

definition init_state ::
  "u8 heap \<Rightarrow> u8 heap \<Rightarrow> u32 heap list \<Rightarrow> u8 list \<Rightarrow> u32 \<Rightarrow> re_parse_state" where
  "init_state hb hg hs str re_flags =
     \<lparr>byte_code = dbuf_init2 hb, buf_ptr = 0, pattern = str @ [0], buf_end = length str,
      ps_is_utf16 = (re_flags AND ucast LRE_FLAG_UTF16 \<noteq> 0),
      ps_ignore_case = (re_flags AND ucast LRE_FLAG_IGNORECASE \<noteq> 0),
      ps_dotall = (re_flags AND ucast LRE_FLAG_DOTALL \<noteq> 0),
      ps_capture_count = 1, total_capture_count = -1, has_named_captures = -1,
      group_names = dbuf_init2 hg, tmp_buf = replicate TMP_BUF_SIZE 0, cr_heaps = hs\<rparr>"

definition emit_header :: "re_parse_state \<Rightarrow> u32 \<Rightarrow> re_parse_state option" where
  "emit_header s re_flags =
     do {
       s \<leftarrow> re_emit_op s (ucast re_flags);
       s \<leftarrow> re_emit_op s 0;
       s \<leftarrow> re_emit_op s 0;
       s \<leftarrow> emit_u32 s 0;
       s \<leftarrow> (if re_flags AND ucast LRE_FLAG_STICKY = 0 then
               do {
                 (_, s) \<leftarrow> re_emit_op_u32 s REOP_split_goto_first (1 + 5);
                 s \<leftarrow> re_emit_op s REOP_any;
                 (_, s) \<leftarrow> re_emit_op_u32 s REOP_goto (- (5 + 1 + 5));
                 Some s
               }
             else Some s);
       re_emit_op_u8 s REOP_save_start 0
     }"

definition finish_code :: "re_parse_state \<Rightarrow> int \<Rightarrow> re_parse_state option" where
  "finish_code s stack_size =
     do {
       s \<leftarrow> set_code s (int RE_HEADER_CAPTURE_COUNT) (of_nat (ps_capture_count s));
       s \<leftarrow> set_code s (int RE_HEADER_STACK_SIZE) (of_int stack_size);
       s \<leftarrow> put_code_u32 s 3 (of_nat (code_size s) - of_nat RE_HEADER_LEN);
       if dsize (group_names s) > ps_capture_count s - 1 then
         do {
           (_, b) \<leftarrow> dbuf_put (byte_code s) (take (dsize (group_names s)) (buf (group_names s)));
           f \<leftarrow> mem_get (buf b) RE_HEADER_FLAGS;
           set_code (s\<lparr>byte_code := b\<rparr>) (int RE_HEADER_FLAGS) (f OR LRE_FLAG_NAMED_GROUPS)
         }
       else Some s
     }"

definition compile_error ::
  "re_parse_state \<Rightarrow> parse_ret \<Rightarrow> u8 list \<Rightarrow> int \<Rightarrow> (parse_ret \<times> u8 list \<times> int \<times> u8 list) option" where
  "compile_error s r error_msg error_msg_size =
     do { e \<leftarrow> pstrcpy error_msg 0 error_msg_size (tmp_buf s); Some (r, [], 0, e) }"

definition lre_compile ::
  "nat \<Rightarrow> u8 heap \<Rightarrow> u8 heap \<Rightarrow> u32 heap list \<Rightarrow> u8 list \<Rightarrow> int \<Rightarrow> u8 list \<Rightarrow> u32 \<Rightarrow>
   (parse_ret \<times> u8 list \<times> int \<times> u8 list) option" where
  "lre_compile fuel hb hg hs error_msg error_msg_size str re_flags =
     do {
       let fail = (\<lambda>s msg. do {
         (_, s) \<leftarrow> re_parse_error s (ascii msg);
         compile_error s PErr error_msg error_msg_size
       });
       s \<leftarrow> emit_header (init_state hb hg hs str re_flags) re_flags;
       (r, s) \<leftarrow> re_parse_disjunction fuel False s;
       if r \<noteq> POk then compile_error s r error_msg error_msg_size
       else do {
         s \<leftarrow> re_emit_op_u8 s REOP_save_end 0;
         s \<leftarrow> re_emit_op s REOP_match;
         c \<leftarrow> mem_get (pattern s) (buf_ptr s);
         if c \<noteq> 0 then fail s ''extraneous characters at the end''
         else if dbuf_error (byte_code s) then fail s ''out of memory''
         else do {
           stack_size \<leftarrow> compute_stack_size (buf (byte_code s)) (code_size s);
           if stack_size < 0 then fail s ''too many imbricated quantifiers''
           else do {
             s \<leftarrow> finish_code s stack_size;
             e \<leftarrow> mem_set error_msg 0 0;
             Some (POk, buf (byte_code s), code_len s, e)
           }
         }
       }
     }"

end
