(* ===== verification/Regexp_Fragment.thy ===== *)
theory Regexp_Fragment
  imports Regexp_Verify
begin

text \<open>
  Fragments of regular expression bytecode as lists of instructions, and the laws by which the
  compiler composes them. A fragment is balanced (it leaves the height of the stack as it was),
  its jumps stay inside it, and its operands are in range; whole code made of fragments passes
  the verifier of \<open>Regexp_Verify\<close>.
\<close>

section \<open>Instructions\<close>

definition delta :: "u8 list \<Rightarrow> int" where
  "delta i =
     (if hd i = REOP_push_i32 \<or> hd i = REOP_push_char_pos then 1
      else if hd i = REOP_drop \<or> hd i = REOP_bne_char_pos then -1 else 0)"

definition need :: "u8 list \<Rightarrow> int" where
  "need i = (if hd i = REOP_drop \<or> hd i = REOP_bne_char_pos \<or> hd i = REOP_loop then 1 else 0)"

definition is_jump_op :: "u8 \<Rightarrow> bool" where
  "is_jump_op op \<longleftrightarrow>
     op \<in> {REOP_goto, REOP_split_goto_first, REOP_split_next_first, REOP_loop, REOP_lookahead,
           REOP_negative_lookahead, REOP_bne_char_pos, REOP_simple_greedy_quant}"

definition joff :: "u8 list \<Rightarrow> int option" where
  "joff i = (if is_jump_op (hd i) then map_option sint (get_u32 i 1) else None)"

definition is_simple :: "u8 list \<Rightarrow> bool" where
  "is_simple i \<longleftrightarrow> is_char_op (hd i) \<or> is_test_op (hd i)"

text \<open>A complete instruction with operands in range; \<open>cc\<close> is the number of captures.\<close>

definition wf_ins :: "nat \<Rightarrow> u8 list \<Rightarrow> bool" where
  "wf_ins cc i \<longleftrightarrow>
     i \<noteq> [] \<and> hd i \<noteq> REOP_invalid \<and> instr_size i 0 = Some (length i) \<and>
     (hd i = REOP_range \<or> hd i = REOP_range32 \<longrightarrow> get_u16 i 1 \<noteq> Some 0) \<and>
     (hd i = REOP_save_start \<or> hd i = REOP_save_end \<longrightarrow> unat (i ! 1) < cc) \<and>
     (hd i = REOP_save_reset \<longrightarrow> unat (i ! 2) < cc)"

section \<open>Fragments\<close>

definition ipos :: "u8 list list \<Rightarrow> nat \<Rightarrow> nat" where
  "ipos L k = length (concat (take k L))"

definition iht :: "u8 list list \<Rightarrow> nat \<Rightarrow> int" where
  "iht L k = sum_list (map delta (take k L))"

text \<open>
  The body of an optimised loop runs up to a \<open>match\<close>; the last operand is its number of
  characters.
\<close>

definition greedy_ok :: "u8 list list \<Rightarrow> nat \<Rightarrow> bool" where
  "greedy_ok L k \<longleftrightarrow>
     (\<exists>body rest. drop (k + 1) L = body @ [REOP_match] # rest \<and> (\<forall>i\<in>set body. is_simple i) \<and>
        get_u32 (L ! k) 13 = Some (of_nat (length (filter (\<lambda>i. is_char_op (hd i)) body))) \<and>
        length body < 2 ^ 32)"

definition at_ok :: "u8 list list \<Rightarrow> nat \<Rightarrow> bool" where
  "at_ok L k \<longleftrightarrow>
     need (L ! k) \<le> iht L k \<and>
     (\<forall>off. joff (L ! k) = Some off \<longrightarrow>
        (\<exists>j \<le> length L. int (ipos L j) = int (ipos L (k + 1)) + off \<and> iht L j = iht L (k + 1))) \<and>
     (hd (L ! k) = REOP_simple_greedy_quant \<longrightarrow> greedy_ok L k)"

lemma at_ok_jumpE:
  assumes "at_ok L k" and "joff (L ! k) = Some off"
  obtains j where "j \<le> length L" and "int (ipos L j) = int (ipos L (k + 1)) + off"
    and "iht L j = iht L (k + 1)"
  using assms by (simp only: at_ok_def) metis

definition frag :: "nat \<Rightarrow> u8 list list \<Rightarrow> bool" where
  "frag cc L \<longleftrightarrow>
     (\<forall>i \<in> set L. wf_ins cc i) \<and> (\<forall>k < length L. at_ok L k) \<and> iht L (length L) = 0"

lemma ipos_append [simp]:
  "j \<le> length M \<Longrightarrow> ipos (A @ M @ B) (length A + j) = length (concat A) + ipos M j"
  by (simp add: ipos_def)

lemma iht_append [simp]:
  "j \<le> length M \<Longrightarrow> iht (A @ M @ B) (length A + j) = iht A (length A) + iht M j"
  by (simp add: iht_def)

lemma iht_0 [simp]: "iht L 0 = 0"
  by (simp add: iht_def)

lemma ipos_0 [simp]: "ipos L 0 = 0"
  by (simp add: ipos_def)

lemma iht_Suc: "k < length L \<Longrightarrow> iht L (Suc k) = iht L k + delta (L ! k)"
  by (simp add: iht_def take_Suc_conv_app_nth)

lemma ipos_Suc: "k < length L \<Longrightarrow> ipos L (Suc k) = ipos L k + length (L ! k)"
  by (simp add: ipos_def take_Suc_conv_app_nth)

lemma greedy_ok_embed:
  assumes "greedy_ok M k" and "k < length M"
  shows "greedy_ok (A @ M @ B) (length A + k)"
proof -
  obtain body rest where "drop (k + 1) M = body @ [REOP_match] # rest" "\<forall>i\<in>set body. is_simple i"
    "get_u32 (M ! k) 13 = Some (of_nat (length (filter (\<lambda>i. is_char_op (hd i)) body)))"
    "length body < 2 ^ 32"
    using assms(1) by (auto simp: greedy_ok_def)
  then show ?thesis
    using assms(2) unfolding greedy_ok_def
    by (intro exI[of _ body] exI[of _ "rest @ B"]) (simp add: nth_append)
qed

text \<open>A fragment inside other code keeps its meaning.\<close>

lemma at_ok_embed:
  assumes ok: "at_ok M k" and k: "k < length M" and A: "0 \<le> iht A (length A)"
  shows "at_ok (A @ M @ B) (length A + k)"
proof -
  let ?L = "A @ M @ B"
  have nth: "?L ! (length A + k) = M ! k" using k by (simp add: nth_append)
  have "\<exists>j\<le>length ?L. int (ipos ?L j) = int (ipos ?L (length A + k + 1)) + off \<and>
      iht ?L j = iht ?L (length A + k + 1)" if off: "joff (M ! k) = Some off" for off
  proof -
    obtain j where "j \<le> length M" "int (ipos M j) = int (ipos M (k + 1)) + off" "iht M j = iht M (k + 1)"
      using at_ok_jumpE[OF ok off] .
    then show ?thesis
      using k ipos_append[of "k + 1" M A B] iht_append[of "k + 1" M A B]
      by (intro exI[of _ "length A + j"]) (simp add: add.assoc)
  qed
  moreover have "need (M ! k) \<le> iht ?L (length A + k)"
    using ok A k by (simp add: at_ok_def)
  moreover have "hd (M ! k) = REOP_simple_greedy_quant \<longrightarrow> greedy_ok ?L (length A + k)"
    using ok greedy_ok_embed k by (auto simp: at_ok_def)
  ultimately show ?thesis unfolding at_ok_def nth by blast
qed

lemma frag_at_ok: "frag cc M \<Longrightarrow> k < length M \<Longrightarrow> at_ok M k"
  by (simp add: frag_def)

text \<open>Wrapping code around a fragment: only the new instructions need a look.\<close>

lemma frag_wrap:
  assumes M: "frag cc M" and wf: "\<forall>i \<in> set A \<union> set B. wf_ins cc i"
    and A: "\<And>k. k < length A \<Longrightarrow> at_ok (A @ M @ B) k" and ht: "0 \<le> iht A (length A)"
    and B: "\<And>k. k < length B \<Longrightarrow> at_ok (A @ M @ B) (length A + length M + k)"
    and total: "iht A (length A) + iht B (length B) = 0"
  shows "frag cc (A @ M @ B)"
proof -
  have "at_ok (A @ M @ B) k" if "k < length (A @ M @ B)" for k
  proof -
    consider "k < length A" | j where "k = length A + j" "j < length M"
      | j where "k = length A + length M + j" "j < length B"
    proof (cases "k < length A")
      case False
      then obtain j where j: "k = length A + j" by (metis not_less le_Suc_ex)
      show thesis
      proof (cases "j < length M")
        case False
        then obtain l where "j = length M + l" by (metis not_less le_Suc_ex)
        then show thesis using that(3)[of l] j \<open>k < length (A @ M @ B)\<close> by simp
      qed (use that(2) j in simp)
    qed (use that(1) in simp)
    then show ?thesis by cases (use A B at_ok_embed[OF frag_at_ok[OF M] _ ht] in auto)
  qed
  moreover have "iht (A @ M @ B) (length (A @ M @ B)) = 0"
    using M total by (simp add: frag_def iht_def)
  ultimately show ?thesis using M wf by (auto simp: frag_def)
qed

lemma frag_Nil [simp]: "frag cc []"
  by (simp add: frag_def iht_def)

lemma frag_append:
  assumes "frag cc A" and "frag cc B"
  shows "frag cc (A @ B)"
proof -
  have "at_ok (A @ B) k" if "k < length A" for k
    using at_ok_embed[OF frag_at_ok[OF assms(1) that] that, of "[]" B] by simp
  moreover have "at_ok (A @ B) (length A + k)" if "k < length B" for k
    using at_ok_embed[OF frag_at_ok[OF assms(2) that] that, of A "[]"] assms(1)
    by (simp add: frag_def)
  ultimately show ?thesis
    using frag_wrap[OF assms(2), of A "[]"] assms by (auto simp: frag_def iht_def)
qed

lemma wf_ins_mono: "wf_ins cc i \<Longrightarrow> cc \<le> cc' \<Longrightarrow> wf_ins cc' i"
  by (auto simp: wf_ins_def)

lemma frag_mono: "frag cc L \<Longrightarrow> cc \<le> cc' \<Longrightarrow> frag cc' L"
  by (auto simp: frag_def intro: wf_ins_mono)

section \<open>Encodings\<close>

lemma mem_read_Cons: "mem_read (b # m) (Suc p) n = mem_read m p n"
  by (simp add: mem_read_def)

lemma get_u32_le [simp]: "get_u32 (op # le_bytes 4 (unat v) @ r) 1 = Some v"
proof -
  have "unat v mod 256 ^ 4 = unat v" using unat_u32_less[of v] by simp
  then show ?thesis by (simp add: get_u32_def mem_read_def le_value_le_bytes)
qed

text \<open>An opcode with a 32-bit operand.\<close>

definition ins_u32 :: "u8 \<Rightarrow> u32 \<Rightarrow> u8 list" where
  "ins_u32 op v = op # le_bytes 4 (unat v)"

lemma length_ins_u32 [simp]: "length (ins_u32 op v) = 5"
  by (simp add: ins_u32_def)

lemma hd_ins_u32 [simp]: "hd (ins_u32 op v) = op"
  by (simp add: ins_u32_def)

lemma joff_ins_u32 [simp]: "joff (ins_u32 op v) = (if is_jump_op op then Some (sint v) else None)"
  using get_u32_le[of op v "[]"] by (simp add: joff_def ins_u32_def)

lemma instr_size_eq:
  assumes "i \<noteq> []" and "hd i \<noteq> REOP_range" and "hd i \<noteq> REOP_range32" and "unat (hd i) < REOP_COUNT"
  shows "instr_size i 0 = Some (reopcode_size ! unat (hd i))"
  using assms by (auto simp: instr_size_def mem_get_def reopcode_size_def REOP_COUNT_def hd_conv_nth)

text \<open>Instructions whose operands need no check.\<close>

definition plain_op :: "u8 \<Rightarrow> bool" where
  "plain_op op \<longleftrightarrow>
     op \<notin> {REOP_invalid, REOP_range, REOP_range32, REOP_save_start, REOP_save_end, REOP_save_reset} \<and>
     unat op < REOP_COUNT"

lemma wf_ins_plain:
  "i \<noteq> [] \<Longrightarrow> plain_op (hd i) \<Longrightarrow> length i = reopcode_size ! unat (hd i) \<Longrightarrow> wf_ins cc i"
  by (simp add: wf_ins_def instr_size_eq plain_op_def)

lemma wf_ins_u32:
  assumes "op \<in> {REOP_char32, REOP_goto, REOP_split_goto_first, REOP_split_next_first, REOP_loop,
    REOP_push_i32, REOP_lookahead, REOP_negative_lookahead, REOP_bne_char_pos}"
  shows "wf_ins cc (ins_u32 op v)"
proof (rule wf_ins_plain)
  show "ins_u32 op v \<noteq> []" by (simp add: ins_u32_def)
qed (use assms in \<open>auto simp: plain_op_def REOP_COUNT_def reopcode_size_def\<close>)

lemma wf_ins_op:
  assumes "op \<in> {REOP_dot, REOP_any, REOP_line_start, REOP_line_end, REOP_match, REOP_drop,
    REOP_word_boundary, REOP_not_word_boundary, REOP_push_char_pos, REOP_prev}"
  shows "wf_ins cc [op]"
  by (rule wf_ins_plain) (use assms in \<open>auto simp: plain_op_def REOP_COUNT_def reopcode_size_def\<close>)

lemma frag_single:
  assumes "wf_ins cc i" and "delta i = 0" and "need i = 0" and "\<not> is_jump_op (hd i)"
  shows "frag cc [i]"
  using assms by (auto simp: frag_def at_ok_def iht_def joff_def is_jump_op_def)

lemma frag_op:
  "op \<in> {REOP_dot, REOP_any, REOP_line_start, REOP_line_end, REOP_match, REOP_word_boundary,
     REOP_not_word_boundary, REOP_prev} \<Longrightarrow> frag cc [[op]]"
  by (rule frag_single[OF wf_ins_op]) (auto simp: delta_def need_def is_jump_op_def)

lemma frag_char32: "frag cc [ins_u32 REOP_char32 v]"
  by (rule frag_single[OF wf_ins_u32]) (auto simp: delta_def need_def is_jump_op_def)

lemma frag_char: "frag cc [REOP_char # le_bytes 2 n]"
  by (rule frag_single[OF wf_ins_plain])
     (auto simp: delta_def need_def is_jump_op_def plain_op_def REOP_COUNT_def reopcode_size_def)

lemma frag_save:
  assumes "op = REOP_save_start \<or> op = REOP_save_end" and "unat v < cc"
  shows "frag cc [[op, v]]"
proof (rule frag_single)
  show "wf_ins cc [op, v]"
    using assms by (auto simp: wf_ins_def instr_size_def mem_get_def reopcode_size_def)
qed (use assms in \<open>auto simp: delta_def need_def is_jump_op_def\<close>)

lemma frag_save_reset:
  assumes "unat w < cc"
  shows "frag cc [[REOP_save_reset, v, w]]"
proof (rule frag_single)
  show "wf_ins cc [REOP_save_reset, v, w]"
    using assms by (auto simp: wf_ins_def instr_size_def mem_get_def reopcode_size_def)
qed (auto simp: delta_def need_def is_jump_op_def)

lemma frag_back_reference:
  assumes "op = REOP_back_reference \<or> op = REOP_backward_back_reference"
  shows "frag cc [[op, v]]"
  by (rule frag_single[OF wf_ins_plain])
     (use assms in \<open>auto simp: delta_def need_def is_jump_op_def plain_op_def REOP_COUNT_def reopcode_size_def\<close>)

lemma frag_range:
  assumes "op = REOP_range \<and> w = 4 \<or> op = REOP_range32 \<and> w = 8"
    and "0 < n" and "n < 65536" and "length xs = w * n"
  shows "frag cc [op # le_bytes 2 n @ xs]"
proof (rule frag_single)
  have v: "get_u16 (op # le_bytes 2 n @ xs) 1 = Some (of_nat n)"
    using assms(3) by (simp add: get_u16_def mem_read_def le_value_le_bytes)
  have u: "unat (of_nat n :: u32) = n" using assms(3) by (simp add: unat_of_nat)
  have "instr_size (op # le_bytes 2 n @ xs) 0 = Some (length (op # le_bytes 2 n @ xs))"
    using assms(1,4) v u by (auto simp: instr_size_def mem_get_def reopcode_size_def)
  moreover have "(of_nat n :: u32) \<noteq> 0" using u assms(2) by auto
  ultimately show "wf_ins cc (op # le_bytes 2 n @ xs)"
    using assms(1) v by (auto simp: wf_ins_def)
qed (use assms(1) in \<open>auto simp: delta_def need_def is_jump_op_def\<close>)

section \<open>Jumps\<close>

lemma at_ok_jump:
  assumes "need (L ! k) \<le> iht L k" and "joff (L ! k) = Some off"
    and "hd (L ! k) \<noteq> REOP_simple_greedy_quant"
    and "j \<le> length L" and "int (ipos L j) = int (ipos L (k + 1)) + off" and "iht L j = iht L (k + 1)"
  shows "at_ok L k"
  using assms unfolding at_ok_def by auto

lemma at_ok_step:
  assumes "need (L ! k) \<le> iht L k" and "\<not> is_jump_op (hd (L ! k))"
  shows "at_ok L k"
  using assms unfolding at_ok_def by (auto simp: joff_def is_jump_op_def)

lemma ipos_left [simp]: "j \<le> length A \<Longrightarrow> ipos (A @ B) j = ipos A j"
  by (simp add: ipos_def)

lemma iht_left [simp]: "j \<le> length A \<Longrightarrow> iht (A @ B) j = iht A j"
  by (simp add: iht_def)

lemma ipos_right [simp]: "ipos (A @ B) (length A + j) = length (concat A) + ipos B j"
  by (simp add: ipos_def)

lemma iht_right [simp]: "iht (A @ B) (length A + j) = iht A (length A) + iht B j"
  by (simp add: iht_def)

lemma ipos_Cons: "ipos (i # L) (Suc j) = length i + ipos L j"
  by (simp add: ipos_def)

lemma iht_Cons: "iht (i # L) (Suc j) = delta i + iht L j"
  by (simp add: iht_def)

lemma frag_ht: "frag cc M \<Longrightarrow> iht M (length M) = 0"
  by (simp add: frag_def)

lemmas layout_simps = ipos_Cons iht_Cons nth_append delta_def need_def is_jump_op_def ipos_def iht_def

text \<open>The shape of every construct: some instructions, a fragment, some instructions.\<close>

lemma ipos_mid: "j \<le> length M \<Longrightarrow> ipos (A @ M @ B) (length A + j) = length (concat A) + ipos M j"
  by simp

lemma ipos_end:
  "ipos (A @ M @ B) (length A + length M + j) = length (concat A) + length (concat M) + ipos B j"
  by (simp add: ipos_def)

lemma iht_end:
  "iht M (length M) = 0 \<Longrightarrow> iht (A @ M @ B) (length A + length M + j) = iht A (length A) + iht B j"
  by (simp add: iht_def)

definition off32 :: "int \<Rightarrow> bool" where
  "off32 x \<longleftrightarrow> - (2 ^ 31) \<le> x \<and> x < 2 ^ 31"

lemma sint_of_int32: "off32 x \<Longrightarrow> sint (of_int x :: u32) = x"
  by (simp add: off32_def int_word_sint)

text \<open>A forward jump over a fragment and what follows it.\<close>

lemma frag_optional:
  assumes M: "frag cc M" and op: "op = REOP_split_goto_first \<or> op = REOP_split_next_first"
    and len: "off32 (int (length (concat M)))"
  shows "frag cc ([ins_u32 op (of_int (int (length (concat M))))] @ M @ [])"
proof (rule frag_wrap[OF M])
  let ?A = "[ins_u32 op (of_int (int (length (concat M))))]"
  show "at_ok (?A @ M @ []) k" if "k < length ?A" for k
  proof (rule at_ok_jump[where j = "length ?A + length M + 0"])
    show "joff ((?A @ M @ []) ! k) = Some (int (length (concat M)))"
      using that op sint_of_int32[OF len] by (auto simp: is_jump_op_def)
    show "int (ipos (?A @ M @ []) (length ?A + length M + 0)) =
        int (ipos (?A @ M @ []) (k + 1)) + int (length (concat M))"
      using that unfolding ipos_end by (simp add: ipos_def)
    show "iht (?A @ M @ []) (length ?A + length M + 0) = iht (?A @ M @ []) (k + 1)"
      using that unfolding iht_end[OF frag_ht[OF M]] by (simp add: iht_def)
  qed (use that op in \<open>auto simp: layout_simps\<close>)
qed (use op wf_ins_u32 in \<open>auto simp: layout_simps\<close>)

text \<open>A loop: a split over the fragment and the jump back to the split.\<close>

lemma frag_star:
  fixes len :: int
  assumes M: "frag cc M" and op: "op = REOP_split_goto_first \<or> op = REOP_split_next_first"
    and len: "len = int (length (concat M))" "off32 (len + 10)"
  shows "frag cc ([ins_u32 op (of_int (len + 5))] @ M @ [ins_u32 REOP_goto (of_int (- (len + 10)))])"
    (is "frag cc (?A @ M @ ?B)")
proof (rule frag_wrap[OF M])
  have off: "off32 (len + 5)" "off32 (- (len + 10))" using len by (auto simp: off32_def)
  show "at_ok (?A @ M @ ?B) k" if "k < length ?A" for k
  proof (rule at_ok_jump[where j = "length ?A + length M + 1"])
    show "joff ((?A @ M @ ?B) ! k) = Some (len + 5)"
      using that op sint_of_int32[OF off(1)] by (auto simp: is_jump_op_def)
    show "int (ipos (?A @ M @ ?B) (length ?A + length M + 1)) = int (ipos (?A @ M @ ?B) (k + 1)) + (len + 5)"
      using that len unfolding ipos_end by (simp add: ipos_def)
    show "iht (?A @ M @ ?B) (length ?A + length M + 1) = iht (?A @ M @ ?B) (k + 1)"
      using that op unfolding iht_end[OF frag_ht[OF M]] by (auto simp: iht_def delta_def)
  qed (use that op in \<open>auto simp: layout_simps\<close>)
  show "at_ok (?A @ M @ ?B) (length ?A + length M + k)" if "k < length ?B" for k
  proof (rule at_ok_jump[where j = 0])
    show "joff ((?A @ M @ ?B) ! (length ?A + length M + k)) = Some (- (len + 10))"
      using that sint_of_int32[OF off(2)] by (simp add: nth_append is_jump_op_def)
    show "int (ipos (?A @ M @ ?B) 0) = int (ipos (?A @ M @ ?B) (length ?A + length M + k + 1)) + - (len + 10)"
      using that len ipos_end[of ?A M ?B 1] by (simp add: ipos_def)
    show "iht (?A @ M @ ?B) 0 = iht (?A @ M @ ?B) (length ?A + length M + k + 1)"
      using that op iht_end[OF frag_ht[OF M], of ?A ?B 1] by (auto simp: iht_def delta_def)
    show "need ((?A @ M @ ?B) ! (length ?A + length M + k)) \<le> iht (?A @ M @ ?B) (length ?A + length M + k)"
      using that op iht_end[OF frag_ht[OF M], of ?A ?B 0] by (auto simp: nth_append need_def iht_def delta_def)
  qed (use that in \<open>auto simp: nth_append\<close>)
qed (use op wf_ins_u32 in \<open>auto simp: layout_simps\<close>)

text \<open>The loop with the zero advance check: the position is on the stack during the body.\<close>

lemma frag_star_check:
  fixes len :: int
  assumes M: "frag cc M" and op: "op = REOP_split_goto_first \<or> op = REOP_split_next_first"
    and len: "len = int (length (concat M))" "off32 (len + 11)"
  shows "frag cc ([ins_u32 op (of_int (len + 6)), [REOP_push_char_pos]] @ M @
    [ins_u32 REOP_bne_char_pos (of_int (- (len + 11)))])" (is "frag cc (?A @ M @ ?B)")
proof (rule frag_wrap[OF M])
  have off: "off32 (len + 6)" "off32 (- (len + 11))" using len by (auto simp: off32_def)
  show "at_ok (?A @ M @ ?B) k" if "k < length ?A" for k
  proof (cases k)
    case 0
    show ?thesis
    proof (rule at_ok_jump[where j = "length ?A + length M + 1"])
      show "joff ((?A @ M @ ?B) ! k) = Some (len + 6)"
        using 0 op sint_of_int32[OF off(1)] by (auto simp: is_jump_op_def)
      show "int (ipos (?A @ M @ ?B) (length ?A + length M + 1)) = int (ipos (?A @ M @ ?B) (k + 1)) + (len + 6)"
        using 0 len unfolding ipos_end by (simp add: ipos_def)
      show "iht (?A @ M @ ?B) (length ?A + length M + 1) = iht (?A @ M @ ?B) (k + 1)"
        using 0 op unfolding iht_end[OF frag_ht[OF M]] by (auto simp: iht_def delta_def)
    qed (use 0 op in \<open>auto simp: layout_simps\<close>)
  next
    case (Suc j)
    with that have "k = 1" by simp
    then show ?thesis using op by (intro at_ok_step) (auto simp: layout_simps)
  qed
  show "at_ok (?A @ M @ ?B) (length ?A + length M + k)" if "k < length ?B" for k
  proof (rule at_ok_jump[where j = 0])
    show "joff ((?A @ M @ ?B) ! (length ?A + length M + k)) = Some (- (len + 11))"
      using that sint_of_int32[OF off(2)] by (simp add: nth_append is_jump_op_def)
    show "int (ipos (?A @ M @ ?B) 0) = int (ipos (?A @ M @ ?B) (length ?A + length M + k + 1)) + - (len + 11)"
      using that len ipos_end[of ?A M ?B 1] by (simp add: ipos_def)
    show "iht (?A @ M @ ?B) 0 = iht (?A @ M @ ?B) (length ?A + length M + k + 1)"
      using that op iht_end[OF frag_ht[OF M], of ?A ?B 1] by (auto simp: iht_def delta_def)
    show "need ((?A @ M @ ?B) ! (length ?A + length M + k)) \<le> iht (?A @ M @ ?B) (length ?A + length M + k)"
      using that op iht_end[OF frag_ht[OF M], of ?A ?B 0] by (auto simp: nth_append need_def iht_def delta_def)
  qed (use that in \<open>auto simp: nth_append\<close>)
qed (use op wf_ins_u32 wf_ins_op in \<open>auto simp: layout_simps\<close>)

text \<open>The repeated body without a counter test in front: \<open>+\<close>.\<close>

lemma frag_plus:
  fixes len :: int
  assumes M: "frag cc M" and op: "op = REOP_split_goto_first \<or> op = REOP_split_next_first"
    and len: "len = int (length (concat M))" "off32 (len + 5)"
  shows "frag cc ([] @ M @ [ins_u32 op (of_int (- (len + 5)))])" (is "frag cc (?A @ M @ ?B)")
proof (rule frag_wrap[OF M])
  have off: "off32 (- (len + 5))" using len by (auto simp: off32_def)
  show "at_ok (?A @ M @ ?B) (length ?A + length M + k)" if "k < length ?B" for k
  proof (rule at_ok_jump[where j = 0])
    show "joff ((?A @ M @ ?B) ! (length ?A + length M + k)) = Some (- (len + 5))"
      using that op sint_of_int32[OF off] by (auto simp: nth_append is_jump_op_def)
    show "int (ipos (?A @ M @ ?B) 0) = int (ipos (?A @ M @ ?B) (length ?A + length M + k + 1)) + - (len + 5)"
      using that len ipos_end[of ?A M ?B 1] by (simp add: ipos_def)
    show "iht (?A @ M @ ?B) 0 = iht (?A @ M @ ?B) (length ?A + length M + k + 1)"
      using that op iht_end[OF frag_ht[OF M], of ?A ?B 1] by (auto simp: iht_def delta_def)
    show "need ((?A @ M @ ?B) ! (length ?A + length M + k)) \<le> iht (?A @ M @ ?B) (length ?A + length M + k)"
      using that op iht_end[OF frag_ht[OF M], of ?A ?B 0] by (auto simp: nth_append need_def iht_def delta_def)
  qed (use that op in \<open>auto simp: nth_append\<close>)
qed (use op wf_ins_u32 in \<open>auto simp: layout_simps\<close>)

text \<open>A counted loop: the counter is on the stack during the body.\<close>

lemma frag_counted:
  fixes len :: int
  assumes M: "frag cc M" and len: "len = int (length (concat M))" "off32 (len + 5)"
  shows "frag cc ([ins_u32 REOP_push_i32 q] @ M @ [ins_u32 REOP_loop (of_int (- (len + 5))), [REOP_drop]])"
    (is "frag cc (?A @ M @ ?B)")
proof (rule frag_wrap[OF M])
  have off: "off32 (- (len + 5))" using len by (auto simp: off32_def)
  show "at_ok (?A @ M @ ?B) k" if "k < length ?A" for k
    using that by (intro at_ok_step) (auto simp: layout_simps)
  show "at_ok (?A @ M @ ?B) (length ?A + length M + k)" if "k < length ?B" for k
  proof (cases k)
    case 0
    show ?thesis
    proof (rule at_ok_jump[where j = "length ?A"])
      show "joff ((?A @ M @ ?B) ! (length ?A + length M + k)) = Some (- (len + 5))"
        using 0 sint_of_int32[OF off] by (auto simp: nth_append is_jump_op_def)
      show "int (ipos (?A @ M @ ?B) (length ?A)) =
          int (ipos (?A @ M @ ?B) (length ?A + length M + k + 1)) + - (len + 5)"
        using 0 len ipos_end[of ?A M ?B 1] by (simp add: ipos_def)
      show "iht (?A @ M @ ?B) (length ?A) = iht (?A @ M @ ?B) (length ?A + length M + k + 1)"
        using 0 iht_end[OF frag_ht[OF M], of ?A ?B 1] by (auto simp: iht_def delta_def)
      show "need ((?A @ M @ ?B) ! (length ?A + length M + k)) \<le> iht (?A @ M @ ?B) (length ?A + length M + k)"
        using 0 iht_end[OF frag_ht[OF M], of ?A ?B 0] by (auto simp: nth_append need_def iht_def delta_def)
    qed (use 0 in \<open>auto simp: nth_append\<close>)
  next
    case (Suc j)
    with that have k: "k = 1" by simp
    show ?thesis
    proof (rule at_ok_step)
      show "need ((?A @ M @ ?B) ! (length ?A + length M + k)) \<le> iht (?A @ M @ ?B) (length ?A + length M + k)"
        using k iht_end[OF frag_ht[OF M], of ?A ?B 1] by (auto simp: nth_append need_def iht_def delta_def)
    qed (use k in \<open>auto simp: nth_append is_jump_op_def\<close>)
  qed
qed (use wf_ins_u32 wf_ins_op in \<open>auto simp: layout_simps\<close>)

text \<open>Up to \<open>q\<close> repetitions: the counted loop with a split that leaves it for the \<open>drop\<close>.\<close>

lemma frag_bounded:
  fixes len :: int
  assumes M: "frag cc M" and op: "op = REOP_split_goto_first \<or> op = REOP_split_next_first"
    and len: "len = int (length (concat M))" "off32 (len + 10)"
  shows "frag cc ([ins_u32 REOP_push_i32 q, ins_u32 op (of_int (len + 5))] @ M @
    [ins_u32 REOP_loop (of_int (- (len + 10))), [REOP_drop]])"
    (is "frag cc (?A @ M @ ?B)")
proof (rule frag_wrap[OF M])
  have off: "off32 (len + 5)" "off32 (- (len + 10))" using len by (auto simp: off32_def)
  show "at_ok (?A @ M @ ?B) k" if "k < length ?A" for k
  proof (cases k)
    case 0
    then show ?thesis by (intro at_ok_step) (auto simp: layout_simps)
  next
    case (Suc j)
    with that have k: "k = 1" by simp
    show ?thesis
    proof (rule at_ok_jump[where j = "length ?A + length M + 1"])
      show "joff ((?A @ M @ ?B) ! k) = Some (len + 5)"
        using k op sint_of_int32[OF off(1)] by (auto simp: is_jump_op_def)
      show "int (ipos (?A @ M @ ?B) (length ?A + length M + 1)) = int (ipos (?A @ M @ ?B) (k + 1)) + (len + 5)"
        using k len unfolding ipos_end by (simp add: ipos_def)
      show "iht (?A @ M @ ?B) (length ?A + length M + 1) = iht (?A @ M @ ?B) (k + 1)"
        using k op unfolding iht_end[OF frag_ht[OF M]] by (auto simp: iht_def delta_def)
    qed (use k op in \<open>auto simp: layout_simps\<close>)
  qed
  show "at_ok (?A @ M @ ?B) (length ?A + length M + k)" if "k < length ?B" for k
  proof (cases k)
    case 0
    show ?thesis
    proof (rule at_ok_jump[where j = 1])
      show "joff ((?A @ M @ ?B) ! (length ?A + length M + k)) = Some (- (len + 10))"
        using 0 sint_of_int32[OF off(2)] by (auto simp: nth_append is_jump_op_def)
      show "int (ipos (?A @ M @ ?B) 1) =
          int (ipos (?A @ M @ ?B) (length ?A + length M + k + 1)) + - (len + 10)"
        using 0 len ipos_end[of ?A M ?B 1] by (simp add: ipos_def)
      show "iht (?A @ M @ ?B) 1 = iht (?A @ M @ ?B) (length ?A + length M + k + 1)"
        using 0 op iht_end[OF frag_ht[OF M], of ?A ?B 1] by (auto simp: iht_def delta_def)
      show "need ((?A @ M @ ?B) ! (length ?A + length M + k)) \<le> iht (?A @ M @ ?B) (length ?A + length M + k)"
        using 0 op iht_end[OF frag_ht[OF M], of ?A ?B 0] by (auto simp: nth_append need_def iht_def delta_def)
    qed (use 0 in \<open>auto simp: nth_append\<close>)
  next
    case (Suc j)
    with that have k: "k = 1" by simp
    show ?thesis
    proof (rule at_ok_step)
      show "need ((?A @ M @ ?B) ! (length ?A + length M + k)) \<le> iht (?A @ M @ ?B) (length ?A + length M + k)"
        using k op iht_end[OF frag_ht[OF M], of ?A ?B 1] by (auto simp: nth_append need_def iht_def delta_def)
    qed (use k in \<open>auto simp: nth_append is_jump_op_def\<close>)
  qed
qed (use op wf_ins_u32 wf_ins_op in \<open>auto simp: layout_simps\<close>)

text \<open>A lookaround: its body ends in a \<open>match\<close>, and its jump leads behind it.\<close>

lemma frag_lookahead:
  fixes len :: int
  assumes M: "frag cc M" and op: "op = REOP_lookahead \<or> op = REOP_negative_lookahead"
    and len: "len = int (length (concat M))" "off32 (len + 1)"
  shows "frag cc ([ins_u32 op (of_int (len + 1))] @ M @ [[REOP_match]])" (is "frag cc (?A @ M @ ?B)")
proof (rule frag_wrap[OF M])
  show "at_ok (?A @ M @ ?B) k" if "k < length ?A" for k
  proof (rule at_ok_jump[where j = "length ?A + length M + 1"])
    show "joff ((?A @ M @ ?B) ! k) = Some (len + 1)"
      using that op sint_of_int32[OF len(2)] by (auto simp: is_jump_op_def)
    show "int (ipos (?A @ M @ ?B) (length ?A + length M + 1)) = int (ipos (?A @ M @ ?B) (k + 1)) + (len + 1)"
      using that len unfolding ipos_end by (simp add: ipos_def)
    show "iht (?A @ M @ ?B) (length ?A + length M + 1) = iht (?A @ M @ ?B) (k + 1)"
      using that op unfolding iht_end[OF frag_ht[OF M]] by (auto simp: iht_def delta_def)
  qed (use that op in \<open>auto simp: layout_simps\<close>)
  show "at_ok (?A @ M @ ?B) (length ?A + length M + k)" if "k < length ?B" for k
  proof (rule at_ok_step)
    show "need ((?A @ M @ ?B) ! (length ?A + length M + k)) \<le> iht (?A @ M @ ?B) (length ?A + length M + k)"
      using that op iht_end[OF frag_ht[OF M], of ?A ?B 0] by (auto simp: nth_append need_def iht_def delta_def)
  qed (use that in \<open>auto simp: nth_append is_jump_op_def\<close>)
qed (use op wf_ins_u32 wf_ins_op in \<open>auto simp: layout_simps\<close>)

text \<open>Two alternatives: the split leads to the second, the jump behind it.\<close>

lemma frag_alternative:
  fixes len :: int
  assumes M: "frag cc M" and N: "frag cc N"
    and len: "len = int (length (concat M))" "off32 (len + 5)" "off32 (int (length (concat N)))"
  shows "frag cc ([ins_u32 REOP_split_next_first (of_int (len + 5))] @ M @
    ([ins_u32 REOP_goto (of_int (int (length (concat N))))] @ N @ []))" (is "frag cc (?A @ M @ ?B)")
proof (rule frag_wrap[OF M])
  let ?l = "int (length (concat N))"
  have B: "?B = [ins_u32 REOP_goto (of_int ?l)] @ N" by simp
  have at: "at_ok ?B k" if "k < length ?B" for k
  proof (cases k)
    case 0
    show ?thesis
    proof (rule at_ok_jump[where j = "1 + length N + 0"])
      show "joff (?B ! k) = Some ?l" using 0 sint_of_int32[OF len(3)] by (simp add: is_jump_op_def)
      show "int (ipos ?B (1 + length N + 0)) = int (ipos ?B (k + 1)) + ?l"
        using 0 ipos_end[of "[ins_u32 REOP_goto (of_int ?l)]" N "[]" 0] by (simp add: ipos_def)
      show "iht ?B (1 + length N + 0) = iht ?B (k + 1)"
        using 0 iht_end[OF frag_ht[OF N], of "[ins_u32 REOP_goto (of_int ?l)]" "[]" 0]
        by (simp add: iht_def)
    qed (use 0 in \<open>auto simp: layout_simps\<close>)
  next
    case (Suc j)
    then have "j < length N" using that by simp
    from at_ok_embed[OF frag_at_ok[OF N this] this, of "[ins_u32 REOP_goto (of_int ?l)]" "[]"] Suc
    show ?thesis by (simp add: iht_def delta_def)
  qed
  have htB: "iht ?B (length ?B) = 0" using frag_ht[OF N] by (simp add: iht_def delta_def)
  show "at_ok (?A @ M @ ?B) k" if "k < length ?A" for k
  proof (rule at_ok_jump[where j = "length ?A + length M + 1"])
    have o: "off32 (len + 5)" by (rule len(2))
    show "joff ((?A @ M @ ?B) ! k) = Some (len + 5)"
      using that sint_of_int32[OF o] by (auto simp: is_jump_op_def)
    show "int (ipos (?A @ M @ ?B) (length ?A + length M + 1)) = int (ipos (?A @ M @ ?B) (k + 1)) + (len + 5)"
      using that len unfolding ipos_end by (simp add: ipos_def)
    show "iht (?A @ M @ ?B) (length ?A + length M + 1) = iht (?A @ M @ ?B) (k + 1)"
      using that unfolding iht_end[OF frag_ht[OF M]] by (auto simp: iht_def delta_def)
  qed (use that in \<open>auto simp: layout_simps\<close>)
  show "at_ok (?A @ M @ ?B) (length ?A + length M + k)" if "k < length ?B" for k
    using at_ok_embed[OF at[OF that] that, of "?A @ M" "[]"] frag_ht[OF M]
    by (simp add: iht_def delta_def)
  show "iht ?A (length ?A) + iht ?B (length ?B) = 0" using htB by (simp add: iht_def delta_def)
qed (use wf_ins_u32 N in \<open>auto simp: iht_def delta_def frag_def\<close>)

text \<open>The optimised loop over a simple body.\<close>

definition ins_greedy :: "u32 \<Rightarrow> u32 \<Rightarrow> u32 \<Rightarrow> u32 \<Rightarrow> u8 list" where
  "ins_greedy a b c d =
     REOP_simple_greedy_quant # le_bytes 4 (unat a) @ le_bytes 4 (unat b) @ le_bytes 4 (unat c) @
       le_bytes 4 (unat d)"

lemma frag_greedy:
  fixes len :: int
  assumes M: "frag cc M" and simple: "\<forall>i\<in>set M. is_simple i" and small: "length M < 2 ^ 32"
    and len: "len = int (length (concat M))" "off32 (len + 1)"
    and d: "d = of_nat (length (filter (\<lambda>i. is_char_op (hd i)) M))"
  shows "frag cc ([ins_greedy (of_int (len + 1)) b c d] @ M @ [[REOP_match]])" (is "frag cc (?A @ M @ ?B)")
proof (rule frag_wrap[OF M])
  let ?i = "ins_greedy (of_int (len + 1)) b c d"
  have hd: "hd ?i = REOP_simple_greedy_quant" and l: "length ?i = 17" by (simp_all add: ins_greedy_def)
  have "get_u32 ?i 1 = Some (of_int (len + 1))"
    unfolding ins_greedy_def by (rule get_u32_le)
  then have j: "joff ?i = Some (len + 1)"
    using hd sint_of_int32[OF len(2)] by (simp add: joff_def is_jump_op_def)
  have "mem_read ?i 13 4 = Some (le_bytes 4 (unat d))" by (simp add: ins_greedy_def mem_read_def)
  then have d13: "get_u32 ?i 13 = Some d"
    using unat_u32_less[of d] unfolding get_u32_def by (simp only: option.map le_value_le_bytes) simp
  show "at_ok (?A @ M @ ?B) k" if "k < length ?A" for k
  proof -
    have k: "k = 0" using that by simp
    have "greedy_ok (?A @ M @ ?B) 0"
      unfolding greedy_ok_def by (rule exI[of _ M]) (use simple small d13 d in auto)
    moreover have "int (ipos (?A @ M @ ?B) (length ?A + length M + 1)) = int (ipos (?A @ M @ ?B) 1) + (len + 1)"
      using len l unfolding ipos_end by (simp add: ipos_def)
    moreover have "iht (?A @ M @ ?B) (length ?A + length M + 1) = iht (?A @ M @ ?B) 1"
      unfolding iht_end[OF frag_ht[OF M]] by (auto simp: iht_def delta_def)
    ultimately show ?thesis
      using j hd unfolding at_ok_def k by (auto simp: need_def intro!: exI[of _ "length ?A + length M + 1"])
  qed
  show "at_ok (?A @ M @ ?B) (length ?A + length M + k)" if "k < length ?B" for k
  proof (rule at_ok_step)
    show "need ((?A @ M @ ?B) ! (length ?A + length M + k)) \<le> iht (?A @ M @ ?B) (length ?A + length M + k)"
      using that hd iht_end[OF frag_ht[OF M], of ?A ?B 0] by (auto simp: nth_append need_def iht_def delta_def)
  qed (use that in \<open>auto simp: nth_append is_jump_op_def\<close>)
  have "wf_ins cc ?i"
    by (rule wf_ins_plain) (use hd l in \<open>auto simp: plain_op_def REOP_COUNT_def reopcode_size_def\<close>)
  then show "\<forall>i \<in> set ?A \<union> set ?B. wf_ins cc i" using wf_ins_op by auto
  show "0 \<le> iht ?A (length ?A)" "iht ?A (length ?A) + iht ?B (length ?B) = 0"
    using hd by (simp_all add: iht_def delta_def)
qed

section \<open>Fragments inside code\<close>

lemma mem_get_mid: "j < length i \<Longrightarrow> mem_get (pre @ i @ post) (length pre + j) = mem_get i j"
  by (simp add: mem_get_def nth_append)

lemma mem_read_mid:
  "j + n \<le> length i \<Longrightarrow> mem_read (pre @ i @ post) (length pre + j) n = mem_read i j n"
  by (simp add: mem_read_def)

lemma get_u16_mid: "j + 2 \<le> length i \<Longrightarrow> get_u16 (pre @ i @ post) (length pre + j) = get_u16 i j"
  by (simp only: get_u16_def mem_read_mid)

lemma get_u32_mid: "j + 4 \<le> length i \<Longrightarrow> get_u32 (pre @ i @ post) (length pre + j) = get_u32 i j"
  by (simp only: get_u32_def mem_read_mid)

lemma wf_ins_op_size:
  assumes "wf_ins cc i"
  shows "unat (hd i) < REOP_COUNT" and "0 < length i" and "mem_get i 0 = Some (hd i)"
    and "hd i \<noteq> REOP_range \<Longrightarrow> hd i \<noteq> REOP_range32 \<Longrightarrow> length i = reopcode_size ! unat (hd i)"
proof -
  have "i \<noteq> []" and s: "instr_size i 0 = Some (length i)" using assms by (auto simp: wf_ins_def)
  then show g: "mem_get i 0 = Some (hd i)" "0 < length i" by (auto simp: mem_get_def hd_conv_nth)
  show u: "unat (hd i) < REOP_COUNT"
    using s g by (auto simp: instr_size_def Option.bind_eq_Some_conv reopcode_size_def REOP_COUNT_def)
  show "hd i \<noteq> REOP_range \<Longrightarrow> hd i \<noteq> REOP_range32 \<Longrightarrow> length i = reopcode_size ! unat (hd i)"
    using instr_size_eq[OF \<open>i \<noteq> []\<close> _ _ u] s by simp
qed

lemma wf_ins_range:
  assumes "wf_ins cc i" and "hd i = REOP_range \<and> w = 2 \<or> hd i = REOP_range32 \<and> w = 4"
  obtains n where "get_u16 i 1 = Some n" and "n \<noteq> 0" and "length i = 3 + 2 * w * unat n" and "3 \<le> length i"
proof -
  have s: "instr_size i 0 = Some (length i)" and n0: "get_u16 i 1 \<noteq> Some 0"
    using assms by (auto simp: wf_ins_def)
  obtain n where n: "get_u16 i 1 = Some n" and l: "length i = 3 + 2 * w * unat n"
    using s assms wf_ins_op_size(3)[OF assms(1)]
    by (cases "get_u16 i 1") (auto simp: instr_size_def reopcode_size_def mem_get_def split: if_splits)
  then show thesis using n0 that by auto
qed

lemma reopcode_ranges: "reopcode_size ! 21 = 3" "reopcode_size ! 22 = 3"
  by (simp_all add: reopcode_size_def)

lemma instr_size_mid:
  assumes "wf_ins cc i"
  shows "instr_size (pre @ i @ post) (length pre) = Some (length i)"
proof -
  note f = wf_ins_op_size[OF assms]
  have g: "mem_get (pre @ i @ post) (length pre) = Some (hd i)"
    using mem_get_mid[of 0 i pre post] f(2,3) by simp
  have r: "mem_get reopcode_size (unat (hd i)) = Some (reopcode_size ! unat (hd i))"
    using f(1) by (simp add: mem_get_def reopcode_size_def REOP_COUNT_def)
  consider (r16) "hd i = REOP_range" | (r32) "hd i = REOP_range32"
    | (other) "hd i \<noteq> REOP_range" "hd i \<noteq> REOP_range32" by blast
  then show ?thesis
  proof cases
    case r16
    from wf_ins_range[OF assms, of 2] r16 obtain n where
      n: "get_u16 i 1 = Some n" "length i = 3 + 2 * 2 * unat n" by blast
    then show ?thesis
      using g r r16 get_u16_mid[of 1 i pre post]
      by (simp add: instr_size_def reopcode_ranges del: mem_get_Some)
  next
    case r32
    from wf_ins_range[OF assms, of 4] r32 obtain n where
      n: "get_u16 i 1 = Some n" "length i = 3 + 2 * 4 * unat n" by blast
    then show ?thesis
      using g r r32 get_u16_mid[of 1 i pre post] by (simp add: instr_size_def reopcode_ranges del: mem_get_Some)
  next
    case other
    then show ?thesis using g r f(4) by (simp add: instr_size_def del: mem_get_Some)
  qed
qed

lemma simple_next_mid:
  assumes wf: "wf_ins cc i" and "is_simple i"
  shows "simple_next (pre @ i @ post) (hd i) (length pre) = Some (length pre + length i)"
proof -
  let ?bc = "pre @ i @ post"
  note f = wf_ins_op_size[OF wf]
  have rng: "range_next ?bc w (length pre) = Some (length pre + length i)"
    if w: "hd i = REOP_range \<and> w = 2 \<or> hd i = REOP_range32 \<and> w = 4" for w
  proof -
    obtain n where n: "get_u16 i 1 = Some n" "n \<noteq> 0" "length i = 3 + 2 * w * unat n" "3 \<le> length i"
      using wf_ins_range[OF wf w] by metis
    have "\<exists>xs. mem_read ?bc (length pre + 3) (2 * w * unat n) = Some xs"
      using n(3) by (simp add: mem_read_def)
    then obtain xs where "mem_read ?bc (length pre + 3) (2 * w * unat n) = Some xs" ..
    then show ?thesis
      using n get_u16_mid[of 1 i pre post] by (simp add: range_next_def del: mem_read_Some)
  qed
  have op: "hd i \<in> {REOP_char, REOP_char32, REOP_dot, REOP_any, REOP_range, REOP_range32,
      REOP_line_start, REOP_line_end, REOP_word_boundary, REOP_not_word_boundary}"
    using assms(2) by (auto simp: is_simple_def is_char_op_def is_test_op_def)
  then consider "hd i = REOP_range" | "hd i = REOP_range32" | "hd i = REOP_char" | "hd i = REOP_char32"
    | "hd i \<in> {REOP_dot, REOP_any, REOP_line_start, REOP_line_end, REOP_word_boundary, REOP_not_word_boundary}"
    by auto
  then show ?thesis
  proof cases
    case 3
    then have l: "length i = 3" using f(4) by (simp add: reopcode_size_def)
    then have "get_u16 i 1 \<noteq> None" by (simp add: get_u16_def mem_read_def)
    then show ?thesis using 3 l get_u16_mid[of 1 i pre post] by (auto simp: simple_next_def)
  next
    case 4
    then have l: "length i = 5" using f(4) by (simp add: reopcode_size_def)
    then have "get_u32 i 1 \<noteq> None" by (simp add: get_u32_def mem_read_def)
    then show ?thesis using 4 l get_u32_mid[of 1 i pre post] by (auto simp: simple_next_def)
  next
    case 5
    then have l: "length i = 1" using f(4) by (auto simp: reopcode_size_def)
    then show ?thesis using 5 by (auto simp: simple_next_def is_test_op_def)
  qed (use rng in \<open>auto simp: simple_next_def is_test_op_def\<close>)
qed

lemma opcode_cases:
  assumes "unat (op :: u8) < REOP_COUNT"
  shows "op \<in> {0, 1, 2, 3, 4, 5, 6, 7, 8, 9, 10, 11, 12, 13, 14, 15, 16, 17, 18, 19, 20, 21, 22, 23, 24,
    25, 26, 27, 28}"
proof -
  have "op = of_nat (unat op)" by simp
  moreover have "unat op \<in> {0, 1, 2, 3, 4, 5, 6, 7, 8, 9, 10, 11, 12, 13, 14, 15, 16, 17, 18, 19, 20, 21,
    22, 23, 24, 25, 26, 27, 28}"
    using assms unfolding REOP_COUNT_def by simp presburger
  ultimately show ?thesis by (elim insertE emptyE) (simp_all only:, simp_all)
qed

definition succ_ok :: "u8 list \<Rightarrow> nat \<Rightarrow> nat \<Rightarrow> nat \<times> nat \<Rightarrow> bool" where
  "succ_ok i pos h s \<longleftrightarrow>
     (case s of (p, h') \<Rightarrow>
       int h' = int h + delta i \<and>
       (p = pos + length i \<and> hd i \<noteq> REOP_match \<or>
        (\<exists>off. joff i = Some off \<and> int p = int (pos + length i) + off)))"

lemma jump_succs_mid:
  assumes i: "wf_ins cc i" "is_jump_op (hd i)" "hd i \<noteq> REOP_simple_greedy_quant"
    and off: "\<And>off. joff i = Some off \<Longrightarrow>
      0 \<le> int (length pre + length i) + off \<and> int (length pre + length i) + off \<le> int (length (pre @ i @ post))"
    and h: "int h' = int h + delta i"
  obtains ss where "jump_succs (pre @ i @ post) (length pre) h' falls = Some ss"
    and "\<forall>s \<in> set ss. succ_ok i (length pre) h s"
proof -
  have l: "length i = 5"
    using wf_ins_op_size(4)[OF i(1)] i(2,3) by (auto simp: is_jump_op_def reopcode_size_def)
  then have "\<exists>v. get_u32 i 1 = Some v" by (simp add: get_u32_def mem_read_def)
  then obtain v where v: "get_u32 i 1 = Some v" ..
  then have j: "joff i = Some (sint v)" using i(2) by (simp add: joff_def)
  define t where "t = nat (int (length pre + 5) + sint v)"
  have "get_u32 (pre @ i @ post) (length pre + 1) = Some v" using get_u32_mid[of 1 i pre post] v l by simp
  moreover have "jump (pre @ i @ post) (length pre + 5) v = Some t" and t: "int t = int (length pre + 5) + sint v"
    using off[OF j] l by (auto simp: jump_def t_def)
  ultimately have "jump_succs (pre @ i @ post) (length pre) h' falls =
      Some ((if falls then [(length pre + 5, h')] else []) @ [(t, h')])"
    by (simp add: jump_succs_def)
  moreover have "hd i \<noteq> REOP_match" using i(2) by (auto simp: is_jump_op_def)
  ultimately show thesis using that t j l h by (auto simp: succ_ok_def)
qed

lemma instr_succs_mid:
  assumes wf: "wf_ins cc i" and need: "need i \<le> int h"
    and push: "delta i = 1 \<Longrightarrow> h < sm"
    and off: "\<And>off. joff i = Some off \<Longrightarrow>
      0 \<le> int (length pre + length i) + off \<and> int (length pre + length i) + off \<le> int (length (pre @ i @ post))"
    and greedy: "\<And>d. hd i = REOP_simple_greedy_quant \<Longrightarrow> get_u32 i 13 = Some d \<Longrightarrow>
      simple_body (pre @ i @ post) (length pre + 17) = Some (unat d)"
  obtains ss where "instr_succs (pre @ i @ post) cc sm (length pre) h = Some ss"
    and "\<forall>s \<in> set ss. succ_ok i (length pre) h s"
proof -
  let ?bc = "pre @ i @ post"
  note f = wf_ins_op_size[OF wf]
  have g: "mem_get ?bc (length pre) = Some (hd i)" using mem_get_mid[of 0 i pre post] f(2,3) by simp
  have i0: "hd i \<noteq> REOP_invalid" using wf by (simp add: wf_ins_def)
  have at: "mem_get ?bc (length pre + k) = Some (i ! k)" if "k < length i" for k
    using mem_get_mid[OF that] that by (simp add: mem_get_def)
  consider (match) "hd i = REOP_match" | (simple) "is_simple i" | (prev) "hd i = REOP_prev"
    | (jump) "hd i \<in> {REOP_split_goto_first, REOP_split_next_first, REOP_lookahead, REOP_negative_lookahead, REOP_goto}"
    | (loop) "hd i = REOP_loop" | (bne) "hd i = REOP_bne_char_pos"
    | (save) "hd i = REOP_save_start \<or> hd i = REOP_save_end" | (reset) "hd i = REOP_save_reset"
    | (ref) "hd i = REOP_back_reference \<or> hd i = REOP_backward_back_reference"
    | (push32) "hd i = REOP_push_i32" | (pushpos) "hd i = REOP_push_char_pos" | (drop) "hd i = REOP_drop"
    | (quant) "hd i = REOP_simple_greedy_quant"
    using opcode_cases[OF f(1)] i0 by (auto simp: is_simple_def is_char_op_def is_test_op_def)
  then show thesis
  proof cases
    case match
    then show thesis using g that[of "[]"] by (simp add: instr_succs_def del: mem_get_Some)
  next
    case simple
    then have op: "hd i \<in> {REOP_char, REOP_char32, REOP_dot, REOP_any, REOP_range, REOP_range32,
        REOP_line_start, REOP_line_end, REOP_word_boundary, REOP_not_word_boundary}"
      by (auto simp: is_simple_def is_char_op_def is_test_op_def)
    have "hd i \<noteq> REOP_match" "delta i = 0" using op by (auto simp: delta_def)
    moreover have "is_char_op (hd i) \<or> is_test_op (hd i)" using simple by (simp add: is_simple_def)
    ultimately show thesis
      using g simple_next_mid[OF wf simple, of pre post] that[of "[(length pre + length i, h)]"]
      by (simp add: instr_succs_def succ_ok_def del: mem_get_Some)
  next
    case prev
    then have "length i = 1" using f(4) by (simp add: reopcode_size_def)
    then show thesis
      using g prev that[of "[(length pre + 1, h)]"]
      by (simp add: instr_succs_def succ_ok_def is_char_op_def is_test_op_def delta_def del: mem_get_Some)
  next
    case jump
    then have "is_jump_op (hd i)" "hd i \<noteq> REOP_simple_greedy_quant" "delta i = 0"
      by (auto simp: is_jump_op_def delta_def)
    from jump_succs_mid[OF wf this(1,2) off, of h h] this(3)
    obtain ss where "jump_succs ?bc (length pre) h (hd i \<noteq> REOP_goto) = Some ss"
      "\<forall>s\<in>set ss. succ_ok i (length pre) h s" by (metis add.right_neutral)
    then show thesis
      using g jump that[of ss]
      by (auto simp: instr_succs_def is_char_op_def is_test_op_def simp del: mem_get_Some)
  next
    case loop
    then have "is_jump_op (hd i)" "hd i \<noteq> REOP_simple_greedy_quant" "delta i = 0" "0 < h"
      using need by (auto simp: is_jump_op_def delta_def need_def)
    from jump_succs_mid[OF wf this(1,2) off, of h h] this(3,4)
    obtain ss where "jump_succs ?bc (length pre) h True = Some ss"
      "\<forall>s\<in>set ss. succ_ok i (length pre) h s" by (metis add.right_neutral)
    then show thesis
      using g loop \<open>0 < h\<close> that[of ss]
      by (simp add: instr_succs_def is_char_op_def is_test_op_def del: mem_get_Some)
  next
    case bne
    then have *: "is_jump_op (hd i)" "hd i \<noteq> REOP_simple_greedy_quant" "int (h - 1) = int h + delta i" "0 < h"
      using need by (auto simp: is_jump_op_def delta_def need_def)
    from jump_succs_mid[OF wf *(1,2) off *(3)]
    obtain ss where "jump_succs ?bc (length pre) (h - 1) True = Some ss"
      "\<forall>s\<in>set ss. succ_ok i (length pre) h s" by metis
    then show thesis
      using g bne \<open>0 < h\<close> that[of ss]
      by (simp add: instr_succs_def is_char_op_def is_test_op_def del: mem_get_Some)
  next
    case save
    then have "length i = 2" "unat (i ! 1) < cc" using f(4) wf by (auto simp: reopcode_size_def wf_ins_def)
    then show thesis
      using g at[of 1] save that[of "[(length pre + 2, h)]"]
      by (auto simp: instr_succs_def succ_ok_def is_char_op_def is_test_op_def delta_def simp del: mem_get_Some)
  next
    case reset
    then have "length i = 3" "unat (i ! 2) < cc" using f(4) wf by (auto simp: reopcode_size_def wf_ins_def)
    then show thesis
      using g at[of 1] at[of 2] reset that[of "[(length pre + 3, h)]"]
      by (auto simp: instr_succs_def succ_ok_def is_char_op_def is_test_op_def delta_def simp del: mem_get_Some)
  next
    case ref
    then have "length i = 2" using f(4) by (auto simp: reopcode_size_def)
    then show thesis
      using g at[of 1] ref that[of "[(length pre + 2, h)]"]
      by (auto simp: instr_succs_def succ_ok_def is_char_op_def is_test_op_def delta_def simp del: mem_get_Some)
  next
    case push32
    then have l: "length i = 5" and d: "delta i = 1" using f(4) by (auto simp: reopcode_size_def delta_def)
    then have "\<exists>v. get_u32 ?bc (length pre + 1) = Some v" by (simp add: get_u32_def mem_read_def)
    then obtain v where "get_u32 ?bc (length pre + 1) = Some v" ..
    then show thesis
      using g push32 push[OF d] l that[of "[(length pre + 5, h + 1)]"]
      by (auto simp: instr_succs_def succ_ok_def is_char_op_def is_test_op_def delta_def simp del: mem_get_Some)
  next
    case pushpos
    then have l: "length i = 1" and d: "delta i = 1" using f(4) by (auto simp: reopcode_size_def delta_def)
    then show thesis
      using g pushpos push[OF d] that[of "[(length pre + 1, h + 1)]"]
      by (auto simp: instr_succs_def succ_ok_def is_char_op_def is_test_op_def delta_def simp del: mem_get_Some)
  next
    case drop
    then have "length i = 1" "0 < h" using f(4) need by (auto simp: reopcode_size_def need_def)
    then show thesis
      using g drop that[of "[(length pre + 1, h - 1)]"]
      by (auto simp: instr_succs_def succ_ok_def is_char_op_def is_test_op_def delta_def simp del: mem_get_Some)
  next
    case quant
    then have l: "length i = 17" using f(4) by (auto simp: reopcode_size_def)
    then have "\<exists>v. get_u32 i 1 = Some v" "\<exists>d. get_u32 i 13 = Some d"
      "\<exists>xs. mem_read ?bc (length pre + 1) 16 = Some xs"
      by (simp_all add: get_u32_def mem_read_def)
    then obtain v d xs where v: "get_u32 i 1 = Some v" and d: "get_u32 i 13 = Some d"
      and xs: "mem_read ?bc (length pre + 1) 16 = Some xs" by blast
    have j: "joff i = Some (sint v)" using quant v by (simp add: joff_def is_jump_op_def)
    define t where "t = nat (int (length pre + 17) + sint v)"
    have jt: "jump ?bc (length pre + 17) v = Some t" and t: "int t = int (length pre + 17) + sint v"
      using off[OF j] l by (auto simp: jump_def t_def)
    have "get_u32 ?bc (length pre + 1) = Some v" "get_u32 ?bc (length pre + 13) = Some d"
      using get_u32_mid[of 1 i pre post] get_u32_mid[of 13 i pre post] v d l by simp_all
    then have "instr_succs ?bc cc sm (length pre) h = Some [(t, h)]"
      using g quant jt greedy[OF quant d] xs
      by (simp add: instr_succs_def is_char_op_def is_test_op_def del: mem_get_Some mem_read_Some)
    moreover have "succ_ok i (length pre) h (t, h)"
      using t j l quant by (auto simp: succ_ok_def delta_def)
    ultimately show thesis using that[of "[(t, h)]"] by simp
  qed
qed

section \<open>Code made of fragments passes the verifier\<close>

lemma nth_mid: "i \<noteq> [] \<Longrightarrow> (pre @ i @ post) ! length pre = hd i"
  by (simp add: nth_append hd_conv_nth)

lemma heights_code:
  assumes "\<forall>i \<in> set L. wf_ins cc i" and "length L \<le> n" and "\<And>k. k \<le> length L \<Longrightarrow> 0 \<le> int h + iht L k"
  shows "heights n (pre @ concat L @ post) (length pre) (length pre + length (concat L)) h =
    map (\<lambda>k. (length pre + ipos L k, nat (int h + iht L k))) [0..<length L]"
  using assms
proof (induction L arbitrary: n pre h)
  case Nil
  then show ?case by (cases n) simp_all
next
  case (Cons i L)
  then obtain m where n: "n = Suc m" by (cases n) auto
  have i: "wf_ins cc i" using Cons.prems by simp
  note f = wf_ins_op_size[OF i]
  let ?h = "height_after (hd i) h"
  have "0 \<le> int h + delta i" using Cons.prems(3)[of 1] by (simp add: iht_def)
  then have h: "int ?h = int h + delta i" by (auto simp: height_after_def delta_def)
  have pos: "0 \<le> int ?h + iht L k" if "k \<le> length L" for k
    using Cons.prems(3)[of "Suc k"] that h by (simp add: iht_Cons add.assoc)
  have "heights n (pre @ concat (i # L) @ post) (length pre) (length pre + length (concat (i # L))) h =
      (length pre, h) # heights m ((pre @ i) @ concat L @ post) (length (pre @ i))
        (length (pre @ i) + length (concat L)) ?h"
    using instr_size_mid[OF i, of pre "concat L @ post"] f(2) nth_mid[of i pre "concat L @ post"]
    by (simp add: n add.assoc)
  also have "\<dots> = (length pre, h) #
      map (\<lambda>k. (length (pre @ i) + ipos L k, nat (int ?h + iht L k))) [0..<length L]"
    using Cons.IH[of m ?h "pre @ i"] Cons.prems n pos by simp
  also have "\<dots> = map (\<lambda>k. (length pre + ipos (i # L) k, nat (int h + iht (i # L) k))) [0..<length (i # L)]"
    by (simp add: upt_conv_Cons map_Suc_upt[symmetric] ipos_Cons iht_Cons h add.assoc
        del: upt_Suc map_Suc_upt)
  finally show ?case .
qed

lemma simple_body_code:
  assumes "\<forall>i \<in> set body. wf_ins cc i \<and> is_simple i"
  shows "simple_body (pre @ concat body @ REOP_match # post) (length pre) =
    Some (length (filter (\<lambda>i. is_char_op (hd i)) body))"
  using assms
proof (induction body arbitrary: pre)
  case Nil
  then show ?case by (subst simple_body.simps) simp
next
  case (Cons i body)
  let ?bc = "pre @ i @ (concat body @ REOP_match # post)"
  have i: "wf_ins cc i" "is_simple i" using Cons.prems by auto
  note f = wf_ins_op_size[OF i(1)]
  have nth: "?bc ! length pre = hd i" by (rule nth_mid) (use f(2) in auto)
  have "hd i \<noteq> REOP_match" using i(2) by (auto simp: is_simple_def is_char_op_def is_test_op_def)
  then show ?case
    using simple_next_mid[OF i, of pre "concat body @ REOP_match # post"] Cons.IH[of "pre @ i"] Cons.prems nth f(2)
    by (subst simple_body.simps) (simp add: nth_append)
qed

lemma frag_ht_nonneg:
  assumes "frag cc M" and "k \<le> length M"
  shows "0 \<le> iht M k"
  using assms(2)
proof (induction k)
  case 0
  then show ?case by simp
next
  case (Suc k)
  then have "at_ok M k" "0 \<le> iht M k" using assms(1) by (auto simp: frag_def)
  then have "need (M ! k) \<le> iht M k" by (simp add: at_ok_def)
  then show ?case
    using Suc.prems \<open>0 \<le> iht M k\<close> by (auto simp: iht_Suc need_def delta_def split: if_splits)
qed

lemma ipos_strict:
  assumes "\<forall>i \<in> set L. i \<noteq> []" and "j < k" and "k \<le> length L"
  shows "ipos L j < ipos L k"
  using assms(2,3)
proof (induction k)
  case (Suc k)
  have "L ! k \<noteq> []" using assms(1) Suc.prems by simp
  then have "ipos L k < ipos L (Suc k)" using Suc.prems by (simp add: ipos_Suc)
  then show ?case using Suc by (cases "j = k") auto
qed simp

lemma index_le_ipos: "\<forall>i \<in> set L. i \<noteq> [] \<Longrightarrow> k \<le> length L \<Longrightarrow> k \<le> ipos L k"
proof (induction k)
  case (Suc k)
  have "ipos L k < ipos L (Suc k)" by (rule ipos_strict) (use Suc.prems in auto)
  then show ?case using Suc by simp
qed simp

text \<open>
  Closed code: a fragment and the final \<open>match\<close>, which no instruction leaves.
\<close>

abbreviation (input) closed :: "u8 list list \<Rightarrow> u8 list list" where
  "closed M \<equiv> M @ [[REOP_match]]"

lemma closed_wf:
  assumes "frag cc M"
  shows "\<forall>i \<in> set (closed M). wf_ins cc i" and "\<forall>i \<in> set (closed M). i \<noteq> []"
  using assms wf_ins_op by (auto simp: frag_def wf_ins_def)

lemma closed_ht_nonneg: "frag cc M \<Longrightarrow> k \<le> length (closed M) \<Longrightarrow> 0 \<le> iht (closed M) k"
  using frag_ht_nonneg[of cc M k] frag_ht[of cc M] iht_right[of M "[[REOP_match]]" 1]
  by (cases "k \<le> length M") (auto simp: iht_Cons delta_def le_Suc_eq)

lemma closed_at_ok:
  assumes "frag cc M" and "k < length M"
  shows "closed M ! k = M ! k" and "at_ok (closed M) k"
  using at_ok_embed[OF frag_at_ok[OF assms] assms(2), of "[]" "[[REOP_match]]"] assms(2)
  by (simp_all add: nth_append)

lemma closed_last: "k < length (closed M) \<Longrightarrow> \<not> k < length M \<Longrightarrow> closed M ! k = [REOP_match]"
  by (simp add: nth_append)

lemma closed_jump:
  assumes M: "frag cc M" and k: "k < length (closed M)" and off: "joff (closed M ! k) = Some off"
  obtains j where "j < length (closed M)" and "int (ipos (closed M) j) = int (ipos (closed M) (k + 1)) + off"
    and "iht (closed M) j = iht (closed M) (k + 1)"
proof -
  have kM: "k < length M"
    using closed_last[OF k] off by (cases "k < length M") (auto simp: joff_def is_jump_op_def)
  then have "joff (M ! k) = Some off" using closed_at_ok(1)[OF M] off by simp
  from at_ok_jumpE[OF frag_at_ok[OF M kM] this] obtain j where
    "j \<le> length M" "int (ipos M j) = int (ipos M (k + 1)) + off" "iht M j = iht M (k + 1)" .
  then show thesis using kM that[of j] by simp
qed

lemma closed_simple_body:
  assumes M: "frag cc M" and k: "k < length (closed M)" and op: "hd (closed M ! k) = REOP_simple_greedy_quant"
    and d: "get_u32 (closed M ! k) 13 = Some d"
  shows "simple_body (pre @ closed M ! k @ concat (drop (k + 1) (closed M)) @ post) (length pre + 17) = Some (unat d)"
proof -
  have "k < length M" using closed_last[OF k] op by (cases "k < length M") auto
  then have "greedy_ok (closed M) k" using closed_at_ok(2)[OF M] closed_at_ok(1)[OF M] op by (simp add: at_ok_def)
  then obtain body rest where b: "drop (k + 1) (closed M) = body @ [REOP_match] # rest"
    "\<forall>i\<in>set body. is_simple i"
    "get_u32 (closed M ! k) 13 = Some (of_nat (length (filter (\<lambda>i. is_char_op (hd i)) body)))"
    "length body < 2 ^ 32"
    by (auto simp: greedy_ok_def)
  have "set body \<subseteq> set (closed M)" using b(1) set_drop_subset[of "k + 1" "closed M"] by auto
  then have "\<forall>i\<in>set body. wf_ins cc i \<and> is_simple i" using b(2) closed_wf(1)[OF M] by auto
  moreover have "wf_ins cc (closed M ! k)" using closed_wf(1)[OF M] nth_mem[OF k] by blast
  then have "length (closed M ! k) = 17"
    using wf_ins_op_size(4)[of cc "closed M ! k"] op by (simp add: reopcode_size_def)
  moreover have "length (filter (\<lambda>i. is_char_op (hd i)) body) < 2 ^ 32"
    using b(4) length_filter_le[of "\<lambda>i. is_char_op (hd i)" body] by linarith
  then have "unat d = length (filter (\<lambda>i. is_char_op (hd i)) body)" using b(3) d by (auto simp: unat_of_nat)
  ultimately show ?thesis
    using simple_body_code[of body cc "pre @ closed M ! k" "concat rest @ post"] b(1) by simp
qed

text \<open>Each instruction of closed code passes the check, and its successors are instructions of it.\<close>

lemma closed_instr_succs:
  assumes M: "frag cc M" and k: "k < length (closed M)"
    and push: "\<And>k. k < length M \<Longrightarrow> delta (M ! k) = 1 \<Longrightarrow> iht M k < int sm"
  obtains ss where
    "instr_succs (hdr @ concat (closed M) @ post) cc sm (length hdr + ipos (closed M) k) (nat (iht (closed M) k)) = Some ss"
    and "\<forall>(p, h) \<in> set ss. \<exists>j < length (closed M).
      p = length hdr + ipos (closed M) j \<and> h = nat (iht (closed M) j)"
proof -
  let ?L = "closed M" and ?i = "closed M ! k"
  define pre where "pre = hdr @ concat (take k ?L)"
  define post' where "post' = concat (drop (k + 1) ?L) @ post"
  have "?L = take k ?L @ ?i # drop (k + 1) ?L" using id_take_nth_drop[OF k] by simp
  then have "concat ?L = concat (take k ?L) @ ?i @ concat (drop (k + 1) ?L)"
    by (metis concat.simps(2) concat_append)
  then have bc: "hdr @ concat ?L @ post = pre @ ?i @ post'" by (simp add: pre_def post'_def)
  have lpre: "length pre = length hdr + ipos ?L k" by (simp add: pre_def ipos_def)
  have wf: "wf_ins cc ?i" using closed_wf(1)[OF M] nth_mem[OF k] by blast
  have nonneg: "0 \<le> iht ?L k" using closed_ht_nonneg[OF M, of k] k by simp
  have inM: "k < length M \<and> ?i = M ! k \<and> at_ok ?L k" if "hd ?i \<noteq> REOP_match"
    using closed_at_ok[OF M, of k] closed_last[OF k] that by (cases "k < length M") auto
  have pk: "length hdr + ipos ?L (k + 1) = length pre + length ?i"
    using k lpre by (simp only: ipos_Suc Suc_eq_plus1[symmetric])
  obtain ss where ss: "instr_succs (pre @ ?i @ post') cc sm (length pre) (nat (iht ?L k)) = Some ss"
    "\<forall>s \<in> set ss. succ_ok ?i (length pre) (nat (iht ?L k)) s"
  proof (rule instr_succs_mid[OF wf])
    show "need ?i \<le> int (nat (iht ?L k))"
      using inM nonneg by (cases "hd ?i = REOP_match") (auto simp: at_ok_def need_def)
    show "nat (iht ?L k) < sm" if "delta ?i = 1"
    proof -
      have "hd ?i \<noteq> REOP_match" using that by (auto simp: delta_def)
      then show ?thesis using push[of k] inM that nonneg by (simp add: nat_less_iff)
    qed
    show "0 \<le> int (length pre + length ?i) + off \<and>
        int (length pre + length ?i) + off \<le> int (length (pre @ ?i @ post'))" if off: "joff ?i = Some off" for off
    proof -
      obtain j where j: "j < length ?L" "int (ipos ?L j) = int (ipos ?L (k + 1)) + off"
        using closed_jump[OF M k off] by metis
      have "ipos ?L j \<le> ipos ?L (length ?L)" using ipos_strict[OF closed_wf(2)[OF M], of j "length ?L"] j(1) by simp
      then have "length hdr + ipos ?L j \<le> length (pre @ ?i @ post')"
        unfolding bc[symmetric] by (simp add: ipos_def)
      then show ?thesis using j(2) pk by linarith
    qed
    show "simple_body (pre @ ?i @ post') (length pre + 17) = Some (unat d)"
      if "hd ?i = REOP_simple_greedy_quant" "get_u32 ?i 13 = Some d" for d
      unfolding post'_def by (rule closed_simple_body[OF M k that])
  qed
  have "\<exists>j < length ?L. p = length hdr + ipos ?L j \<and> h = nat (iht ?L j)" if "(p, h) \<in> set ss" for p h
  proof -
    have s: "succ_ok ?i (length pre) (nat (iht ?L k)) (p, h)" using ss(2) that by blast
    have "int h = iht ?L (k + 1)"
      using s nonneg iht_Suc[OF k] by (simp add: succ_ok_def)
    then have h: "h = nat (iht ?L (k + 1))" by simp
    consider "p = length pre + length ?i" "hd ?i \<noteq> REOP_match"
      | off where "joff ?i = Some off" "int p = int (length pre + length ?i) + off"
      using s by (auto simp: succ_ok_def)
    then show ?thesis
    proof cases
      case 1
      then show ?thesis using inM pk h by (intro exI[of _ "k + 1"]) simp
    next
      case 2
      obtain j where j: "j < length ?L" "int (ipos ?L j) = int (ipos ?L (k + 1)) + off" "iht ?L j = iht ?L (k + 1)"
        using closed_jump[OF M k 2(1)] .
      then have "p = length hdr + ipos ?L j" using 2(2) pk by linarith
      then show ?thesis using j h by auto
    qed
  qed
  then show thesis using that[of ss] ss(1) bc lpre by auto
qed

theorem frag_bytecode_ok:
  assumes M: "frag cc M" and bc: "bc = hdr @ concat (closed M) @ post"
    and hdr: "length hdr = RE_HEADER_LEN" and n: "get_u32 bc 3 = Some n" "unat n = length (concat (closed M))"
    and cc: "unat (bc ! RE_HEADER_CAPTURE_COUNT) = cc"
    and push: "\<And>k. k < length M \<Longrightarrow> delta (M ! k) = 1 \<Longrightarrow> iht M k < int (unat (bc ! RE_HEADER_STACK_SIZE))"
  shows "bytecode_ok bc"
proof -
  let ?L = "closed M"
  note ne = closed_wf(2)[OF M]
  from index_le_ipos[OF ne, of "length ?L"] have len: "length ?L \<le> length bc" by (simp add: ipos_def bc)
  define hs where "hs = map (\<lambda>k. (RE_HEADER_LEN + ipos ?L k, nat (iht ?L k))) [0..<length ?L]"
  have heights: "heights (length bc) bc RE_HEADER_LEN (RE_HEADER_LEN + unat n) 0 = hs"
    using heights_code[OF closed_wf(1)[OF M] len, of 0 hdr post] closed_ht_nonneg[OF M] hdr bc n(2)
    by (simp add: hs_def)
  have "inj_on (\<lambda>k. RE_HEADER_LEN + ipos ?L k) {0..<length ?L}"
  proof (rule inj_onI)
    fix j k assume "j \<in> {0..<length ?L}" "k \<in> {0..<length ?L}"
      and "RE_HEADER_LEN + ipos ?L j = RE_HEADER_LEN + ipos ?L k"
    then show "j = k" using ipos_strict[OF ne, of j k] ipos_strict[OF ne, of k j] by force
  qed
  then have "distinct (map fst hs)" by (simp only: hs_def map_map comp_def fst_conv distinct_map distinct_upt set_upt)
  then have at: "map_of hs (RE_HEADER_LEN + ipos ?L k) = Some (nat (iht ?L k))" if "k < length ?L" for k
  proof (rule map_of_is_SomeI)
    show "(RE_HEADER_LEN + ipos ?L k, nat (iht ?L k)) \<in> set hs"
      unfolding hs_def set_map using that by (intro image_eqI[of _ _ k]) (simp_all only: atLeastLessThan_iff set_upt le0 simp_thms)
  qed
  have "\<exists>ss. instr_succs bc cc (unat (bc ! RE_HEADER_STACK_SIZE)) (RE_HEADER_LEN + ipos ?L k) (nat (iht ?L k)) = Some ss \<and>
      (\<forall>(p, h) \<in> set ss. map_of hs p = Some h)" if k: "k < length ?L" for k
  proof -
    obtain ss where "instr_succs bc cc (unat (bc ! RE_HEADER_STACK_SIZE)) (RE_HEADER_LEN + ipos ?L k) (nat (iht ?L k)) = Some ss"
      and ss: "\<forall>(p, h) \<in> set ss. \<exists>j < length ?L. p = RE_HEADER_LEN + ipos ?L j \<and> h = nat (iht ?L j)"
      using closed_instr_succs[OF M k push, of hdr post] unfolding bc[symmetric] hdr by blast
    moreover have "\<forall>(p, h) \<in> set ss. map_of hs p = Some h" using ss at by fast
    ultimately show ?thesis by blast
  qed
  note succs = this
  have "check_heights bc cc (unat (bc ! RE_HEADER_STACK_SIZE)) hs"
    unfolding check_heights_def list_all_iff
  proof (clarsimp simp del: upt_Suc)
    fix p h assume "(p, h) \<in> set hs"
    then obtain k where "k < length ?L" "p = RE_HEADER_LEN + ipos ?L k" "h = nat (iht ?L k)"
      by (auto simp only: hs_def set_map set_upt atLeastLessThan_iff)
    then show "case instr_succs bc cc (unat (bc ! RE_HEADER_STACK_SIZE)) p h of None \<Rightarrow> False
        | Some ss \<Rightarrow> \<forall>(p, h') \<in> set ss. map_of hs p = Some h'"
      using succs[of k] by auto
  qed
  moreover have "map_of hs RE_HEADER_LEN = Some 0" using at[of 0] by simp
  ultimately show ?thesis
    using n(1) cc hdr heights by (simp add: bytecode_ok_def bc)
qed

end
