(* ===== verification/Unicode_Even.thy ===== *)
theory Unicode_Even
  imports Unicode_Props
begin

text \<open>
  Every range that the decoders and the range operations produce without an allocation failure
  (return code \<open>-1\<close>) has an even number of points, with no hypothesis on the order of the points or on the allocator. The class
  compiler, which emits the points in pairs, relies on it.
\<close>

named_theorems even_intros \<open>successful results have an even number of points\<close>

definition even_res :: "(int \<times> char_range) option \<Rightarrow> bool" where
  "even_res res \<longleftrightarrow> (\<forall>r cr. res = Some (r, cr) \<longrightarrow> r \<noteq> -1 \<longrightarrow> even (cr_len cr))"

lemma even_resD: "even_res res \<Longrightarrow> res = Some (0, cr) \<Longrightarrow> even (cr_len cr)"
  by (simp add: even_res_def)

lemma even_resD': "even_res res \<Longrightarrow> res = Some (r, cr) \<Longrightarrow> r \<noteq> -1 \<Longrightarrow> even (cr_len cr)"
  by (simp add: even_res_def)

lemma even_res_Some [simp]: "even_res (Some (r, cr)) \<longleftrightarrow> r = -1 \<or> even (cr_len cr)"
  by (auto simp: even_res_def)

lemma even_res_None [simp]: "even_res None"
  by (simp add: even_res_def)

lemma even_res_bind:
  "(\<And>x. res = Some x \<Longrightarrow> even_res (f x)) \<Longrightarrow> even_res (Option.bind res f)"
  by (cases res) auto

lemma even_res_if:
  "(P \<Longrightarrow> even_res a) \<Longrightarrow> (\<not> P \<Longrightarrow> even_res b) \<Longrightarrow> even_res (if P then a else b)"
  by simp

lemma cr_len_init [simp]: "cr_len (cr_init h) = 0"
  by (simp add: cr_init_def)

section \<open>Range operations\<close>

lemma even_compress_loop: "even k \<Longrightarrow> even (snd (cr_compress_loop pt len i k))"
proof (induction pt len i k rule: cr_compress_loop.induct)
  case (1 pt len i k)
  show ?case
    by (subst cr_compress_loop.simps) (use 1 in \<open>auto simp: Let_def\<close>)
qed

lemma even_compress: "cr_compress cr = Some cr' \<Longrightarrow> even (cr_len cr')"
  using even_compress_loop[of 0 "cr_points cr" "cr_len cr" 0]
  by (auto simp: cr_compress_def split: if_splits prod.splits)

lemma even_op [even_intros]: "even_res (cr_op cr a n b m op)"
  by (auto simp: cr_op_def even_res_def Option.bind_eq_Some_conv dest: even_compress split: if_splits)

lemma even_union1 [even_intros]: "even_res (cr_union1 cr b n)"
  by (simp add: cr_union1_def even_op)

lemma even_union_interval [even_intros]: "even_res (cr_union_interval cr a b)"
  by (simp add: cr_union_interval_def even_union1)

lemma even_invert [even_intros]: "even_res (cr_invert cr)"
  by (auto simp: cr_invert_def even_res_def Option.bind_eq_Some_conv dest: even_compress split: if_splits)

lemma cr_realloc_len: "cr_realloc cr n = Some (r, cr') \<Longrightarrow> cr_len cr' = cr_len cr"
  by (auto simp: cr_realloc_def Let_def split: if_splits option.splits prod.splits)

lemma even_add_interval [even_intros]: "even (cr_len cr) \<Longrightarrow> even_res (cr_add_interval cr a b)"
  by (auto simp: cr_add_interval_def even_res_def Option.bind_eq_Some_conv dest!: cr_realloc_len
      split: if_splits)

lemma even_copy [even_intros]: "even (cr_len cr1) \<Longrightarrow> even_res (cr_copy cr cr1)"
  by (auto simp: cr_copy_def even_res_def Option.bind_eq_Some_conv split: if_splits)

lemma cr_add_point_len: "cr_add_point cr v = Some (0, cr') \<Longrightarrow> cr_len cr' = cr_len cr + 1"
  by (auto simp: cr_add_point_def Option.bind_eq_Some_conv dest!: cr_realloc_len split: if_splits)

section \<open>Decoders\<close>

lemma even_add_or_fail [even_intros]:
  assumes "even (cr_len cr)" and "\<And>cr. even (cr_len cr) \<Longrightarrow> even_res (k cr)"
  shows "even_res (add_or_fail cond cr a b k)"
  unfolding add_or_fail_def
  by (auto intro!: even_res_bind assms dest: even_resD[OF even_add_interval[OF assms(1)]])

lemma even_prop1_loop [even_intros]: "even (cr_len cr) \<Longrightarrow> even_res (prop1_loop cr c inb p)"
proof (induction "length p" arbitrary: cr c inb p rule: less_induct)
  case less
  show ?case
  proof (cases p)
    case (Cons b q)
    then show ?thesis
      using less
      by (auto simp: Let_def intro!: even_add_or_fail dest: long_run_length split: option.splits)
  qed (use less in simp)
qed

lemma even_prop1 [even_intros]: "even (cr_len cr) \<Longrightarrow> even_res (unicode_prop1 cr i)"
  unfolding unicode_prop1_def by (intro even_res_bind even_prop1_loop)

lemma even_every_second [even_intros]: "even (cr_len cr) \<Longrightarrow> even_res (add_every_second cr c0 c)"
proof (induction "unat c - unat c0" arbitrary: cr c0 rule: less_induct)
  case less
  show ?case
    by (subst add_every_second.simps)
       (use less in \<open>auto intro!: even_add_or_fail less(1) simp: word_less_nat_alt unat_word_ariths\<close>)
qed

lemma even_gc1_entry [even_intros]: "even (cr_len cr) \<Longrightarrow> even_res (gc1_entry cr m c0 c v)"
  by (simp add: gc1_entry_def Let_def even_add_interval even_every_second)

lemma even_gc1_loop [even_intros]: "even (cr_len cr) \<Longrightarrow> even_res (gc1_loop cr m c0 p)"
proof (induction "length p" arbitrary: cr c0 p rule: less_induct)
  case less
  show ?case
  proof (cases p)
    case (Cons b q)
    then show ?thesis
      using less
      by (auto dest!: gc_entry_length even_resD[OF even_gc1_entry, rotated] split: option.splits)
  qed (use less in simp)
qed

lemma even_category1 [even_intros]: "even (cr_len cr) \<Longrightarrow> even_res (unicode_general_category1 cr m)"
  by (simp add: unicode_general_category1_def even_gc1_loop)

lemma even_alternate [even_intros]: "even (cr_len cr) \<Longrightarrow> even_res (add_alternate cr code i n)"
proof (induction "n - i" arbitrary: cr i rule: less_induct)
  case less
  show ?case by (subst add_alternate.simps) (use less in \<open>auto intro!: even_add_or_fail\<close>)
qed

lemma even_case1_entry [even_intros]: "even (cr_len cr) \<Longrightarrow> even_res (case1_entry cr m v)"
  by (auto simp: case1_entry_def Let_def intro!: even_alternate even_add_or_fail)

lemma even_case1_loop [even_intros]: "even (cr_len cr) \<Longrightarrow> even_res (case1_loop cr m rm vs)"
  by (induction cr m rm vs rule: case1_loop.induct)
     (auto dest: even_resD[OF even_case1_entry] split: option.splits)

lemma even_case1 [even_intros]: "even (cr_len cr) \<Longrightarrow> even_res (unicode_case1 cr m)"
  by (simp add: unicode_case1_def even_case1_loop)

section \<open>Properties, categories and scripts by name\<close>

lemma even_prop_push:
  assumes "prop_push f stack h = Some (0, stack', h')" and "list_all (\<lambda>c. even (cr_len c)) stack"
    and "even_res (f (cr_init h))"
  shows "list_all (\<lambda>c. even (cr_len c)) stack'"
  using assms by (auto simp: prop_push_def Option.bind_eq_Some_conv dest: even_resD split: if_splits)

lemma even_prop_step:
  assumes "prop_step op stack h = Some (0, stack', h')" and "list_all (\<lambda>c. even (cr_len c)) stack"
  shows "list_all (\<lambda>c. even (cr_len c)) stack'"
proof -
  have bin: "prop_binop b stack h = Some (0, stack', h') \<Longrightarrow> ?thesis" for b
    using assms(2)
    by (auto simp: prop_binop_def Option.bind_eq_Some_conv dest: even_resD[OF even_op]
        split: list.splits if_splits)
  show ?thesis
    using assms bin
    by (cases op)
       (auto simp: prop_invert_def Option.bind_eq_Some_conv
         dest: even_prop_push even_resD[OF even_invert] intro!: even_category1 even_prop1 even_case1
         elim!: even_prop_push split: list.splits)
qed

lemma even_prop_ops_loop:
  "list_all (\<lambda>c. even (cr_len c)) stack \<Longrightarrow> even_res (prop_ops_loop cr ops stack h)"
proof (induction cr ops stack h rule: prop_ops_loop.induct)
  case (2 cr op ops stack h)
  show ?case
  proof (cases "op = POP_END")
    case True
    then show ?thesis using 2(2) by (auto intro: even_copy split: list.splits)
  next
    case False
    then show ?thesis
      using 2 by (auto intro!: even_res_bind 2(1) elim: even_prop_step)
  qed
qed simp

lemma even_prop_ops [even_intros]: "even_res (unicode_prop_ops cr ops)"
  by (simp add: unicode_prop_ops_def even_prop_ops_loop)

lemma even_prop [even_intros]: "even (cr_len cr) \<Longrightarrow> even_res (unicode_prop cr name)"
  unfolding unicode_prop_def Let_def
  by (intro even_res_bind even_res_if even_case1)
     (auto intro!: even_prop_ops even_prop1 dest: even_resD[OF even_add_interval, rotated]
       split: option.splits prod.splits)

lemma even_category [even_intros]: "even (cr_len cr) \<Longrightarrow> even_res (unicode_general_category cr name)"
  unfolding unicode_general_category_def by (auto intro!: even_res_bind even_category1)

lemma even_script_loop [even_intros]: "even (cr_len cr) \<Longrightarrow> even_res (script_loop cr s c p)"
proof (induction "length p" arbitrary: cr c p rule: less_induct)
  case less
  show ?case
  proof (cases p)
    case (Cons b q)
    then show ?thesis
      using less by (auto intro!: even_add_or_fail dest: script_entry_length split: option.splits)
  qed (use less in simp)
qed

lemma or_hang_even: "or_hang res = Some cr \<Longrightarrow> even_res res \<Longrightarrow> even (cr_len cr)"
  by (auto simp: or_hang_def Option.bind_eq_Some_conv split: if_splits)

lemma even_script [even_intros]: "even (cr_len cr) \<Longrightarrow> even_res (unicode_script cr name is_ext)"
  unfolding unicode_script_def
  by (auto simp: Let_def simp del: even_res_Some intro!: even_res_bind even_res_if)
     (auto dest!: or_hang_even[OF _ even_script_loop] or_hang_even[OF _ even_op])

end
