(* ===== verification/Regexp_Sound.thy ===== *)
theory Regexp_Sound
  imports Regexp_Parse Regexp_Fragment Regexp_Safe Unicode_Even
begin

text \<open>
  What the compiler produces is made of fragments, so it passes the verifier, so the matcher runs
  it without undefined behaviour. The statements are about runs that succeed: the sticky error
  flag of the buffer is clear at the end, hence no emission on the way has failed.
\<close>

named_theorems produces_intros \<open>successful steps of the compiler append fragments\<close>

abbreviation code :: "re_parse_state \<Rightarrow> u8 list" where
  "code s \<equiv> dbuf_data (byte_code s)"

definition good :: "re_parse_state \<Rightarrow> bool" where
  "good s \<longleftrightarrow> dbuf_wf (byte_code s) \<and> \<not> derror (byte_code s) \<and> allocated_size (byte_code s) < 2 ^ 31"

definition later :: "re_parse_state \<Rightarrow> re_parse_state \<Rightarrow> bool" where
  "later s s' \<longleftrightarrow>
     dbuf_wf (byte_code s') \<and> allocated_size (byte_code s) \<le> allocated_size (byte_code s') \<and>
     (derror (byte_code s) \<longrightarrow> derror (byte_code s'))"

lemma later_good: "later s s' \<Longrightarrow> dbuf_wf (byte_code s) \<Longrightarrow> good s' \<Longrightarrow> good s"
  by (auto simp: later_def good_def)

lemma later_trans: "later s s1 \<Longrightarrow> later s1 s2 \<Longrightarrow> later s s2"
  by (auto simp: later_def)

lemma later_refl: "dbuf_wf (byte_code s) \<Longrightarrow> later s s"
  by (simp add: later_def)

lemma good_wf: "good s \<Longrightarrow> dbuf_wf (byte_code s)"
  by (simp add: good_def)

lemma good_size:
  assumes "good s"
  shows "code_size s = length (code s)" and "code_len s = int (length (code s))" and "length (code s) < 2 ^ 31"
proof -
  show l: "code_size s = length (code s)"
    using assms by (simp add: good_def code_size_def length_dbuf_data)
  show "length (code s) < 2 ^ 31" using assms l by (auto simp: good_def code_size_def dbuf_wf_def)
  then show "code_len s = int (length (code s))"
    unfolding code_len_def int_of_size_def l by (simp add: sint_u31 unat_of_nat)
qed

section \<open>Emitters\<close>

definition emits :: "re_parse_state \<Rightarrow> re_parse_state \<Rightarrow> u8 list \<Rightarrow> bool" where
  "emits s s' xs \<longleftrightarrow>
     (dbuf_wf (byte_code s) \<longrightarrow>
       later s s' \<and> ps_capture_count s' = ps_capture_count s \<and> (good s' \<longrightarrow> code s' = code s @ xs))"

lemma emits_trans: "emits s s1 xs \<Longrightarrow> emits s1 s2 ys \<Longrightarrow> emits s s2 (xs @ ys)"
  unfolding emits_def using later_good later_trans by (auto simp: later_def)

lemma emits_Nil: "emits s s []"
  by (simp add: emits_def later_refl)

lemma dbuf_realloc_grows:
  "dbuf_realloc b n = Some (r, b') \<Longrightarrow> allocated_size b \<le> allocated_size b' \<and> (derror b \<longrightarrow> derror b')"
  by (auto simp: dbuf_realloc_def Let_def split: if_splits prod.splits option.splits)

lemma dbuf_put_grows:
  "dbuf_put b xs = Some (r, b') \<Longrightarrow> allocated_size b \<le> allocated_size b' \<and> (derror b \<longrightarrow> derror b')"
  by (auto simp: dbuf_put_def Let_def Option.bind_eq_Some_conv dest!: dbuf_realloc_grows split: if_splits)

lemma emits_put:
  assumes "dbuf_put (byte_code s) xs = Some (r, b)" and "length xs \<le> PTRDIFF_MAX"
  shows "emits s (s\<lparr>byte_code := b\<rparr>) xs"
  unfolding emits_def
proof
  assume wf: "dbuf_wf (byte_code s)"
  from dbuf_put_spec[OF wf assms(2)] assms(1)
  have "dbuf_wf b" "r = 0 \<Longrightarrow> dbuf_data b = code s @ xs" "r \<noteq> 0 \<Longrightarrow> derror b" by (metis option.inject prod.inject)+
  then show "later s (s\<lparr>byte_code := b\<rparr>) \<and> ps_capture_count (s\<lparr>byte_code := b\<rparr>) = ps_capture_count s \<and>
      (good (s\<lparr>byte_code := b\<rparr>) \<longrightarrow> code (s\<lparr>byte_code := b\<rparr>) = code s @ xs)"
    using dbuf_put_grows[OF assms(1)] by (auto simp: later_def good_def)
qed

lemma emits_op: "re_emit_op s op = Some s' \<Longrightarrow> emits s s' [op]"
  by (auto simp: re_emit_op_def dbuf_putc_def Option.bind_eq_Some_conv PTRDIFF_MAX_def intro: emits_put)

lemma emits_u16: "emit_u16 s v = Some s' \<Longrightarrow> emits s s' (le_bytes 2 (unat v))"
  by (auto simp: emit_u16_def dbuf_put_u16_def Option.bind_eq_Some_conv PTRDIFF_MAX_def intro: emits_put)

lemma emits_u32: "emit_u32 s v = Some s' \<Longrightarrow> emits s s' (le_bytes 4 (unat v))"
  by (auto simp: emit_u32_def dbuf_put_u32_def Option.bind_eq_Some_conv PTRDIFF_MAX_def intro: emits_put)

lemma emits_code_len:
  assumes "emits s s1 xs" and "dbuf_wf (byte_code s)" and "good s1"
  shows "code_len s1 = int (length (code s)) + int (length xs)"
  using assms good_size(2)[OF assms(3)] by (simp add: emits_def)

lemma emits_op_u32:
  assumes "re_emit_op_u32 s op v = Some (pos, s')"
  shows "emits s s' (ins_u32 op v)"
    and "dbuf_wf (byte_code s) \<Longrightarrow> good s' \<Longrightarrow> pos = int (length (code s)) + 1"
proof -
  obtain s1 where s1: "re_emit_op s op = Some s1" and pos: "pos = code_len s1" and s': "emit_u32 s1 v = Some s'"
    using assms by (auto simp: re_emit_op_u32_def Option.bind_eq_Some_conv code_len_def)
  note e = emits_op[OF s1] and u = emits_u32[OF s']
  show "emits s s' (ins_u32 op v)" using emits_trans[OF e u] by (simp add: ins_u32_def)
  assume wf: "dbuf_wf (byte_code s)" and g: "good s'"
  then have "dbuf_wf (byte_code s1)" using e by (simp add: emits_def later_def)
  then have "good s1" using u g by (auto simp: emits_def intro: later_good)
  then show "pos = int (length (code s)) + 1" using emits_code_len[OF e wf] pos by simp
qed

lemma emits_goto:
  assumes "re_emit_goto s op (of_int target) = Some (pos, s')"
  shows "emits s s' (ins_u32 op (of_int (target - (int (length (code s)) + 5))))"
proof -
  obtain s1 where s1: "re_emit_op s op = Some s1"
    and s': "emit_u32 s1 (of_int target - of_int (code_len s1 + 4)) = Some s'"
    using assms by (auto simp: re_emit_goto_def Option.bind_eq_Some_conv code_len_def Let_def)
  note e = emits_op[OF s1] and u = emits_u32[OF s']
  have "code s' = code s @ ins_u32 op (of_int (target - (int (length (code s)) + 5)))"
    if wf: "dbuf_wf (byte_code s)" and g: "good s'"
  proof -
    have "dbuf_wf (byte_code s1)" using e wf by (simp add: emits_def later_def)
    then have "good s1" using u g by (auto simp: emits_def intro: later_good)
    then have "code_len s1 + 4 = int (length (code s)) + 5" using emits_code_len[OF e wf] by simp
    then have eq: "(of_int target - of_int (code_len s1 + 4) :: u32) = of_int (target - (int (length (code s)) + 5))"
      by (metis of_int_diff)
    from emits_trans[OF e emits_u32[OF s'[unfolded eq]]] show ?thesis using wf g by (simp add: emits_def ins_u32_def)
  qed
  then show ?thesis using emits_trans[OF e u] by (simp add: emits_def)
qed

lemma emits_op_u8: "re_emit_op_u8 s op v = Some s' \<Longrightarrow> emits s s' [op, ucast v]"
  using emits_trans[OF emits_op emits_op, of s op _ "ucast v"]
  by (auto simp: re_emit_op_u8_def Option.bind_eq_Some_conv)

lemma emits_op_u16: "re_emit_op_u16 s op v = Some s' \<Longrightarrow> emits s s' (op # le_bytes 2 (unat (ucast v :: u16)))"
  using emits_trans[OF emits_op emits_u16, of s op _ "ucast v"]
  by (auto simp: re_emit_op_u16_def Option.bind_eq_Some_conv)

section \<open>Producing fragments\<close>

definition cap_bounds :: "re_parse_state \<Rightarrow> bool" where
  "cap_bounds s \<longleftrightarrow> 1 \<le> ps_capture_count s \<and> ps_capture_count s \<le> CAPTURE_COUNT_MAX"

definition produces :: "re_parse_state \<Rightarrow> re_parse_state \<Rightarrow> bool" where
  "produces s s' \<longleftrightarrow>
     (dbuf_wf (byte_code s) \<and> cap_bounds s \<longrightarrow>
       later s s' \<and> ps_capture_count s \<le> ps_capture_count s' \<and> cap_bounds s' \<and>
       (good s' \<longrightarrow> (\<exists>L. frag (ps_capture_count s') L \<and> code s' = code s @ concat L)))"

lemma producesI:
  assumes "dbuf_wf (byte_code s) \<Longrightarrow> cap_bounds s \<Longrightarrow>
    later s s' \<and> ps_capture_count s \<le> ps_capture_count s' \<and> cap_bounds s'"
    and "dbuf_wf (byte_code s) \<Longrightarrow> cap_bounds s \<Longrightarrow> good s' \<Longrightarrow> good s \<Longrightarrow> cap_bounds s' \<Longrightarrow>
      \<exists>L. frag (ps_capture_count s') L \<and> code s' = code s @ concat L"
  shows "produces s s'"
  using assms later_good unfolding produces_def by blast

lemma producesE:
  assumes "produces s s'" and "dbuf_wf (byte_code s)" and "cap_bounds s"
  obtains "later s s'" and "dbuf_wf (byte_code s')" and "cap_bounds s'"
    and "ps_capture_count s \<le> ps_capture_count s'"
  using assms by (auto simp: produces_def later_def)

lemma producesF:
  assumes "produces s s'" and "dbuf_wf (byte_code s)" and "cap_bounds s"
  shows "later s s'" and "dbuf_wf (byte_code s')" and "cap_bounds s'"
    and "ps_capture_count s \<le> ps_capture_count s'"
  using assms by (auto simp: produces_def later_def)

lemma producesD:
  assumes "produces s s'" and "dbuf_wf (byte_code s)" and "cap_bounds s" and "good s'"
  obtains L where "frag (ps_capture_count s') L" and "code s' = code s @ concat L" and "good s"
  using assms later_good by (auto simp: produces_def)

lemma produces_refl: "produces s s"
  by (rule producesI) (auto simp: later_refl intro: exI[of _ "[]"])

lemma produces_trans:
  assumes a: "produces s s1" and b: "produces s1 s2"
  shows "produces s s2"
proof (rule producesI)
  assume wf: "dbuf_wf (byte_code s)" "cap_bounds s"
  note s1 = producesE[OF a wf]
  then show "later s s2 \<and> ps_capture_count s \<le> ps_capture_count s2 \<and> cap_bounds s2"
    using producesE[OF b] later_trans by (metis le_trans)
  assume g: "good s2"
  obtain M where M: "frag (ps_capture_count s2) M" "code s2 = code s1 @ concat M" "good s1"
    using producesD[OF b _ _ g] s1 by metis
  obtain L where L: "frag (ps_capture_count s1) L" "code s1 = code s @ concat L"
    using producesD[OF a wf M(3)] by metis
  have "ps_capture_count s1 \<le> ps_capture_count s2" using producesE[OF b] s1 by metis
  then have "frag (ps_capture_count s2) (L @ M)" using frag_append frag_mono[OF L(1)] M(1) by blast
  then show "\<exists>L. frag (ps_capture_count s2) L \<and> code s2 = code s @ concat L"
    using M(2) L(2) by (intro exI[of _ "L @ M"]) simp
qed

lemma emits_produces:
  assumes e: "emits s s' (concat L)" and f: "good s' \<Longrightarrow> cap_bounds s \<Longrightarrow> frag (ps_capture_count s) L"
  shows "produces s s'"
  by (rule producesI) (use e f in \<open>auto simp: emits_def cap_bounds_def\<close>)

text \<open>Steps that touch neither the code nor the number of captures.\<close>

definition same :: "re_parse_state \<Rightarrow> re_parse_state \<Rightarrow> bool" where
  "same s s' \<longleftrightarrow>
     byte_code s' = byte_code s \<and> ps_capture_count s' = ps_capture_count s \<and>
     pattern s' = pattern s \<and> buf_end s' = buf_end s"

lemma same_refl [simp]: "same s s"
  by (simp add: same_def)

lemma same_trans: "same s s1 \<Longrightarrow> same s1 s2 \<Longrightarrow> same s s2"
  by (simp add: same_def)

lemma same_produces: "same s s' \<Longrightarrow> produces s s'"
  by (rule producesI)
     (auto simp: same_def later_def cap_bounds_def good_def intro!: exI[of _ "[]"])

lemma same_updates [simp]:
  "same s (s\<lparr>buf_ptr := p\<rparr>)" "same s (s\<lparr>tmp_buf := t\<rparr>)" "same s (s\<lparr>group_names := g\<rparr>)"
  "same s (s\<lparr>has_named_captures := h\<rparr>)" "same s (s\<lparr>total_capture_count := c\<rparr>)" "same s (s\<lparr>cr_heaps := hs\<rparr>)"
  by (simp_all add: same_def)

lemma produces_op:
  assumes "re_emit_op s op = Some s'"
    and "op \<in> {REOP_dot, REOP_any, REOP_line_start, REOP_line_end, REOP_match, REOP_word_boundary,
      REOP_not_word_boundary, REOP_prev}"
  shows "produces s s'"
  by (rule emits_produces[of _ _ "[[op]]"]) (use emits_op[OF assms(1)] frag_op[OF assms(2)] in auto)

lemma produces_prev_if: "emit_prev_if back s = Some s' \<Longrightarrow> produces s s'"
  by (auto simp: emit_prev_if_def intro: produces_op produces_refl split: if_splits)

lemma produces_char: "re_emit_op_u16 s REOP_char v = Some s' \<Longrightarrow> produces s s'"
  by (rule emits_produces[of _ _ "[REOP_char # le_bytes 2 (unat (ucast v :: u16))]"])
     (use emits_op_u16[of s REOP_char v s'] frag_char in auto)

lemma produces_char32: "re_emit_op_u32 s REOP_char32 v = Some (pos, s') \<Longrightarrow> produces s s'"
  by (rule emits_produces[of _ _ "[ins_u32 REOP_char32 v]"])
     (use emits_op_u32(1)[of s REOP_char32 v pos s'] frag_char32 in auto)

lemma produces_save:
  assumes "re_emit_op_u8 s op v = Some s'" and "op = REOP_save_start \<or> op = REOP_save_end"
    and "unat (ucast v :: u8) < ps_capture_count s"
  shows "produces s s'"
  by (rule emits_produces[of _ _ "[[op, ucast v]]"])
     (use emits_op_u8[OF assms(1)] frag_save[OF assms(2,3)] in auto)

lemma produces_back_reference:
  assumes "re_emit_op_u8 s op v = Some s'" and "op = REOP_back_reference \<or> op = REOP_backward_back_reference"
  shows "produces s s'"
  by (rule emits_produces[of _ _ "[[op, ucast v]]"])
     (use emits_op_u8[OF assms(1)] frag_back_reference[OF assms(2)] in auto)

section \<open>Ranges and classes\<close>

lemma emits_range16:
  assumes "emit_range16 s pts len i = Some s'" and "even len" and "even i" and "i \<le> len"
  shows "\<exists>xs. length xs = 2 * (len - i) \<and> emits s s' xs"
  using assms
proof (induction s pts len i rule: emit_range16.induct)
  case (1 s pts len i)
  show ?case
  proof (cases "i < len")
    case False
    then show ?thesis using 1(2,5) by (subst (asm) emit_range16.simps) (auto intro!: exI[of _ "[]"] emits_Nil)
  next
    case True
    from 1(2) True obtain lo hi s1 s2 high where g: "mem_get pts i = Some lo" "mem_get pts (i + 1) = Some hi"
      and h: "high = (if hi - 1 = UINT32_MAX - 1 then 0xffff else hi - 1)"
      and e: "emit_u16 s (ucast lo) = Some s1" "emit_u16 s1 (ucast high) = Some s2"
      and r: "emit_range16 s2 pts len (i + 2) = Some s'"
      by (subst (asm) emit_range16.simps)
         (auto simp: Let_def Option.bind_eq_Some_conv simp del: mem_get_Some split: option.splits)
    have i2: "i + 2 \<le> len" using True 1(3,4) by (elim evenE) auto
    then have len_eq: "len - i = len - (i + 2) + 2" by simp
    have "Option.bind (emit_u16 s (ucast lo)) (\<lambda>s. emit_u16 s (ucast high)) = Some s2" using e by simp
    from 1(1)[OF True refl g h this r] 1(3,4) i2 obtain xs where
      xs: "length xs = 2 * (len - (i + 2))" "emits s2 s' xs" by auto
    let ?xs = "le_bytes 2 (unat (ucast lo :: u16)) @ le_bytes 2 (unat (ucast high :: u16)) @ xs"
    have "emits s s' ?xs"
      by (rule emits_trans[OF emits_u16[OF e(1)] emits_trans[OF emits_u16[OF e(2)] xs(2)]])
    moreover have "length ?xs = 2 * (len - i)" unfolding len_eq by (simp add: xs(1))
    ultimately show ?thesis by blast
  qed
qed

lemma emits_range32:
  assumes "emit_range32 s pts len i = Some s'" and "even len" and "even i" and "i \<le> len"
  shows "\<exists>xs. length xs = 4 * (len - i) \<and> emits s s' xs"
  using assms
proof (induction s pts len i rule: emit_range32.induct)
  case (1 s pts len i)
  show ?case
  proof (cases "i < len")
    case False
    then show ?thesis using 1(2,5) by (subst (asm) emit_range32.simps) (auto intro!: exI[of _ "[]"] emits_Nil)
  next
    case True
    from 1(2) True obtain lo hi s1 s2 where g: "mem_get pts i = Some lo" "mem_get pts (i + 1) = Some hi"
      and e: "emit_u32 s lo = Some s1" "emit_u32 s1 (hi - 1) = Some s2"
      and r: "emit_range32 s2 pts len (i + 2) = Some s'"
      by (subst (asm) emit_range32.simps)
         (auto simp: Let_def Option.bind_eq_Some_conv simp del: mem_get_Some split: option.splits)
    have i2: "i + 2 \<le> len" using True 1(3,4) by (elim evenE) auto
    then have len_eq: "len - i = len - (i + 2) + 2" by simp
    have "Option.bind (emit_u32 s lo) (\<lambda>s. emit_u32 s (hi - 1)) = Some s2" using e by simp
    from 1(1)[OF True refl g this r] 1(3,4) i2 obtain xs where
      xs: "length xs = 4 * (len - (i + 2))" "emits s2 s' xs" by auto
    let ?xs = "le_bytes 4 (unat lo) @ le_bytes 4 (unat (hi - 1)) @ xs"
    have "emits s s' ?xs"
      by (rule emits_trans[OF emits_u32[OF e(1)] emits_trans[OF emits_u32[OF e(2)] xs(2)]])
    moreover have "length ?xs = 4 * (len - i)" unfolding len_eq by (simp add: xs(1))
    ultimately show ?thesis by blast
  qed
qed

lemma produces_range:
  assumes r: "re_emit_range s cr = Some (0, s')" and even: "even (cr_len cr)"
  shows "produces s s'"
proof -
  define n where "n = cr_len cr div 2"
  have len: "cr_len cr = 2 * n" using even by (simp add: n_def)
  have big: "n < 65535"
    using r by (auto simp: re_emit_range_def n_def Let_def re_parse_error_def Option.bind_eq_Some_conv split: if_splits)
  then have u: "unat (ucast (of_nat n :: u32) :: u16) = n"
    by (simp add: unat_ucast unat_of_nat)
  show ?thesis
  proof (cases "n = 0")
    case True
    then have "\<exists>pos. re_emit_op_u32 s REOP_char32 0xffffffff = Some (pos, s')"
      using r by (auto simp: re_emit_range_def n_def Let_def Option.bind_eq_Some_conv)
    then show ?thesis using produces_char32 by blast
  next
    case False
    have "(\<exists>s1. re_emit_op_u16 s REOP_range (of_nat n) = Some s1 \<and> emit_range16 s1 (cr_points cr) (cr_len cr) 0 = Some s') \<or>
        (\<exists>s1. re_emit_op_u16 s REOP_range32 (of_nat n) = Some s1 \<and> emit_range32 s1 (cr_points cr) (cr_len cr) 0 = Some s')"
      using r False big
      by (auto simp: re_emit_range_def n_def[symmetric] Let_def Option.bind_eq_Some_conv simp del: mem_get_Some
          split: if_splits)
    then show ?thesis
    proof (elim disjE exE conjE)
      fix s1 assume s1: "re_emit_op_u16 s REOP_range (of_nat n) = Some s1"
        and s': "emit_range16 s1 (cr_points cr) (cr_len cr) 0 = Some s'"
      from emits_range16[OF s'] even len obtain xs where xs: "length xs = 4 * n" "emits s1 s' xs" by auto
      from emits_trans[OF emits_op_u16[OF s1] xs(2)] u
      have "emits s s' (concat [REOP_range # le_bytes 2 n @ xs])" by simp
      then show ?thesis by (rule emits_produces) (use False big xs(1) in \<open>auto intro!: frag_range\<close>)
    next
      fix s1 assume s1: "re_emit_op_u16 s REOP_range32 (of_nat n) = Some s1"
        and s': "emit_range32 s1 (cr_points cr) (cr_len cr) 0 = Some s'"
      from emits_range32[OF s'] even len obtain xs where xs: "length xs = 8 * n" "emits s1 s' xs" by auto
      from emits_trans[OF emits_op_u16[OF s1] xs(2)] u
      have "emits s s' (concat [REOP_range32 # le_bytes 2 n @ xs])" by simp
      then show ?thesis by (rule emits_produces) (use False big xs(1) in \<open>auto intro!: frag_range\<close>)
    qed
  qed
qed

lemma even_canonicalize: "cr_canonicalize cr = Some (0, cr') \<Longrightarrow> even (cr_len cr')"
  by (auto simp: cr_canonicalize_def Let_def Option.bind_eq_Some_conv dest: even_resD[OF even_union1]
      split: if_splits)

lemma cr_add_points_len:
  "cr_add_points cr vs = Some (0, cr') \<Longrightarrow> cr_len cr' = cr_len cr + length vs"
  by (induction cr vs rule: cr_add_points.induct)
     (auto dest!: cr_add_point_len split: option.splits if_splits)

lemma even_init_char_range: "even_res (cr_init_char_range h k)"
proof -
  have "\<forall>t \<in> set char_range_table. even (length t)"
    by (simp add: char_range_table_def char_range_d_def char_range_s_def char_range_w_def)
  then have "mem_get char_range_table i = Some t \<Longrightarrow> even (length t)" for i t by auto
  then show ?thesis
    unfolding cr_init_char_range_def even_res_def
    by (auto simp: Option.bind_eq_Some_conv simp del: mem_get_Some dest!: cr_add_points_len
        dest: even_resD[OF even_invert] split: if_splits)
qed

lemma even_property_range:
  assumes r: "property_range cr name value = Some (0, msg, cr')" and even: "even (cr_len cr)"
  shows "even (cr_len cr')"
proof -
  consider (script) e where "unicode_script cr value e = Some (0, cr')"
    | (category) n where "unicode_general_category cr n = Some (0, cr')"
    | (property) r1 cr1 where "unicode_general_category cr name = Some (r1, cr1)" "r1 \<noteq> -1" "unicode_prop cr1 name = Some (0, cr')"
    | (absent) r1 where "unicode_general_category cr name = Some (r1, cr')" "r1 \<noteq> -1"
    using r by (auto simp: property_range_def Option.bind_eq_Some_conv split: if_splits)
  then show ?thesis
    by cases (use even even_resD[OF even_script] even_resD[OF even_category] even_resD'[OF even_category]
      even_resD[OF even_prop] in blast)+
qed

lemma same_error: "re_parse_error s msg = Some (r, s') \<Longrightarrow> same s s' \<and> r = -1"
  by (auto simp: re_parse_error_def Option.bind_eq_Some_conv)

lemma same_oom: "re_parse_out_of_memory s = Some (r, s') \<Longrightarrow> same s s' \<and> r = -1"
  by (simp add: re_parse_out_of_memory_def same_error)

lemma same_new_heap: "new_range_heap s = (h, s') \<Longrightarrow> same s s'"
  by (auto simp: new_range_heap_def split: list.splits)

text \<open>What the scanners of characters and classes return.\<close>

definition scanned :: "re_parse_state \<Rightarrow> (int \<times> char_range \<times> nat \<times> re_parse_state) option \<Rightarrow> bool" where
  "scanned s res \<longleftrightarrow>
     (\<forall>c cr p s'. res = Some (c, cr, p, s') \<longrightarrow> same s s' \<and> (0 \<le> c \<longrightarrow> even (cr_len cr)))"

lemma scanned_None [simp]: "scanned s None"
  by (simp add: scanned_def)

lemma scanned_Some [simp]: "scanned s (Some (c, cr, p, s')) \<longleftrightarrow> same s s' \<and> (0 \<le> c \<longrightarrow> even (cr_len cr))"
  by (auto simp: scanned_def)

lemma scanned_bind: "(\<And>x. a = Some x \<Longrightarrow> scanned s (f x)) \<Longrightarrow> scanned s (Option.bind a f)"
  by (cases a) auto

lemma scanned_if: "(P \<Longrightarrow> scanned s a) \<Longrightarrow> (\<not> P \<Longrightarrow> scanned s b) \<Longrightarrow> scanned s (if P then a else b)"
  by simp

lemma scanned_same: "scanned s1 res \<Longrightarrow> same s s1 \<Longrightarrow> scanned s res"
  by (auto simp: scanned_def intro: same_trans)

lemma scanned_error:
  "scanned s (do { (r, s) \<leftarrow> re_parse_error s msg; Some (r, cr, p, s) })"
  by (auto simp: scanned_def Option.bind_eq_Some_conv dest: same_error)

lemma scanned_normal: "scanned s (normal_char s p c)"
  unfolding normal_char_def
  by (intro scanned_if scanned_bind) (auto simp: scanned_error intro!: scanned_bind scanned_if dest: same_error)

lemma scanned_invalid: "scanned s (invalid_escape s p)"
  by (simp add: invalid_escape_def scanned_error)

lemma scanned_class_escape: "scanned s (class_escape s p k)"
  by (auto simp: class_escape_def scanned_def Option.bind_eq_Some_conv dest: same_new_heap
      even_resD[OF even_init_char_range] split: prod.splits if_splits)

lemma scanned_property: "scanned s (parse_unicode_property s p neg)"
proof -
  have fail: "scanned s (do { (r, s2) \<leftarrow> re_parse_error s1 (ascii msg); Some (r, cr_init [], p, s2) })"
    if "same s s1" for s1 msg
    using scanned_error that by (rule scanned_same)
  show ?thesis
    unfolding parse_unicode_property_def Let_def
    by (auto simp: fail CLASS_RANGE_BASE_def intro!: scanned_bind scanned_if fail
        dest!: same_new_heap even_property_range even_resD[OF even_invert] split: option.splits prod.splits)
qed

lemma scanned_escape: "scanned s (get_class_escape s p c inclass)"
proof -
  have property: "scanned s (do {
      (r, cr, q, s) \<leftarrow> parse_unicode_property s (p + 1) neg;
      if r \<noteq> 0 then Some (-1, cr, p, s) else Some (CLASS_RANGE_BASE, cr, q, s)
    })" for neg
    using scanned_property[of s "p + 1" neg] by (auto simp: scanned_def Option.bind_eq_Some_conv split: if_splits)
  show ?thesis
    unfolding get_class_escape_def
    by (intro scanned_if scanned_bind property scanned_class_escape scanned_invalid)
       (auto intro!: scanned_if scanned_invalid scanned_normal)
qed

lemma scanned_atom: "scanned s (get_class_atom s p inclass)"
  unfolding get_class_atom_def Let_def
  by (intro scanned_bind scanned_if scanned_error scanned_escape scanned_normal)

lemma get_class_atomD:
  "get_class_atom s p inclass = Some (c, cr, p', s') \<Longrightarrow> same s s' \<and> (0 \<le> c \<longrightarrow> even (cr_len cr))"
  using scanned_atom[of s p inclass] by (simp add: scanned_def)

lemma class_errorD: "class_error s msg cr p = Some (r, cr', p', s') \<Longrightarrow> r = PErr"
  by (auto simp: class_error_def Option.bind_eq_Some_conv)

lemma even_add_class_atom: "add_class_atom cr c cr1 = Some (0, cr') \<Longrightarrow> even (cr_len cr')"
  by (auto simp: add_class_atom_def dest: even_resD[OF even_union1] even_resD[OF even_union_interval]
      split: if_splits)

definition classed :: "re_parse_state \<Rightarrow> (parse_ret \<times> char_range \<times> nat \<times> re_parse_state) option \<Rightarrow> bool" where
  "classed s res \<longleftrightarrow> (\<forall>cr p s'. res = Some (POk, cr, p, s') \<longrightarrow> same s s' \<and> even (cr_len cr))"

lemma classed_simps [simp]:
  "classed s None" "classed s (Some (PErr, cr, p, s'))" "classed s (Some (PFuel, cr, p, s'))"
  "classed s (Some (POk, cr, p, s')) \<longleftrightarrow> same s s' \<and> even (cr_len cr)"
  by (auto simp: classed_def)

lemma classed_bind: "(\<And>x. a = Some x \<Longrightarrow> classed s (f x)) \<Longrightarrow> classed s (Option.bind a f)"
  by (cases a) auto

lemma classed_if: "(P \<Longrightarrow> classed s a) \<Longrightarrow> (\<not> P \<Longrightarrow> classed s b) \<Longrightarrow> classed s (if P then a else b)"
  by simp

lemma classed_same: "classed s1 res \<Longrightarrow> same s s1 \<Longrightarrow> classed s res"
  by (auto simp: classed_def intro: same_trans)

lemma classed_error: "classed s (class_error s1 msg cr p)"
  by (auto simp: classed_def dest: class_errorD)

lemma classed_loop: "even (cr_len cr) \<Longrightarrow> classed s (char_class_loop n s cr p)"
proof (induction n arbitrary: s cr p)
  case (Suc n)
  have add: "classed s (do {
      (r, cr) \<leftarrow> add_class_atom cr c1 cr1;
      if r \<noteq> 0 then class_error s1 ''out of memory'' cr p else char_class_loop n s1 cr p
    })" if "same s s1" for s1 c1 cr1 p
    by (intro classed_bind) (auto intro!: classed_if classed_error classed_same[OF Suc.IH that]
      dest: even_add_class_atom split: prod.splits)
  have union: "classed s (do {
      (r, cr) \<leftarrow> cr_union_interval cr a b;
      if r \<noteq> 0 then class_error s1 ''out of memory'' cr p else char_class_loop n s1 cr p
    })" if "same s s1" for s1 a b p
    by (intro classed_bind) (auto intro!: classed_if classed_error classed_same[OF Suc.IH that]
      dest: even_resD[OF even_union_interval] split: prod.splits)
  show ?case
    unfolding char_class_loop.simps Let_def
    using Suc.prems
    by (auto intro!: classed_bind classed_if add union classed_error dest!: get_class_atomD elim!: same_trans)
qed simp

lemma char_class_loopD:
  "char_class_loop n s cr p = Some (POk, cr', p', s') \<Longrightarrow> even (cr_len cr) \<Longrightarrow>
   same s s' \<and> even (cr_len cr')"
  using classed_loop[of cr s n p] by (simp add: classed_def)

lemma produces_char_class:
  assumes "re_parse_char_class n s p = Some (POk, p', s')"
  shows "produces s s'"
proof -
  obtain h s1 where h: "new_range_heap s = (h, s1)" by (cases "new_range_heap s")
  obtain b where b: "mem_get (pattern s1) (p + 1) = Some b"
    using assms h by (cases "mem_get (pattern s1) (p + 1)") (auto simp: re_parse_char_class_def)
  let ?p = "if b = 0x5e then p + 2 else p + 1"
  obtain cr p2 s2 where l: "char_class_loop n s1 (cr_init h) ?p = Some (POk, cr, p2, s2)"
    using assms h b
    by (cases "char_class_loop n s1 (cr_init h) ?p")
       (auto simp: re_parse_char_class_def Let_def simp del: mem_get_Some split: if_splits)
  have "same s s2" and e: "even (cr_len cr)"
    using char_class_loopD[OF l] same_new_heap[OF h] same_trans by auto
  obtain cr1 where c: "(if ps_ignore_case s2 then cr_canonicalize cr else Some (0, cr)) = Some (0, cr1)"
    using assms h b l
    by (cases "if ps_ignore_case s2 then cr_canonicalize cr else Some (0, cr)")
       (auto simp: re_parse_char_class_def Let_def Option.bind_eq_Some_conv simp del: mem_get_Some split: if_splits)
  then have e1: "even (cr_len cr1)" using e by (auto dest: even_canonicalize split: if_splits)
  obtain cr2 where i: "(if b = 0x5e then cr_invert cr1 else Some (0, cr1)) = Some (0, cr2)"
    using assms h b l c
    by (cases "if b = 0x5e then cr_invert cr1 else Some (0, cr1)")
       (auto simp: re_parse_char_class_def Let_def Option.bind_eq_Some_conv simp del: mem_get_Some split: if_splits)
  then have e2: "even (cr_len cr2)" using e1 by (auto dest: even_resD[OF even_invert] split: if_splits)
  have "re_emit_range s2 cr2 = Some (0, s')"
    using assms h b l c i
    by (auto simp: re_parse_char_class_def Let_def Option.bind_eq_Some_conv simp del: mem_get_Some split: if_splits)
  from produces_trans[OF same_produces[OF \<open>same s s2\<close>] produces_range[OF this e2]] show ?thesis .
qed

section \<open>Stores into the code\<close>

lemma put_code_u32D:
  assumes "put_code_u32 s i v = Some s'" and "good s" and "code s = A @ J @ B"
    and "length J = 4" and "i = int (length A)"
  shows "code s' = A @ le_bytes 4 (unat v) @ B" and "good s'"
    and "ps_capture_count s' = ps_capture_count s" and "later s s'"
proof -
  let ?b = "byte_code s"
  obtain m where m: "put_u32 (buf ?b) (length A) v = Some m" and s': "s' = s\<lparr>byte_code := ?b\<lparr>buf := m\<rparr>\<rparr>"
    using assms(1,5) by (auto simp: put_code_u32_def Option.bind_eq_Some_conv)
  have wf: "dbuf_wf ?b" using assms(2) by (simp add: good_def)
  have d: "take (dsize ?b) (buf ?b) = A @ J @ B" using assms(3) by (simp add: dbuf_data_def)
  have size: "dsize ?b = length A + 4 + length B"
    using assms(3,4) length_dbuf_data[OF wf] by simp
  define R where "R = drop (dsize ?b) (buf ?b)"
  have buf: "buf ?b = A @ J @ B @ R" using append_take_drop_id[of "dsize ?b" "buf ?b"] d by (simp add: R_def)
  have m': "m = A @ le_bytes 4 (unat v) @ B @ R" using m assms(4) by (auto simp: put_u32_def buf)
  have len: "length m = length (buf ?b)" using buf m' assms(4) by simp
  show "code s' = A @ le_bytes 4 (unat v) @ B" using s' m' size by (simp add: dbuf_data_def)
  show "good s'" using assms(2) s' len by (simp add: good_def dbuf_wf_def)
  show "ps_capture_count s' = ps_capture_count s" "later s s'"
    using s' wf len by (simp_all add: later_def dbuf_wf_def)
qed

lemma set_codeD:
  assumes "set_code s i v = Some s'" and "good s" and "code s = A @ b # B" and "i = int (length A)"
  shows "code s' = A @ v # B" and "good s'" and "ps_capture_count s' = ps_capture_count s" and "later s s'"
proof -
  let ?b = "byte_code s"
  obtain m where m: "mem_set (buf ?b) (length A) v = Some m" and s': "s' = s\<lparr>byte_code := ?b\<lparr>buf := m\<rparr>\<rparr>"
    using assms(1,4) by (auto simp: set_code_def Option.bind_eq_Some_conv)
  have wf: "dbuf_wf ?b" using assms(2) by (simp add: good_def)
  have d: "take (dsize ?b) (buf ?b) = A @ b # B" using assms(3) by (simp add: dbuf_data_def)
  have size: "dsize ?b = length A + 1 + length B"
    using assms(3) length_dbuf_data[OF wf] by simp
  define R where "R = drop (dsize ?b) (buf ?b)"
  have buf: "buf ?b = A @ b # B @ R" using append_take_drop_id[of "dsize ?b" "buf ?b"] d by (simp add: R_def)
  have m': "m = A @ v # B @ R" using m by (simp add: buf)
  have len: "length m = length (buf ?b)" using buf m' by simp
  show "code s' = A @ v # B" using s' m' size by (simp add: dbuf_data_def)
  show "good s'" using assms(2) s' len by (simp add: good_def dbuf_wf_def)
  show "ps_capture_count s' = ps_capture_count s" "later s s'"
    using s' wf len by (simp_all add: later_def dbuf_wf_def)
qed

text \<open>Stores keep the capacity and the error flag, wherever they go.\<close>

lemma put_code_u32_later:
  assumes "put_code_u32 s i v = Some s'" and "dbuf_wf (byte_code s)"
  shows "later s s'" and "good s' = good s" and "ps_capture_count s' = ps_capture_count s"
  using assms
  by (auto simp: put_code_u32_def put_u32_def Option.bind_eq_Some_conv later_def good_def dbuf_wf_def
      split: if_splits)

lemma set_code_later:
  assumes "set_code s i v = Some s'" and "dbuf_wf (byte_code s)"
  shows "later s s'" and "good s' = good s" and "ps_capture_count s' = ps_capture_count s"
  using assms
  by (auto simp: set_code_def Option.bind_eq_Some_conv later_def good_def dbuf_wf_def split: if_splits)

lemma code_insert_later:
  assumes "code_insert s pos len = Some (0, s')" and "dbuf_wf (byte_code s)"
  shows "later s s'" and "ps_capture_count s' = ps_capture_count s"
    and "\<exists>J. length J = len \<and> nat pos \<le> length (code s) \<and> 0 \<le> pos \<and>
      code s' = take (nat pos) (code s) @ J @ drop (nat pos) (code s)"
proof -
  let ?b = "byte_code s"
  obtain b1 xs m where r: "dbuf_realloc ?b (szt (dsize ?b + len)) = Some (0, b1)"
    and pos: "0 \<le> pos" "nat pos \<le> dsize b1"
    and xs: "mem_read (buf b1) (nat pos) (dsize b1 - nat pos) = Some xs"
    and m: "mem_write (buf b1) (nat pos + len) xs = Some m"
    and s': "s' = s\<lparr>byte_code := b1\<lparr>buf := m, dsize := dsize b1 + len\<rparr>\<rparr>"
    using assms(1)
    by (auto simp: code_insert_def dbuf_insert_def Option.bind_eq_Some_conv simp del: mem_read_Some mem_write_Some
        split: if_splits)
  from dbuf_realloc_spec[OF assms(2), of "szt (dsize ?b + len)"] r
  have b1: "dbuf_wf b1" "dbuf_data b1 = code s" "dsize b1 = dsize ?b"
    "szt (dsize ?b + len) \<le> allocated_size b1" "derror b1 = derror ?b"
    by (metis option.inject prod.inject)+
  have lm: "length m = length (buf b1)" by (rule length_mem_write[OF m])
  have "xs = drop (nat pos) (dbuf_data b1)" using xs pos by (auto simp: dbuf_data_def drop_take)
  then have x: "nat pos + len + (dsize b1 - nat pos) \<le> length (buf b1)" "xs = drop (nat pos) (code s)"
    using m xs b1(2) length_dbuf_data[OF b1(1)] by auto
  then have fits: "dsize b1 + len \<le> allocated_size b1" using pos b1(1) by (simp add: dbuf_wf_def)
  show "later s s'"
    using s' b1 fits lm dbuf_realloc_grows[OF r] by (auto simp: later_def dbuf_wf_def)
  show "ps_capture_count s' = ps_capture_count s" using s' by simp
  define J where "J = take len (drop (nat pos) (buf b1))"
  have "m = take (nat pos + len) (buf b1) @ xs @ drop (nat pos + len + length xs) (buf b1)"
    using m by simp
  moreover have "length xs = dsize b1 - nat pos" using x(2) b1(1,2,3) length_dbuf_data[OF b1(1)] by simp
  ultimately have "take (dsize b1 + len) m = take (nat pos + len) (buf b1) @ xs"
    using pos x(1) by simp
  also have "take (nat pos + len) (buf b1) = take (nat pos) (code s) @ J"
    unfolding b1(2)[symmetric] using pos(2) by (simp add: take_add J_def dbuf_data_def min_absorb1)
  finally have "code s' = take (nat pos) (code s) @ J @ drop (nat pos) (code s)"
    using s' x(2) by (simp add: dbuf_data_def)
  moreover have "length J = len" using fits pos b1(1) by (simp add: J_def dbuf_wf_def)
  moreover have "nat pos \<le> length (code s)" using pos(2) length_dbuf_data[OF b1(1)] b1(2) by simp
  ultimately show "\<exists>J. length J = len \<and> nat pos \<le> length (code s) \<and> 0 \<le> pos \<and>
      code s' = take (nat pos) (code s) @ J @ drop (nat pos) (code s)"
    using pos(1) by blast
qed

section \<open>Atoms\<close>

definition atom_ok :: "re_parse_state \<Rightarrow> atom_res \<Rightarrow> bool" where
  "atom_ok s res \<longleftrightarrow>
     (\<forall>start lcc p s'. res = Some (POk, start, lcc, p, s') \<longrightarrow>
        produces s s' \<and> (start = code_len s \<or> start < 0))"

lemma atom_ok_simps [simp]:
  "atom_ok s None" "atom_ok s (Some (PErr, start, lcc, p, s'))" "atom_ok s (Some (PFuel, start, lcc, p, s'))"
  by (simp_all add: atom_ok_def)

lemma atom_okI:
  assumes "produces s s'" and "start = code_len s \<or> start < 0"
  shows "atom_ok s (Some (r, start, lcc, p, s'))"
  using assms unfolding atom_ok_def by auto

lemma atom_ok_bind: "(\<And>x. a = Some x \<Longrightarrow> atom_ok s (f x)) \<Longrightarrow> atom_ok s (Option.bind a f)"
  by (cases a) auto

lemma atom_ok_if: "(P \<Longrightarrow> atom_ok s a) \<Longrightarrow> (\<not> P \<Longrightarrow> atom_ok s b) \<Longrightarrow> atom_ok s (if P then a else b)"
  by simp

lemma atom_ok_same: "atom_ok s1 res \<Longrightarrow> same s s1 \<Longrightarrow> atom_ok s res"
  using produces_trans[OF same_produces] by (auto simp: atom_ok_def same_def code_len_def code_size_def)

lemma atom_ok_error: "atom_ok s (term_error s1 msg)"
  by (auto simp: term_error_def atom_ok_def Option.bind_eq_Some_conv)

lemma atom_ok_char:
  assumes "CLASS_RANGE_BASE \<le> c \<Longrightarrow> even (cr_len cr)"
  shows "atom_ok s (emit_char_atom s p c cr backward)"
  unfolding atom_ok_def
proof (intro allI impI)
  fix start lcc q s'
  assume r: "emit_char_atom s p c cr backward = Some (POk, start, lcc, q, s')"
  obtain s1 where s1: "emit_prev_if backward s = Some s1"
    using r by (cases "emit_prev_if backward s") (auto simp: emit_char_atom_def)
  have "\<exists>s2. produces s1 s2 \<and> emit_prev_if backward s2 = Some s' \<and> start = code_len s"
    using r s1 assms
    by (auto simp: emit_char_atom_def Option.bind_eq_Some_conv Let_def
        intro: produces_range produces_char produces_char32 split: if_splits)
  then have "produces s s'" "start = code_len s"
    using produces_prev_if s1 produces_trans by metis+
  then show "produces s s' \<and> (start = code_len s \<or> start < 0)" by simp
qed

lemma atom_ok_class_atom: "atom_ok s (parse_class_atom s p backward)"
  unfolding parse_class_atom_def
proof (intro atom_ok_bind)
  fix x assume x: "get_class_atom s p False = Some x"
  obtain c cr q s1 where "x = (c, cr, q, s1)" by (cases x)
  moreover have "atom_ok s (emit_char_atom s1 q c cr backward)" if "0 \<le> c"
    using atom_ok_char get_class_atomD[OF x[unfolded calculation]] that atom_ok_same by metis
  ultimately show "atom_ok s (case x of (c, cr, p, s) \<Rightarrow>
      if c < 0 then Some (PErr, -1, 0, p, s) else emit_char_atom s p c cr backward)"
    by simp
qed

lemma atom_ok_dot: "atom_ok s (parse_dot s p backward)"
  unfolding parse_dot_def Let_def
proof (intro atom_ok_bind)
  fix s1 s2 s3
  assume "emit_prev_if backward s = Some s1"
    and "re_emit_op s1 (if ps_dotall s1 then REOP_any else REOP_dot) = Some s2"
    and "emit_prev_if backward s2 = Some s3"
  then have "produces s s3"
    using produces_prev_if produces_op[of s1 _ s2] produces_trans by (smt (verit) insertCI)
  then show "atom_ok s (Some (POk, code_len s, ps_capture_count s3, p + 1, s3))" by (rule atom_okI) simp
qed

lemma atom_ok_class: "atom_ok s (parse_class n s p backward)"
  unfolding parse_class_def Let_def
proof (intro atom_ok_bind)
  fix s1 x
  assume s1: "emit_prev_if backward s = Some s1" and x: "re_parse_char_class n s1 p = Some x"
  obtain r q s2 where xe: "x = (r, q, s2)" by (cases x)
  have "atom_ok s (Some (POk, code_len s, l, q, s3))"
    if "emit_prev_if backward s2 = Some s3" "r = POk" for s3 l
    using produces_prev_if[OF s1] produces_char_class[of n s1 p q s2] x xe produces_prev_if[OF that(1)] that(2)
    by (intro atom_okI) (auto intro: produces_trans)
  then show "atom_ok s (case x of (r, p, s') \<Rightarrow>
      if r \<noteq> POk then Some (r, code_len s, ps_capture_count s, p, s')
      else emit_prev_if backward s' \<bind> (\<lambda>s'. Some (POk, code_len s, ps_capture_count s, p, s')))"
    by (cases r) (auto simp: xe intro!: atom_ok_bind)
qed

lemma atom_ok_brace: "atom_ok s (parse_brace s p backward)"
  unfolding parse_brace_def Let_def
  by (auto intro!: atom_ok_bind atom_ok_if atom_ok_error atom_ok_class_atom)

section \<open>Groups and escapes\<close>

definition disj_ok :: "disj_fun \<Rightarrow> bool" where
  "disj_ok dj \<longleftrightarrow> (\<forall>backward s s'. dj backward s = Some (POk, s') \<longrightarrow> produces s s')"

lemma re_parse_expectD: "re_parse_expect s p c = Some (0, p', s') \<Longrightarrow> s' = s \<and> p' = p + 1"
  by (auto simp: re_parse_expect_def Option.bind_eq_Some_conv dest: same_error split: if_splits)

lemma group_bodyE:
  assumes dj: "disj_ok dj" and r: "parse_group_body dj s p backward k = Some (POk, q, s')"
  obtains s1 where "produces s s1" and "k s1 = Some s'"
proof -
  obtain s1 where d: "dj backward (s\<lparr>buf_ptr := p\<rparr>) = Some (POk, s1)" and k: "k s1 = Some s'"
    using r by (auto simp: parse_group_body_def Option.bind_eq_Some_conv Let_def dest!: re_parse_expectD split: if_splits)
  have "produces s s1"
    using dj d produces_trans[OF same_produces[of s "s\<lparr>buf_ptr := p\<rparr>"]] by (auto simp: disj_ok_def)
  then show thesis using that k by blast
qed

lemma produces_lookahead:
  assumes e1: "re_emit_op_u32 s op v0 = Some (pos, s1)" and op: "op = REOP_lookahead \<or> op = REOP_negative_lookahead"
    and b: "produces s1 s2" and e2: "re_emit_op s2 REOP_match = Some s3"
    and w: "put_code_u32 s3 pos (of_nat (code_size s3) - of_int (pos + 4)) = Some s'"
  shows "produces s s'"
proof (rule producesI)
  note em1 = emits_op_u32[OF e1] and em2 = emits_op[OF e2]
  assume wf: "dbuf_wf (byte_code s)" "cap_bounds s"
  have s1: "dbuf_wf (byte_code s1)" "cap_bounds s1" "later s s1" "ps_capture_count s1 = ps_capture_count s"
    using em1(1) wf by (auto simp: emits_def later_def cap_bounds_def)
  note s2 = producesF[OF b s1(1,2)]
  have s3: "dbuf_wf (byte_code s3)" "cap_bounds s3" "later s2 s3" "ps_capture_count s3 = ps_capture_count s2"
    using em2 s2 by (auto simp: emits_def later_def cap_bounds_def)
  note l = put_code_u32_later[OF w s3(1)]
  show "later s s' \<and> ps_capture_count s \<le> ps_capture_count s' \<and> cap_bounds s'"
    using later_trans[OF s1(3) later_trans[OF s2(1) later_trans[OF s3(3) l(1)]]] s2(4) s1(4) s3(2,4) l(3)
    by (auto simp: cap_bounds_def)
  assume "good s'"
  then have g3: "good s3" using l(2) by simp
  then have g2: "good s2" using later_good s3(3) s2(2) by blast
  obtain L where L: "frag (ps_capture_count s2) L" "code s2 = code s1 @ concat L" "good s1"
    using producesD[OF b s1(1,2) g2] .
  have c1: "code s1 = code s @ op # le_bytes 4 (unat v0)" using em1(1) wf L(3) by (simp add: emits_def ins_u32_def)
  have pos: "pos = int (length (code s @ [op]))" using em1(2)[OF wf(1) L(3)] by simp
  have c3: "code s3 = (code s @ [op]) @ le_bytes 4 (unat v0) @ concat L @ [REOP_match]"
    using em2 s2(2) g3 L(2) c1 by (auto simp: emits_def)
  define len where "len = int (length (concat L))"
  have eq: "(of_nat (code_size s3) - of_int (pos + 4) :: u32) = of_int (len + 1)"
    unfolding good_size(1)[OF g3] c3 pos len_def by simp
  note w' = w[unfolded eq]
  have "code s' = (code s @ [op]) @ le_bytes 4 (unat (of_int (len + 1) :: u32)) @ concat L @ [REOP_match]"
    by (rule put_code_u32D(1)[OF w' g3 c3 _ pos]) simp
  then have "code s' = code s @ concat ([ins_u32 op (of_int (len + 1))] @ L @ [[REOP_match]])"
    by (simp add: ins_u32_def)
  moreover have "frag (ps_capture_count s') ([ins_u32 op (of_int (len + 1))] @ L @ [[REOP_match]])"
  proof (rule frag_lookahead[OF _ op len_def])
    show "frag (ps_capture_count s') L" using L(1) l(3) s3(4) by simp
    show "off32 (len + 1)" using good_size(3)[OF g3] by (simp add: c3 off32_def len_def)
  qed
  ultimately show "\<exists>L. frag (ps_capture_count s') L \<and> code s' = code s @ concat L" by blast
qed

lemma atom_ok_lookahead:
  assumes dj: "disj_ok dj"
  shows "atom_ok s (parse_lookahead dj s p neg back)"
  unfolding atom_ok_def
proof (intro allI impI)
  fix start lcc q s'
  assume r: "parse_lookahead dj s p neg back = Some (POk, start, lcc, q, s')"
  let ?op = "if neg then REOP_negative_lookahead else REOP_lookahead"
  obtain pos s1 p2 s2 s3 where e1: "re_emit_op_u32 s ?op 0 = Some (pos, s1)"
    and b: "parse_group_body dj s1 p back Some = Some (POk, p2, s2)"
    and e2: "re_emit_op s2 REOP_match = Some s3"
    and w: "put_code_u32 s3 pos (of_nat (code_size s3) - of_int (pos + 4)) = Some s'"
    and st: "start = code_len s \<or> start < 0"
    using r by (auto simp: parse_lookahead_def Option.bind_eq_Some_conv Let_def split: if_splits)
  obtain s2' where "produces s1 s2'" "Some s2' = Some s2" using group_bodyE[OF dj b] .
  then have "produces s1 s2" by simp
  from produces_lookahead[OF e1 _ this e2 w] have p: "produces s s'" by simp
  with st show "produces s s' \<and> (start = code_len s \<or> start < 0)" by simp
qed

lemma atom_ok_capture:
  assumes dj: "disj_ok dj"
  shows "atom_ok s (parse_capture dj s p back)"
  unfolding atom_ok_def
proof (intro allI impI)
  fix start lcc q s'
  assume r: "parse_capture dj s p back = Some (POk, start, lcc, q, s')"
  let ?o1 = "if back then REOP_save_end else REOP_save_start"
  let ?o2 = "if back then REOP_save_start else REOP_save_end"
  define idx where "idx = (of_nat (ps_capture_count s) :: u32)"
  define s0 where "s0 = s\<lparr>ps_capture_count := ps_capture_count s + 1\<rparr>"
  obtain s1 p2 where small: "ps_capture_count s < CAPTURE_COUNT_MAX"
    and e1: "re_emit_op_u8 s0 ?o1 idx = Some s1"
    and b: "parse_group_body dj s1 p back (\<lambda>s. re_emit_op_u8 s ?o2 idx) = Some (POk, p2, s')"
    and st: "start = code_len s"
    using r
    by (auto simp: parse_capture_def Option.bind_eq_Some_conv Let_def s0_def idx_def term_error_def split: if_splits)
  obtain s2 where b2: "produces s1 s2" and e2: "re_emit_op_u8 s2 ?o2 idx = Some s'"
    using group_bodyE[OF dj b] .
  have u: "unat (ucast idx :: u8) = ps_capture_count s"
    using small by (simp add: idx_def unat_ucast unat_of_nat CAPTURE_COUNT_MAX_def)
  have p0: "produces s s0"
    by (rule producesI) (use small in \<open>auto simp: s0_def later_def cap_bounds_def good_def intro!: exI[of _ "[]"]\<close>)
  have p1: "produces s0 s1"
    by (rule produces_save[OF e1]) (use u in \<open>simp_all add: s0_def\<close>)
  have p3: "produces s2 s'" if "ps_capture_count s < ps_capture_count s2"
    by (rule produces_save[OF e2]) (use u that in simp_all)
  have "produces s s'"
  proof (rule producesI)
    assume wf: "dbuf_wf (byte_code s)" "cap_bounds s"
    have w0: "dbuf_wf (byte_code s0)" "cap_bounds s0" using producesE[OF p0 wf] by auto
    have w1: "dbuf_wf (byte_code s1)" "cap_bounds s1" using producesE[OF p1 w0] by auto
    have "ps_capture_count s0 \<le> ps_capture_count s1" using producesE[OF p1 w0] by auto
    moreover have "ps_capture_count s1 \<le> ps_capture_count s2" using producesE[OF b2 w1] by auto
    ultimately have "ps_capture_count s < ps_capture_count s2" by (simp add: s0_def)
    from produces_trans[OF produces_trans[OF p0 p1] produces_trans[OF b2 p3[OF this]]]
    have p: "produces s s'" .
    then show "later s s' \<and> ps_capture_count s \<le> ps_capture_count s' \<and> cap_bounds s'"
      using wf by (simp add: produces_def)
    show "good s' \<Longrightarrow> \<exists>L. frag (ps_capture_count s') L \<and> code s' = code s @ concat L"
      using p wf by (simp add: produces_def)
  qed
  with st show "produces s s' \<and> (start = code_len s \<or> start < 0)" by simp
qed

lemma same_put_name: "put_group_name s xs = Some s' \<Longrightarrow> same s s'"
  by (auto simp: put_group_name_def Option.bind_eq_Some_conv)

lemma atom_ok_named_group:
  assumes dj: "disj_ok dj"
  shows "atom_ok s (parse_named_group dj s p back)"
proof -
  have "atom_ok s (parse_capture dj (s1\<lparr>has_named_captures := 1\<rparr>) q back)"
    if "put_group_name (s\<lparr>tmp_buf := t\<rparr>) xs = Some s1" for s1 t xs q
    by (rule atom_ok_same[OF atom_ok_capture[OF dj]])
       (use same_put_name[OF that] in \<open>simp add: same_def\<close>)
  then show ?thesis
    unfolding parse_named_group_def Let_def
    by (auto intro!: atom_ok_bind atom_ok_if atom_ok_error)
qed

lemma atom_ok_group:
  assumes dj: "disj_ok dj"
  shows "atom_ok s (parse_group dj s p back)"
proof -
  have capture: "atom_ok s (parse_capture dj s1 q back)" if "put_group_name s xs = Some s1" for s1 q xs
    using atom_ok_same[OF atom_ok_capture[OF dj] same_put_name[OF that]] .
  have plain: "atom_ok s (case x of (r, p, s') \<Rightarrow> Some (r, code_len s, ps_capture_count s, p, s'))"
    if "parse_group_body dj s q back Some = Some x" for x q
    using that
    by (cases x; cases "fst x")
       (auto intro!: atom_okI elim!: group_bodyE[OF dj])
  show ?thesis
    unfolding parse_group_def Let_def
    by (intro atom_ok_bind atom_ok_if capture plain atom_ok_lookahead[OF dj] atom_ok_named_group[OF dj] atom_ok_error)
qed

lemma atom_ok_back_reference: "atom_ok s (emit_back_reference s p c back)"
  unfolding emit_back_reference_def Let_def
  by (intro atom_ok_bind atom_okI) (auto intro: produces_back_reference split: if_splits)

lemma same_count_captures: "re_count_captures s = Some (n, s') \<Longrightarrow> same s s'"
  by (auto simp: re_count_captures_def Option.bind_eq_Some_conv same_def split: if_splits)

lemma same_utf16_or_named: "utf16_or_named s = Some (b, s') \<Longrightarrow> same s s'"
  by (auto simp: utf16_or_named_def re_has_named_captures_def Option.bind_eq_Some_conv
      dest: same_count_captures split: if_splits)

lemma atom_ok_ref_error: "atom_ok s (named_ref_error s p back msg)"
  unfolding named_ref_error_def
  by (intro atom_ok_bind)
     (auto intro!: atom_ok_if atom_ok_error atom_ok_same[OF atom_ok_class_atom] dest: same_utf16_or_named)

lemma atom_ok_named_ref: "atom_ok s (parse_named_ref s p back)"
  unfolding parse_named_ref_def Let_def
  by (auto intro!: atom_ok_bind atom_ok_if atom_ok_ref_error atom_ok_same[OF atom_ok_ref_error]
      atom_ok_same[OF atom_ok_back_reference])

lemma atom_ok_plain_char:
  assumes "c < CLASS_RANGE_BASE"
  shows "atom_ok s (emit_char_atom s p c cr back)"
  by (rule atom_ok_char) (use assms in simp)

lemma octal_digit_range: "octal_digit m p = Some (d, q) \<Longrightarrow> d < 8"
  by (auto simp: octal_digit_def Option.bind_eq_Some_conv word_le_def split: if_splits)

lemma atom_ok_zero_escape: "atom_ok s (parse_zero_escape s p back)"
  unfolding parse_zero_escape_def Let_def
  by (auto intro!: atom_ok_bind atom_ok_if atom_ok_error atom_ok_plain_char
      dest!: octal_digit_range simp: CLASS_RANGE_BASE_def)

lemma legacy_octal_range: "legacy_octal m q = Some (c, p) \<Longrightarrow> c < 600"
proof -
  have u: "uint b < 256" for b :: u8 using uint_lt2p[of b] by simp
  assume r: "legacy_octal m q = Some (c, p)"
  obtain b where b: "mem_get m q = Some b" using r by (cases "mem_get m q") (auto simp: legacy_octal_def)
  show "c < 600"
  proof (cases "b \<le> 0x37")
    case False
    then show ?thesis using r b u[of b] by (simp add: legacy_octal_def del: mem_get_Some)
  next
    case True
    define c0 p0 where "c0 = (if b \<le> 0x33 then uint b - 0x30 else 0)" and "p0 = (if b \<le> 0x33 then q + 1 else q)"
    have c0: "c0 < 8" by (simp add: c0_def word_le_def)
    have "legacy_octal m q =
        do {
          (d, p) \<leftarrow> octal_digit m p0;
          if d < 0 then Some (c0, p)
          else do { (e, p) \<leftarrow> octal_digit m p; Some (if e < 0 then c0 * 8 + d else (c0 * 8 + d) * 8 + e, p) }
        }"
      unfolding legacy_octal_def c0_def p0_def Let_def
      using b True by (cases "b \<le> 0x33") (simp_all del: mem_get_Some)
    note eq = this
    show ?thesis
      using r[unfolded eq] c0 by (auto simp: Option.bind_eq_Some_conv dest!: octal_digit_range split: if_splits)
  qed
qed

lemma atom_ok_decimal_escape: "atom_ok s (parse_decimal_escape s p back)"
  unfolding parse_decimal_escape_def Let_def
  by (auto intro!: atom_ok_bind atom_ok_if atom_ok_error atom_ok_back_reference
      atom_ok_same[OF atom_ok_back_reference] atom_ok_plain_char atom_ok_same[OF atom_ok_plain_char]
      dest!: legacy_octal_range same_count_captures simp: CLASS_RANGE_BASE_def Option.bind_eq_Some_conv split: if_splits)

lemma atom_ok_escape: "atom_ok s (parse_escape_atom s p back)"
  unfolding parse_escape_atom_def
  by (intro atom_ok_bind atom_ok_if atom_ok_named_ref atom_ok_zero_escape atom_ok_decimal_escape
      atom_ok_class_atom atom_okI) (auto intro: produces_op split: if_splits)

lemma atom_ok_atom:
  assumes dj: "disj_ok dj"
  shows "atom_ok s (parse_atom n dj s back)"
  unfolding parse_atom_def Let_def
  by (intro atom_ok_bind atom_ok_if atom_ok_dot atom_ok_brace atom_ok_error atom_ok_group[OF dj]
      atom_ok_escape atom_ok_class atom_ok_class_atom atom_okI) (auto intro: produces_op)

end
