(* ===== verification/Regexp_Quant.thy ===== *)
theory Regexp_Quant
  imports Regexp_Sound
begin

text \<open>
  Quantifiers rewrite the fragment of their atom in place: they open a gap before it, fill the gap,
  and append jumps back. Each shape yields a fragment again.
\<close>

section \<open>Steps on the code\<close>

text \<open>What every store and every emission keeps, whether or not it is where it should be.\<close>

definition keeps :: "re_parse_state \<Rightarrow> re_parse_state \<Rightarrow> bool" where
  "keeps s s' \<longleftrightarrow> (dbuf_wf (byte_code s) \<longrightarrow> later s s' \<and> ps_capture_count s' = ps_capture_count s)"

lemma keeps_refl [simp]: "keeps s s"
  by (simp add: keeps_def later_refl)

lemma keeps_trans: "keeps s s1 \<Longrightarrow> keeps s1 s2 \<Longrightarrow> keeps s s2"
  using later_trans by (auto simp: keeps_def later_def)

lemma keepsD:
  assumes "keeps s s'" and "dbuf_wf (byte_code s)"
  shows "later s s'" and "dbuf_wf (byte_code s')" and "ps_capture_count s' = ps_capture_count s"
    and "good s' \<Longrightarrow> good s"
  using assms later_good by (auto simp: keeps_def later_def)

lemma keeps_emits: "emits s s' xs \<Longrightarrow> keeps s s'"
  by (auto simp: emits_def keeps_def)

lemma keeps_op: "re_emit_op s op = Some s' \<Longrightarrow> keeps s s'"
  using keeps_emits emits_op by blast

lemma keeps_op_u32: "re_emit_op_u32 s op v = Some (pos, s') \<Longrightarrow> keeps s s'"
  using keeps_emits emits_op_u32 by blast

lemma emits_goto_op:
  "emit_goto_op s op target = Some s' \<Longrightarrow> emits s s' (ins_u32 op (of_int (target - (int (length (code s)) + 5))))"
  unfolding emit_goto_op_def using emits_goto by (metis option.map_disc_iff option.sel option.map_sel prod.collapse option.collapse option.distinct(1))

lemma keeps_goto_op: "emit_goto_op s op target = Some s' \<Longrightarrow> keeps s s'"
  using keeps_emits emits_goto_op by blast

lemma keeps_set_code: "set_code s i v = Some s' \<Longrightarrow> keeps s s'"
  using set_code_later by (auto simp: keeps_def)

lemma keeps_put_code: "put_code_u32 s i v = Some s' \<Longrightarrow> keeps s s'"
  using put_code_u32_later by (auto simp: keeps_def)

lemma with_insertE:
  assumes "with_insert s pos len k = Some (POk, s')"
  obtains s1 where "code_insert s pos len = Some (0, s1)" and "k s1 = Some (POk, s')"
  using assms by (auto simp: with_insert_def term_oom_def Option.bind_eq_Some_conv split: if_splits)

lemma keeps_insert: "code_insert s pos len = Some (0, s1) \<Longrightarrow> keeps s s1"
  using code_insert_later by (auto simp: keeps_def)

lemma put_self_grows:
  assumes wf: "dbuf_wf b" and r: "dbuf_put_self b k n = Some (r, b')"
  shows "dbuf_wf b'" and "allocated_size b \<le> allocated_size b'" and "derror b \<longrightarrow> derror b'"
    and "r \<noteq> 0 \<Longrightarrow> derror b'"
proof -
  let ?need = "szt (dsize b + n)"
  obtain r1 b1 where b1: "(if ?need > allocated_size b then dbuf_realloc b ?need else Some (0, b)) = Some (r1, b1)"
    using r by (auto simp: dbuf_put_self_def Let_def Option.bind_eq_Some_conv)
  have 1: "dbuf_wf b1" "dsize b1 = dsize b" "r1 = 0 \<Longrightarrow> ?need \<le> allocated_size b1" "r1 \<noteq> 0 \<Longrightarrow> derror b1"
    using dbuf_reserve_spec[OF wf, of ?need] b1 by (metis option.inject prod.inject)+
  have 2: "allocated_size b \<le> allocated_size b1" "derror b \<longrightarrow> derror b1"
    using b1 by (auto dest: dbuf_realloc_grows split: if_splits)
  have "dbuf_wf b' \<and> allocated_size b' = allocated_size b1 \<and> derror b' = derror b1 \<and> (r \<noteq> 0 \<longrightarrow> r1 \<noteq> 0)"
  proof (cases "r1 = 0")
    case False
    then show ?thesis using r b1 1(1) by (auto simp: dbuf_put_self_def Let_def split: if_splits)
  next
    case True
    obtain xs m where xs: "mem_read (buf b1) k n = Some xs" and m: "mem_write (buf b1) (dsize b1) xs = Some m"
      and b': "r = 0" "b' = b1\<lparr>buf := m, dsize := szt (dsize b1 + n)\<rparr>"
      using r b1 True
      by (auto simp: dbuf_put_self_def Let_def Option.bind_eq_Some_conv simp del: mem_read_Some mem_write_Some
          split: if_splits)
    have "length m = length (buf b1)" by (rule length_mem_write[OF m])
    moreover have "n \<le> length (buf b1)" using xs by auto
    ultimately show ?thesis using b' 1 True by (auto simp: dbuf_wf_def)
  qed
  then show "dbuf_wf b'" "allocated_size b \<le> allocated_size b'" "derror b \<longrightarrow> derror b'"
    "r \<noteq> 0 \<Longrightarrow> derror b'" using 2 1(4) by auto
qed

lemma keeps_copy_atom: "copy_atom s start len = Some s' \<Longrightarrow> keeps s s'"
  using put_self_grows
  by (fastforce simp: copy_atom_def keeps_def later_def Option.bind_eq_Some_conv split: if_splits)

lemma emits_copy_atom:
  assumes c: "copy_atom s start len = Some s'" and s: "dbuf_wf (byte_code s)" "code s = A @ M @ B"
    and at: "start = int (length A)" "len = int (length M)"
    and g: "good s'"
  shows "code s' = code s @ M"
proof -
  obtain r b where b: "dbuf_put_self (byte_code s) (length A) (length M) = Some (r, b)" and s': "s' = s\<lparr>byte_code := b\<rparr>"
    using c at by (auto simp: copy_atom_def Option.bind_eq_Some_conv)
  have "length A + length M \<le> dsize (byte_code s)" using s length_dbuf_data[OF s(1)] by simp
  from dbuf_put_self_spec[OF s(1) this] b obtain
    "r = 0 \<Longrightarrow> dbuf_data b = code s @ take (length M) (drop (length A) (code s))" "r \<noteq> 0 \<Longrightarrow> derror b"
    by (metis option.inject prod.inject)
  then show ?thesis using g s' s(2) by (auto simp: good_def)
qed

section \<open>Filling a gap\<close>

lemma fill_op:
  assumes o: "set_code s i op = Some s1" and v: "put_code_u32 s1 (i + 1) v = Some s2"
    and g: "good s" and c: "code s = A @ J @ B" "length J = 5" and i: "i = int (length A)"
  shows "code s2 = A @ ins_u32 op v @ B" and "good s2"
proof -
  obtain j J' where J: "J = j # J'" "length J' = 4" using c(2) by (cases J) auto
  have c': "code s = A @ j # J' @ B" by (simp add: c J)
  note s1 = set_codeD[OF o g c' i]
  have c1: "code s1 = (A @ [op]) @ J' @ B" by (simp add: s1)
  note s2 = put_code_u32D[OF v s1(2) c1 J(2)]
  show "code s2 = A @ ins_u32 op v @ B" "good s2" using s2(1,2) i by (simp_all add: ins_u32_def)
qed

lemma insert_gap:
  assumes "code_insert s (int (length A)) n = Some (0, s1)" and "dbuf_wf (byte_code s)" and "code s = A @ B"
  obtains J where "length J = n" and "code s1 = A @ J @ B"
  using code_insert_later(3)[OF assms(1,2)] assms(3) by auto

lemma emitsD: "emits s s' xs \<Longrightarrow> good s' \<Longrightarrow> dbuf_wf (byte_code s) \<Longrightarrow> code s' = code s @ xs"
  by (simp add: emits_def)

section \<open>Quantifiers whose minimum is zero\<close>

text \<open>
  \<open>replaces s start len s'\<close>: the step replaces the fragment of \<open>len\<close> bytes at \<open>start\<close>, the end of
  the code, by another one.
\<close>

definition replaces :: "re_parse_state \<Rightarrow> int \<Rightarrow> int \<Rightarrow> re_parse_state \<Rightarrow> bool" where
  "replaces s start len s' \<longleftrightarrow>
     (start \<le> int (allocated_size (byte_code s)) \<longrightarrow> keeps s s') \<and>
     (\<forall>A L. dbuf_wf (byte_code s) \<and> good s' \<and> code s = A @ concat L \<and> start = int (length A) \<and>
        len = int (length (concat L)) \<and> frag (ps_capture_count s) L \<longrightarrow>
        (\<exists>L'. frag (ps_capture_count s) L' \<and> code s' = A @ concat L'))"

lemma replacesI:
  assumes "keeps s s'"
    and "\<And>A L. dbuf_wf (byte_code s) \<Longrightarrow> good s' \<Longrightarrow> code s = A @ concat L \<Longrightarrow> start = int (length A) \<Longrightarrow>
      len = int (length (concat L)) \<Longrightarrow> frag (ps_capture_count s) L \<Longrightarrow>
      \<exists>L'. frag (ps_capture_count s) L' \<and> code s' = A @ concat L'"
  shows "replaces s start len s'"
  using assms unfolding replaces_def by blast

lemma split_op_cases: "split_op greedy = REOP_split_goto_first \<or> split_op greedy = REOP_split_next_first"
  by (simp add: split_op_def)

lemma replaces_optional:
  assumes "emit_optional s start len greedy = Some (POk, s')"
  shows "replaces s start len s'"
proof -
  obtain s1 s2 where i: "code_insert s start 5 = Some (0, s1)"
    and o: "set_code s1 start (split_op greedy) = Some s2"
    and v: "put_code_u32 s2 (start + 1) (of_int len) = Some s'"
    using assms by (auto simp: emit_optional_def Option.bind_eq_Some_conv elim!: with_insertE)
  have k: "keeps s s1" "keeps s1 s2" "keeps s2 s'"
    using keeps_insert[OF i] keeps_set_code[OF o] keeps_put_code[OF v] .
  show ?thesis
  proof (rule replacesI)
    show "keeps s s'" using k by (meson keeps_trans)
    fix A L
    assume s: "dbuf_wf (byte_code s)" "good s'" "code s = A @ concat L" "start = int (length A)"
      "len = int (length (concat L))" "frag (ps_capture_count s) L"
    note w1 = keepsD(2)[OF k(1) s(1)]
    note w2 = keepsD(2)[OF k(2) w1]
    note g2 = keepsD(4)[OF k(3) w2 s(2)]
    note g1 = keepsD(4)[OF k(2) w1 g2]
    from insert_gap[OF i[unfolded s(4)] s(1,3)] obtain J where J: "length J = 5" "code s1 = A @ J @ concat L" .
    note c = fill_op[OF o v g1 J(2,1) s(4)]
    let ?L = "[ins_u32 (split_op greedy) (of_int len)] @ L @ []"
    have "off32 len" using good_size(3)[OF s(2)] s(5) by (simp add: c off32_def)
    from frag_optional[OF s(6) split_op_cases this[unfolded s(5)]] have "frag (ps_capture_count s) ?L"
      by (simp add: s(5))
    moreover have "code s' = A @ concat ?L" by (simp add: c)
    ultimately show "\<exists>L'. frag (ps_capture_count s) L' \<and> code s' = A @ concat L'" by blast
  qed
qed

lemma replaces_star:
  assumes "emit_star s start len greedy False = Some (POk, s')"
  shows "replaces s start len s'"
proof -
  obtain s1 s2 s3 where i: "code_insert s start 5 = Some (0, s1)"
    and o: "set_code s1 start (split_op greedy) = Some s2"
    and v: "put_code_u32 s2 (start + 1) (of_int (len + 5)) = Some s3"
    and j: "emit_goto_op s3 REOP_goto start = Some s'"
    using assms by (auto simp: emit_star_def Option.bind_eq_Some_conv simp del: of_int_add elim!: with_insertE)
  have k: "keeps s s1" "keeps s1 s2" "keeps s2 s3" "keeps s3 s'"
    using keeps_insert[OF i] keeps_set_code[OF o] keeps_put_code[OF v] keeps_goto_op[OF j] .
  show ?thesis
  proof (rule replacesI)
    show "keeps s s'" using k by (meson keeps_trans)
    fix A L
    assume s: "dbuf_wf (byte_code s)" "good s'" "code s = A @ concat L" "start = int (length A)"
      "len = int (length (concat L))" "frag (ps_capture_count s) L"
    note w1 = keepsD(2)[OF k(1) s(1)]
    note w2 = keepsD(2)[OF k(2) w1]
    note w3 = keepsD(2)[OF k(3) w2]
    note g3 = keepsD(4)[OF k(4) w3 s(2)]
    note g2 = keepsD(4)[OF k(3) w2 g3]
    note g1 = keepsD(4)[OF k(2) w1 g2]
    from insert_gap[OF i[unfolded s(4)] s(1,3)] obtain J where J: "length J = 5" "code s1 = A @ J @ concat L" .
    note c = fill_op(1)[OF o v g1 J(2,1) s(4)]
    have off: "start - (int (length (code s3)) + 5) = - (len + 10)" by (simp add: c s(4,5))
    note e = emitsD[OF emits_goto_op[OF j] s(2) w3, unfolded off]
    let ?L = "[ins_u32 (split_op greedy) (of_int (len + 5))] @ L @ [ins_u32 REOP_goto (of_int (- (len + 10)))]"
    have c': "code s' = A @ concat ?L" unfolding e c by simp
    have "off32 (len + 10)" using good_size(3)[OF s(2)] s(5) by (simp add: c' off32_def)
    from frag_star[OF s(6) split_op_cases s(5) this] c'
    show "\<exists>L'. frag (ps_capture_count s) L' \<and> code s' = A @ concat L'" by blast
  qed
qed

lemma replaces_star_check:
  assumes "emit_star s start len greedy True = Some (POk, s')"
  shows "replaces s start len s'"
proof -
  obtain s1 s2 s3 s4 where i: "code_insert s start 6 = Some (0, s1)"
    and o: "set_code s1 start (split_op greedy) = Some s2"
    and v: "put_code_u32 s2 (start + 1) (of_int (len + 6)) = Some s3"
    and p: "set_code s3 (start + 5) REOP_push_char_pos = Some s4"
    and j: "emit_goto_op s4 REOP_bne_char_pos start = Some s'"
    using assms
    by (auto simp: emit_star_def Option.bind_eq_Some_conv add.assoc simp del: of_int_add elim!: with_insertE)
  have k: "keeps s s1" "keeps s1 s2" "keeps s2 s3" "keeps s3 s4" "keeps s4 s'"
    using keeps_insert[OF i] keeps_set_code[OF o] keeps_put_code[OF v] keeps_set_code[OF p] keeps_goto_op[OF j] .
  show ?thesis
  proof (rule replacesI)
    show "keeps s s'" using k by (meson keeps_trans)
    fix A L
    assume s: "dbuf_wf (byte_code s)" "good s'" "code s = A @ concat L" "start = int (length A)"
      "len = int (length (concat L))" "frag (ps_capture_count s) L"
    note w1 = keepsD(2)[OF k(1) s(1)]
    note w2 = keepsD(2)[OF k(2) w1]
    note w3 = keepsD(2)[OF k(3) w2]
    note w4 = keepsD(2)[OF k(4) w3]
    note g4 = keepsD(4)[OF k(5) w4 s(2)]
    note g3 = keepsD(4)[OF k(4) w3 g4]
    note g2 = keepsD(4)[OF k(3) w2 g3]
    note g1 = keepsD(4)[OF k(2) w1 g2]
    from insert_gap[OF i[unfolded s(4)] s(1,3)] obtain J where J: "length J = 6" "code s1 = A @ J @ concat L" .
    define J1 b where "J1 = take 5 J" and "b = J ! 5"
    have "J = J1 @ [b]" "length J1 = 5" using J(1) take_Suc_conv_app_nth[of 5 J] by (simp_all add: J1_def b_def)
    with J have J1: "length J1 = 5" "code s1 = A @ J1 @ b # concat L" by simp_all
    note c3 = fill_op(1)[OF o v g1 J1(2,1) s(4)]
    have "code s3 = (A @ ins_u32 (split_op greedy) (of_int (len + 6))) @ b # concat L" by (simp add: c3)
    from set_codeD(1)[OF p g3 this] have c: "code s4 =
      A @ ins_u32 (split_op greedy) (of_int (len + 6)) @ REOP_push_char_pos # concat L" by (simp add: s(4))
    have off: "start - (int (length (code s4)) + 5) = - (len + 11)" by (simp add: c s(4,5))
    note e = emitsD[OF emits_goto_op[OF j] s(2) w4, unfolded off]
    let ?L = "[ins_u32 (split_op greedy) (of_int (len + 6)), [REOP_push_char_pos]] @ L @
      [ins_u32 REOP_bne_char_pos (of_int (- (len + 11)))]"
    have c': "code s' = A @ concat ?L" unfolding e c by simp
    have "off32 (len + 11)" using good_size(3)[OF s(2)] s(5) by (simp add: c' off32_def)
    from frag_star_check[OF s(6) split_op_cases s(5) this] c'
    show "\<exists>L'. frag (ps_capture_count s) L' \<and> code s' = A @ concat L'" by blast
  qed
qed

lemma replaces_bounded:
  assumes "emit_bounded s start len quant_max greedy = Some (POk, s')"
  shows "replaces s start len s'"
proof -
  obtain s1 s2 s3 s4 s5 s6 where i: "code_insert s start 10 = Some (0, s1)"
    and o: "set_code s1 start REOP_push_i32 = Some s2"
    and v: "put_code_u32 s2 (start + 1) (of_int quant_max) = Some s3"
    and o2: "set_code s3 (start + 5) (split_op greedy) = Some s4"
    and v2: "put_code_u32 s4 (start + 5 + 1) (of_int (len + 5)) = Some s5"
    and j: "emit_goto_op s5 REOP_loop (start + 5) = Some s6"
    and d: "re_emit_op s6 REOP_drop = Some s'"
    using assms
    by (auto simp: emit_bounded_def Option.bind_eq_Some_conv add.assoc simp del: of_int_add elim!: with_insertE)
  have k: "keeps s s1" "keeps s1 s2" "keeps s2 s3" "keeps s3 s4" "keeps s4 s5" "keeps s5 s6" "keeps s6 s'"
    using keeps_insert[OF i] keeps_set_code[OF o] keeps_put_code[OF v] keeps_set_code[OF o2] keeps_put_code[OF v2]
      keeps_goto_op[OF j] keeps_op[OF d] .
  show ?thesis
  proof (rule replacesI)
    show "keeps s s'" using k by (meson keeps_trans)
    fix A L
    assume s: "dbuf_wf (byte_code s)" "good s'" "code s = A @ concat L" "start = int (length A)"
      "len = int (length (concat L))" "frag (ps_capture_count s) L"
    note w1 = keepsD(2)[OF k(1) s(1)]
    note w2 = keepsD(2)[OF k(2) w1]
    note w3 = keepsD(2)[OF k(3) w2]
    note w4 = keepsD(2)[OF k(4) w3]
    note w5 = keepsD(2)[OF k(5) w4]
    note w6 = keepsD(2)[OF k(6) w5]
    note g6 = keepsD(4)[OF k(7) w6 s(2)]
    note g5 = keepsD(4)[OF k(6) w5 g6]
    note g4 = keepsD(4)[OF k(5) w4 g5]
    note g3 = keepsD(4)[OF k(4) w3 g4]
    note g2 = keepsD(4)[OF k(3) w2 g3]
    note g1 = keepsD(4)[OF k(2) w1 g2]
    from insert_gap[OF i[unfolded s(4)] s(1,3)] obtain J where J: "length J = 10" "code s1 = A @ J @ concat L" .
    define J1 J2 where "J1 = take 5 J" and "J2 = drop 5 J"
    have J12: "length J1 = 5" "length J2 = 5" "code s1 = A @ J1 @ J2 @ concat L"
      using J by (simp_all add: J1_def J2_def flip: append_assoc)
    note c3 = fill_op(1)[OF o v g1 J12(3,1) s(4)]
    define A3 where "A3 = A @ ins_u32 REOP_push_i32 (of_int quant_max)"
    have c3': "code s3 = A3 @ J2 @ concat L" by (simp add: c3 A3_def)
    have a3: "start + 5 = int (length A3)" by (simp add: A3_def s(4))
    note c5 = fill_op(1)[OF o2 v2 g3 c3' J12(2) a3]
    have off: "start + 5 - (int (length (code s5)) + 5) = - (len + 10)" by (simp add: c5 A3_def s(4,5))
    note e6 = emitsD[OF emits_goto_op[OF j] g6 w5, unfolded off]
    note e = emitsD[OF emits_op[OF d] s(2) w6]
    let ?L = "[ins_u32 REOP_push_i32 (of_int quant_max), ins_u32 (split_op greedy) (of_int (len + 5))] @ L @
      [ins_u32 REOP_loop (of_int (- (len + 10))), [REOP_drop]]"
    have c': "code s' = A @ concat ?L" unfolding e e6 c5 A3_def by simp
    have "off32 (len + 10)" using good_size(3)[OF s(2)] s(5) by (simp add: c' off32_def)
    from frag_bounded[OF s(6) split_op_cases s(5) this] c'
    show "\<exists>L'. frag (ps_capture_count s) L' \<and> code s' = A @ concat L'" by blast
  qed
qed

lemma replaces_append:
  assumes "replaces s start len s'" and "start = int (length A)" and "len = int (length (concat L))"
    and "code s = A @ concat L" and "frag (ps_capture_count s) L" and "dbuf_wf (byte_code s)" and "good s'"
  obtains L' where "frag (ps_capture_count s) L'" and "code s' = A @ concat L'"
  using assms by (auto simp: replaces_def)

lemma replaces_truncate: "replaces s start len (s\<lparr>byte_code := (byte_code s)\<lparr>dsize := nat start\<rparr>\<rparr>)"
proof -
  let ?s = "s\<lparr>byte_code := (byte_code s)\<lparr>dsize := nat start\<rparr>\<rparr>"
  have "code ?s = A" if "dbuf_wf (byte_code s)" "code s = A @ concat L" "start = int (length A)" for A L
    using that length_dbuf_data[OF that(1)] take_take[of "length A" "dsize (byte_code s)" "buf (byte_code s)"]
    by (auto simp: dbuf_data_def min_absorb1)
  moreover have "keeps s ?s" if "start \<le> int (allocated_size (byte_code s))"
    using that by (auto simp: keeps_def later_def dbuf_wf_def)
  ultimately show ?thesis unfolding replaces_def by (auto intro!: exI[of _ "[]"])
qed

definition zero_shape :: "re_parse_state \<Rightarrow> int \<Rightarrow> int \<Rightarrow> int \<Rightarrow> bool \<Rightarrow> bool \<Rightarrow> (parse_ret \<times> re_parse_state) option" where
  "zero_shape s start len quant_max greedy add =
     (if quant_max = 0 then Some (POk, s\<lparr>byte_code := (byte_code s)\<lparr>dsize := nat start\<rparr>\<rparr>)
      else if quant_max = 1 then emit_optional s start len greedy
      else if quant_max = INT32_MAX then emit_star s start len greedy add
      else emit_bounded s start len quant_max greedy)"

lemma replaces_zero_shape:
  assumes "zero_shape s start len quant_max greedy add = Some (POk, s')"
  shows "replaces s start len s'"
  using assms
  by (auto simp: zero_shape_def replaces_truncate intro: replaces_optional replaces_star replaces_star_check
      replaces_bounded split: if_splits; cases add; auto intro: replaces_star replaces_star_check)

lemma capture_bytes:
  assumes "cap_bounds s"
  shows "unat (of_int (int (ps_capture_count s) - 1) :: u8) < ps_capture_count s"
proof -
  have "int (ps_capture_count s) - 1 = int (ps_capture_count s - 1)" using assms by (simp add: cap_bounds_def)
  then have "(of_int (int (ps_capture_count s) - 1) :: u8) = of_int (int (ps_capture_count s - 1))"
    by (simp only:)
  also have "\<dots> = of_nat (ps_capture_count s - 1)" by (rule of_int_of_nat_eq)
  finally have eq: "(of_int (int (ps_capture_count s) - 1) :: u8) = of_nat (ps_capture_count s - 1)" .
  show ?thesis using assms unfolding eq cap_bounds_def CAPTURE_COUNT_MAX_def
    by (simp add: unat_of_nat del: of_nat_diff)
      (metis Suc_le_lessD diff_less le_less_trans less_imp_diff_less mod_less_eq_dividend zero_less_one One_nat_def)
qed

lemma replaces_min_zero:
  assumes r: "emit_min_zero s start lcc len quant_max greedy add = Some (POk, s')" and cap: "cap_bounds s"
  shows "replaces s start len s'"
proof (cases "lcc \<noteq> ps_capture_count s")
  case False
  then have "zero_shape s start len quant_max greedy add = Some (POk, s')"
    using r by (simp add: emit_min_zero_def zero_shape_def Let_def)
  then show ?thesis by (rule replaces_zero_shape)
next
  case True
  obtain s1 s2 s3 s4 where i: "code_insert s start 3 = Some (0, s1)"
    and o: "set_code s1 start REOP_save_reset = Some s2"
    and v: "set_code s2 (start + 1) (of_nat lcc) = Some s3"
    and w: "set_code s3 (start + 2) (of_int (int (ps_capture_count s3) - 1)) = Some s4"
    and z: "zero_shape s4 (start + 3) len quant_max greedy add = Some (POk, s')"
    using r True
    by (auto simp: emit_min_zero_def zero_shape_def Option.bind_eq_Some_conv Let_def simp del: of_int_diff
        elim!: with_insertE)
  note z' = replaces_zero_shape[OF z]
  have k: "keeps s s1" "keeps s1 s2" "keeps s2 s3" "keeps s3 s4"
    using keeps_insert[OF i] keeps_set_code[OF o] keeps_set_code[OF v] keeps_set_code[OF w] .
  then have k4: "keeps s s4" by (meson keeps_trans)
  have k5: "keeps s s'"
  proof (cases "dbuf_wf (byte_code s)")
    case True
    have "dbuf_wf (byte_code s4)" using keepsD(2)[OF k4 True] .
    moreover have "start + 2 < int (length (buf (byte_code s4)))"
      using w by (auto simp: set_code_def Option.bind_eq_Some_conv split: if_splits)
    ultimately have "start + 3 \<le> int (allocated_size (byte_code s4))" by (simp add: dbuf_wf_def)
    then show ?thesis using z' k4 keeps_trans by (auto simp: replaces_def)
  qed (simp add: keeps_def)
  show ?thesis
  proof (rule replacesI[OF k5])
    fix A L
    assume s: "dbuf_wf (byte_code s)" "good s'" "code s = A @ concat L" "start = int (length A)"
      "len = int (length (concat L))" "frag (ps_capture_count s) L"
    note w1 = keepsD(2)[OF k(1) s(1)]
    note w2 = keepsD(2)[OF k(2) w1]
    note w3 = keepsD(2)[OF k(3) w2]
    note w4 = keepsD(2)[OF k(4) w3]
    have a4: "start + 2 < int (length (buf (byte_code s4)))"
      using w by (auto simp: set_code_def Option.bind_eq_Some_conv split: if_splits)
    then have "keeps s4 s'" using z' w4 by (auto simp: replaces_def dbuf_wf_def)
    note g4 = keepsD(4)[OF this w4 s(2)]
    note g3 = keepsD(4)[OF k(4) w3 g4]
    note g2 = keepsD(4)[OF k(3) w2 g3]
    note g1 = keepsD(4)[OF k(2) w1 g2]
    have cap3: "ps_capture_count s3 = ps_capture_count s" "ps_capture_count s4 = ps_capture_count s"
      using keepsD(3)[OF k(1) s(1)] keepsD(3)[OF k(2) w1] keepsD(3)[OF k(3) w2] keepsD(3)[OF k(4) w3] by simp_all
    define m where "m = (of_int (int (ps_capture_count s3) - 1) :: u8)"
    from insert_gap[OF i[unfolded s(4)] s(1,3)] obtain J where J: "length J = 3" "code s1 = A @ J @ concat L" .
    from J(1) obtain a b c where "J = [a, b, c]" by (auto simp: eval_nat_numeral length_Suc_conv)
    with J(2) have c1: "code s1 = A @ a # b # c # concat L" by simp
    have c2: "code s2 = (A @ [REOP_save_reset]) @ b # c # concat L" using set_codeD(1)[OF o g1 c1 s(4)] by simp
    have c3: "code s3 = (A @ [REOP_save_reset, of_nat lcc]) @ c # concat L"
      using set_codeD(1)[OF v g2 c2] s(4) by simp
    have c4: "code s4 = (A @ [REOP_save_reset, of_nat lcc, m]) @ concat L"
      using set_codeD(1)[OF w g3 c3] s(4) by (simp add: m_def)
    have a3: "start + 3 = int (length (A @ [REOP_save_reset, of_nat lcc, m]))" by (simp add: s(4))
    from replaces_append[OF z' a3 s(5) c4 _ w4 s(2)] s(6) cap3(2) obtain L' where
      L': "frag (ps_capture_count s) L'" "code s' = (A @ [REOP_save_reset, of_nat lcc, m]) @ concat L'" by metis
    have "unat m < ps_capture_count s" using capture_bytes[OF cap] cap3(1) by (simp add: m_def)
    from frag_append[OF frag_save_reset[OF this] L'(1)] L'(2)
    show "\<exists>L'. frag (ps_capture_count s) L' \<and> code s' = A @ concat L'"
      by (intro exI[of _ "[[REOP_save_reset, of_nat lcc, m]] @ L'"]) simp
  qed
qed

section \<open>Optimised loops over simple atoms\<close>

lemma simple_loop_code:
  assumes "\<forall>i \<in> set L. wf_ins cc i" and "m = pre @ concat L @ post" and "length pre = base + pos"
    and "simple_quantifier_loop m base (pos + length (concat L)) pos count = Some c"
  shows "c = -1 \<or> (\<forall>i \<in> set L. is_simple i) \<and> c = count + int (length (filter (\<lambda>i. is_char_op (hd i)) L))"
  using assms
proof (induction L arbitrary: pre pos count)
  case Nil
  then show ?case by (subst (asm) simple_quantifier_loop.simps) simp
next
  case (Cons i L)
  have wf: "wf_ins cc i" using Cons.prems(1) by simp
  have m: "m = pre @ i @ (concat L @ post)" using Cons.prems(2) by simp
  have op: "mem_get m (base + pos) = Some (hd i)" "instr_size m (base + pos) = Some (length i)"
    using mem_get_mid[of 0 i pre "concat L @ post"] wf_ins_op_size[OF wf]
      instr_size_mid[OF wf, of pre "concat L @ post"] Cons.prems(3)
    by (simp_all add: m del: mem_get_Some)
  have pos: "0 < length i" using wf_ins_op_size(2)[OF wf] .
  note r = Cons.prems(4)[unfolded simple_quantifier_loop.simps[of _ _ _ pos]]
  have eq: "pos + length (concat (i # L)) = (pos + length i) + length (concat L)" by simp
  have IH: "c = -1 \<or> (\<forall>i \<in> set L. is_simple i) \<and> c = count' + int (length (filter (\<lambda>i. is_char_op (hd i)) L))"
    if "simple_quantifier_loop m base (pos + length (concat (i # L))) (pos + length i) count' = Some c" for count'
    by (rule Cons.IH[of "pre @ i" "pos + length i"]) (use Cons.prems that in \<open>simp_all add: add.assoc\<close>)
  show ?case
    using r pos IH[of count] IH[of "count + 1"] op
    by (auto simp: is_simple_def is_char_op_def is_test_op_def simp del: mem_get_Some split: if_splits)
qed

lemma simple_quantifier_code:
  assumes "frag cc L" and "good s" and "code s = A @ concat L"
    and "re_is_simple_quantifier (buf (byte_code s)) (length A) (code_size s - length A) = Some c" and "0 < c"
  shows "\<forall>i \<in> set L. is_simple i" and "c = int (length (filter (\<lambda>i. is_char_op (hd i)) L))"
proof -
  have b: "buf (byte_code s) = A @ concat L @ drop (dsize (byte_code s)) (buf (byte_code s))"
    using append_take_drop_id[of "dsize (byte_code s)" "buf (byte_code s)", symmetric] assms(3)
    by (simp add: dbuf_data_def del: append_take_drop_id)
  have "code_size s - length A = 0 + length (concat L)" using good_size(1)[OF assms(2)] assms(3) by simp
  from simple_loop_code[OF _ b _ assms(4)[unfolded re_is_simple_quantifier_def this]] assms(1,5)
  show "\<forall>i \<in> set L. is_simple i" "c = int (length (filter (\<lambda>i. is_char_op (hd i)) L))"
    by (auto simp: frag_def)
qed

lemma length_le_concat: "\<forall>i \<in> set L. wf_ins cc i \<Longrightarrow> length L \<le> length (concat L)"
proof (induction L)
  case (Cons i L)
  then have "length L \<le> length (concat L)" "0 < length i" using wf_ins_op_size(2)[of cc i] by simp_all
  then show ?case by (cases i) simp_all
qed simp

lemma frag_length: "frag cc L \<Longrightarrow> length L \<le> length (concat L)"
  using length_le_concat[of L cc] by (simp add: frag_def)

lemma replaces_simple:
  assumes r: "emit_simple_quant s start quant_min quant_max len = Some (POk, s')"
    and keeps: "keeps s s'" and s: "dbuf_wf (byte_code s)" "good s'" "code s = A @ concat L" "start = int (length A)"
      "frag (ps_capture_count s) L"
    and simple: "\<forall>i \<in> set L. is_simple i" "len = int (length (filter (\<lambda>i. is_char_op (hd i)) L))"
  shows "\<exists>L'. frag (ps_capture_count s) L' \<and> code s' = A @ concat L'"
proof -
  obtain s0 s1 s2 s3 s4 s5 where m: "re_emit_op s REOP_match = Some s0"
    and i: "code_insert s0 start 17 = Some (0, s1)"
    and o: "set_code s1 start REOP_simple_greedy_quant = Some s2"
    and v1: "put_code_u32 s2 (start + 1) (of_nat (code_size s2) - of_int start - 17) = Some s3"
    and v2: "put_code_u32 s3 (start + 5) (of_int quant_min) = Some s4"
    and v3: "put_code_u32 s4 (start + 9) (of_int quant_max) = Some s5"
    and v4: "put_code_u32 s5 (start + 13) (of_int len) = Some s'"
    using r by (auto simp: emit_simple_quant_def Option.bind_eq_Some_conv elim!: with_insertE)
  note w0 = keepsD(2)[OF keeps_op[OF m] s(1)]
  note w1 = keepsD(2)[OF keeps_insert[OF i] w0]
  note w2 = keepsD(2)[OF keeps_set_code[OF o] w1]
  note w3 = keepsD(2)[OF keeps_put_code[OF v1] w2]
  note w4 = keepsD(2)[OF keeps_put_code[OF v2] w3]
  note w5 = keepsD(2)[OF keeps_put_code[OF v3] w4]
  note g5 = keepsD(4)[OF keeps_put_code[OF v4] w5 s(2)]
  note g4 = keepsD(4)[OF keeps_put_code[OF v3] w4 g5]
  note g3 = keepsD(4)[OF keeps_put_code[OF v2] w3 g4]
  note g2 = keepsD(4)[OF keeps_put_code[OF v1] w2 g3]
  note g1 = keepsD(4)[OF keeps_set_code[OF o] w1 g2]
  note g0 = keepsD(4)[OF keeps_insert[OF i] w0 g1]
  have c0: "code s0 = A @ concat L @ [REOP_match]" using emitsD[OF emits_op[OF m] g0 s(1)] s(3) by simp
  from insert_gap[OF i[unfolded s(4)] w0 c0] obtain J where
    J: "length J = 17" "code s1 = A @ J @ concat L @ [REOP_match]" .
  define B where "B = concat L @ [REOP_match]"
  obtain j J1 J2 J3 J4 where J': "J = j # J1 @ J2 @ J3 @ J4"
    "length J1 = 4" "length J2 = 4" "length J3 = 4" "length J4 = 4"
  proof
    have "tl J = take 4 (tl J) @ take 4 (drop 4 (tl J)) @ take 4 (drop 4 (drop 4 (tl J))) @
        drop 4 (drop 4 (drop 4 (tl J)))"
      by (simp only: append_take_drop_id)
    then show "J = hd J # take 4 (tl J) @ take 4 (drop 4 (tl J)) @ take 4 (drop 4 (drop 4 (tl J))) @
        drop 4 (drop 4 (drop 4 (tl J)))"
      using J(1) by (metis list.collapse list.size(3) zero_neq_numeral)
  qed (use J(1) in simp_all)
  have c1: "code s1 = A @ j # J1 @ J2 @ J3 @ J4 @ B" using J J' by (simp add: B_def)
  have c2: "code s2 = (A @ [REOP_simple_greedy_quant]) @ J1 @ J2 @ J3 @ J4 @ B"
    using set_codeD(1)[OF o g1 c1 s(4)] by simp
  define l where "l = int (length (concat L))"
  have a: "(of_nat (code_size s2) - of_int start - 17 :: u32) = of_int (l + 1)"
    unfolding good_size(1)[OF g2] c2 s(4) B_def l_def using J' by simp
  have c3: "code s3 = (A @ [REOP_simple_greedy_quant] @ le_bytes 4 (unat (of_int (l + 1) :: u32))) @ J2 @ J3 @ J4 @ B"
    using put_code_u32D(1)[OF v1[unfolded a] g2 c2 J'(2)] s(4) by simp
  have c4: "code s4 = (A @ [REOP_simple_greedy_quant] @ le_bytes 4 (unat (of_int (l + 1) :: u32)) @
      le_bytes 4 (unat (of_int quant_min :: u32))) @ J3 @ J4 @ B"
    using put_code_u32D(1)[OF v2 g3 c3 J'(3)] s(4) by simp
  have c5: "code s5 = (A @ [REOP_simple_greedy_quant] @ le_bytes 4 (unat (of_int (l + 1) :: u32)) @
      le_bytes 4 (unat (of_int quant_min :: u32)) @ le_bytes 4 (unat (of_int quant_max :: u32))) @ J4 @ B"
    using put_code_u32D(1)[OF v3 g4 c4 J'(4)] s(4) by simp
  let ?L = "[ins_greedy (of_int (l + 1)) (of_int quant_min) (of_int quant_max) (of_int len)] @ L @ [[REOP_match]]"
  have c: "code s' = A @ concat ?L"
    using put_code_u32D(1)[OF v4 g5 c5 J'(5)] s(4) by (simp add: ins_greedy_def B_def)
  have "off32 (l + 1)" using good_size(3)[OF s(2)] by (simp add: c off32_def l_def ins_greedy_def)
  moreover have "length L < 2 ^ 32" using frag_length[OF s(5)] good_size(3)[OF s(2)] by (simp add: c)
  ultimately have "frag (ps_capture_count s) ?L"
    using frag_greedy[OF s(5) simple(1) _ l_def _ refl] simple(2) by simp
  then show ?thesis using c by blast
qed

lemma keeps_simple: "emit_simple_quant s start quant_min quant_max len = Some (POk, s') \<Longrightarrow> keeps s s'"
  by (auto simp: emit_simple_quant_def Option.bind_eq_Some_conv elim!: with_insertE
      dest!: keeps_op keeps_insert keeps_set_code keeps_put_code)
     (meson keeps_trans)

section \<open>Required iterations\<close>

definition tails :: "re_parse_state \<Rightarrow> int \<Rightarrow> int \<Rightarrow> re_parse_state \<Rightarrow> bool" where
  "tails s start len s' \<longleftrightarrow>
     keeps s s' \<and>
     (\<forall>A L B. dbuf_wf (byte_code s) \<and> good s' \<and> code s = A @ concat L @ B \<and> start = int (length A) \<and>
        len = int (length (concat L)) \<and> frag (ps_capture_count s) L \<longrightarrow>
        (\<exists>T. frag (ps_capture_count s) T \<and> code s' = code s @ concat T))"

lemma tails_star:
  assumes o: "re_emit_op_u32 s (split_op greedy) (of_int (len + 5)) = Some (p, s1)"
    and a: "copy_atom s1 start len = Some s2"
    and j: "emit_goto_op s2 REOP_goto (code_len s) = Some s'"
  shows "tails s start len s'"
  unfolding tails_def
proof (intro conjI allI impI; (elim conjE)?)
  have k: "keeps s s1" "keeps s1 s2" "keeps s2 s'"
    using keeps_op_u32[OF o] keeps_copy_atom[OF a] keeps_goto_op[OF j] .
  then show "keeps s s'" by (meson keeps_trans)
  fix A L B
  assume s: "dbuf_wf (byte_code s)" "good s'" "code s = A @ concat L @ B" "start = int (length A)"
    "len = int (length (concat L))" "frag (ps_capture_count s) L"
  note w1 = keepsD(2)[OF k(1) s(1)]
  note w2 = keepsD(2)[OF k(2) w1]
  note g2 = keepsD(4)[OF k(3) w2 s(2)]
  note g1 = keepsD(4)[OF k(2) w1 g2]
  note g0 = keepsD(4)[OF k(1) s(1) g1]
  have c1: "code s1 = code s @ ins_u32 (split_op greedy) (of_int (len + 5))"
    using emitsD[OF emits_op_u32(1)[OF o] g1 s(1)] .
  then have "code s1 = A @ concat L @ B @ ins_u32 (split_op greedy) (of_int (len + 5))" using s(3) by simp
  note c2 = emits_copy_atom[OF a w1 this s(4,5) g2]
  have off: "code_len s - (int (length (code s2)) + 5) = - (len + 10)"
    by (simp add: c2 c1 good_size(2)[OF g0] s(5))
  note c = emitsD[OF emits_goto_op[OF j] s(2) w2, unfolded off]
  let ?T = "[ins_u32 (split_op greedy) (of_int (len + 5))] @ L @ [ins_u32 REOP_goto (of_int (- (len + 10)))]"
  have c': "code s' = code s @ concat ?T" unfolding c c2 c1 by simp
  have "off32 (len + 10)" using good_size(3)[OF s(2)] s(5) by (simp add: c' off32_def)
  from frag_star[OF s(6) split_op_cases s(5) this] c'
  show "\<exists>T. frag (ps_capture_count s) T \<and> code s' = code s @ concat T" by blast
qed

lemma tails_star_check:
  assumes o: "re_emit_op_u32 s (split_op greedy) (of_int (len + 6)) = Some (p, s1)"
    and b: "re_emit_op s1 REOP_push_char_pos = Some s2"
    and a: "copy_atom s2 start len = Some s3"
    and j: "emit_goto_op s3 REOP_bne_char_pos (code_len s) = Some s'"
  shows "tails s start len s'"
  unfolding tails_def
proof (intro conjI allI impI; (elim conjE)?)
  have k: "keeps s s1" "keeps s1 s2" "keeps s2 s3" "keeps s3 s'"
    using keeps_op_u32[OF o] keeps_op[OF b] keeps_copy_atom[OF a] keeps_goto_op[OF j] .
  then show "keeps s s'" by (meson keeps_trans)
  fix A L B
  assume s: "dbuf_wf (byte_code s)" "good s'" "code s = A @ concat L @ B" "start = int (length A)"
    "len = int (length (concat L))" "frag (ps_capture_count s) L"
  note w1 = keepsD(2)[OF k(1) s(1)]
  note w2 = keepsD(2)[OF k(2) w1]
  note w3 = keepsD(2)[OF k(3) w2]
  note g3 = keepsD(4)[OF k(4) w3 s(2)]
  note g2 = keepsD(4)[OF k(3) w2 g3]
  note g1 = keepsD(4)[OF k(2) w1 g2]
  note g0 = keepsD(4)[OF k(1) s(1) g1]
  define sp where "sp = ins_u32 (split_op greedy) (of_int (len + 6))"
  have c1: "code s1 = code s @ sp" using emitsD[OF emits_op_u32(1)[OF o] g1 s(1)] by (simp add: sp_def)
  have c2: "code s2 = code s @ sp @ [REOP_push_char_pos]" using emitsD[OF emits_op[OF b] g2 w1] c1 by simp
  then have "code s2 = A @ concat L @ B @ sp @ [REOP_push_char_pos]" using s(3) by simp
  note c3 = emits_copy_atom[OF a w2 this s(4,5) g3]
  have off: "code_len s - (int (length (code s3)) + 5) = - (len + 11)"
    by (simp add: c3 c2 sp_def good_size(2)[OF g0] s(5))
  note c = emitsD[OF emits_goto_op[OF j] s(2) w3, unfolded off]
  let ?T = "[sp, [REOP_push_char_pos]] @ L @ [ins_u32 REOP_bne_char_pos (of_int (- (len + 11)))]"
  have c': "code s' = code s @ concat ?T" unfolding c c3 c2 by simp
  have "off32 (len + 11)" using good_size(3)[OF s(2)] s(5) by (simp add: c' off32_def sp_def)
  from frag_star_check[OF s(6) split_op_cases s(5) this] c'
  show "\<exists>T. frag (ps_capture_count s) T \<and> code s' = code s @ concat T" unfolding sp_def by blast
qed

lemma tails_bounded:
  assumes b: "re_emit_op_u32 s REOP_push_i32 q = Some (p, s1)"
    and o: "re_emit_op_u32 s1 (split_op greedy) (of_int (len + 5)) = Some (p', s2)"
    and a: "copy_atom s2 start len = Some s3"
    and j: "emit_goto_op s3 REOP_loop (code_len s1) = Some s4"
    and d: "re_emit_op s4 REOP_drop = Some s'"
  shows "tails s start len s'"
  unfolding tails_def
proof (intro conjI allI impI; (elim conjE)?)
  have k: "keeps s s1" "keeps s1 s2" "keeps s2 s3" "keeps s3 s4" "keeps s4 s'"
    using keeps_op_u32[OF b] keeps_op_u32[OF o] keeps_copy_atom[OF a] keeps_goto_op[OF j] keeps_op[OF d] .
  then show "keeps s s'" by (meson keeps_trans)
  fix A L B
  assume s: "dbuf_wf (byte_code s)" "good s'" "code s = A @ concat L @ B" "start = int (length A)"
    "len = int (length (concat L))" "frag (ps_capture_count s) L"
  note w1 = keepsD(2)[OF k(1) s(1)]
  note w2 = keepsD(2)[OF k(2) w1]
  note w3 = keepsD(2)[OF k(3) w2]
  note w4 = keepsD(2)[OF k(4) w3]
  note g4 = keepsD(4)[OF k(5) w4 s(2)]
  note g3 = keepsD(4)[OF k(4) w3 g4]
  note g2 = keepsD(4)[OF k(3) w2 g3]
  note g1 = keepsD(4)[OF k(2) w1 g2]
  define sp where "sp = ins_u32 (split_op greedy) (of_int (len + 5))"
  have c1: "code s1 = code s @ ins_u32 REOP_push_i32 q" using emitsD[OF emits_op_u32(1)[OF b] g1 s(1)] .
  have c2: "code s2 = code s @ ins_u32 REOP_push_i32 q @ sp"
    using emitsD[OF emits_op_u32(1)[OF o] g2 w1] c1 by (simp add: sp_def)
  then have "code s2 = A @ concat L @ B @ ins_u32 REOP_push_i32 q @ sp" using s(3) by simp
  note c3 = emits_copy_atom[OF a w2 this s(4,5) g3]
  have off: "code_len s1 - (int (length (code s3)) + 5) = - (len + 10)"
    by (simp add: c3 c2 c1 sp_def good_size(2)[OF g1] s(5))
  note c4 = emitsD[OF emits_goto_op[OF j] g4 w3, unfolded off]
  note c = emitsD[OF emits_op[OF d] s(2) w4]
  let ?T = "[ins_u32 REOP_push_i32 q, sp] @ L @ [ins_u32 REOP_loop (of_int (- (len + 10))), [REOP_drop]]"
  have c': "code s' = code s @ concat ?T" unfolding c c4 c3 c2 by simp
  have "off32 (len + 10)" using good_size(3)[OF s(2)] s(5) by (simp add: c' off32_def)
  from frag_bounded[OF s(6) split_op_cases s(5) this] c'
  show "\<exists>T. frag (ps_capture_count s) T \<and> code s' = code s @ concat T" unfolding sp_def by blast
qed

lemma tails_none: "s' = s \<Longrightarrow> tails s start len s'"
  by (auto simp: tails_def intro!: exI[of _ "[]"])

lemma tails_emit_tail:
  assumes "emit_tail s start len quant_min quant_max greedy add = Some s'"
  shows "tails s start len s'"
proof -
  consider (star) p s1 s2 where "re_emit_op_u32 s (split_op greedy) (of_int (len + 5)) = Some (p, s1)"
      "copy_atom s1 start len = Some s2" "emit_goto_op s2 REOP_goto (code_len s) = Some s'"
    | (check) p s1 s2 s3 where "re_emit_op_u32 s (split_op greedy) (of_int (len + 6)) = Some (p, s1)"
      "re_emit_op s1 REOP_push_char_pos = Some s2" "copy_atom s2 start len = Some s3"
      "emit_goto_op s3 REOP_bne_char_pos (code_len s) = Some s'"
    | (bounded) p p' s1 s2 s3 s4 where
      "re_emit_op_u32 s REOP_push_i32 (of_int (quant_max - quant_min)) = Some (p, s1)"
      "re_emit_op_u32 s1 (split_op greedy) (of_int (len + 5)) = Some (p', s2)"
      "copy_atom s2 start len = Some s3" "emit_goto_op s3 REOP_loop (code_len s1) = Some s4"
      "re_emit_op s4 REOP_drop = Some s'"
    | (none) "s' = s"
    using assms
    by (cases "quant_max = INT32_MAX"; cases add)
       (auto simp: emit_tail_def Option.bind_eq_Some_conv Let_def add.assoc simp del: of_int_add of_int_diff
         split: if_splits)
  then show ?thesis
    by cases (blast intro: tails_star tails_star_check tails_bounded tails_none)+
qed

lemma replaces_min_pos:
  assumes r: "emit_min_pos s start len quant_min quant_max greedy add = Some (POk, s')"
  shows "replaces s start len s'"
proof (cases "quant_min = 1")
  case True
  then have t: "tails s start len s'" using r by (auto simp: emit_min_pos_def intro: tails_emit_tail)
  show ?thesis
  proof (rule replacesI)
    show "keeps s s'" using t by (simp add: tails_def)
    fix A L
    assume s: "dbuf_wf (byte_code s)" "good s'" "code s = A @ concat L" "start = int (length A)"
      "len = int (length (concat L))" "frag (ps_capture_count s) L"
    have "code s = A @ concat L @ []" by (simp add: s(3))
    then obtain T where "frag (ps_capture_count s) T" "code s' = code s @ concat T"
      using t s unfolding tails_def by blast
    then show "\<exists>L'. frag (ps_capture_count s) L' \<and> code s' = A @ concat L'"
      using frag_append[OF s(6)] s(3) by (intro exI[of _ "L @ T"]) simp
  qed
next
  case False
  obtain s1 s2 s3 s4 s5 where i: "code_insert s start 5 = Some (0, s1)"
    and o: "set_code s1 start REOP_push_i32 = Some s2"
    and v: "put_code_u32 s2 (start + 1) (of_int quant_min) = Some s3"
    and j: "emit_goto_op s3 REOP_loop (start + 5) = Some s4"
    and d: "re_emit_op s4 REOP_drop = Some s5"
    and "emit_tail s5 (start + 5) len quant_min quant_max greedy add = Some s'"
    using r False
    by (auto simp: emit_min_pos_def Option.bind_eq_Some_conv Let_def elim!: with_insertE)
  then have t: "tails s5 (start + 5) len s'" by (auto intro: tails_emit_tail)
  have k: "keeps s s1" "keeps s1 s2" "keeps s2 s3" "keeps s3 s4" "keeps s4 s5"
    using keeps_insert[OF i] keeps_set_code[OF o] keeps_put_code[OF v] keeps_goto_op[OF j] keeps_op[OF d] .
  have k5: "keeps s s5" using k by (meson keeps_trans)
  have k6: "keeps s5 s'" using t by (simp add: tails_def)
  show ?thesis
  proof (rule replacesI)
    show "keeps s s'" using k5 k6 by (rule keeps_trans)
    fix A L
    assume s: "dbuf_wf (byte_code s)" "good s'" "code s = A @ concat L" "start = int (length A)"
      "len = int (length (concat L))" "frag (ps_capture_count s) L"
    note w1 = keepsD(2)[OF k(1) s(1)]
    note w2 = keepsD(2)[OF k(2) w1]
    note w3 = keepsD(2)[OF k(3) w2]
    note w4 = keepsD(2)[OF k(4) w3]
    note w5 = keepsD(2)[OF k(5) w4]
    note g5 = keepsD(4)[OF k6 w5 s(2)]
    note g4 = keepsD(4)[OF k(5) w4 g5]
    note g3 = keepsD(4)[OF k(4) w3 g4]
    note g2 = keepsD(4)[OF k(3) w2 g3]
    note g1 = keepsD(4)[OF k(2) w1 g2]
    from insert_gap[OF i[unfolded s(4)] s(1,3)] obtain J where J: "length J = 5" "code s1 = A @ J @ concat L" .
    define P where "P = ins_u32 REOP_push_i32 (of_int quant_min)"
    have c3: "code s3 = A @ P @ concat L" using fill_op(1)[OF o v g1 J(2,1) s(4)] by (simp add: P_def)
    have off: "start + 5 - (int (length (code s3)) + 5) = - (len + 5)" by (simp add: c3 P_def s(4,5))
    define l where "l = ins_u32 REOP_loop (of_int (- (len + 5)))"
    have c4: "code s4 = A @ P @ concat L @ l"
      using emitsD[OF emits_goto_op[OF j] g4 w3, unfolded off] c3 by (simp add: l_def)
    have c5: "code s5 = (A @ P) @ concat L @ l @ [REOP_drop]" using emitsD[OF emits_op[OF d] g5 w4] c4 by simp
    have cap: "ps_capture_count s5 = ps_capture_count s" using keepsD(3)[OF k5 s(1)] .
    have "start + 5 = int (length (A @ P))" by (simp add: s(4) P_def)
    then obtain T where T: "frag (ps_capture_count s) T" "code s' = code s5 @ concat T"
      using t w5 s(2,5,6) c5 cap unfolding tails_def by metis
    have c: "code s' = A @ concat (([P] @ L @ [l, [REOP_drop]]) @ T)" by (simp add: T c5)
    have "off32 (len + 5)" using good_size(3)[OF s(2)] s(5) by (simp add: c off32_def P_def l_def)
    from frag_append[OF frag_counted[OF s(6) s(5) this] T(1)] c
    show "\<exists>L'. frag (ps_capture_count s) L' \<and> code s' = A @ concat L'" unfolding P_def l_def by blast
  qed
qed

lemma replaces_plus:
  assumes j: "emit_goto_op s op start = Some s'" and op: "op = REOP_split_goto_first \<or> op = REOP_split_next_first"
  shows "replaces s start len s'"
proof (rule replacesI)
  show "keeps s s'" using j by (rule keeps_goto_op)
  fix A L
  assume s: "dbuf_wf (byte_code s)" "good s'" "code s = A @ concat L" "start = int (length A)"
    "len = int (length (concat L))" "frag (ps_capture_count s) L"
  have off: "start - (int (length (code s)) + 5) = - (len + 5)" by (simp add: s(3,4,5))
  note e = emitsD[OF emits_goto_op[OF j] s(2,1), unfolded off]
  let ?L = "[] @ L @ [ins_u32 op (of_int (- (len + 5)))]"
  have c: "code s' = A @ concat ?L" by (simp add: e s(3))
  have "off32 (len + 5)" using good_size(3)[OF s(2)] s(5) by (simp add: c off32_def)
  from frag_plus[OF s(6) op s(5) this] c
  show "\<exists>L'. frag (ps_capture_count s) L' \<and> code s' = A @ concat L'" by blast
qed

lemma replaces_general:
  assumes "emit_general_quant s start lcc quant_min quant_max greedy add = Some (POk, s')" and "cap_bounds s"
  shows "replaces s start (code_len s - start) s'"
  using assms
  by (auto simp: emit_general_quant_def Let_def Option.bind_eq_Some_conv
      intro: replaces_min_zero replaces_plus replaces_min_pos split: if_splits)

section \<open>All quantifiers\<close>

theorem emit_quant_replaces:
  assumes r: "emit_quant s start lcc quant_min quant_max greedy = Some (POk, s')"
    and wf: "dbuf_wf (byte_code s)" "cap_bounds s" and start: "start \<le> int (allocated_size (byte_code s))"
  shows "keeps s s'"
    and "good s' \<Longrightarrow> code s = A @ concat L \<Longrightarrow> start = int (length A) \<Longrightarrow> frag (ps_capture_count s) L \<Longrightarrow>
      \<exists>L'. frag (ps_capture_count s) L' \<and> code s' = A @ concat L'"
proof -
  consider (simple) len where "re_is_simple_quantifier (buf (byte_code s)) (nat start) (code_size s - nat start) = Some len"
      "0 < len" "emit_simple_quant s start quant_min quant_max len = Some (POk, s')"
    | (general) add where "emit_general_quant s start lcc quant_min quant_max greedy add = Some (POk, s')"
    using r
    by (auto simp: emit_quant_def Option.bind_eq_Some_conv Let_def term_oom_def split: if_splits)
  note cases = this
  show k: "keeps s s'"
    using cases
  proof cases
    case general
    then show ?thesis using replaces_general[OF _ wf(2)] start by (auto simp: replaces_def)
  qed (rule keeps_simple)
  assume s: "good s'" "code s = A @ concat L" "start = int (length A)" "frag (ps_capture_count s) L"
  note g = keepsD(4)[OF k wf(1) s(1)]
  show "\<exists>L'. frag (ps_capture_count s) L' \<and> code s' = A @ concat L'"
    using cases
  proof cases
    case (simple len)
    note q = simple_quantifier_code[OF s(4) g s(2) _ simple(2)]
    show ?thesis
      by (rule replaces_simple[OF simple(3) k wf(1) s(1,2,3,4)]) (use q simple(1) s(3) in simp_all)
  next
    case (general add)
    have "code_len s - start = int (length (concat L))" by (simp add: good_size(2)[OF g] s(2,3))
    then show ?thesis using replaces_general[OF general wf(2)] wf(1) s by (auto simp: replaces_def)
  qed
qed

end
