(* ===== verification/Regexp_Compile.thy ===== *)
theory Regexp_Compile
  imports Regexp_Quant
begin

text \<open>
  The parser as a whole appends fragments, and the compiler closes them into a program that passes
  the verifier; running that program is free of undefined behaviour.
\<close>

section \<open>Terms\<close>

lemma same_expect: "re_parse_expect s p c = Some (r, p', s') \<Longrightarrow> same s s'"
  by (auto simp: re_parse_expect_def Option.bind_eq_Some_conv dest: same_error split: if_splits)

lemma same_quant_error: "quant_error s = Some (r, q, s') \<Longrightarrow> same s s'"
  by (auto simp: quant_error_def Option.bind_eq_Some_conv dest: same_error)

lemma same_count_quant: "parse_count_quant s p = Some (r, q, s') \<Longrightarrow> same s s'"
  by (auto simp: parse_count_quant_def Option.bind_eq_Some_conv Let_def dest: same_quant_error same_expect
      split: if_splits)

lemma same_quant: "parse_quant s p = Some (r, q, s') \<Longrightarrow> same s s'"
  by (auto simp: parse_quant_def Option.bind_eq_Some_conv dest: same_count_quant split: if_splits)

lemma code_len_le: "code_len s \<le> int (code_size s)"
proof -
  have "sint (of_nat n :: u32) \<le> int n" for n
  proof -
    have "sint (of_nat n :: u32) \<le> uint (of_nat n :: u32)"
      unfolding sint_uint signed_take_bit_int_less_eq_self_iff by (rule order_trans[of _ 0]) simp_all
    also have "\<dots> \<le> int n" by (simp add: unsigned_of_nat take_bit_nat_less_eq_self)
    finally show ?thesis .
  qed
  then show ?thesis by (simp add: code_len_def int_of_size_def)
qed

lemma produces_quant:
  assumes p: "produces s s1" and e: "emit_quant s1 start lcc quant_min quant_max greedy = Some (POk, s')"
    and start: "start = code_len s"
  shows "produces s s'"
proof (rule producesI)
  assume wf: "dbuf_wf (byte_code s)" "cap_bounds s"
  note s1 = producesF[OF p wf]
  have "start \<le> int (allocated_size (byte_code s1))"
    using code_len_le[of s] start wf(1) s1(1) by (simp add: code_size_def dbuf_wf_def later_def)
  note q = emit_quant_replaces[OF e s1(2,3) this]
  note k = keepsD[OF q(1) s1(2)]
  show "later s s' \<and> ps_capture_count s \<le> ps_capture_count s' \<and> cap_bounds s'"
    using later_trans[OF s1(1) k(1)] s1(3,4) k(3) by (simp add: cap_bounds_def)
  assume g: "good s'" "good s"
  obtain L where L: "frag (ps_capture_count s1) L" "code s1 = code s @ concat L"
    using producesD[OF p wf k(4)[OF g(1)]] by metis
  have "start = int (length (code s))" using start good_size(2)[OF g(2)] by simp
  from q(2)[OF g(1) L(2) this L(1)] show "\<exists>L. frag (ps_capture_count s') L \<and> code s' = code s @ concat L"
    by (simp add: k(3))
qed

lemma produces_term:
  assumes dj: "disj_ok dj" and r: "re_parse_term n dj bw s = Some (POk, s')"
  shows "produces s s'"
proof -
  obtain start lcc p s1 where a: "parse_atom n dj s bw = Some (POk, start, lcc, p, s1)"
    using r by (auto simp: re_parse_term_def Option.bind_eq_Some_conv split: if_splits)
  have p1: "produces s s1" and st: "start = code_len s \<or> start < 0"
    using atom_ok_atom[OF dj, of s n bw] a by (auto simp: atom_ok_def)
  have ptr: "produces s (s2\<lparr>buf_ptr := q\<rparr>)" if "produces s s2" for s2 q
    using that same_produces[OF same_updates(1)] by (rule produces_trans)
  show ?thesis
  proof (cases "start < 0")
    case True
    then show ?thesis using r a ptr[OF p1] by (auto simp: re_parse_term_def)
  next
    case False
    obtain qt s2 where q: "parse_quant s1 p = Some (POk, qt, s2)"
      using r a False by (auto simp: re_parse_term_def Option.bind_eq_Some_conv split: if_splits)
    have p2: "produces s s2" using p1 same_produces[OF same_quant[OF q]] by (rule produces_trans)
    show ?thesis
    proof (cases qt)
      case (NoQuant x)
      then show ?thesis using r a False q ptr[OF p2] by (auto simp: re_parse_term_def)
    next
      case (Quant mn mx x)
      obtain b where b: "mem_get (pattern s2) x = Some b"
        using r a False q Quant by (auto simp: re_parse_term_def Option.bind_eq_Some_conv simp del: mem_get_Some)
      obtain r3 s3 where e: "emit_quant s2 start lcc mn mx (b \<noteq> 0x3f) = Some (r3, s3)"
        using r a False q Quant b
        by (cases "emit_quant s2 start lcc mn mx (b \<noteq> 0x3f)")
           (auto simp: re_parse_term_def Let_def simp del: mem_get_Some)
      have "r3 = POk" and s': "s' = s3\<lparr>buf_ptr := if b \<noteq> 0x3f then x else x + 1\<rparr>"
        using r a False q Quant b e by (auto simp: re_parse_term_def Let_def simp del: mem_get_Some split: if_splits)
      then have "produces s s3" using produces_quant[OF p2] e st False by simp
      from ptr[OF this] show ?thesis unfolding s' .
    qed
  qed
qed

section \<open>Alternatives\<close>

lemma reverse_term_code:
  assumes r: "reverse_term s start term_start = Some (POk, s')"
  shows "keeps s s'"
    and "dbuf_wf (byte_code s) \<Longrightarrow> good s' \<Longrightarrow> code s = P @ Q @ T \<Longrightarrow> start = length P \<Longrightarrow>
      term_start = length P + length Q \<Longrightarrow> code s' = P @ T @ Q"
proof -
  define e where "e = code_size s"
  obtain b xs m ys m' where b: "dbuf_realloc (byte_code s) (szt (e + (e - term_start))) = Some (0, b)"
    and xs: "mem_read (buf b) start (e - start) = Some xs"
    and m: "mem_write (buf b) (start + (e - term_start)) xs = Some m"
    and ys: "mem_read m e (e - term_start) = Some ys"
    and m': "mem_write m start ys = Some m'"
    and s': "s' = s\<lparr>byte_code := b\<lparr>buf := m'\<rparr>\<rparr>"
    using r
    by (auto simp: reverse_term_def Option.bind_eq_Some_conv Let_def e_def simp del: mem_read_Some mem_write_Some
        split: if_splits)
  have len: "length m' = length (buf b)" using length_mem_write[OF m] length_mem_write[OF m'] by simp
  have b1: "dbuf_wf b" "dbuf_data b = code s" "dsize b = dsize (byte_code s)" if "dbuf_wf (byte_code s)"
    using dbuf_realloc_spec[OF that, of "szt (e + (e - term_start))"] b by (metis option.inject prod.inject)+
  show k: "keeps s s'"
    using b1(1) s' len dbuf_realloc_grows[OF b] by (auto simp: keeps_def later_def dbuf_wf_def)
  assume wf: "dbuf_wf (byte_code s)" and g: "good s'" and c: "code s = P @ Q @ T" and at: "start = length P"
    "term_start = length P + length Q"
  have e': "e = length P + length Q + length T"
    using length_dbuf_data[OF wf] c by (simp add: e_def code_size_def)
  have dsize: "dsize b = e" using b1(3)[OF wf] by (simp add: e_def code_size_def)
  define R where "R = drop e (buf b)"
  have buf: "buf b = P @ Q @ T @ R"
    using append_take_drop_id[of e "buf b", symmetric] b1(2)[OF wf] c dsize
    by (simp add: dbuf_data_def R_def del: append_take_drop_id)
  have ts: "e - term_start = length T" "e - start = length Q + length T" using e' at by simp_all
  have xs': "xs = Q @ T" using xs buf at ts by simp
  have "drop (length P + length T + length xs) (buf b) = drop (length T) R"
    by (simp add: buf xs' drop_eq_Nil2 add.assoc)
  then have m1: "m = take (length P + length T) (buf b) @ Q @ T @ drop (length T) R"
    using m xs' at ts by simp
  have lb: "length P + length T \<le> length (buf b)" by (simp add: buf)
  have ys': "ys = T"
  proof -
    have "m = (take (length P + length T) (buf b) @ Q) @ T @ drop (length T) R" using m1 by simp
    moreover have "length (take (length P + length T) (buf b) @ Q) = e" using lb e' by simp
    ultimately show ?thesis using ys ts(1) by simp
  qed
  have "take (length P + length T) (buf b) = P @ take (length T) (Q @ T @ R)" by (simp add: buf)
  then have "m' = P @ T @ Q @ T @ drop (length T) R" using m' ys' at m1 by simp
  then show "code s' = P @ T @ Q" using s' dsize e' by (simp add: dbuf_data_def)
qed

lemma produces_reverse:
  assumes p0: "produces s0 s" and p1: "produces s s1" and r: "reverse_term s1 (code_size s0) (code_size s) = Some (POk, s')"
  shows "produces s0 s'"
proof (rule producesI)
  assume wf: "dbuf_wf (byte_code s0)" "cap_bounds s0"
  note s = producesF[OF p0 wf]
  note s1 = producesF[OF p1 s(2,3)]
  note k = keepsD[OF reverse_term_code(1)[OF r] s1(2)]
  show "later s0 s' \<and> ps_capture_count s0 \<le> ps_capture_count s' \<and> cap_bounds s'"
    using later_trans[OF s(1) later_trans[OF s1(1) k(1)]] s(4) s1(3,4) k(3) by (simp add: cap_bounds_def)
  assume g: "good s'" "good s0"
  obtain T where T: "frag (ps_capture_count s1) T" "code s1 = code s @ concat T" "good s"
    using producesD[OF p1 s(2,3) k(4)[OF g(1)]] .
  obtain L where L: "frag (ps_capture_count s) L" "code s = code s0 @ concat L"
    using producesD[OF p0 wf T(3)] by metis
  have c: "code s1 = code s0 @ concat L @ concat T" using T(2) L(2) by simp
  have at: "code_size s0 = length (code s0)" "code_size s = length (code s0) + length (concat L)"
    using good_size(1)[OF g(2)] good_size(1)[OF T(3)] L(2) by simp_all
  have "code s' = code s0 @ concat (T @ L)" using reverse_term_code(2)[OF r s1(2) g(1) c at] by simp
  moreover have "frag (ps_capture_count s') (T @ L)"
    using frag_append[OF T(1) frag_mono[OF L(1) s1(4)]] k(3) by simp
  ultimately show "\<exists>L. frag (ps_capture_count s') L \<and> code s' = code s0 @ concat L" by blast
qed

lemma produces_alternative_loop:
  assumes "disj_ok dj" and "alternative_loop k n dj bw (code_size s0) s = Some (POk, s')" and "produces s0 s"
  shows "produces s0 s'"
  using assms(2,3)
proof (induction k arbitrary: s)
  case (Suc k)
  show ?case
  proof (cases "s' = s")
    case False
    then obtain s1 where t: "re_parse_term n dj bw s = Some (POk, s1)"
      and next_: "if bw then \<exists>s2. reverse_term s1 (code_size s0) (code_size s) = Some (POk, s2) \<and>
          alternative_loop k n dj bw (code_size s0) s2 = Some (POk, s')
        else alternative_loop k n dj bw (code_size s0) s1 = Some (POk, s')"
      using Suc.prems(1) by (auto simp: Option.bind_eq_Some_conv Let_def split: if_splits)
    note p1 = produces_term[OF assms(1) t]
    show ?thesis
      using next_ Suc.IH produces_reverse[OF Suc.prems(2) p1] produces_trans[OF Suc.prems(2) p1]
      by (cases bw) auto
  qed (use Suc.prems in simp)
qed simp

lemma produces_alternative:
  "disj_ok dj \<Longrightarrow> re_parse_alternative n dj bw s = Some (POk, s') \<Longrightarrow> produces s s'"
  unfolding re_parse_alternative_def using produces_alternative_loop produces_refl by blast

section \<open>Disjunctions\<close>

lemma produces_choice:
  assumes p: "produces s0 s" and i: "code_insert s (code_len s0) 5 = Some (0, s1)"
    and o: "set_code s1 (code_len s0) REOP_split_next_first = Some s2"
    and v: "put_code_u32 s2 (code_len s0 + 1) (of_int (code_len s - code_len s0 + 5)) = Some s3"
    and j: "re_emit_op_u32 s3 REOP_goto 0 = Some (pos, s4)"
    and a: "produces s4 s5"
    and w: "put_code_u32 s5 pos (of_int (code_len s5 - (pos + 4))) = Some s'"
  shows "produces s0 s'"
proof (rule producesI)
  have k: "keeps s s1" "keeps s1 s2" "keeps s2 s3" "keeps s3 s4"
    using keeps_insert[OF i] keeps_set_code[OF o] keeps_put_code[OF v] keeps_op_u32[OF j] .
  assume wf: "dbuf_wf (byte_code s0)" "cap_bounds s0"
  note s = producesF[OF p wf]
  note w1 = keepsD(2)[OF k(1) s(2)]
  note w2 = keepsD(2)[OF k(2) w1]
  note w3 = keepsD(2)[OF k(3) w2]
  note w4 = keepsD(2)[OF k(4) w3]
  have "keeps s s4" using k by (meson keeps_trans)
  note s4 = keepsD[OF this s(2)]
  have "cap_bounds s4" using s4(3) s(3) by (simp add: cap_bounds_def)
  note s5 = producesF[OF a w4 this]
  note s' = keepsD[OF keeps_put_code[OF w] s5(2)]
  show "later s0 s' \<and> ps_capture_count s0 \<le> ps_capture_count s' \<and> cap_bounds s'"
    using later_trans[OF s(1) later_trans[OF s4(1) later_trans[OF s5(1) s'(1)]]] s(4) s5(3,4) s4(3) s'(3)
    by (simp add: cap_bounds_def)
  assume g: "good s'" "good s0"
  note g5 = s'(4)[OF g(1)]
  obtain N where N: "frag (ps_capture_count s5) N" "code s5 = code s4 @ concat N" "good s4"
    using producesD[OF a w4 \<open>cap_bounds s4\<close> g5] .
  note g3 = keepsD(4)[OF k(4) w3 N(3)]
  note g2 = keepsD(4)[OF k(3) w2 g3]
  note g1 = keepsD(4)[OF k(2) w1 g2]
  note gs = keepsD(4)[OF k(1) s(2) g1]
  obtain M where M: "frag (ps_capture_count s) M" "code s = code s0 @ concat M"
    using producesD[OF p wf gs] by metis
  define len where "len = int (length (concat M))"
  have at: "code_len s0 = int (length (code s0))" using good_size(2)[OF g(2)] .
  have l: "code_len s - code_len s0 = len" using good_size(2)[OF gs] at M(2) by (simp add: len_def)
  note v' = v[unfolded l]
  from insert_gap[OF i[unfolded at] s(2) M(2)] obtain J where J: "length J = 5" "code s1 = code s0 @ J @ concat M" .
  define sp where "sp = ins_u32 REOP_split_next_first (of_int (len + 5))"
  have c3: "code s3 = code s0 @ sp @ concat M"
    using fill_op(1)[OF o v' g1 J(2,1) at] by (simp add: sp_def)
  have c4: "code s4 = code s3 @ ins_u32 REOP_goto 0" using emitsD[OF emits_op_u32(1)[OF j] N(3) w3] .
  have c5: "code s5 = (code s3 @ [REOP_goto]) @ le_bytes 4 (unat (0 :: u32)) @ concat N"
    using N(2) c4 by (simp add: ins_u32_def)
  have pos: "pos = int (length (code s3 @ [REOP_goto]))" using emits_op_u32(2)[OF j w3 N(3)] by simp
  have o': "code_len s5 - (pos + 4) = int (length (concat N))" unfolding good_size(2)[OF g5] c5 pos by simp
  note w' = w[unfolded o']
  have "code s' = (code s3 @ [REOP_goto]) @ le_bytes 4 (unat (of_int (int (length (concat N))) :: u32)) @ concat N"
    by (rule put_code_u32D(1)[OF w' g5 c5 _ pos]) simp
  then have c': "code s' = code s0 @ concat ([sp] @ M @ ([ins_u32 REOP_goto (of_int (int (length (concat N))))] @ N @ []))"
    by (simp add: c3 ins_u32_def)
  have off: "off32 (len + 5)" "off32 (int (length (concat N)))"
    using good_size(3)[OF g(1)] by (simp_all add: c' off32_def len_def sp_def)
  have cap: "ps_capture_count s' = ps_capture_count s5" using s'(3) .
  have "ps_capture_count s \<le> ps_capture_count s5" using s4(3) s5(4) by simp
  from frag_alternative[OF frag_mono[OF M(1) this] N(1) len_def off] c'
  show "\<exists>L. frag (ps_capture_count s') L \<and> code s' = code s0 @ concat L" unfolding cap sp_def by blast
qed

lemma produces_disjunction_loop:
  assumes "disj_ok dj" and "disjunction_loop k n dj bw (code_len s0) s = Some (POk, s')" and "produces s0 s"
  shows "produces s0 s'"
  using assms(2,3)
proof (induction k arbitrary: s)
  case (Suc k)
  show ?case
  proof (cases "s' = s")
    case False
    let ?s = "s\<lparr>buf_ptr := buf_ptr s + 1\<rparr>"
    obtain s1 s2 s3 pos s4 s5 s6 where i: "code_insert ?s (code_len s0) 5 = Some (0, s1)"
      and o: "set_code s1 (code_len s0) REOP_split_next_first = Some s2"
      and v: "put_code_u32 s2 (code_len s0 + 1) (of_int (code_len ?s - code_len s0 + 5)) = Some s3"
      and j: "re_emit_op_u32 s3 REOP_goto 0 = Some (pos, s4)"
      and a: "re_parse_alternative n dj bw s4 = Some (POk, s5)"
      and w: "put_code_u32 s5 pos (of_int (code_len s5 - (pos + 4))) = Some s6"
      and l: "disjunction_loop k n dj bw (code_len s0) s6 = Some (POk, s')"
      using Suc.prems(1) False
      by (auto simp: Option.bind_eq_Some_conv Let_def simp del: of_int_add of_int_diff mem_get_Some
          elim!: with_insertE split: if_splits)
    have "produces s0 ?s" using Suc.prems(2) same_produces[OF same_updates(1)] by (rule produces_trans)
    from produces_choice[OF this i o v j produces_alternative[OF assms(1) a] w] have "produces s0 s6" .
    from Suc.IH[OF l this] show ?thesis .
  qed (use Suc.prems in simp)
qed simp

theorem disjunction_ok: "disj_ok (re_parse_disjunction n)"
proof (induction n)
  case 0
  then show ?case by (simp add: disj_ok_def)
next
  case (Suc n)
  show ?case
    unfolding disj_ok_def
  proof (intro allI impI)
    fix bw s s'
    assume r: "re_parse_disjunction (Suc n) bw s = Some (POk, s')"
    obtain s1 where a: "re_parse_alternative n (re_parse_disjunction n) bw s = Some (POk, s1)"
      and l: "disjunction_loop n n (re_parse_disjunction n) bw (code_len s) s1 = Some (POk, s')"
      using r by (auto simp: Option.bind_eq_Some_conv Let_def split: if_splits)
    from produces_disjunction_loop[OF Suc l produces_alternative[OF Suc a]] show "produces s s'" .
  qed
qed

section \<open>The size of the stack\<close>

lemma stack_size_code:
  assumes "\<forall>i \<in> set L. wf_ins cc i" and "m = pre @ concat L @ post" and "length pre = base + pos"
    and "stack_size_loop m base (pos + length (concat L)) pos depth mx = Some v" and "0 \<le> v"
    and "mx \<le> STACK_SIZE_MAX"
  shows "int mx \<le> v \<and> v \<le> int STACK_SIZE_MAX \<and> (\<forall>k < length L. delta (L ! k) = 1 \<longrightarrow> int depth + iht L k < v \<or> int depth + iht L k < int mx)"
  using assms
proof (induction L arbitrary: pre pos depth mx)
  case Nil
  then show ?case by (subst (asm) stack_size_loop.simps) simp
next
  case (Cons i L)
  have wf: "wf_ins cc i" using Cons.prems(1) by simp
  have m: "m = pre @ i @ (concat L @ post)" using Cons.prems(2) by simp
  have op: "mem_get m (base + pos) = Some (hd i)" "instr_size m (base + pos) = Some (length i)"
    using mem_get_mid[of 0 i pre "concat L @ post"] wf_ins_op_size[OF wf]
      instr_size_mid[OF wf, of pre "concat L @ post"] Cons.prems(3)
    by (simp_all add: m del: mem_get_Some)
  have pos: "0 < length i" using wf_ins_op_size(2)[OF wf] .
  have IH: "int mx' \<le> v \<and> v \<le> int STACK_SIZE_MAX \<and>
      (\<forall>k < length L. delta (L ! k) = 1 \<longrightarrow> int depth' + iht L k < v \<or> int depth' + iht L k < int mx')"
    if "stack_size_loop m base (pos + length (concat (i # L))) (pos + length i) depth' mx' = Some v"
      "mx' \<le> STACK_SIZE_MAX" for depth' mx'
    by (rule Cons.IH[of "pre @ i" "pos + length i"]) (use Cons.prems that in \<open>simp_all add: add.assoc\<close>)
  note r = Cons.prems(4)[unfolded stack_size_loop.simps[of _ _ _ pos]]
  obtain depth' mx' where step:
      "stack_size_loop m base (pos + length (concat (i # L))) (pos + length i) depth' mx' = Some v"
    and s: "mx' \<le> STACK_SIZE_MAX" "int depth' = int depth + delta i" "mx \<le> mx'" "delta i = 1 \<longrightarrow> depth < mx'"
    using r pos op Cons.prems(5,6)
    by (auto simp: delta_def simp del: mem_get_Some split: if_splits option.splits)
  from IH[OF step s(1)] have ih: "int mx' \<le> v" "v \<le> int STACK_SIZE_MAX"
    "\<And>k. k < length L \<Longrightarrow> delta (L ! k) = 1 \<Longrightarrow> int depth' + iht L k < v \<or> int depth' + iht L k < int mx'"
    by auto
  have "int depth + iht (i # L) k < v" if "k < length (i # L)" "delta ((i # L) ! k) = 1" for k
  proof (cases k)
    case 0
    then show ?thesis using that s(4) ih(1) by simp
  next
    case (Suc j)
    then show ?thesis using that ih(1) ih(3)[of j] s(2) by (auto simp: iht_Cons)
  qed
  then show ?case using ih s(3) by auto
qed

section \<open>Header and end\<close>

lemma emit_header_code:
  assumes r: "emit_header s flags = Some s'"
  obtains h H where "length H = RE_HEADER_LEN" and "emits s h H" and "produces h s'"
proof -
  obtain s1 s2 s3 h s4 where a: "re_emit_op s (ucast flags) = Some s1" "re_emit_op s1 0 = Some s2"
      "re_emit_op s2 0 = Some s3" "emit_u32 s3 0 = Some h"
    and p: "(if flags AND ucast LRE_FLAG_STICKY = 0 then
               do {
                 (_, s) \<leftarrow> re_emit_op_u32 h REOP_split_goto_first (1 + 5);
                 s \<leftarrow> re_emit_op s REOP_any;
                 (_, s) \<leftarrow> re_emit_op_u32 s REOP_goto (- (5 + 1 + 5));
                 Some s
               }
             else Some h) = Some s4"
    and e: "re_emit_op_u8 s4 REOP_save_start 0 = Some s'"
    using r by (auto simp: emit_header_def Option.bind_eq_Some_conv)
  let ?H = "[ucast flags] @ [0] @ [0] @ le_bytes 4 (unat (0 :: u32))"
  have 1: "emits s h ?H"
    by (intro emits_trans[OF emits_op[OF a(1)]] emits_trans[OF emits_op[OF a(2)]]
        emits_trans[OF emits_op[OF a(3)]] emits_u32[OF a(4)])
  have 2: "produces h s4"
  proof (cases "flags AND ucast LRE_FLAG_STICKY = 0")
    case False
    then show ?thesis using p produces_refl by simp
  next
    case True
    then obtain p1 h1 h2 p2 where h: "re_emit_op_u32 h REOP_split_goto_first 6 = Some (p1, h1)"
      "re_emit_op h1 REOP_any = Some h2" "re_emit_op_u32 h2 REOP_goto (- 11) = Some (p2, s4)"
      using p by (auto simp: Option.bind_eq_Some_conv)
    let ?L = "[ins_u32 REOP_split_goto_first (of_int (1 + 5))] @ [[REOP_any]] @ [ins_u32 REOP_goto (of_int (- (1 + 10)))]"
    have "emits h s4 (ins_u32 REOP_split_goto_first 6 @ [REOP_any] @ ins_u32 REOP_goto (- 11))"
      by (intro emits_trans[OF emits_op_u32(1)[OF h(1)]] emits_trans[OF emits_op[OF h(2)]] emits_op_u32(1)[OF h(3)])
    then have "emits h s4 (concat ?L)" by simp
    moreover have "frag cc ?L" for cc
      by (rule frag_star) (simp_all add: frag_op off32_def)
    ultimately show ?thesis by (intro emits_produces[of h s4 ?L])
  qed
  have 3: "produces s4 s'"
  proof (rule producesI)
    assume wf: "dbuf_wf (byte_code s4)" "cap_bounds s4"
    have "produces s4 s'" by (rule produces_save[OF e]) (use wf in \<open>auto simp: cap_bounds_def\<close>)
    then show "later s4 s' \<and> ps_capture_count s4 \<le> ps_capture_count s' \<and> cap_bounds s'"
      "good s' \<Longrightarrow> \<exists>L. frag (ps_capture_count s') L \<and> code s' = code s4 @ concat L"
      using wf by (auto simp: produces_def)
  qed
  show thesis using that[OF _ 1 produces_trans[OF 2 3]] by (simp add: RE_HEADER_LEN_def)
qed

lemma dbuf_put_appends:
  assumes wf: "dbuf_wf b" and r: "dbuf_put b xs = Some (r, b')"
  shows "dbuf_wf b'" and "\<exists>Y. dbuf_data b' = dbuf_data b @ Y"
proof -
  let ?need = "szt (dsize b + length xs)"
  obtain r1 b1 where b1: "(if ?need > allocated_size b then dbuf_realloc b ?need else Some (0, b)) = Some (r1, b1)"
    using r by (auto simp: dbuf_put_def Let_def Option.bind_eq_Some_conv)
  have 1: "dbuf_wf b1" "dbuf_data b1 = dbuf_data b"
    using dbuf_reserve_spec[OF wf, of ?need] b1 by (metis option.inject prod.inject)+
  have "dbuf_wf b' \<and> (\<exists>Y. dbuf_data b' = dbuf_data b @ Y)"
  proof (cases "r1 = 0")
    case False
    then show ?thesis using r b1 1 by (auto simp: dbuf_put_def Let_def split: if_splits)
  next
    case True
    obtain m where m: "mem_write (buf b1) (dsize b1) xs = Some m"
      and b': "b' = b1\<lparr>buf := m, dsize := szt (dsize b1 + length xs)\<rparr>"
      using r b1 True
      by (auto simp: dbuf_put_def Let_def Option.bind_eq_Some_conv simp del: mem_write_Some split: if_splits)
    have fits: "dsize b1 + length xs \<le> length (buf b1)" using m by simp
    have len: "length m = length (buf b1)" by (rule length_mem_write[OF m])
    have small: "dsize b1 + length xs < 2 ^ 64" using fits 1(1) by (simp add: dbuf_wf_def PTRDIFF_MAX_def)
    have "dbuf_data b' = take (dsize b1 + length xs) m" using b' small by (simp add: dbuf_data_def)
    also have "\<dots> = dbuf_data b1 @ xs" using m by (auto simp: dbuf_data_def)
    finally show ?thesis using b' 1 len fits small by (auto simp: dbuf_wf_def)
  qed
  then show "dbuf_wf b'" "\<exists>Y. dbuf_data b' = dbuf_data b @ Y" by auto
qed

lemma finish_codeE:
  assumes "finish_code s v = Some s'"
  obtains s1 s2 s3 where "set_code s (int RE_HEADER_CAPTURE_COUNT) (of_nat (ps_capture_count s)) = Some s1"
    and "set_code s1 (int RE_HEADER_STACK_SIZE) (of_int v) = Some s2"
    and "put_code_u32 s2 3 (of_nat (code_size s2) - of_nat RE_HEADER_LEN) = Some s3"
    and "s' = s3 \<or> (\<exists>X x b f. dbuf_put (byte_code s3) X = Some (x, b) \<and>
          set_code (s3\<lparr>byte_code := b\<rparr>) (int RE_HEADER_FLAGS) f = Some s')"
proof -
  obtain s1 s2 s3 where 1: "set_code s (int RE_HEADER_CAPTURE_COUNT) (of_nat (ps_capture_count s)) = Some s1"
    "set_code s1 (int RE_HEADER_STACK_SIZE) (of_int v) = Some s2"
    "put_code_u32 s2 3 (of_nat (code_size s2) - of_nat RE_HEADER_LEN) = Some s3"
    and e: "(if dsize (group_names s3) > ps_capture_count s3 - 1 then
         do {
           (_, b) \<leftarrow> dbuf_put (byte_code s3) (take (dsize (group_names s3)) (buf (group_names s3)));
           f \<leftarrow> mem_get (buf b) RE_HEADER_FLAGS;
           set_code (s3\<lparr>byte_code := b\<rparr>) (int RE_HEADER_FLAGS) (f OR LRE_FLAG_NAMED_GROUPS)
         }
       else Some s3) = Some s'"
    using assms unfolding finish_code_def Option.bind_eq_Some_conv by blast
  have "s' = s3 \<or> (\<exists>X x b f. dbuf_put (byte_code s3) X = Some (x, b) \<and>
          set_code (s3\<lparr>byte_code := b\<rparr>) (int RE_HEADER_FLAGS) f = Some s')"
    using e by (auto simp: Option.bind_eq_Some_conv split: if_splits)
  with that 1 show thesis by blast
qed

lemma set_flags_keeps:
  assumes "set_code (s\<lparr>byte_code := b\<rparr>) i f = Some s'" and "dbuf_wf b"
  shows "dbuf_wf (byte_code s')" and "allocated_size (byte_code s') = allocated_size b"
  using assms by (auto simp: set_code_def Option.bind_eq_Some_conv dbuf_wf_def split: if_splits)

lemma finish_code_good:
  assumes r: "finish_code s v = Some s'" and small: "length (buf (byte_code s')) < 2 ^ 31"
    and s: "dbuf_wf (byte_code s)" "\<not> derror (byte_code s)"
  shows "good s"
proof -
  obtain s1 s2 s3 where c: "set_code s (int RE_HEADER_CAPTURE_COUNT) (of_nat (ps_capture_count s)) = Some s1"
    and z: "set_code s1 (int RE_HEADER_STACK_SIZE) (of_int v) = Some s2"
    and l: "put_code_u32 s2 3 (of_nat (code_size s2) - of_nat RE_HEADER_LEN) = Some s3"
    and e: "s' = s3 \<or> (\<exists>X x b f. dbuf_put (byte_code s3) X = Some (x, b) \<and>
          set_code (s3\<lparr>byte_code := b\<rparr>) (int RE_HEADER_FLAGS) f = Some s')"
    by (rule finish_codeE[OF r])
  note w1 = keepsD(1,2)[OF keeps_set_code[OF c] s(1)]
  note w2 = keepsD(1,2)[OF keeps_set_code[OF z] w1(2)]
  note w3 = keepsD(1,2)[OF keeps_put_code[OF l] w2(2)]
  have "dbuf_wf (byte_code s') \<and> allocated_size (byte_code s3) \<le> allocated_size (byte_code s')"
    using e
  proof (elim disjE exE conjE)
    fix X x b f
    assume b: "dbuf_put (byte_code s3) X = Some (x, b)"
      and f: "set_code (s3\<lparr>byte_code := b\<rparr>) (int RE_HEADER_FLAGS) f = Some s'"
    show ?thesis using set_flags_keeps[OF f dbuf_put_appends(1)[OF w3(2) b]] dbuf_put_grows[OF b] by simp
  qed (use w3(2) in simp)
  then have "allocated_size (byte_code s3) < 2 ^ 31" using small by (simp add: dbuf_wf_def)
  then show ?thesis using s w1(1) w2(1) w3(1) by (simp add: good_def later_def)
qed

lemma finish_code_object:
  assumes r: "finish_code s v = Some s'" and g0: "good s" and s: "code s = H @ C" "length H = RE_HEADER_LEN"
  obtains f post where "buf (byte_code s') =
      ([f, of_nat (ps_capture_count s), of_int v] @ le_bytes 4 (unat (of_nat (length C) :: u32))) @ C @ post"
proof -
  obtain s1 s2 s3 where c: "set_code s (int RE_HEADER_CAPTURE_COUNT) (of_nat (ps_capture_count s)) = Some s1"
    and z: "set_code s1 (int RE_HEADER_STACK_SIZE) (of_int v) = Some s2"
    and l: "put_code_u32 s2 3 (of_nat (code_size s2) - of_nat RE_HEADER_LEN) = Some s3"
    and e: "s' = s3 \<or> (\<exists>X x b f. dbuf_put (byte_code s3) X = Some (x, b) \<and>
          set_code (s3\<lparr>byte_code := b\<rparr>) (int RE_HEADER_FLAGS) f = Some s')"
    by (rule finish_codeE[OF r])
  obtain h0 h1 h2 H4 where H: "H = h0 # h1 # h2 # H4" "length H4 = 4"
    using s(2) by (auto simp: RE_HEADER_LEN_def eval_nat_numeral length_Suc_conv)
  let ?c = "of_nat (ps_capture_count s) :: u8" and ?v = "of_int v :: u8"
  have c0: "code s = [h0] @ h1 # h2 # H4 @ C" using s(1) H(1) by simp
  have c1: "code s1 = [h0, ?c] @ h2 # H4 @ C"
    using set_codeD(1)[OF c g0 c0] by (simp add: RE_HEADER_CAPTURE_COUNT_def)
  have g1: "good s1" using set_codeD(2)[OF c g0 c0] by (simp add: RE_HEADER_CAPTURE_COUNT_def)
  have c2: "code s2 = [h0, ?c, ?v] @ H4 @ C"
    using set_codeD(1)[OF z g1 c1] by (simp add: RE_HEADER_STACK_SIZE_def)
  have g2: "good s2" using set_codeD(2)[OF z g1 c1] by (simp add: RE_HEADER_STACK_SIZE_def)
  have n: "(of_nat (code_size s2) - of_nat RE_HEADER_LEN :: u32) = of_nat (length C)"
    unfolding good_size(1)[OF g2] c2 using H(2) by (simp add: RE_HEADER_LEN_def)
  define N where "N = le_bytes 4 (unat (of_nat (length C) :: u32))"
  have c3: "code s3 = h0 # [?c, ?v] @ N @ C" and g3: "good s3"
    using put_code_u32D(1,2)[OF l[unfolded n] g2 c2 H(2)] by (simp_all add: N_def)
  have "\<exists>f Y. take (dsize (byte_code s')) (buf (byte_code s')) = f # [?c, ?v] @ N @ C @ Y"
    using e
  proof (elim disjE exE conjE)
    fix X x b f
    assume b: "dbuf_put (byte_code s3) X = Some (x, b)"
      and f: "set_code (s3\<lparr>byte_code := b\<rparr>) (int RE_HEADER_FLAGS) f = Some s'"
    from dbuf_put_appends(2)[OF good_wf[OF g3] b] obtain Y where Y: "take (dsize b) (buf b) = h0 # [?c, ?v] @ N @ C @ Y"
      using c3 by (auto simp: dbuf_data_def)
    have "s' = s3\<lparr>byte_code := b\<lparr>buf := (buf b)[0 := f]\<rparr>\<rparr>" "0 < length (buf b)"
      using f by (auto simp: set_code_def Option.bind_eq_Some_conv RE_HEADER_FLAGS_def)
    then show ?thesis using Y by (auto simp: take_update_swap)
  qed (use c3 in \<open>auto simp: dbuf_data_def\<close>)
  then obtain f Y where Y: "take (dsize (byte_code s')) (buf (byte_code s')) = f # [?c, ?v] @ N @ C @ Y"
    by blast
  have "buf (byte_code s') = ([f, ?c, ?v] @ N) @ C @ (Y @ drop (dsize (byte_code s')) (buf (byte_code s')))"
    using append_take_drop_id[of "dsize (byte_code s')" "buf (byte_code s')", symmetric] Y
    by (simp del: append_take_drop_id)
  then show thesis using that unfolding N_def by blast
qed

section \<open>The compiler\<close>

text \<open>What a successful compilation has gone through.\<close>

lemma lre_compileE:
  assumes "lre_compile fuel hb hg hs em n str flags = Some (POk, bc, plen, e)"
  obtains s0 s1 s2 s3 v s4 where "emit_header (init_state hb hg hs str flags) flags = Some s0"
    and "re_parse_disjunction fuel False s0 = Some (POk, s1)"
    and "re_emit_op_u8 s1 REOP_save_end 0 = Some s2" and "re_emit_op s2 REOP_match = Some s3"
    and "\<not> derror (byte_code s3)" and "compute_stack_size (buf (byte_code s3)) (code_size s3) = Some v" and "0 \<le> v"
    and "finish_code s3 v = Some s4" and "bc = buf (byte_code s4)" and "plen = code_len s4"
proof -
  have fail: "compile_error s PErr em n \<noteq> Some (POk, x)" for s x
    by (auto simp: compile_error_def Option.bind_eq_Some_conv)
  have fail': "r = POk" if "compile_error s r em n = Some (POk, x)" for s r x
    using that by (auto simp: compile_error_def Option.bind_eq_Some_conv)
  show thesis
    using assms that
    by (auto simp: lre_compile_def Let_def Option.bind_eq_Some_conv fail dbuf_error_def simp del: mem_get_Some mem_set_Some
        dest: fail' split: if_splits)
qed

lemma unat_u32: "n < 2 ^ 31 \<Longrightarrow> unat (of_nat n :: u32) = n"
  by (simp add: unat_of_nat)

lemma get_u32_header: "get_u32 ([a, b, c] @ le_bytes 4 (unat v) @ r) 3 = Some v"
  using get_u32_le[of c v r] by (simp add: get_u32_def mem_read_def)

lemma lre_compile_bytecode_ok:
  assumes r: "lre_compile fuel hb hg hs em n str flags = Some (POk, bc, plen, e)" and small: "length bc < 2 ^ 31"
  shows "bytecode_ok bc"
proof -
  obtain s0 s1 s2 s3 v s4 where h: "emit_header (init_state hb hg hs str flags) flags = Some s0"
    and d: "re_parse_disjunction fuel False s0 = Some (POk, s1)"
    and save: "re_emit_op_u8 s1 REOP_save_end 0 = Some s2" and m: "re_emit_op s2 REOP_match = Some s3"
    and err: "\<not> derror (byte_code s3)" and v: "compute_stack_size (buf (byte_code s3)) (code_size s3) = Some v" "0 \<le> v"
    and f: "finish_code s3 v = Some s4" and bc: "bc = buf (byte_code s4)"
    using lre_compileE[OF r] .
  let ?i = "init_state hb hg hs str flags"
  have i: "dbuf_wf (byte_code ?i)" "cap_bounds ?i" "code ?i = []"
    by (simp_all add: init_state_def dbuf_wf_init2 cap_bounds_def CAPTURE_COUNT_MAX_def)
  obtain hd H where H: "length H = RE_HEADER_LEN" "emits ?i hd H" "produces hd s0" using emit_header_code[OF h] .
  note k = keepsD[OF keeps_emits[OF H(2)] i(1)]
  have ch: "cap_bounds hd" using k(3) i(2) by (simp add: cap_bounds_def)
  have "produces s0 s1" using disjunction_ok[of fuel] d by (auto simp: disj_ok_def)
  with H(3) have p1: "produces hd s1" by (rule produces_trans)
  note s1 = producesF[OF p1 k(2) ch]
  have "produces s1 s2" by (rule produces_save[OF save]) (use s1(3) in \<open>simp_all add: cap_bounds_def\<close>)
  with p1 have p2: "produces hd s2" by (rule produces_trans)
  note s2 = producesF[OF p2 k(2) ch]
  note s3 = keepsD[OF keeps_op[OF m] s2(2)]
  have w3: "dbuf_wf (byte_code s3)" using s3(2) .
  have g3: "good s3" by (rule finish_code_good[OF f _ w3 err]) (use small bc in simp)
  note g2 = s3(4)[OF g3]
  obtain M where M: "frag (ps_capture_count s2) M" "code s2 = code hd @ concat M" "good hd"
    using producesD[OF p2 k(2) ch g2] .
  let ?cc = "ps_capture_count s2"
  have c3: "code s3 = H @ concat (closed M)"
    using emitsD[OF emits_op[OF m] g3 s2(2)] M(2) emitsD[OF H(2) M(3) i(1)] i(3) by simp
  have len: "length (concat (closed M)) < 2 ^ 31" using good_size(3)[OF g3] by (simp add: c3)
  obtain f0 post where obj: "bc = ([f0, of_nat ?cc, of_int v] @
      le_bytes 4 (unat (of_nat (length (concat (closed M))) :: u32))) @ concat (closed M) @ post"
    using finish_code_object[OF f g3 c3 H(1)] bc s3(3) by metis
  have buf: "buf (byte_code s3) = H @ concat (closed M) @ drop (dsize (byte_code s3)) (buf (byte_code s3))"
    using append_take_drop_id[of "dsize (byte_code s3)" "buf (byte_code s3)", symmetric] c3
    by (simp add: dbuf_data_def del: append_take_drop_id)
  have "code_size s3 - RE_HEADER_LEN = 0 + length (concat (closed M))"
    using good_size(1)[OF g3] H(1) by (simp add: c3)
  note v' = v(1)[unfolded compute_stack_size_def this]
  have st: "v \<le> 255" "\<And>k. k < length (closed M) \<Longrightarrow> delta (closed M ! k) = 1 \<Longrightarrow> iht (closed M) k < v"
    using stack_size_code[OF closed_wf(1)[OF M(1)] buf _ v' v(2)] H(1) v(2) by (auto simp: STACK_SIZE_MAX_def)
  have cc: "unat (bc ! RE_HEADER_CAPTURE_COUNT) = ?cc"
    using s2(3) by (simp add: obj RE_HEADER_CAPTURE_COUNT_def cap_bounds_def CAPTURE_COUNT_MAX_def unat_of_nat)
  have sz: "int (unat (bc ! RE_HEADER_STACK_SIZE)) = v"
    using st(1) v(2) by (simp add: obj RE_HEADER_STACK_SIZE_def unsigned_of_int take_bit_int_eq_self)
  have n: "get_u32 bc 3 = Some (of_nat (length (concat (closed M))))"
    unfolding obj by (simp only: append_assoc get_u32_header)
  show ?thesis
  proof (rule frag_bytecode_ok[OF M(1) obj _ n _ cc])
    show "iht M k < int (unat (bc ! RE_HEADER_STACK_SIZE))" if "k < length M" "delta (M ! k) = 1" for k
      using st(2)[of k] that unfolding sz by (simp add: nth_append)
    show "unat (of_nat (length (concat (closed M))) :: u32) = length (concat (closed M))"
      using len by (rule unat_u32)
  qed (simp add: RE_HEADER_LEN_def)
qed

end
