(* ===== verification/Regexp_Total.thy ===== *)
theory Regexp_Total
  imports Regexp_Compile
begin

text \<open>
  The parser terminates: every step that succeeds moves forward in the pattern, so fuel beyond its
  length is never used up.
\<close>

section \<open>Frames\<close>

definition frame :: "re_parse_state \<Rightarrow> re_parse_state \<Rightarrow> bool" where
  "frame s s' \<longleftrightarrow> pattern s' = pattern s \<and> buf_end s' = buf_end s"

definition terminated :: "re_parse_state \<Rightarrow> bool" where
  "terminated s \<longleftrightarrow> length (pattern s) = buf_end s + 1 \<and> pattern s ! buf_end s = 0"

definition ahead :: "re_parse_state \<Rightarrow> nat" where
  "ahead s = buf_end s - buf_ptr s"

lemma frame_refl [simp]: "frame s s"
  by (simp add: frame_def)

lemma frame_trans: "frame s s1 \<Longrightarrow> frame s1 s2 \<Longrightarrow> frame s s2"
  by (simp add: frame_def)

lemma frame_same: "same s s' \<Longrightarrow> frame s s'"
  by (simp add: frame_def same_def)

lemma frame_updates [simp]:
  "frame s (s\<lparr>byte_code := b\<rparr>)" "frame s (s\<lparr>buf_ptr := p\<rparr>)" "frame s (s\<lparr>ps_capture_count := c\<rparr>)"
  "frame s (s\<lparr>tmp_buf := t\<rparr>)" "frame s (s\<lparr>has_named_captures := h\<rparr>)" "frame s (s\<lparr>group_names := g\<rparr>)"
  by (simp_all add: frame_def)

lemma frame_terminated: "frame s s' \<Longrightarrow> terminated s \<Longrightarrow> terminated s'"
  by (simp add: frame_def terminated_def)

lemma frame_op: "re_emit_op s op = Some s' \<Longrightarrow> frame s s'"
  by (auto simp: re_emit_op_def Option.bind_eq_Some_conv)

lemma frame_u32: "emit_u32 s v = Some s' \<Longrightarrow> frame s s'"
  by (auto simp: emit_u32_def Option.bind_eq_Some_conv)

lemma frame_u16: "emit_u16 s v = Some s' \<Longrightarrow> frame s s'"
  by (auto simp: emit_u16_def Option.bind_eq_Some_conv)

lemma frame_op_u32: "re_emit_op_u32 s op v = Some (pos, s') \<Longrightarrow> frame s s'"
  by (auto simp: re_emit_op_u32_def Option.bind_eq_Some_conv dest!: frame_op frame_u32 intro: frame_trans)

lemma frame_op_u8: "re_emit_op_u8 s op v = Some s' \<Longrightarrow> frame s s'"
  by (auto simp: re_emit_op_u8_def Option.bind_eq_Some_conv dest!: frame_op intro: frame_trans)

lemma frame_op_u16: "re_emit_op_u16 s op v = Some s' \<Longrightarrow> frame s s'"
  by (auto simp: re_emit_op_u16_def Option.bind_eq_Some_conv dest!: frame_op frame_u16 intro: frame_trans)

lemma frame_goto_op: "emit_goto_op s op t = Some s' \<Longrightarrow> frame s s'"
  by (auto simp: emit_goto_op_def re_emit_goto_def Option.bind_eq_Some_conv Let_def dest!: frame_op frame_u32
      intro: frame_trans)

lemma frame_prev_if: "emit_prev_if bw s = Some s' \<Longrightarrow> frame s s'"
  by (auto simp: emit_prev_if_def dest: frame_op split: if_splits)

lemma frame_set_code: "set_code s i v = Some s' \<Longrightarrow> frame s s'"
  by (auto simp: set_code_def Option.bind_eq_Some_conv split: if_splits)

lemma frame_put_code: "put_code_u32 s i v = Some s' \<Longrightarrow> frame s s'"
  by (auto simp: put_code_u32_def Option.bind_eq_Some_conv split: if_splits)

lemma frame_insert: "code_insert s pos len = Some (r, s') \<Longrightarrow> frame s s'"
  by (auto simp: code_insert_def Option.bind_eq_Some_conv)

lemma frame_copy_atom: "copy_atom s start len = Some s' \<Longrightarrow> frame s s'"
  by (auto simp: copy_atom_def Option.bind_eq_Some_conv split: if_splits)

lemma frame_range16: "emit_range16 s pts len i = Some s' \<Longrightarrow> frame s s'"
proof (induction s pts len i rule: emit_range16.induct)
  case (1 s pts len i)
  show ?case
  proof (cases "i < len")
    case True
    then obtain lo hi s1 s2 v where g: "mem_get pts i = Some lo" "mem_get pts (i + 1) = Some hi"
      and e: "emit_u16 s (ucast lo) = Some s1" "emit_u16 s1 v = Some s2"
      and v: "v = ucast (if hi - 1 = UINT32_MAX - 1 then 0xffff else hi - 1)"
      and r: "emit_range16 s2 pts len (i + 2) = Some s'"
      using 1(2) by (subst (asm) emit_range16.simps)
         (auto simp: Let_def Option.bind_eq_Some_conv simp del: mem_get_Some split: option.splits)
    have "Option.bind (emit_u16 s (ucast lo)) (\<lambda>s. emit_u16 s v) = Some s2" using e by simp
    from 1(1)[OF True refl g refl this[unfolded v] r] frame_u16[OF e(1)] frame_u16[OF e(2)]
    show ?thesis by (blast intro: frame_trans)
  qed (use 1(2) in \<open>subst (asm) emit_range16.simps, simp\<close>)
qed

lemma frame_range32: "emit_range32 s pts len i = Some s' \<Longrightarrow> frame s s'"
proof (induction s pts len i rule: emit_range32.induct)
  case (1 s pts len i)
  show ?case
  proof (cases "i < len")
    case True
    then obtain lo hi s1 s2 v where g: "mem_get pts i = Some lo" "mem_get pts (i + 1) = Some hi"
      and e: "emit_u32 s lo = Some s1" "emit_u32 s1 v = Some s2"
      and v: "v = hi - 1"
      and r: "emit_range32 s2 pts len (i + 2) = Some s'"
      using 1(2) by (subst (asm) emit_range32.simps)
         (auto simp: Let_def Option.bind_eq_Some_conv simp del: mem_get_Some split: option.splits)
    have "Option.bind (emit_u32 s lo) (\<lambda>s. emit_u32 s v) = Some s2" using e by simp
    from 1(1)[OF True refl g this[unfolded v] r] frame_u32[OF e(1)] frame_u32[OF e(2)]
    show ?thesis by (blast intro: frame_trans)
  qed (use 1(2) in \<open>subst (asm) emit_range32.simps, simp\<close>)
qed

lemma frame_emit_range: "re_emit_range s cr = Some (r, s') \<Longrightarrow> frame s s'"
  by (auto simp: re_emit_range_def Let_def Option.bind_eq_Some_conv simp del: mem_get_Some
      dest!: same_error frame_op_u32 frame_op_u16 frame_range16 frame_range32 frame_same
      split: if_splits intro: frame_trans)

lemmas frame_steps = frame_op frame_op_u8 frame_op_u16 frame_op_u32 frame_goto_op frame_prev_if frame_set_code
  frame_put_code frame_insert frame_copy_atom frame_emit_range

section \<open>Quantifiers finish\<close>

definition settled :: "re_parse_state \<Rightarrow> (parse_ret \<times> re_parse_state) option \<Rightarrow> bool" where
  "settled s res \<longleftrightarrow> (\<forall>r s'. res = Some (r, s') \<longrightarrow> r \<noteq> PFuel \<and> frame s s')"

lemma settled_simps [simp]:
  "settled s None" "settled s (Some (r, s')) \<longleftrightarrow> r \<noteq> PFuel \<and> frame s s'"
  by (auto simp: settled_def)

lemma settled_bind: "(\<And>x. a = Some x \<Longrightarrow> settled s (f x)) \<Longrightarrow> settled s (Option.bind a f)"
  by (cases a) auto

lemma settled_if: "(P \<Longrightarrow> settled s a) \<Longrightarrow> (\<not> P \<Longrightarrow> settled s b) \<Longrightarrow> settled s (if P then a else b)"
  by simp

lemma settled_oom: "frame s s1 \<Longrightarrow> settled s (term_oom s1)"
  by (auto simp: term_oom_def settled_def Option.bind_eq_Some_conv dest!: same_oom frame_same intro: frame_trans)

lemma settled_map: "(\<And>s1. a = Some s1 \<Longrightarrow> frame s s1) \<Longrightarrow> settled s (map_option (Pair POk) a)"
  by (cases a) auto

lemma frame_tail: "emit_tail s start len mn mx greedy add = Some s' \<Longrightarrow> frame s s'"
  by (auto simp: emit_tail_def Option.bind_eq_Some_conv Let_def dest!: frame_steps split: if_splits
      simp: frame_def)

lemma settled_quant: "settled s (emit_quant s start lcc mn mx greedy)"
proof -
  have simple: "settled s (emit_simple_quant s start mn mx len)" for len
    unfolding emit_simple_quant_def with_insert_def
    by (auto simp: Option.bind_eq_Some_conv settled_def term_oom_def dest!: frame_steps same_oom frame_same
        split: if_splits simp: frame_def)
  have optional: "settled s (emit_optional s1 x len greedy)" if "frame s s1" for s1 x len
    using that unfolding emit_optional_def with_insert_def
    by (auto simp: Option.bind_eq_Some_conv settled_def term_oom_def dest!: frame_steps same_oom frame_same
        split: if_splits simp: frame_def)
  have star: "settled s (emit_star s1 x len greedy add)" if "frame s s1" for s1 x len add
    using that unfolding emit_star_def with_insert_def
    by (auto simp: Option.bind_eq_Some_conv settled_def term_oom_def dest!: frame_steps same_oom frame_same
        split: if_splits simp: frame_def)
  have bounded: "settled s (emit_bounded s1 x len mx greedy)" if "frame s s1" for s1 x len
    using that unfolding emit_bounded_def with_insert_def
    by (auto simp: Option.bind_eq_Some_conv settled_def term_oom_def dest!: frame_steps same_oom frame_same
        split: if_splits simp: frame_def)
  have zero: "settled s (emit_min_zero s x lcc len mx greedy add)" for x len add
    unfolding emit_min_zero_def Let_def with_insert_def
    by (auto intro!: settled_if settled_bind optional star bounded settled_oom
        dest!: frame_steps simp: frame_def)
  have pos: "settled s (emit_min_pos s x len mn mx greedy add)" for x len add
    unfolding emit_min_pos_def Let_def with_insert_def
    by (auto intro!: settled_if settled_bind settled_oom settled_map
        dest!: frame_steps frame_tail simp: frame_def)
  have general: "settled s (emit_general_quant s start lcc mn mx greedy add)" for add
    unfolding emit_general_quant_def Let_def
    by (intro settled_if zero pos settled_bind) (auto dest: frame_goto_op)
  show ?thesis
    unfolding emit_quant_def Let_def
    by (intro settled_if settled_bind general simple settled_oom frame_refl)
qed

section \<open>Scanners move forward\<close>

lemma utf8_forward: "unicode_from_utf8 m p k = Some (v, q) \<Longrightarrow> 0 \<le> v \<Longrightarrow> p < q"
  by (fastforce simp: unicode_from_utf8_def Option.bind_eq_Some_conv dest!: utf8_loop_mono
      split: if_splits option.splits prod.splits)

lemma prop_name_mono: "prop_name_loop m p name = Some (Some (n, q)) \<Longrightarrow> p \<le> q"
proof (induction m p name rule: prop_name_loop.induct)
  case (1 m p name)
  show ?case
    using 1(2) 1(1) by (subst (asm) prop_name_loop.simps) (fastforce split: if_splits)
qed

lemma normal_char_forward: "normal_char s p c = Some (v, cr, q, s') \<Longrightarrow> 0 \<le> v \<Longrightarrow> p < q"
  by (auto simp: normal_char_def Option.bind_eq_Some_conv dest!: utf8_forward same_error split: if_splits)

lemma property_forward: "parse_unicode_property s p neg = Some (0, cr, q, s') \<Longrightarrow> p < q"
  by (cases "new_range_heap s")
     (auto simp: parse_unicode_property_def Option.bind_eq_Some_conv Let_def simp del: mem_get_Some
      dest!: prop_name_mono same_error split: if_splits option.splits prod.splits)

lemma class_escape_forward:
  assumes "get_class_escape s p c inclass = Some (v, cr, q, s')" and "0 \<le> v"
  shows "p \<le> q"
  using assms
  by (auto simp: get_class_escape_def class_escape_def invalid_escape_def Option.bind_eq_Some_conv Let_def
      dest!: same_error normal_char_forward property_forward lre_parse_escape_mono split: if_splits prod.splits)

lemma class_atom_forward:
  assumes "get_class_atom s p inclass = Some (c, cr, q, s')" and "0 \<le> c"
  shows "p < q"
  using assms
  by (auto simp: get_class_atom_def Option.bind_eq_Some_conv Let_def
      dest!: same_error normal_char_forward class_escape_forward split: if_splits)

lemma class_atom_at_end:
  assumes "get_class_atom s p inclass = Some (c, cr, q, s')" and "0 \<le> c" and "terminated s"
  shows "p < buf_end s"
proof -
  obtain b where b: "mem_get (pattern s) p = Some b"
    using assms(1) by (cases "mem_get (pattern s) p") (auto simp: get_class_atom_def)
  have "p \<le> buf_end s" using b assms(3) by (auto simp: terminated_def)
  moreover have "p \<noteq> buf_end s"
  proof
    assume p: "p = buf_end s"
    then have "b = 0" using b assms(3) by (auto simp: terminated_def)
    then show False using assms(1,2) b p
      by (auto simp: get_class_atom_def Option.bind_eq_Some_conv Let_def simp del: mem_get_Some dest: same_error)
  qed
  ultimately show ?thesis by simp
qed

lemma class_loop_total:
  assumes "char_class_loop n s cr p = Some (r, cr', q, s')" and "terminated s" and "buf_end s - p < n"
  shows "r \<noteq> PFuel \<and> (r = POk \<longrightarrow> p \<le> q) \<and> frame s s'"
  using assms
proof (induction n arbitrary: s cr p)
  case (Suc n)
  note r = Suc.prems(1)
  obtain b where b: "mem_get (pattern s) p = Some b" using r by (cases "mem_get (pattern s) p") auto
  show ?case
  proof (cases "b = 0x5d")
    case True
    then show ?thesis using r b by (simp del: mem_get_Some)
  next
    case False
    obtain c1 cr1 p1 s1 where a: "get_class_atom s p True = Some (c1, cr1, p1, s1)"
      using r b False by (cases "get_class_atom s p True") (auto simp del: mem_get_Some)
    have s1: "frame s s1" using get_class_atomD[OF a] frame_same by blast
    show ?thesis
    proof (cases "c1 < 0")
      case True
      then show ?thesis using r b False a s1 by (simp del: mem_get_Some)
    next
      case neg: False
      then have p1: "p < p1" "p < buf_end s" using class_atom_forward[OF a] class_atom_at_end[OF a] Suc.prems(2) by simp_all
      have IH: "r \<noteq> PFuel \<and> (r = POk \<longrightarrow> p \<le> q) \<and> frame s s'"
        if "char_class_loop n s2 cr2 p2 = Some (r, cr', q, s')" "frame s s2" "p < p2" for s2 cr2 p2
      proof -
        have "buf_end s2 - p2 < n" using that(2,3) p1 Suc.prems(3) by (simp add: frame_def)
        from Suc.IH[OF that(1) frame_terminated[OF that(2) Suc.prems(2)] this] that(2,3) show ?thesis
          using frame_trans by auto
      qed
      have fail: "r \<noteq> PFuel \<and> (r = POk \<longrightarrow> p \<le> q) \<and> frame s s'"
        if "class_error s2 msg cr2 p2 = Some (r, cr', q, s')" "frame s s2" for s2 msg cr2 p2
        using that by (auto simp: class_error_def Option.bind_eq_Some_conv dest!: same_error frame_same intro: frame_trans)
      have add: "r \<noteq> PFuel \<and> (r = POk \<longrightarrow> p \<le> q) \<and> frame s s'"
        if "Option.bind (add_class_atom cr c1 cr1) (\<lambda>(e, cr). if e \<noteq> 0 then class_error s2 m cr p1 else char_class_loop n s2 cr p1)
          = Some (r, cr', q, s')" "frame s s2" for s2 m
        using that(1) IH[OF _ that(2) p1(1)] fail[OF _ that(2)]
        by (auto simp: Option.bind_eq_Some_conv split: if_splits)
      obtain b2 where b2: "mem_get (pattern s1) p1 = Some b2"
        using r b False a neg by (cases "mem_get (pattern s1) p1") (auto simp: Let_def simp del: mem_get_Some)
      obtain b3 where b3: "(if b2 = 0x2d then mem_get (pattern s1) (p1 + 1) else Some 0x5d) = Some b3"
        using r b False a neg b2
        by (cases "if b2 = 0x2d then mem_get (pattern s1) (p1 + 1) else Some 0x5d")
           (auto simp: Let_def simp del: mem_get_Some)
      show ?thesis
      proof (cases "(b2 = 0x2d \<and> b3 \<noteq> 0x5d) \<and> c1 < CLASS_RANGE_BASE")
        case False
        then show ?thesis
          using r b \<open>b \<noteq> 0x5d\<close> a neg b2 b3 add[OF _ s1] fail[OF _ s1]
          by (auto simp: Let_def simp del: mem_get_Some split: if_splits)
      next
        case True
        obtain c2 cr2 p0 s2 where a2: "get_class_atom s1 (p1 + 1) True = Some (c2, cr2, p0, s2)"
          using r b \<open>b \<noteq> 0x5d\<close> a neg b2 b3 True
          by (cases "get_class_atom s1 (p1 + 1) True") (auto simp: Let_def simp del: mem_get_Some)
        have s2: "frame s s2" using get_class_atomD[OF a2] frame_same s1 frame_trans by blast
        have p0: "0 \<le> c2 \<Longrightarrow> p < p0" using class_atom_forward[OF a2] p1(1) by simp
        show ?thesis
          using r b \<open>b \<noteq> 0x5d\<close> a neg b2 b3 True a2 add[OF _ s2] fail[OF _ s2] IH[OF _ s2] p0 s2
          by (auto simp: Let_def Option.bind_eq_Some_conv simp del: mem_get_Some split: if_splits)
      qed
    qed
  qed
qed simp

section \<open>Atoms move forward\<close>

definition atom_total :: "re_parse_state \<Rightarrow> nat \<Rightarrow> atom_res \<Rightarrow> bool" where
  "atom_total s p res \<longleftrightarrow>
     (\<forall>r start lcc q s'. res = Some (r, start, lcc, q, s') \<longrightarrow> r \<noteq> PFuel \<and> frame s s' \<and> (r = POk \<longrightarrow> p < q))"

lemma atom_total_simps [simp]:
  "atom_total s p None"
  "atom_total s p (Some (r, start, lcc, q, s')) \<longleftrightarrow> r \<noteq> PFuel \<and> frame s s' \<and> (r = POk \<longrightarrow> p < q)"
  by (auto simp: atom_total_def)

lemma atom_total_bind: "(\<And>x. a = Some x \<Longrightarrow> atom_total s p (f x)) \<Longrightarrow> atom_total s p (Option.bind a f)"
  by (cases a) auto

lemma atom_total_if:
  "(P \<Longrightarrow> atom_total s p a) \<Longrightarrow> (\<not> P \<Longrightarrow> atom_total s p b) \<Longrightarrow> atom_total s p (if P then a else b)"
  by simp

lemma atom_total_frame: "atom_total s1 p1 res \<Longrightarrow> frame s s1 \<Longrightarrow> p \<le> p1 \<Longrightarrow> atom_total s p res"
  using frame_trans by (fastforce simp: atom_total_def)

lemma total_error: "frame s s1 \<Longrightarrow> atom_total s p (term_error s1 msg)"
  by (auto simp: term_error_def atom_total_def Option.bind_eq_Some_conv dest!: same_error frame_same
      intro: frame_trans)

lemma total_char:
  assumes "frame s s1" and "p < q"
  shows "atom_total s p (emit_char_atom s1 q c cr bw)"
proof -
  have 1: "atom_total s p (do { s2 \<leftarrow> emit_prev_if bw s1; Some (POk, start, lcc, q, s2) })"
    if "frame s s1" for s1 start lcc
    using that assms(2) by (auto intro!: atom_total_bind dest!: frame_prev_if intro: frame_trans)
  have op: "frame s s2"
    if "frame s s1" "(if v \<le> 0xffff then re_emit_op_u16 s1 REOP_char v
      else do { (pos, s) \<leftarrow> re_emit_op_u32 s1 REOP_char32 v; Some s }) = Some s2" for s1 s2 v
    using that by (auto simp: Option.bind_eq_Some_conv dest!: frame_op_u16 frame_op_u32 split: if_splits
        intro: frame_trans)
  show ?thesis
    unfolding emit_char_atom_def Let_def
  proof (intro atom_total_bind atom_total_if)
    fix s2 x assume s2: "emit_prev_if bw s1 = Some s2" and x: "re_emit_range s2 cr = Some x"
    obtain r s3 where xe: "x = (r, s3)" by (cases x)
    have "frame s s3" using frame_prev_if[OF s2] frame_emit_range[OF x[unfolded xe]] assms(1) frame_trans by blast
    then show "atom_total s p (case x of (r, s) \<Rightarrow>
        if r \<noteq> 0 then Some (PErr, code_len s1, ps_capture_count s1, q, s)
        else emit_prev_if bw s \<bind> (\<lambda>s. Some (POk, code_len s1, ps_capture_count s1, q, s)))"
      using 1 by (simp add: xe)
  next
    fix s2 v s3 s4
    assume "emit_prev_if bw s1 = Some s2" "(if v \<le> 0xffff then re_emit_op_u16 s2 REOP_char v
      else do { (pos, s) \<leftarrow> re_emit_op_u32 s2 REOP_char32 v; Some s }) = Some s3" "emit_prev_if bw s3 = Some s4"
    note f = this
    have "frame s s2" using assms(1) frame_prev_if[OF f(1)] by (rule frame_trans)
    from frame_trans[OF op[OF this f(2)] frame_prev_if[OF f(3)]]
    show "atom_total s p (Some (POk, code_len s1, ps_capture_count s1, q, s4))" using assms(2) by simp
  qed
qed

lemma total_class_atom:
  assumes "frame s s1"
  shows "atom_total s p (parse_class_atom s1 p bw)"
  unfolding parse_class_atom_def
proof (intro atom_total_bind)
  fix x assume x: "get_class_atom s1 p False = Some x"
  obtain c cr q s2 where xe: "x = (c, cr, q, s2)" by (cases x)
  have "frame s s2" using get_class_atomD[OF x[unfolded xe]] frame_same frame_trans assms by blast
  then show "atom_total s p (case x of (c, cr, p, s) \<Rightarrow>
      if c < 0 then Some (PErr, -1, 0, p, s) else emit_char_atom s p c cr bw)"
    using class_atom_forward[OF x[unfolded xe]] by (simp add: xe total_char)
qed

lemma total_dot: "atom_total s p (parse_dot s p bw)"
  unfolding parse_dot_def Let_def
proof (intro atom_total_bind)
  fix s1 s2 s3
  assume "emit_prev_if bw s = Some s1" "re_emit_op s1 (if ps_dotall s1 then REOP_any else REOP_dot) = Some s2"
    "emit_prev_if bw s2 = Some s3"
  then show "atom_total s p (Some (POk, code_len s, ps_capture_count s3, p + 1, s3))"
    by (auto dest!: frame_prev_if frame_op simp: frame_def)
qed

lemma total_class:
  assumes t: "terminated s" and n: "buf_end s - p < n"
  shows "atom_total s p (parse_class n s p bw)"
  unfolding parse_class_def Let_def
proof (intro atom_total_bind)
  fix s1 x
  assume "emit_prev_if bw s = Some s1" and x: "re_parse_char_class n s1 p = Some x"
  then have s1: "frame s s1" by (simp add: frame_prev_if)
  obtain h s2 where h: "new_range_heap s1 = (h, s2)" by (cases "new_range_heap s1")
  have s2: "frame s s2" using frame_same[OF same_new_heap[OF h]] s1 frame_trans by blast
  have loop: "r \<noteq> PFuel \<and> (r = POk \<longrightarrow> p < q) \<and> frame s s3"
    if "char_class_loop n s2 cr p1 = Some (r, cr', q, s3)" "p < p1" for r cr cr' p1 q s3
  proof -
    have "buf_end s2 - p1 < n" using n s2 that(2) by (simp add: frame_def)
    from class_loop_total[OF that(1) frame_terminated[OF s2 t] this] s2 that(2) show ?thesis
      using frame_trans by auto
  qed
  obtain r q s3 where xe: "x = (r, q, s3)" by (cases x)
  have "r \<noteq> PFuel \<and> frame s s3 \<and> (r = POk \<longrightarrow> p < q)"
  proof -
    obtain c where c: "mem_get (pattern s2) (p + 1) = Some c"
      using x[unfolded xe] h by (cases "mem_get (pattern s2) (p + 1)") (auto simp: re_parse_char_class_def)
    let ?p = "if c = 0x5e then p + 2 else p + 1"
    obtain r1 cr q1 s4 where l: "char_class_loop n s2 (cr_init h) ?p = Some (r1, cr, q1, s4)"
      using x[unfolded xe] h c
      by (cases "char_class_loop n s2 (cr_init h) ?p") (auto simp: re_parse_char_class_def Let_def simp del: mem_get_Some)
    have s4: "frame s s4" "r1 \<noteq> PFuel" "r1 = POk \<Longrightarrow> p < q1" using loop[OF l] by auto
    have rest: "(r1 \<noteq> POk \<and> r = r1 \<and> s3 = s4) \<or> (r = PErr \<and> (\<exists>e. re_parse_out_of_memory s4 = Some (e, s3))) \<or>
        (r1 = POk \<and> r \<noteq> PFuel \<and> (r = POk \<longrightarrow> q = q1 + 1) \<and> (\<exists>cr e. re_emit_range s4 cr = Some (e, s3)))"
      using x[unfolded xe] h c l
      by (auto simp: re_parse_char_class_def Let_def Option.bind_eq_Some_conv simp del: mem_get_Some split: if_splits)
    then show ?thesis
      using s4 frame_trans[OF s4(1)] same_oom frame_same frame_emit_range by auto
  qed
  then show "atom_total s p (case x of (r, p, s') \<Rightarrow>
      if r \<noteq> POk then Some (r, code_len s, ps_capture_count s, p, s')
      else emit_prev_if bw s' \<bind> (\<lambda>s'. Some (POk, code_len s, ps_capture_count s, p, s')))"
    using frame_trans by (fastforce simp: xe dest: frame_prev_if intro!: atom_total_bind)
qed

lemma total_brace: "atom_total s p (parse_brace s p bw)"
  unfolding parse_brace_def Let_def
  by (auto intro!: atom_total_bind atom_total_if total_error total_class_atom)

section \<open>Groups and escapes\<close>

text \<open>What the nested disjunction is good for, with fuel for patterns of length \<open>n - 2\<close>.\<close>

definition disj_total :: "nat \<Rightarrow> disj_fun \<Rightarrow> bool" where
  "disj_total n dj \<longleftrightarrow>
     (\<forall>bw s r s'. dj bw s = Some (r, s') \<and> terminated s \<and> ahead s + 1 < n \<longrightarrow>
        r \<noteq> PFuel \<and> frame s s' \<and> (r = POk \<longrightarrow> buf_ptr s \<le> buf_ptr s'))"

lemma total_expect: "re_parse_expect s p c = Some (e, q, s') \<Longrightarrow> frame s s' \<and> p \<le> q"
  by (auto simp: re_parse_expect_def Option.bind_eq_Some_conv dest!: same_error frame_same split: if_splits)

lemma total_group_body:
  assumes dj: "disj_total n dj" and r: "parse_group_body dj s p bw k = Some (r, q, s')"
    and t: "terminated s" and n: "buf_end s - p + 1 < n"
    and k: "\<And>s1 s2. k s1 = Some s2 \<Longrightarrow> frame s1 s2"
  shows "r \<noteq> PFuel \<and> frame s s' \<and> (r = POk \<longrightarrow> p \<le> q)"
proof -
  let ?s = "s\<lparr>buf_ptr := p\<rparr>"
  obtain r1 s1 where d: "dj bw ?s = Some (r1, s1)"
    using r by (cases "dj bw ?s") (auto simp: parse_group_body_def)
  have "terminated ?s" "ahead ?s + 1 < n" using t n by (simp_all add: terminated_def ahead_def)
  then have 1: "r1 \<noteq> PFuel" "frame ?s s1" "r1 = POk \<Longrightarrow> p \<le> buf_ptr s1"
    using dj d by (fastforce simp: disj_total_def)+
  have "frame s s1" using 1(2) by (simp add: frame_def)
  then show ?thesis
    using r d 1(1,3)
    by (auto simp: parse_group_body_def Option.bind_eq_Some_conv Let_def dest!: k total_expect
        split: if_splits intro: frame_trans)
qed

lemma total_capture:
  assumes dj: "disj_total n dj" and s1: "frame s s1" and t: "terminated s" and n: "buf_end s - q + 1 < n" and p: "p < q"
  shows "atom_total s p (parse_capture dj s1 q bw)"
  unfolding parse_capture_def Let_def
proof (intro atom_total_if atom_total_bind total_error s1)
  fix s2 x
  assume e: "re_emit_op_u8 (s1\<lparr>ps_capture_count := ps_capture_count s1 + 1\<rparr>)
      (if bw then REOP_save_end else REOP_save_start) (of_nat (ps_capture_count s1)) = Some s2"
    and x: "parse_group_body dj s2 q bw (\<lambda>s. re_emit_op_u8 s (if bw then REOP_save_start else REOP_save_end)
      (of_nat (ps_capture_count s1))) = Some x"
  have s2: "frame s s2" using frame_op_u8[OF e] s1 by (simp add: frame_def)
  obtain r q' s3 where xe: "x = (r, q', s3)" by (cases x)
  have "buf_end s2 - q + 1 < n" using n s2 by (simp add: frame_def)
  have "r \<noteq> PFuel \<and> frame s2 s3 \<and> (r = POk \<longrightarrow> q \<le> q')"
    by (rule total_group_body[OF dj x[unfolded xe] frame_terminated[OF s2 t] \<open>buf_end s2 - q + 1 < n\<close>])
       (rule frame_op_u8)
  then show "atom_total s p (case x of (r, p, s) \<Rightarrow> Some (r, code_len s1, ps_capture_count s1, p, s))"
    using s2 p frame_trans by (auto simp: xe)
qed

lemma frame_put_name: "put_group_name s xs = Some s' \<Longrightarrow> frame s s'"
  by (auto simp: put_group_name_def Option.bind_eq_Some_conv)

lemma total_lookahead:
  assumes dj: "disj_total n dj" and t: "terminated s" and n: "buf_end s - q + 1 < n" and p: "p < q"
  shows "atom_total s p (parse_lookahead dj s q neg bw)"
proof -
  have body: "r \<noteq> PFuel \<and> frame s s2 \<and> (r = POk \<longrightarrow> p < q')"
    if "parse_group_body dj s1 q b Some = Some (r, q', s2)" "frame s s1" for s1 s2 r q' b
  proof -
    have "buf_end s1 - q + 1 < n" using n that(2) by (simp add: frame_def)
    from total_group_body[OF dj that(1) frame_terminated[OF that(2) t] this] that(2) p
    show ?thesis using frame_trans by fastforce
  qed
  show ?thesis
    unfolding parse_lookahead_def Let_def
    by (auto intro!: atom_total_bind atom_total_if dest!: frame_op_u32 body frame_op frame_put_code)
       (auto simp: frame_def)
qed

lemma total_named_group:
  assumes dj: "disj_total n dj" and t: "terminated s" and n: "buf_end s - q + 1 < n" and p: "p < q"
  shows "atom_total s p (parse_named_group dj s q bw)"
proof -
  have capture: "atom_total s p (parse_capture dj (s1\<lparr>has_named_captures := 1\<rparr>) q' bw)"
    if "re_parse_group_name m b q u = Some (r, b', q')" "put_group_name (s\<lparr>tmp_buf := x\<rparr>) xs = Some s1" for s1 q' m b u r b' x xs
  proof (rule total_capture[OF dj _ t])
    show "frame s (s1\<lparr>has_named_captures := 1\<rparr>)" using frame_put_name[OF that(2)] by (simp add: frame_def)
    show "buf_end s - q' + 1 < n" "p < q'" using re_parse_group_name_mono[OF that(1)] n p by simp_all
  qed
  show ?thesis
    unfolding parse_named_group_def Let_def
    by (auto intro!: atom_total_bind atom_total_if total_error capture)
qed

lemma total_group:
  assumes dj: "disj_total n dj" and t: "terminated s" and n: "buf_end s - p < n" and p: "p < buf_end s"
  shows "atom_total s p (parse_group dj s p bw)"
proof -
  have n': "buf_end s - q + 1 < n" if "p < q" for q using that n p by simp
  have plain: "r \<noteq> PFuel \<and> frame s s' \<and> (r = POk \<longrightarrow> p < q)"
    if r: "parse_group_body dj s (p + 3) bw Some = Some (r, q, s')" for r q s'
    using total_group_body[OF dj r t n'] by fastforce
  show ?thesis
    unfolding parse_group_def Let_def
    by (auto intro!: atom_total_bind atom_total_if total_error total_lookahead[OF dj t n']
        total_named_group[OF dj t n'] total_capture[OF dj _ t n'] dest!: frame_put_name plain simp del: mem_get_Some)
qed

lemma frame_utf16_or_named: "utf16_or_named s = Some (b, s') \<Longrightarrow> frame s s'"
  by (rule frame_same, rule same_utf16_or_named)

lemma total_ref_error: "frame s s1 \<Longrightarrow> atom_total s p (named_ref_error s1 p bw msg)"
  unfolding named_ref_error_def
  by (auto intro!: atom_total_bind atom_total_if total_error total_class_atom dest!: frame_utf16_or_named
      intro: frame_trans)

lemma total_back_reference: "frame s s1 \<Longrightarrow> p < q \<Longrightarrow> atom_total s p (emit_back_reference s1 q c bw)"
  unfolding emit_back_reference_def Let_def
  by (auto intro!: atom_total_bind dest!: frame_op_u8 intro: frame_trans)

lemma total_named_ref: "atom_total s p (parse_named_ref s p bw)"
  unfolding parse_named_ref_def Let_def
  by (auto intro!: atom_total_bind atom_total_if total_ref_error total_back_reference
      dest!: re_parse_group_name_mono)

lemma octal_digit_mono: "octal_digit m p = Some (d, q) \<Longrightarrow> p \<le> q"
  by (auto simp: octal_digit_def Option.bind_eq_Some_conv split: if_splits)

lemma total_zero_escape: "atom_total s p (parse_zero_escape s p bw)"
  unfolding parse_zero_escape_def Let_def
  by (auto intro!: atom_total_bind atom_total_if total_error total_char dest!: octal_digit_mono)

lemma legacy_octal_mono: "legacy_octal m q = Some (c, p) \<Longrightarrow> q \<le> p"
  by (auto simp: legacy_octal_def Option.bind_eq_Some_conv Let_def dest!: octal_digit_mono split: if_splits)

lemma parse_digits_mono: "parse_digits m p a = Some (v, q) \<Longrightarrow> p \<le> q"
proof -
  have "parse_digits_loop m p v a = Some (Some (x, q)) \<Longrightarrow> p \<le> q" for p v x q
  proof (induction m p v a rule: parse_digits_loop.induct)
    case (1 m p v a)
    show ?case
      using 1(3) 1(1)[OF _ refl _ refl] 1(2)[OF _ refl _ refl]
      by (subst (asm) parse_digits_loop.simps) (fastforce simp: Let_def split: if_splits)
  qed
  then show "parse_digits m p a = Some (v, q) \<Longrightarrow> p \<le> q"
    by (auto simp: parse_digits_def split: option.splits)
qed

lemma total_decimal_escape: "atom_total s p (parse_decimal_escape s p bw)"
  unfolding parse_decimal_escape_def Let_def
  by (auto intro!: atom_total_bind atom_total_if total_error total_back_reference total_char
      dest!: parse_digits_mono legacy_octal_mono same_count_captures frame_same
      simp: Option.bind_eq_Some_conv split: if_splits)

lemma total_escape: "atom_total s p (parse_escape_atom s p bw)"
  unfolding parse_escape_atom_def
  by (auto intro!: atom_total_bind atom_total_if total_named_ref total_zero_escape total_decimal_escape
      total_class_atom dest!: frame_op)

lemma total_atom:
  assumes dj: "disj_total n dj" and t: "terminated s" and n: "ahead s < n" and p: "buf_ptr s < buf_end s"
  shows "atom_total s (buf_ptr s) (parse_atom n dj s bw)"
  using n p unfolding parse_atom_def Let_def ahead_def
  by (intro atom_total_bind atom_total_if total_dot total_brace total_error total_group[OF dj t]
      total_escape total_class[OF t] total_class_atom frame_refl) (auto dest: frame_op)

section \<open>Terms, alternatives and disjunctions\<close>

lemma quant_forward:
  assumes "parse_quant s p = Some (POk, qt, s')"
  shows "case qt of NoQuant q \<Rightarrow> p \<le> q | Quant mn mx q \<Rightarrow> p < q"
  using assms
  by (auto simp: parse_quant_def parse_count_quant_def quant_error_def Option.bind_eq_Some_conv Let_def
      dest!: parse_digits_mono re_parse_expectD split: if_splits)

lemma quant_ret: "parse_quant s p = Some (r, qt, s') \<Longrightarrow> r \<noteq> PFuel"
  by (auto simp: parse_quant_def parse_count_quant_def quant_error_def Option.bind_eq_Some_conv Let_def
      split: if_splits)

lemma total_term:
  assumes dj: "disj_total n dj" and t: "terminated s" and n: "ahead s < n" and p: "buf_ptr s < buf_end s"
    and r: "re_parse_term n dj bw s = Some (r, s')"
  shows "r \<noteq> PFuel \<and> frame s s' \<and> (r = POk \<longrightarrow> buf_ptr s < buf_ptr s')"
proof -
  obtain r1 start lcc q s1 where a: "parse_atom n dj s bw = Some (r1, start, lcc, q, s1)"
    using r by (cases "parse_atom n dj s bw") (auto simp: re_parse_term_def)
  have 1: "r1 \<noteq> PFuel" "frame s s1" "r1 = POk \<Longrightarrow> buf_ptr s < q"
    using total_atom[OF dj t n p, of bw] by (auto simp: a)
  show ?thesis
  proof (cases "r1 = POk \<and> 0 \<le> start")
    case False
    then show ?thesis using r a 1 by (cases r1) (auto simp: re_parse_term_def frame_def)
  next
    case True
    obtain r2 qt s2 where b: "parse_quant s1 q = Some (r2, qt, s2)"
      using r a True by (cases "parse_quant s1 q") (auto simp: re_parse_term_def)
    have 2: "r2 \<noteq> PFuel" "frame s s2"
      using quant_ret[OF b] frame_trans[OF 1(2) frame_same[OF same_quant[OF b]]] by auto
    show ?thesis
    proof (cases "r2 = POk")
      case False
      then show ?thesis using r a b True 2 by (auto simp: re_parse_term_def)
    next
      case ok: True
      note fwd = quant_forward[OF b[unfolded ok]]
      show ?thesis
      proof (cases qt)
        case (NoQuant x)
        have "r = POk" "s' = s2\<lparr>buf_ptr := x\<rparr>" using r a b True ok NoQuant by (simp_all add: re_parse_term_def)
        then show ?thesis using 1(3) 2(2) True fwd NoQuant by (simp add: frame_def)
      next
        case (Quant mn mx x)
        obtain c where c: "mem_get (pattern s2) x = Some c"
          using r a b True ok Quant by (cases "mem_get (pattern s2) x") (auto simp: re_parse_term_def)
        obtain r3 s3 where e: "emit_quant s2 start lcc mn mx (c \<noteq> 0x3f) = Some (r3, s3)"
          using r a b True ok Quant c
          by (cases "emit_quant s2 start lcc mn mx (c \<noteq> 0x3f)")
             (auto simp: re_parse_term_def Let_def simp del: mem_get_Some)
        have 3: "r3 \<noteq> PFuel" "frame s s3"
          using settled_quant[of s2 start lcc mn mx "c \<noteq> 0x3f"] frame_trans[OF 2(2)] by (auto simp: e)
        have res: "(r3 \<noteq> POk \<and> r = r3 \<and> s' = s3) \<or>
            (r3 = POk \<and> r = POk \<and> s' = s3\<lparr>buf_ptr := if c \<noteq> 0x3f then x else x + 1\<rparr>)"
          using r a b True ok Quant c e
          by (cases "r3 = POk") (simp_all add: re_parse_term_def Let_def del: mem_get_Some)
        show ?thesis
          using res
        proof (elim disjE conjE)
          assume "r3 = POk" "r = POk" "s' = s3\<lparr>buf_ptr := if c \<noteq> 0x3f then x else x + 1\<rparr>"
          then show ?thesis using 1(3) 3(2) True fwd Quant by (simp add: frame_def)
        qed (use 3 in simp)
      qed
    qed
  qed
qed

lemma total_reverse: "reverse_term s a b = Some (r, s') \<Longrightarrow> r \<noteq> PFuel \<and> frame s s' \<and> buf_ptr s' = buf_ptr s"
  by (auto simp: reverse_term_def Option.bind_eq_Some_conv Let_def simp del: mem_read_Some mem_write_Some
      split: if_splits)

lemma total_alternative_loop:
  assumes dj: "disj_total n dj" and t: "terminated s" and n: "ahead s < n" "ahead s < k"
    and r: "alternative_loop k n dj bw start s = Some (r, s')"
  shows "r \<noteq> PFuel \<and> frame s s' \<and> (r = POk \<longrightarrow> buf_ptr s \<le> buf_ptr s')"
  using t n r
proof (induction k arbitrary: s)
  case (Suc k)
  note r = Suc.prems(4)
  show ?case
  proof (cases "buf_ptr s < buf_end s")
    case False
    then show ?thesis using r by simp
  next
    case p: True
    obtain c where c: "mem_get (pattern s) (buf_ptr s) = Some c"
      using r p by (cases "mem_get (pattern s) (buf_ptr s)") auto
    show ?thesis
    proof (cases "c = 0x7c \<or> c = 0x29")
      case True
      then show ?thesis using r p c by (auto simp del: mem_get_Some)
    next
      case False
      obtain r1 s1 where a: "re_parse_term n dj bw s = Some (r1, s1)"
        using r p c False by (cases "re_parse_term n dj bw s") (auto simp: Let_def simp del: mem_get_Some)
      note 1 = total_term[OF dj Suc.prems(1,2) p a]
      have next_: "r \<noteq> PFuel \<and> frame s s' \<and> (r = POk \<longrightarrow> buf_ptr s \<le> buf_ptr s')"
        if "alternative_loop k n dj bw start s2 = Some (r, s')" "frame s s2" "buf_ptr s < buf_ptr s2" for s2
      proof -
        have "ahead s2 < n" "ahead s2 < k" using that(2,3) p Suc.prems(2,3) by (auto simp: frame_def ahead_def)
        from Suc.IH[OF frame_terminated[OF that(2) Suc.prems(1)] this that(1)] that(2,3)
        show ?thesis using frame_trans by auto
      qed
      show ?thesis
      proof (cases "r1 = POk")
        case False
        then show ?thesis using r p c \<open>\<not> (c = 0x7c \<or> c = 0x29)\<close> a 1 by (auto simp: Let_def simp del: mem_get_Some)
      next
        case ok: True
        show ?thesis
        proof (cases bw)
          case False
          then have "alternative_loop k n dj bw start s1 = Some (r, s')"
            using r p c \<open>\<not> (c = 0x7c \<or> c = 0x29)\<close> a ok by (simp add: Let_def del: mem_get_Some)
          then show ?thesis using next_ 1 ok by blast
        next
          case True
          obtain r2 s2 where b: "reverse_term s1 start (code_size s) = Some (r2, s2)"
            using r p c \<open>\<not> (c = 0x7c \<or> c = 0x29)\<close> a ok True
            by (cases "reverse_term s1 start (code_size s)") (auto simp: Let_def simp del: mem_get_Some)
          note 2 = total_reverse[OF b]
          have f: "frame s s2" using 1 2 frame_trans by blast
          have "(r2 \<noteq> POk \<and> r = r2 \<and> s' = s2) \<or> (r2 = POk \<and> alternative_loop k n dj bw start s2 = Some (r, s'))"
            using r p c \<open>\<not> (c = 0x7c \<or> c = 0x29)\<close> a ok True b
            by (cases "r2 = POk") (simp_all add: Let_def del: mem_get_Some)
          then show ?thesis using next_[OF _ f] 1 2 f ok by auto
        qed
      qed
    qed
  qed
qed simp

lemma total_disjunction_loop:
  assumes dj: "disj_total n dj" and t: "terminated s" and n: "ahead s < n" "ahead s < k"
    and r: "disjunction_loop k n dj bw start s = Some (r, s')"
  shows "r \<noteq> PFuel \<and> frame s s' \<and> (r = POk \<longrightarrow> buf_ptr s \<le> buf_ptr s')"
  using t n r
proof (induction k arbitrary: s)
  case (Suc k)
  note r = Suc.prems(4)
  obtain c where c: "mem_get (pattern s) (buf_ptr s) = Some c"
    using r by (cases "mem_get (pattern s) (buf_ptr s)") auto
  show ?case
  proof (cases "c = 0x7c")
    case False
    then show ?thesis using r c by (auto simp del: mem_get_Some)
  next
    case True
    have p: "buf_ptr s < buf_end s"
      using c True Suc.prems(1) by (cases "buf_ptr s = buf_end s") (auto simp: terminated_def)
    let ?s = "s\<lparr>buf_ptr := buf_ptr s + 1\<rparr>"
    obtain e s1 where i: "code_insert ?s start 5 = Some (e, s1)"
      using r c True by (cases "code_insert ?s start 5") (auto simp: Let_def with_insert_def simp del: mem_get_Some)
    have f1: "frame s s1" and p1: "buf_ptr s1 = buf_ptr s + 1"
      using i by (auto simp: code_insert_def Option.bind_eq_Some_conv frame_def)
    show ?thesis
    proof (cases "e = 0")
      case False
      then have "term_oom s1 = Some (r, s')"
        using r c True i by (simp add: Let_def with_insert_def del: mem_get_Some)
      then show ?thesis using settled_oom[OF f1] by (auto simp: settled_def term_oom_def Option.bind_eq_Some_conv)
    next
      case ok: True
      obtain s2 s3 pos s4 r5 s5 where o: "set_code s1 start REOP_split_next_first = Some s2"
        and v: "put_code_u32 s2 (start + 1) (of_int (code_len ?s - start + 5)) = Some s3"
        and j: "re_emit_op_u32 s3 REOP_goto 0 = Some (pos, s4)"
        and a: "re_parse_alternative n dj bw s4 = Some (r5, s5)"
        and rest: "(r5 \<noteq> POk \<and> r = r5 \<and> s' = s5) \<or> (r5 = POk \<and>
          (\<exists>s6. put_code_u32 s5 pos (of_int (code_len s5 - (pos + 4))) = Some s6 \<and>
             disjunction_loop k n dj bw start s6 = Some (r, s')))"
        using r c True i ok
        by (auto simp: Let_def with_insert_def Option.bind_eq_Some_conv simp del: mem_get_Some of_int_add of_int_diff
            split: if_splits)
      have f4: "frame s s4"
        using f1 frame_set_code[OF o] frame_put_code[OF v] frame_op_u32[OF j] by (simp add: frame_def)
      have p4: "buf_ptr s4 = buf_ptr s + 1"
        using p1 o v j by (auto simp: set_code_def put_code_u32_def re_emit_op_u32_def re_emit_op_def emit_u32_def
            Option.bind_eq_Some_conv Let_def split: if_splits)
      have "ahead s4 < n" using f4 p4 Suc.prems(2) by (simp add: ahead_def frame_def)
      from total_alternative_loop[OF dj frame_terminated[OF f4 Suc.prems(1)] this this a[unfolded re_parse_alternative_def]]
      have 5: "r5 \<noteq> PFuel" "frame s s5" "r5 = POk \<Longrightarrow> buf_ptr s < buf_ptr s5"
        using f4 p4 frame_trans by auto
      show ?thesis
        using rest
      proof (elim disjE conjE exE)
        fix s6
        assume ok: "r5 = POk" and w: "put_code_u32 s5 pos (of_int (code_len s5 - (pos + 4))) = Some s6"
          and l: "disjunction_loop k n dj bw start s6 = Some (r, s')"
        have f6: "frame s s6" using 5(2) frame_put_code[OF w] frame_trans by blast
        have p6: "buf_ptr s < buf_ptr s6"
          using 5(3)[OF ok] w by (auto simp: put_code_u32_def Option.bind_eq_Some_conv split: if_splits)
        have "ahead s6 < n" "ahead s6 < k" using f6 p6 p Suc.prems(2,3) by (auto simp: ahead_def frame_def)
        from Suc.IH[OF frame_terminated[OF f6 Suc.prems(1)] this l] f6 p6 show ?thesis using frame_trans by auto
      qed (use 5 in simp)
    qed
  qed
qed simp

lemma disjunction_total: "disj_total n (re_parse_disjunction n)"
proof (induction n)
  case 0
  then show ?case by (simp add: disj_total_def)
next
  case (Suc n)
  show ?case
    unfolding disj_total_def
  proof (intro allI impI, elim conjE)
    fix bw s r s'
    assume r: "re_parse_disjunction (Suc n) bw s = Some (r, s')" and t: "terminated s" and n: "ahead s + 1 < Suc n"
    then have n': "ahead s < n" by simp
    obtain r1 s1 where a: "re_parse_alternative n (re_parse_disjunction n) bw s = Some (r1, s1)"
      using r by (cases "re_parse_alternative n (re_parse_disjunction n) bw s") (auto simp: Let_def)
    note 1 = total_alternative_loop[OF Suc t n' n' a[unfolded re_parse_alternative_def]]
    show "r \<noteq> PFuel \<and> frame s s' \<and> (r = POk \<longrightarrow> buf_ptr s \<le> buf_ptr s')"
    proof (cases "r1 = POk")
      case False
      then show ?thesis using r a 1 by (auto simp: Let_def)
    next
      case True
      then have l: "disjunction_loop n n (re_parse_disjunction n) bw (code_len s) s1 = Some (r, s')"
        using r a by (simp add: Let_def)
      have "ahead s1 < n" using 1 True n' by (auto simp: ahead_def frame_def)
      from total_disjunction_loop[OF Suc frame_terminated[OF _ t] this this l] 1 True show ?thesis
        using frame_trans by auto
    qed
  qed
qed

section \<open>Compilation ends\<close>

lemma frame_header: "emit_header s flags = Some s' \<Longrightarrow> frame s s' \<and> buf_ptr s' = buf_ptr s"
proof -
  let ?at = "\<lambda>s. (pattern s, buf_end s, buf_ptr s)"
  have op: "?at s2 = ?at s1" if "re_emit_op s1 op = Some s2" for s1 s2 op
    using that by (auto simp: re_emit_op_def Option.bind_eq_Some_conv)
  have u32: "?at s2 = ?at s1" if "emit_u32 s1 v = Some s2" for s1 s2 v
    using that by (auto simp: emit_u32_def Option.bind_eq_Some_conv)
  have op_u32: "?at s2 = ?at s1" if "re_emit_op_u32 s1 op v = Some (p, s2)" for s1 s2 op v p
    using that by (auto simp: re_emit_op_u32_def Option.bind_eq_Some_conv dest!: op u32)
  have op_u8: "?at s2 = ?at s1" if "re_emit_op_u8 s1 op v = Some s2" for s1 s2 op v
    using that by (auto simp: re_emit_op_u8_def Option.bind_eq_Some_conv dest!: op)
  show "emit_header s flags = Some s' \<Longrightarrow> frame s s' \<and> buf_ptr s' = buf_ptr s"
    by (auto simp: emit_header_def Option.bind_eq_Some_conv frame_def dest!: op u32 op_u32 op_u8 split: if_splits)
qed

lemma compile_error_ret: "compile_error s r em n = Some (r', x) \<Longrightarrow> r' = r"
  by (auto simp: compile_error_def Option.bind_eq_Some_conv)

lemma lre_compile_ret:
  assumes fuel: "length str + 2 \<le> fuel" and r: "lre_compile fuel hb hg hs em n str flags = Some (r, x)"
  shows "r = POk \<or> r = PErr"
proof -
  obtain s where h: "emit_header (init_state hb hg hs str flags) flags = Some s"
    using r by (cases "emit_header (init_state hb hg hs str flags) flags") (auto simp: lre_compile_def Let_def)
  note f = frame_header[OF h]
  have i: "terminated (init_state hb hg hs str flags)" by (simp add: init_state_def terminated_def nth_append)
  have "ahead s + 1 < fuel" using f fuel by (simp add: ahead_def frame_def init_state_def)
  then have d: "r1 \<noteq> PFuel" if "re_parse_disjunction fuel False s = Some (r1, s1)" for r1 s1
    using disjunction_total[of fuel] that frame_terminated[OF conjunct1[OF f] i] by (auto simp: disj_total_def)
  obtain r1 s1 where p: "re_parse_disjunction fuel False s = Some (r1, s1)"
    using r h by (cases "re_parse_disjunction fuel False s") (auto simp: lre_compile_def Let_def)
  show ?thesis
  proof (cases "r1 = POk")
    case False
    then have "r = r1" using r h p by (auto simp: lre_compile_def Let_def dest: compile_error_ret)
    then show ?thesis using d[OF p] by (cases r) auto
  next
    case True
    show ?thesis
      using r h p True
      by (auto simp: lre_compile_def Let_def Option.bind_eq_Some_conv simp del: mem_get_Some mem_set_Some
          dest: compile_error_ret split: if_splits)
  qed
qed

end
