(* ===== verification/Regexp_Pipeline.thy ===== *)
theory Regexp_Pipeline
  imports Regexp_Total "HOL-Library.Code_Target_Nat"
begin

text \<open>
  Compiler and matcher together. The simplifier evaluates the compiler on concrete patterns: the
  bundle \<open>compile_eval\<close> holds the equations of the path of a pattern, and the weak congruences make
  it run a step before it looks at the continuation.
\<close>

section \<open>Evaluation\<close>

lemma eval_bind_cong: "a = b \<Longrightarrow> Option.bind a f = Option.bind b f"
  by simp

lemma eval_pair_cong: "a = b \<Longrightarrow> (case a of (x, y) \<Rightarrow> f x y) = (case b of (x, y) \<Rightarrow> f x y)"
  by simp

lemma le_bytes_2: "le_bytes 2 n = [of_nat (n mod 256), of_nat (n div 256 mod 256)]"
proof -
  have "le_bytes (Suc (Suc 0)) n = [of_nat (n mod 256), of_nat (n div 256 mod 256)]" by (simp only: le_bytes.simps)
  then show ?thesis by (simp only: numeral_2_eq_2)
qed

lemma le_bytes_4: "le_bytes 4 n =
    [of_nat (n mod 256), of_nat (n div 256 mod 256), of_nat (n div 256 div 256 mod 256),
     of_nat (n div 256 div 256 div 256 mod 256)]"
proof -
  have "le_bytes (Suc (Suc (Suc (Suc 0)))) n =
    [of_nat (n mod 256), of_nat (n div 256 mod 256), of_nat (n div 256 div 256 mod 256),
     of_nat (n div 256 div 256 div 256 mod 256)]"
    by (simp only: le_bytes.simps)
  then show ?thesis by (simp only: eval_nat_numeral BitM.simps numeral_nat)
qed

lemmas object_eval = mem_get_def mem_set_def mem_read_def mem_write_def szt_def Let_def PTRDIFF_MAX_def
  dbuf_putc_def dbuf_put_u16_def dbuf_put_u32_def dbuf_put_def dbuf_put_self_def dbuf_realloc_def dbuf_insert_def dbuf_error_def
  dbuf_init2_def realloc_func_def put_u32_def get_u16_def get_u32_def le_bytes_2 le_bytes_4

lemmas emit_eval = re_emit_op_def emit_u16_def emit_u32_def re_emit_op_u32_def re_emit_op_u8_def re_emit_op_u16_def
  re_emit_goto_def emit_goto_op_def code_len_def code_size_def int_of_size_def set_code_def put_code_u32_def
  code_insert_def with_insert_def copy_atom_def

lemmas parse_eval = re_parse_alternative_def re_parse_term_def parse_atom_def parse_class_atom_def
  get_class_atom_def normal_char_def emit_char_atom_def parse_quant_def emit_prev_if_def parse_group_def parse_group_body_def
  parse_capture_def re_parse_expect_def emit_quant_def re_is_simple_quantifier_def simple_quantifier_loop.simps
  re_check_advance_def check_advance_loop.simps check_advance_step_def or_bit_def emit_general_quant_def emit_min_zero_def
  emit_star_def split_op_def put_group_name_def

lemmas compile_eval = object_eval emit_eval parse_eval lre_compile_def init_state_def emit_header_def finish_code_def
  compute_stack_size_def stack_size_loop.simps instr_size_def reopcode_size_def RE_HEADER_defs CLASS_RANGE_BASE_def
  CAPTURE_COUNT_MAX_def INT32_MAX_def STACK_SIZE_MAX_def TMP_BUF_SIZE_def upt_rec

lemma compile_char:
  "lre_compile (Suc (Suc (Suc 0))) [] [] [] [1] 1 [0x61] 0 = Some (POk, sample_code @ [0, 0, 0, 0, 0, 0, 0], 26, [0])"
  by (simp add: compile_eval sample_code_def del: mem_get_Some mem_set_Some mem_read_Some mem_write_Some
      cong: eval_bind_cong eval_pair_cong)


definition group_code :: "u8 list" where
  "group_code =
     [0, 2, 1, 53, 0, 0, 0, 8, 6, 0, 0, 0, 4, 7, 245, 255, 255, 255, 11, 0,
      13, 1, 1, 9, 26, 0, 0, 0, 25, 11, 1, 9, 8, 0, 0, 0, 1, 97, 0, 7, 3, 0,
      0, 0, 1, 98, 0, 12, 1, 26, 225, 255, 255, 255, 1, 99, 0, 12, 0, 10, 0,
      0, 0, 0, 0, 0, 0, 0, 0, 0, 0, 0, 0]"

text \<open>The pattern is \<open>(a|b)*c\<close>.\<close>

lemma compile_group:
  "lre_compile (Suc (Suc (Suc (Suc (Suc 0))))) [] [] [] [1] 1 [0x28, 0x61, 0x7c, 0x62, 0x29, 0x2a, 0x63] 0 =
     Some (POk, group_code, 60, [0])"
  by (simp add: compile_eval group_code_def del: mem_get_Some mem_set_Some mem_read_Some mem_write_Some
      cong: eval_bind_cong eval_pair_cong)

section \<open>Compiled programs\<close>

text \<open>
  C1. The compiler is type correct: whatever the pattern, the flags and the outcomes of the
  allocator, when \<open>lre_compile\<close> succeeds with an object of less than 2 GiB, the bytecode in it
  passes the verifier: its instructions are complete and their operands in range, every jump goes
  to an instruction, the heights of the stack agree on every path and stay within the stack size
  in the header, and the captures stay within the capture count in the header.
\<close>
theorem lre_compile_verified:
  assumes r: "lre_compile fuel hb hg hs em n str flags = Some (POk, bc, plen, e)" and small: "length bc < 2 ^ 31"
  shows "bytecode_ok bc"
  using lre_compile_bytecode_ok[OF assms] .

theorem lre_compile_verified_witness:
  "lre_compile (Suc (Suc (Suc 0))) [] [] [] [1] 1 [0x61] 0 = Some (POk, sample_code @ [0, 0, 0, 0, 0, 0, 0], 26, [0]) \<and>
   length (sample_code @ [0, 0, 0, 0, 0, 0, 0]) < 2 ^ 31 \<and> bytecode_ok (sample_code @ [0, 0, 0, 0, 0, 0, 0])"
  using compile_char lre_compile_verified[OF compile_char] by (simp add: sample_code_def)

text \<open>
  C2. A compiled regular expression is memory safe: when \<open>lre_compile\<close> accepts a pattern, running
  \<open>lre_exec\<close> on its output against any subject, from any position in it, with any outcomes of the
  allocator and for any number of steps, never runs into undefined behaviour, and the captures it
  returns are positions of the subject.
\<close>
theorem compiled_exec_safe:
  assumes "lre_compile fuel hb hg hs em n str flags = Some (POk, bc, plen, e)" and "length bc < 2 ^ 31"
    and "cindex \<le> length subject"
  shows "case lre_exec steps bc subject addr type cindex h junk of
      Undef \<Rightarrow> False
    | Timeout \<Rightarrow> True
    | Ret r m \<Rightarrow> (r = -1 \<or> r = 0 \<or> r = 1) \<and>
        length (vm_capture m) = 2 * unat (bc ! RE_HEADER_CAPTURE_COUNT) \<and>
        (\<forall>i. Some i \<in> set (vm_capture m) \<longrightarrow> i \<le> length subject)"
  using lre_exec_safe[OF lre_compile_bytecode_ok[OF assms(1,2)] assms(3)] .

lemma group_run:
  "case lre_exec 200 group_code [0x78, 0x61, 0x62, 0x62, 0x63] 0 0 0 [] (\<lambda>_. 0) of
      Undef \<Rightarrow> False | Timeout \<Rightarrow> False | Ret r m \<Rightarrow> r = 1 \<and> vm_capture m = [Some 1, Some 5, Some 3, Some 4]"
  by code_simp

theorem compiled_exec_safe_witness:
  "lre_compile (Suc (Suc (Suc (Suc (Suc 0))))) [] [] [] [1] 1 [0x28, 0x61, 0x7c, 0x62, 0x29, 0x2a, 0x63] 0 =
     Some (POk, group_code, 60, [0]) \<and>
   (case lre_exec 200 group_code [0x78, 0x61, 0x62, 0x62, 0x63] 0 0 0 [] (\<lambda>_. 0) of
      Undef \<Rightarrow> False
    | Timeout \<Rightarrow> False
    | Ret r m \<Rightarrow> r = 1 \<and> vm_capture m = [Some 1, Some 5, Some 3, Some 4] \<and>
        (\<forall>i. Some i \<in> set (vm_capture m) \<longrightarrow> i \<le> 5))"
proof -
  have "length group_code < 2 ^ 31" by (simp add: group_code_def)
  from compiled_exec_safe[OF compile_group this, of 0 "[0x78, 0x61, 0x62, 0x62, 0x63]" 200 0 0 "[]" "\<lambda>_. 0"]
  show ?thesis using compile_group group_run by (auto split: vm_result.splits)
qed

section \<open>Compilation ends\<close>


text \<open>The pattern is an opening parenthesis.\<close>

lemma ascii_expecting: "ascii ''expecting '' = [101, 120, 112, 101, 99, 116, 105, 110, 103, 32]"
  by (simp add: ascii_def of_char_def)

lemma compile_open_group:
  "lre_compile (Suc (Suc (Suc 0))) [] [] [] [1, 1, 1, 1, 1, 1, 1, 1, 1, 1, 1, 1, 1, 1, 1, 1] 15 [0x28] 0 =
     Some (PErr, [], 0, ascii ''expecting '' @ [0x27, 0x29, 0x27, 0, 1, 1])"
  by (simp add: compile_eval compile_error_def re_parse_error_def pstrcpy_def pstrcpy_loop.simps ascii_expecting
      del: mem_get_Some mem_set_Some mem_read_Some mem_write_Some
      cong: eval_bind_cong eval_pair_cong)


section \<open>Error messages\<close>

lemma pstrcpy_loop_store:
  assumes "pstrcpy_loop m q e str i = Some m'" and "q \<le> e"
  shows "length m' = length m \<and> (\<exists>k. q \<le> k \<and> k \<le> e \<and> k < length m \<and> m' ! k = 0 \<and> drop (k + 1) m' = drop (k + 1) m)"
  using assms
proof (induction m q e str i rule: pstrcpy_loop.induct)
  case (1 m q e str i)
  obtain c where c: "mem_get str i = Some c"
    using 1(2) by (subst (asm) pstrcpy_loop.simps) (auto split: option.splits)
  show ?case
  proof (cases "c = 0 \<or> q \<ge> e")
    case True
    then have "mem_set m q 0 = Some m'"
      using 1(2) c by (subst (asm) pstrcpy_loop.simps) (simp del: mem_get_Some mem_set_Some)
    then show ?thesis using 1(3) by (auto intro!: exI[of _ q])
  next
    case False
    then obtain m1 where m1: "mem_set m q c = Some m1"
      using 1(2) c by (subst (asm) pstrcpy_loop.simps)
         (auto simp del: mem_get_Some mem_set_Some split: option.splits)
    then have r: "pstrcpy_loop m1 (q + 1) e str (i + 1) = Some m'"
      using 1(2) c False by (subst (asm) pstrcpy_loop.simps) (simp del: mem_get_Some mem_set_Some)
    from 1(1)[OF c False m1 r] False obtain k where
      k: "length m' = length m1" "q + 1 \<le> k" "k \<le> e" "k < length m1" "m' ! k = 0" "drop (k + 1) m' = drop (k + 1) m1"
      by auto
    show ?thesis using k m1 by (auto intro!: exI[of _ k])
  qed
qed

text \<open>
  C30. A failed compilation is clean: \<open>lre_compile\<close> then returns no code and a length of zero, and
  leaves in \<open>error_msg\<close> a string that is terminated within \<open>error_msg_size\<close> bytes; nothing behind the
  terminator changes, so nothing outside the size it was given is written.
\<close>
theorem lre_compile_fails_cleanly:
  assumes r: "lre_compile fuel hb hg hs em n str flags = Some (PErr, bc, plen, e)" and n: "0 < n"
  shows "bc = [] \<and> plen = 0 \<and> length e = length em \<and>
    (\<exists>k. int k < n \<and> k < length em \<and> e ! k = 0 \<and> drop (k + 1) e = drop (k + 1) em)"
proof -
  have "bc = [] \<and> plen = 0 \<and> (\<exists>s r. compile_error s r em n = Some (PErr, bc, plen, e))"
    using r
    by (auto simp: lre_compile_def Let_def Option.bind_eq_Some_conv compile_error_def simp del: mem_get_Some mem_set_Some
        split: if_splits)
  then obtain s :: re_parse_state where "bc = []" "plen = 0" and c: "pstrcpy em 0 n (tmp_buf s) = Some e"
    by (auto simp: compile_error_def Option.bind_eq_Some_conv)
  from c n have "pstrcpy_loop em 0 (nat n - 1) (tmp_buf s) 0 = Some e" by (simp add: pstrcpy_def)
  from pstrcpy_loop_store[OF this] obtain k where
    k: "length e = length em" "k \<le> nat n - 1" "k < length em" "e ! k = 0" "drop (k + 1) e = drop (k + 1) em" by auto
  have "int k < n" using k(2) n by linarith
  then show ?thesis using \<open>bc = []\<close> \<open>plen = 0\<close> k by blast
qed

theorem lre_compile_fails_cleanly_witness:
  "lre_compile (Suc (Suc (Suc 0))) [] [] [] [1, 1, 1, 1, 1, 1, 1, 1, 1, 1, 1, 1, 1, 1, 1, 1] 15 [0x28] 0 =
     Some (PErr, [], 0, ascii ''expecting '' @ [0x27, 0x29, 0x27, 0, 1, 1]) \<and>
   (\<exists>k. int k < 15 \<and> (ascii ''expecting '' @ [0x27, 0x29, 0x27, 0, 1, 1]) ! k = 0)"
proof -
  have "0 < (15 :: int)" by simp
  from lre_compile_fails_cleanly[OF compile_open_group this] show ?thesis using compile_open_group by blast
qed

end
