(* ===== verification/Bf_Limb.thy ===== *)
theory Bf_Limb
  imports Prelude
begin

text \<open>
  The limb arithmetic of \<open>libbf.c\<close> for 64-bit limbs: natural numbers as little endian arrays of
  limbs. An array argument is the list of the \<open>n\<close> limbs it holds; each of these loops reads element
  \<open>i\<close> before it writes element \<open>i\<close>, so the result may be stored over an operand.
\<close>

type_synonym limb = u64
type_synonym dlimb = "128 word"

named_theorems limb_nat \<open>limb operations as operations on natural numbers\<close>

section \<open>Values\<close>

definition BASE :: nat where "BASE = 2 ^ 64"

primrec mp_val :: "limb list \<Rightarrow> nat" where
  "mp_val [] = 0"
| "mp_val (x # xs) = unat x + BASE * mp_val xs"

lemma BASE_pos [simp]: "0 < BASE" "BASE \<noteq> 0"
  by (simp_all add: BASE_def)

lemma unat_limb: "unat (x :: limb) < BASE"
  using unsigned_less[of x, where ?'a = nat] by (simp add: BASE_def)

lemma unat_dlimb: "unat (x :: dlimb) < BASE * BASE"
  using unsigned_less[of x, where ?'a = nat] by (simp add: BASE_def)

lemma mp_val_append: "mp_val (xs @ ys) = mp_val xs + BASE ^ length xs * mp_val ys"
  by (induction xs) (simp_all add: algebra_simps)

lemma mp_val_less: "mp_val xs < BASE ^ length xs"
proof (induction xs)
  case (Cons x xs)
  have "unat x + BASE * mp_val xs < BASE * (mp_val xs + 1)" using unat_limb[of x] by simp
  also have "\<dots> \<le> BASE * BASE ^ length xs" using Cons by (intro mult_le_mono2) simp
  finally show ?case by simp
qed simp

lemma mp_val_replicate_0 [simp]: "mp_val (replicate n 0) = 0"
  by (induction n) simp_all

lemma mp_val_inject: "length xs = length ys \<Longrightarrow> mp_val xs = mp_val ys \<Longrightarrow> xs = ys"
proof (induction xs ys rule: list_induct2)
  case (Cons x xs y ys)
  have "(unat x + BASE * mp_val xs) mod BASE = (unat y + BASE * mp_val ys) mod BASE"
    using Cons.prems by simp
  then have "x = y" using unat_limb[of x] unat_limb[of y] by (simp add: word_unat_eq_iff)
  with Cons show ?case by simp
qed simp

section \<open>Addition and subtraction\<close>

fun mp_add :: "limb list \<Rightarrow> limb list \<Rightarrow> limb \<Rightarrow> limb list \<times> limb" where
  "mp_add (v # op1) (w # op2) k =
     (let a = v + w;
          k1 = (if a < v then 1 else 0);
          a = a + k;
          k = (if a < k then 1 else 0) OR k1;
          (res, c) = mp_add op1 op2 k
      in (a # res, c))"
| "mp_add _ _ k = ([], k)"

fun mp_add_ui :: "limb list \<Rightarrow> limb \<Rightarrow> limb list \<times> limb" where
  "mp_add_ui [] k = ([], k)"
| "mp_add_ui (v # tab) k =
     (if k = 0 then (v # tab, k)
      else
        let a = v + k;
            (res, c) = mp_add_ui tab (if a < k then 1 else 0)
        in (a # res, c))"

text \<open>\<open>mp_sub\<close> and \<open>mp_neg\<close> count with an \<open>int\<close>: more than \<open>INT_MAX\<close> limbs overflow it.\<close>

fun mp_sub_loop :: "limb list \<Rightarrow> limb list \<Rightarrow> limb \<Rightarrow> limb list \<times> limb" where
  "mp_sub_loop (v # op1) (w # op2) k =
     (let a = v - w;
          k1 = (if a > v then 1 else 0);
          v = a - k;
          k = (if v > a then 1 else 0) OR k1;
          (res, c) = mp_sub_loop op1 op2 k
      in (v # res, c))"
| "mp_sub_loop _ _ k = ([], k)"

definition mp_sub :: "limb list \<Rightarrow> limb list \<Rightarrow> limb \<Rightarrow> (limb list \<times> limb) option" where
  "mp_sub op1 op2 k = (if length op2 < 2 ^ 31 then Some (mp_sub_loop op1 op2 k) else None)"

definition mp_neg :: "limb list \<Rightarrow> limb \<Rightarrow> (limb list \<times> limb) option" where
  "mp_neg op2 k =
     (if length op2 < 2 ^ 31 then Some (mp_sub_loop (replicate (length op2) 0) op2 k) else None)"

fun mp_sub_ui :: "limb list \<Rightarrow> limb \<Rightarrow> limb list \<times> limb" where
  "mp_sub_ui [] k = ([], k)"
| "mp_sub_ui (v # tab) k =
     (let a = v - k;
          k = (if a > v then 1 else 0)
      in if k = 0 then (a # tab, k)
         else let (res, c) = mp_sub_ui tab k in (a # res, c))"

text \<open>One limb with carry: what the comparisons detect.\<close>

lemma add_carry [limb_nat]:
  "unat (v + w) + BASE * (if v + w < v then 1 else 0) = unat v + unat (w :: limb)"
  using unat_limb[of v] unat_limb[of w]
  by (auto simp: word_less_nat_alt unat_word_ariths BASE_def mod_if split: if_splits)

lemma sub_borrow [limb_nat]:
  "unat (v - w) + unat (w :: limb) = unat v + BASE * (if v - w > v then 1 else 0)"
  using unat_limb[of v] unat_limb[of w]
  by (auto simp: word_less_nat_alt unat_sub_if' BASE_def split: if_splits)

lemma add_carry':
  "unat (v + w) + BASE * (if v + w < w then 1 else 0) = unat v + unat (w :: limb)"
  using add_carry[of w v] by (simp add: add.commute)

lemma bool_or: "(if P then 1 else 0) OR (if Q then 1 else 0) = (if P \<or> Q then 1 else 0 :: limb)"
  by simp

lemma add_limbs:
  fixes v w k :: limb
  assumes "unat k \<le> 1"
  defines "a \<equiv> v + w" and "c \<equiv> (if v + w + k < k then 1 else 0) OR (if v + w < v then 1 else 0 :: limb)"
  shows "unat (a + k) + BASE * unat c = unat v + unat w + unat k" and "unat c \<le> 1"
proof -
  note 1 = add_carry[of v w] and 2 = add_carry'[of "v + w" k]
  have not_both: "\<not> (v + w + k < k \<and> v + w < v)"
  proof
    assume both: "v + w + k < k \<and> v + w < v"
    then have "unat v + unat w = unat (v + w) + BASE" and "unat (v + w) + unat k = unat (v + w + k) + BASE"
      using 1 2 by simp_all
    then show False using unat_limb[of v] unat_limb[of w] assms(1) unat_limb[of "v + w + k"] by simp
  qed
  show "unat (a + k) + BASE * unat c = unat v + unat w + unat k" and "unat c \<le> 1"
    unfolding a_def c_def bool_or using 1 2 not_both by (auto split: if_splits)
qed

lemma sub_limbs:
  fixes v w k :: limb
  assumes "unat k \<le> 1"
  defines "a \<equiv> v - w" and "c \<equiv> (if v - w - k > v - w then 1 else 0) OR (if v - w > v then 1 else 0 :: limb)"
  shows "unat (a - k) + unat w + unat k = unat v + BASE * unat c" and "unat c \<le> 1"
proof -
  note 1 = sub_borrow[of v w] and 2 = sub_borrow[of "v - w" k]
  have not_both: "\<not> (v - w - k > v - w \<and> v - w > v)"
  proof
    assume both: "v - w - k > v - w \<and> v - w > v"
    then have "unat (v - w) + unat w = unat v + BASE" and "unat (v - w - k) + unat k = unat (v - w) + BASE"
      using 1 2 by simp_all
    then show False using unat_limb[of v] unat_limb[of w] assms(1) unat_limb[of "v - w - k"] by simp
  qed
  show "unat (a - k) + unat w + unat k = unat v + BASE * unat c" and "unat c \<le> 1"
    unfolding a_def c_def bool_or using 1 2 not_both by (auto split: if_splits)
qed

lemma mp_add_val:
  assumes "length a = length b" and "unat k \<le> 1" and "mp_add a b k = (r, c)"
  shows "mp_val r + BASE ^ length a * unat c = mp_val a + mp_val b + unat k" and "length r = length a"
    and "unat c \<le> 1"
proof -
  have "mp_val r + BASE ^ length a * unat c = mp_val a + mp_val b + unat k \<and> length r = length a \<and> unat c \<le> 1"
    using assms
  proof (induction a b arbitrary: k r rule: list_induct2)
    case (Cons v a w b)
    let ?c = "(if v + w + k < k then 1 else 0) OR (if v + w < v then 1 else 0 :: limb)"
    obtain r' where r': "mp_add a b ?c = (r', c)" "r = (v + w + k) # r'"
      using Cons.prems(2) by (auto simp: Let_def split: prod.splits)
    note l = add_limbs[OF Cons.prems(1), of v w]
    from Cons.IH[OF l(2) r'(1)] have
      IH: "mp_val r' + BASE ^ length a * unat c = mp_val a + mp_val b + unat ?c" "length r' = length a" "unat c \<le> 1"
      by blast+
    have "mp_val r + BASE ^ length (v # a) * unat c =
        unat (v + w + k) + BASE * (mp_val r' + BASE ^ length a * unat c)"
      by (simp add: r'(2) algebra_simps)
    also have "\<dots> = unat (v + w + k) + BASE * unat ?c + BASE * (mp_val a + mp_val b)"
      unfolding IH(1) by (simp add: algebra_simps)
    also have "\<dots> = mp_val (v # a) + mp_val (w # b) + unat k" unfolding l(1) by (simp add: algebra_simps)
    finally show ?case using IH r'(2) by simp
  qed simp
  then show "mp_val r + BASE ^ length a * unat c = mp_val a + mp_val b + unat k" "length r = length a" "unat c \<le> 1"
    by blast+
qed

lemma mp_sub_loop_val:
  assumes "length a = length b" and "unat k \<le> 1" and "mp_sub_loop a b k = (r, c)"
  shows "mp_val r + mp_val b + unat k = mp_val a + BASE ^ length a * unat c" and "length r = length a"
    and "unat c \<le> 1"
proof -
  have "mp_val r + mp_val b + unat k = mp_val a + BASE ^ length a * unat c \<and> length r = length a \<and> unat c \<le> 1"
    using assms
  proof (induction a b arbitrary: k r rule: list_induct2)
    case (Cons v a w b)
    let ?c = "(if v - w - k > v - w then 1 else 0) OR (if v - w > v then 1 else 0 :: limb)"
    obtain r' where r': "mp_sub_loop a b ?c = (r', c)" "r = (v - w - k) # r'"
      using Cons.prems(2) by (auto simp: Let_def split: prod.splits)
    note l = sub_limbs[OF Cons.prems(1), of v w]
    from Cons.IH[OF l(2) r'(1)] have
      IH: "mp_val r' + mp_val b + unat ?c = mp_val a + BASE ^ length a * unat c" "length r' = length a" "unat c \<le> 1"
      by blast+
    have "mp_val r + mp_val (w # b) + unat k = (unat (v - w - k) + unat w + unat k) + BASE * (mp_val r' + mp_val b)"
      by (simp add: r'(2) algebra_simps)
    also have "\<dots> = unat v + BASE * (mp_val r' + mp_val b + unat ?c)" unfolding l(1) by (simp add: algebra_simps)
    also have "\<dots> = mp_val (v # a) + BASE ^ length (v # a) * unat c" unfolding IH(1) by (simp add: algebra_simps)
    finally show ?case using IH r'(2) by simp
  qed simp
  then show "mp_val r + mp_val b + unat k = mp_val a + BASE ^ length a * unat c" "length r = length a" "unat c \<le> 1"
    by blast+
qed

lemma mp_sub_val:
  assumes "length a = length b" and "length b < 2 ^ 31" and "unat k \<le> 1"
  obtains r c where "mp_sub a b k = Some (r, c)" and "mp_val r + mp_val b + unat k = mp_val a + BASE ^ length a * unat c"
    and "length r = length a" and "unat c \<le> 1"
proof -
  obtain r c where rc: "mp_sub_loop a b k = (r, c)" by (cases "mp_sub_loop a b k")
  then have "mp_sub a b k = Some (r, c)" using assms(2) by (simp add: mp_sub_def)
  from that[OF this] mp_sub_loop_val[OF assms(1,3) rc] show ?thesis by blast
qed

lemma mp_neg_val:
  assumes "mp_neg b k = Some (r, c)" and "unat k \<le> 1"
  shows "mp_val r + mp_val b + unat k = BASE ^ length b * unat c" and "length r = length b" and "unat c \<le> 1"
proof -
  from assms(1) have "mp_sub_loop (replicate (length b) 0) b k = (r, c)" by (simp add: mp_neg_def split: if_splits)
  from mp_sub_loop_val[OF _ assms(2) this]
  show "mp_val r + mp_val b + unat k = BASE ^ length b * unat c" "length r = length b" "unat c \<le> 1" by simp_all
qed

lemma mp_add_ui_val:
  "mp_add_ui tab k = (r, c) \<Longrightarrow> mp_val r + BASE ^ length tab * unat c = mp_val tab + unat k \<and> length r = length tab"
proof (induction tab k arbitrary: r rule: mp_add_ui.induct)
  case (2 v tab k)
  let ?k = "if v + k < k then 1 else 0 :: limb"
  show ?case
  proof (cases "k = 0")
    case False
    obtain r' where r': "mp_add_ui tab ?k = (r', c)" "r = (v + k) # r'"
      using 2(2) False by (auto simp: Let_def split: prod.splits)
    have IH: "mp_val r' + BASE ^ length tab * unat c = mp_val tab + unat ?k" "length r' = length tab"
      using 2(1)[OF False refl] r'(1) by auto
    have "mp_val r + BASE ^ length (v # tab) * unat c = unat (v + k) + BASE * (mp_val r' + BASE ^ length tab * unat c)"
      by (simp add: r'(2) algebra_simps)
    also have "\<dots> = (unat (v + k) + BASE * (if v + k < k then 1 else 0)) + BASE * mp_val tab"
      unfolding IH(1) by (simp add: algebra_simps)
    also have "\<dots> = mp_val (v # tab) + unat k" unfolding add_carry' by simp
    finally show ?thesis using IH(2) r'(2) by simp
  qed (use 2(2) in auto)
qed simp

lemma mp_sub_ui_val:
  "mp_sub_ui tab k = (r, c) \<Longrightarrow> mp_val r + unat k = mp_val tab + BASE ^ length tab * unat c \<and> length r = length tab"
proof (induction tab k arbitrary: r rule: mp_sub_ui.induct)
  case (2 v tab k)
  let ?k = "if v - k > v then 1 else 0 :: limb"
  obtain r' where r': "r = (v - k) # r'" and IH: "mp_val r' + unat ?k = mp_val tab + BASE ^ length tab * unat c" "length r' = length tab"
    using 2 by (auto simp: Let_def split: prod.splits if_splits)
  have "mp_val r + unat k = (unat (v - k) + unat k) + BASE * mp_val r'" by (simp add: r')
  also have "\<dots> = unat v + BASE * (mp_val r' + unat ?k)" unfolding sub_borrow by (simp add: algebra_simps)
  also have "\<dots> = mp_val (v # tab) + BASE ^ length (v # tab) * unat c" unfolding IH(1) by (simp add: algebra_simps)
  finally show ?case using IH(2) r' by simp
qed simp

section \<open>Shifts and products\<close>

text \<open>The loop runs from the most significant limb down.\<close>

primrec mp_shr_loop :: "limb list \<Rightarrow> nat \<Rightarrow> limb \<Rightarrow> limb list \<times> limb" where
  "mp_shr_loop [] shift high = ([], high)"
| "mp_shr_loop (a # tab) shift high =
     (let (res, l) = mp_shr_loop tab shift high
      in ((drop_bit shift a OR push_bit (64 - shift) l) # res, a))"

definition mp_shr :: "limb list \<Rightarrow> int \<Rightarrow> limb \<Rightarrow> (limb list \<times> limb) option" where
  "mp_shr tab shift high =
     (if shift \<ge> 1 \<and> shift < 64 then
        let (res, l) = mp_shr_loop tab (nat shift) high
        in Some (res, l AND (push_bit (nat shift) 1 - 1))
      else None)"

primrec mp_mul1 :: "limb list \<Rightarrow> limb \<Rightarrow> limb \<Rightarrow> limb list \<times> limb" where
  "mp_mul1 [] b l = ([], l)"
| "mp_mul1 (a # taba) b l =
     (let t = (ucast a :: dlimb) * ucast b + ucast l;
          (res, h) = mp_mul1 taba b (ucast (drop_bit 64 t))
      in (ucast t # res, h))"

fun mp_add_mul1_loop :: "limb list \<Rightarrow> limb list \<Rightarrow> limb \<Rightarrow> limb \<Rightarrow> limb list \<times> limb" where
  "mp_add_mul1_loop (r # tabr) (a # taba) b l =
     (let t = (ucast a :: dlimb) * ucast b + ucast l + ucast r;
          (res, h) = mp_add_mul1_loop tabr taba b (ucast (drop_bit 64 t))
      in (ucast t # res, h))"
| "mp_add_mul1_loop _ _ b l = ([], l)"

definition mp_add_mul1 :: "limb list \<Rightarrow> limb list \<Rightarrow> limb \<Rightarrow> limb list \<times> limb" where
  "mp_add_mul1 tabr taba b = mp_add_mul1_loop tabr taba b 0"

fun mp_sub_mul1_loop :: "limb list \<Rightarrow> limb list \<Rightarrow> limb \<Rightarrow> limb \<Rightarrow> limb list \<times> limb" where
  "mp_sub_mul1_loop (r # tabr) (a # taba) b l =
     (let t = (ucast r :: dlimb) - ucast a * ucast b - ucast l;
          (res, h) = mp_sub_mul1_loop tabr taba b (ucast (- drop_bit 64 t))
      in (ucast t # res, h))"
| "mp_sub_mul1_loop _ _ b l = ([], l)"

definition mp_sub_mul1 :: "limb list \<Rightarrow> limb list \<Rightarrow> limb \<Rightarrow> limb list \<times> limb" where
  "mp_sub_mul1 tabr taba b = mp_sub_mul1_loop tabr taba b 0"

primrec mp_mul_loop :: "limb list \<Rightarrow> limb list \<Rightarrow> nat \<Rightarrow> limb list \<Rightarrow> limb list option" where
  "mp_mul_loop [] op1 i result = Some result"
| "mp_mul_loop (b # op2) op1 i result =
     do {
       w \<leftarrow> mem_read result i (length op1);
       let (w, r) = mp_add_mul1 w op1 b;
       result \<leftarrow> mem_write result i w;
       result \<leftarrow> mem_set result (i + length op1) r;
       mp_mul_loop op2 op1 (i + 1) result
     }"

definition mp_mul_basecase :: "limb list \<Rightarrow> limb list \<Rightarrow> limb list \<Rightarrow> limb list option" where
  "mp_mul_basecase result op1 op2 =
     do {
       b \<leftarrow> mem_get op2 0;
       let (w, r) = mp_mul1 op1 b 0;
       result \<leftarrow> mem_write result 0 w;
       result \<leftarrow> mem_set result (length op1) r;
       mp_mul_loop (drop 1 op2) op1 1 result
     }"

text \<open>A double limb splits into its halves.\<close>

lemma unat_split: "unat (t :: dlimb) = unat (ucast t :: limb) + BASE * unat (ucast (drop_bit 64 t) :: limb)"
proof -
  have "unat t div BASE < BASE" using unat_dlimb[of t] by (simp add: less_mult_imp_div_less)
  moreover have "unat (drop_bit 64 t) = unat t div BASE"
    by (simp add: drop_bit_eq_div BASE_def unat_div)
  ultimately have "unat (ucast (drop_bit 64 t) :: limb) = unat t div BASE"
    by (simp add: unsigned_ucast_eq take_bit_eq_mod BASE_def)
  moreover have "unat (ucast t :: limb) = unat t mod BASE"
    by (simp add: unsigned_ucast_eq take_bit_eq_mod BASE_def)
  ultimately show ?thesis by simp
qed

lemma unat_ucast_limb: "unat (ucast (x :: limb) :: dlimb) = unat x"
  by (simp add: unsigned_ucast_eq take_bit_nat_eq_self unsigned_less order_less_trans[OF unsigned_less])

lemma mul_bound:
  assumes "a < BASE" "b < BASE" "c < BASE" "d < BASE"
  shows "a * b + c + d < BASE * BASE"
proof -
  have "a * b \<le> (BASE - 1) * (BASE - 1)" using assms by (intro mult_le_mono) auto
  then have "a * b + c + d \<le> (BASE - 1) * (BASE - 1) + (BASE - 1) + (BASE - 1)" using assms by linarith
  also have "\<dots> < BASE * BASE" by (simp add: BASE_def)
  finally show ?thesis .
qed

lemma unat_madd:
  "unat ((ucast (a :: limb) :: dlimb) * ucast b + ucast (l :: limb) + ucast (r :: limb)) =
     unat a * unat (b :: limb) + unat l + unat r"
  using mul_bound[OF unat_limb[of a] unat_limb[of b] unat_limb[of l] unat_limb[of r]]
  by (simp add: unat_word_ariths unat_ucast_limb BASE_def mod_mult_eq mod_add_left_eq mod_add_eq)

lemma mp_mul1_val:
  "mp_mul1 a b l = (r, h) \<Longrightarrow>
     mp_val r + BASE ^ length a * unat h = mp_val a * unat b + unat l \<and> length r = length a"
proof (induction a arbitrary: l r)
  case (Cons v a)
  let ?t = "(ucast v :: dlimb) * ucast b + ucast l"
  obtain r' where r': "mp_mul1 a b (ucast (drop_bit 64 ?t)) = (r', h)" "r = ucast ?t # r'"
    using Cons.prems by (auto simp: Let_def split: prod.splits)
  note IH = Cons.IH[OF r'(1)]
  have "mp_val r + BASE ^ length (v # a) * unat h =
      unat (ucast ?t :: limb) + BASE * (mp_val r' + BASE ^ length a * unat h)" by (simp add: r'(2) algebra_simps)
  also have "\<dots> = unat ?t + BASE * (mp_val a * unat b)"
    unfolding IH[THEN conjunct1] unat_split[of ?t] by (simp add: algebra_simps)
  also have "unat ?t = unat v * unat b + unat l" using unat_madd[of v b l 0] by simp
  finally show ?case using IH r'(2) by (simp add: algebra_simps)
qed simp

lemma mp_add_mul1_val:
  assumes "length r = length a" and "mp_add_mul1 r a b = (r', h)"
  shows "mp_val r' + BASE ^ length a * unat h = mp_val r + mp_val a * unat b" and "length r' = length a"
proof -
  have "mp_add_mul1_loop r a b l = (r', h) \<Longrightarrow>
      mp_val r' + BASE ^ length a * unat h = mp_val r + mp_val a * unat b + unat l \<and> length r' = length a" for l
    using assms(1)
  proof (induction r a arbitrary: l r' rule: list_induct2)
    case (Cons u r v a)
    let ?t = "(ucast v :: dlimb) * ucast b + ucast l + ucast u"
    obtain r1 where r1: "mp_add_mul1_loop r a b (ucast (drop_bit 64 ?t)) = (r1, h)" "r' = ucast ?t # r1"
      using Cons.prems by (auto simp: Let_def split: prod.splits)
    note IH = Cons.IH[OF r1(1)]
    have "mp_val r' + BASE ^ length (v # a) * unat h =
        unat (ucast ?t :: limb) + BASE * (mp_val r1 + BASE ^ length a * unat h)" by (simp add: r1(2) algebra_simps)
    also have "\<dots> = unat ?t + BASE * (mp_val r + mp_val a * unat b)"
      unfolding IH[THEN conjunct1] unat_split[of ?t] by (simp add: algebra_simps)
    also have "unat ?t = unat v * unat b + unat l + unat u" by (rule unat_madd)
    finally show ?case using IH r1(2) by (simp add: algebra_simps)
  qed simp
  from this[of 0] assms(2) show "mp_val r' + BASE ^ length a * unat h = mp_val r + mp_val a * unat b" "length r' = length a"
    by (simp_all add: mp_add_mul1_def)
qed

lemma uint_down_neg: "uint (ucast (- x :: dlimb) :: limb) = (- uint x) mod 2 ^ 64"
proof -
  have "uint (ucast (- x) :: limb) = (- uint x) mod 2 ^ 128 mod 2 ^ 64"
    by (simp add: unsigned_ucast_eq take_bit_eq_mod uint_word_ariths)
  also have "\<dots> = (- uint x) mod 2 ^ 64" by (rule mod_mod_cancel) simp
  finally show ?thesis .
qed

lemma unat_msub:
  fixes r a b l :: limb
  defines "t \<equiv> (ucast r :: dlimb) - ucast a * ucast b - ucast l"
  shows "unat (ucast t :: limb) + unat a * unat b + unat l = unat r + BASE * unat (ucast (- drop_bit 64 t) :: limb)"
proof -
  define B :: int where "B = 2 ^ 64"
  have B: "B > 0" and BB: "int BASE = B" by (simp_all add: B_def BASE_def)
  have le: "0 \<le> uint x \<and> uint x \<le> B - 1" for x :: limb using unsigned_less[of x, where ?'a = int] by (simp add: B_def)
  define T where "T = uint r - uint a * uint b - uint l"
  have "uint a * uint b \<le> (B - 1) * (B - 1)" "0 \<le> uint a * uint b"
    using le[of a] le[of b] B by (auto intro!: mult_mono)
  moreover have "(B - 1) * (B - 1) = B * B - 2 * B + 1" by (simp add: algebra_simps)
  ultimately have lo: "T \<ge> - (B * B - B)" and hi: "T < B" using le[of r] le[of l] unfolding T_def by linarith+
  have t: "uint t = T mod (B * B)"
    by (simp add: t_def T_def B_def uint_word_ariths unsigned_ucast_eq take_bit_int_eq_self unsigned_less
        order_less_trans[OF unsigned_less] mod_diff_left_eq mod_diff_right_eq mod_simps)
  have drop: "uint (drop_bit 64 t) = uint t div B"
    by (simp add: drop_bit_eq_div B_def uint_div)
  have lo_half: "uint (ucast t :: limb) = uint t mod B"
    by (simp add: unsigned_ucast_eq take_bit_eq_mod B_def)
  have hi_half: "uint (ucast (- drop_bit 64 t) :: limb) = (- (uint t div B)) mod B"
    unfolding uint_down_neg drop B_def ..
  have "uint t mod B + uint a * uint b + uint l = uint r + B * ((- (uint t div B)) mod B)"
  proof (cases "T \<ge> 0")
    case True
    have "T < B * B" using hi B by (simp add: order_less_le_trans[OF hi] mult_le_cancel_left1)
    then have "uint t = T" using True t by simp
    with True hi show ?thesis by (simp add: T_def)
  next
    case False
    have "T + B * B < B * B" "0 \<le> T + B * B" using False lo B by simp_all
    then have T: "uint t = T + B * B" unfolding t by (metis mod_add_self2 mod_pos_pos_trivial)
    have "B \<le> uint t" "uint t < B * B" using T lo False by simp_all
    then have "1 \<le> uint t div B" using zdiv_mono1[of B "uint t" B] B by simp
    moreover have "uint t div B < B"
    proof -
      have "B * (uint t div B) \<le> uint t" using pos_mod_sign[OF B, of "uint t"] mult_div_mod_eq[of B "uint t"] by linarith
      then have "B * (uint t div B) < B * B" using \<open>uint t < B * B\<close> by linarith
      then show ?thesis using B by simp
    qed
    ultimately have neg: "(- (uint t div B)) mod B = B - uint t div B" by (simp add: zmod_zminus1_eq_if)
    have "uint t mod B = uint t - B * (uint t div B)" by (simp add: minus_mult_div_eq_mod)
    moreover have "B * (B - uint t div B) = B * B - B * (uint t div B)" by (simp add: algebra_simps)
    ultimately show ?thesis unfolding neg using T unfolding T_def by linarith
  qed
  then have "int (unat (ucast t :: limb) + unat a * unat b + unat l) =
      int (unat r + BASE * unat (ucast (- drop_bit 64 t) :: limb))"
    unfolding of_nat_add of_nat_mult BB using lo_half hi_half by (simp add: uint_nat[symmetric])
  then show ?thesis by (rule of_nat_eq_iff[THEN iffD1])
qed

lemma mp_sub_mul1_val:
  assumes "length r = length a" and "mp_sub_mul1 r a b = (r', h)"
  shows "mp_val r' + mp_val a * unat b = mp_val r + BASE ^ length a * unat h" and "length r' = length a"
proof -
  have "mp_sub_mul1_loop r a b l = (r', h) \<Longrightarrow>
      mp_val r' + mp_val a * unat b + unat l = mp_val r + BASE ^ length a * unat h \<and> length r' = length a" for l
    using assms(1)
  proof (induction r a arbitrary: l r' rule: list_induct2)
    case (Cons u r v a)
    let ?t = "(ucast u :: dlimb) - ucast v * ucast b - ucast l"
    let ?l = "ucast (- drop_bit 64 ?t) :: limb"
    obtain r1 where r1: "mp_sub_mul1_loop r a b ?l = (r1, h)" "r' = ucast ?t # r1"
      using Cons.prems by (auto simp: Let_def split: prod.splits)
    note IH = Cons.IH[OF r1(1)]
    have "mp_val r' + mp_val (v # a) * unat b + unat l =
        (unat (ucast ?t :: limb) + unat v * unat b + unat l) + BASE * (mp_val r1 + mp_val a * unat b)"
      by (simp add: r1(2) algebra_simps)
    also have "\<dots> = unat u + BASE * (mp_val r1 + mp_val a * unat b + unat ?l)"
      unfolding unat_msub by (simp add: algebra_simps)
    also have "\<dots> = mp_val (u # r) + BASE ^ length (v # a) * unat h"
      unfolding IH[THEN conjunct1] by (simp add: algebra_simps)
    finally show ?case using IH r1(2) by simp
  qed simp
  from this[of 0] assms(2) show "mp_val r' + mp_val a * unat b = mp_val r + BASE ^ length a * unat h" "length r' = length a"
    by (simp_all add: mp_sub_mul1_def)
qed

text \<open>Before round \<open>i\<close> of the product, the first \<open>i + n\<close> limbs hold the product by the limbs read so far.\<close>

lemma mp_mul_loop_val:
  assumes "length res = length op1 + i + length op2"
  obtains res' where "mp_mul_loop op2 op1 i res = Some res'" and "length res' = length res"
    and "mp_val res' = mp_val (take (i + length op1) res) + BASE ^ i * (mp_val op1 * mp_val op2)"
proof -
  have "\<exists>res'. mp_mul_loop op2 op1 i res = Some res' \<and> length res' = length res \<and>
      mp_val res' = mp_val (take (i + length op1) res) + BASE ^ i * (mp_val op1 * mp_val op2)"
    using assms
  proof (induction op2 arbitrary: i res)
    case Nil
    then show ?case by simp
  next
    case (Cons b op2)
    let ?n = "length op1"
    define w where "w = take ?n (drop i res)"
    have w: "length w = ?n" using Cons.prems by (simp add: w_def)
    obtain w' h where m: "mp_add_mul1 w op1 b = (w', h)" by (cases "mp_add_mul1 w op1 b")
    note v = mp_add_mul1_val[OF w m]
    define res1 where "res1 = take i res @ w' @ [h] @ drop (i + ?n + 1) res"
    have l1: "length res1 = length op1 + (i + 1) + length op2" using Cons.prems v(2) by (simp add: res1_def)
    have rd: "mem_read res i ?n = Some w" using Cons.prems by (simp add: w_def)
    have wr: "mem_write res i w' = Some (take i res @ w' @ drop (i + ?n) res)"
      using Cons.prems v(2) by simp
    have st: "mem_set (take i res @ w' @ drop (i + ?n) res) (i + ?n) h = Some res1"
      using Cons.prems v(2) by (simp add: res1_def list_update_append upd_conv_take_nth_drop)
    have step: "mp_mul_loop (b # op2) op1 i res = mp_mul_loop op2 op1 (i + 1) res1"
      by (simp del: mem_get_Some mem_set_Some mem_read_Some mem_write_Some add: rd m wr st)
    have "mp_val (take (i + 1 + ?n) res1) = mp_val (take i res) + BASE ^ i * (mp_val w' + BASE ^ ?n * unat h)"
      using Cons.prems v(2) by (simp add: res1_def mp_val_append)
    also have "\<dots> = mp_val (take i res @ w) + BASE ^ i * (mp_val op1 * unat b)"
      unfolding v(1) using Cons.prems by (simp add: mp_val_append algebra_simps)
    also have "take i res @ w = take (i + ?n) res" by (simp add: w_def take_add)
    finally have low: "mp_val (take (i + 1 + ?n) res1) = mp_val (take (i + ?n) res) + BASE ^ i * (mp_val op1 * unat b)" .
    from Cons.IH[OF l1] obtain res' where "mp_mul_loop op2 op1 (i + 1) res1 = Some res'" "length res' = length res1"
      "mp_val res' = mp_val (take (i + 1 + ?n) res1) + BASE ^ (i + 1) * (mp_val op1 * mp_val op2)" by blast
    then show ?case unfolding step low using l1 Cons.prems by (simp add: algebra_simps)
  qed
  with that show thesis by blast
qed

lemma mp_mul_basecase_val:
  assumes "length res = length op1 + length op2" and "op2 \<noteq> []"
  obtains r where "mp_mul_basecase res op1 op2 = Some r" and "length r = length res" and "mp_val r = mp_val op1 * mp_val op2"
proof -
  obtain b op2' where op2: "op2 = b # op2'" using assms(2) by (cases op2) auto
  obtain w h where m: "mp_mul1 op1 b 0 = (w, h)" by (cases "mp_mul1 op1 b 0")
  note v = mp_mul1_val[OF m]
  define res1 where "res1 = w @ [h] @ drop (length op1 + 1) res"
  have l1: "length res1 = length op1 + 1 + length op2'" using assms(1) v op2 by (simp add: res1_def)
  have "mp_mul_basecase res op1 op2 = mp_mul_loop op2' op1 1 res1"
    using assms(1) v op2 m
    by (simp add: mp_mul_basecase_def mem_get_def mem_write_def mem_set_def res1_def list_update_append
        upd_conv_take_nth_drop)
  with mp_mul_loop_val[OF l1] obtain r where
    r: "mp_mul_basecase res op1 op2 = Some r" "length r = length res1"
    "mp_val r = mp_val (take (1 + length op1) res1) + BASE ^ 1 * (mp_val op1 * mp_val op2')" by metis
  have "take (1 + length op1) res1 = w @ [h]" using v by (simp add: res1_def)
  then have "mp_val r = mp_val op1 * mp_val op2" using r(3) v op2 by (simp add: mp_val_append algebra_simps)
  then show thesis using that[OF r(1)] r(2) l1 assms(1) op2 by simp
qed

lemma unat_shift_limb:
  assumes "0 < s" and "s < 64"
  shows "unat (drop_bit s a OR push_bit (64 - s) (l :: limb)) * 2 ^ s + unat a mod 2 ^ s =
    unat a + BASE * (unat l mod 2 ^ s)"
proof -
  have B: "BASE = 2 ^ (64 - s) * 2 ^ s" using assms by (simp add: BASE_def power_add[symmetric])
  have low: "unat (drop_bit s a) < 2 ^ (64 - s)"
    unfolding unat_drop_bit using unat_limb[of a] by (intro less_mult_imp_div_less) (simp add: B)
  have high: "unat (push_bit (64 - s) l) = 2 ^ (64 - s) * (unat l mod 2 ^ s)"
  proof -
    have "unat (push_bit (64 - s) l) = take_bit 64 (push_bit (64 - s) (unat l))" by (simp add: unsigned_push_bit_eq)
    also have "\<dots> = push_bit (64 - s) (take_bit s (unat l))" using assms by (simp add: take_bit_push_bit)
    finally show ?thesis by (simp add: push_bit_eq_mult take_bit_eq_mod)
  qed
  have "unat (drop_bit s a OR push_bit (64 - s) l) = unat a div 2 ^ s + 2 ^ (64 - s) * (unat l mod 2 ^ s)"
    using unat_or_low[OF low, of "push_bit (64 - s) l"] by (simp add: high unat_drop_bit)
  then show ?thesis by (simp add: B algebra_simps)
qed

lemma mp_shr_val:
  assumes "mp_shr tab shift high = Some (r, c)"
  shows "mp_val r * 2 ^ nat shift + unat c = mp_val tab + BASE ^ length tab * (unat high mod 2 ^ nat shift)"
    and "length r = length tab" and "unat c < 2 ^ nat shift"
proof -
  define s where "s = nat shift"
  have mask: "push_bit n 1 - 1 = (mask n :: limb)" for n by (simp only: mask_eq_exp_minus_1 push_bit_eq_mult mult_1)
  obtain r0 l where r0: "mp_shr_loop tab s high = (r0, l)" by (cases "mp_shr_loop tab s high")
  have "shift \<ge> 1 \<and> shift < 64 \<and> (r0, l AND mask s) = (r, c)"
    using assms unfolding mp_shr_def s_def[symmetric] r0 mask Let_def case_prod_conv
    by (cases "shift \<ge> 1 \<and> shift < 64") (simp_all only: if_True if_False option.inject option.distinct simp_thms)
  then have r: "mp_shr_loop tab s high = (r, l)" and c: "c = l AND mask s" and s: "0 < s" "s < 64"
    using r0 by (auto simp: s_def nat_less_iff)
  have "mp_shr_loop tab s high = (r, l) \<Longrightarrow>
      mp_val r * 2 ^ s + unat l mod 2 ^ s = mp_val tab + BASE ^ length tab * (unat high mod 2 ^ s) \<and> length r = length tab"
  proof (induction tab arbitrary: r l)
    case (Cons a tab)
    obtain r' l' where r1: "mp_shr_loop tab s high = (r', l')" by (cases "mp_shr_loop tab s high")
    have r': "mp_shr_loop tab s high = (r', l')" "r = (drop_bit s a OR push_bit (64 - s) l') # r'" "l = a"
      using r1 Cons.prems unfolding mp_shr_loop.simps r1 Let_def case_prod_conv prod.inject by blast+
    note IH = Cons.IH[OF r'(1)]
    have "mp_val r * 2 ^ s + unat l mod 2 ^ s =
        (unat (drop_bit s a OR push_bit (64 - s) l') * 2 ^ s + unat a mod 2 ^ s) + BASE * (mp_val r' * 2 ^ s)"
      by (simp add: r'(2,3) algebra_simps)
    also have "\<dots> = unat a + BASE * (mp_val r' * 2 ^ s + unat l' mod 2 ^ s)"
      unfolding unat_shift_limb[OF s] by (simp add: algebra_simps)
    also have "\<dots> = mp_val (a # tab) + BASE ^ length (a # tab) * (unat high mod 2 ^ s)"
      unfolding IH[THEN conjunct1] by (simp add: algebra_simps)
    finally show ?case using IH r'(2) by simp
  qed simp
  with r c show "mp_val r * 2 ^ nat shift + unat c = mp_val tab + BASE ^ length tab * (unat high mod 2 ^ nat shift)"
    "length r = length tab" "unat c < 2 ^ nat shift"
    unfolding s_def[symmetric] by (simp_all add: unat_and_mask)
qed

section \<open>Properties\<close>

lemma mp_sub_loop_add:
  assumes "length a = length b" and "unat k \<le> 1" and "mp_add a b k = (r, c)"
  shows "mp_sub_loop r b k = (a, c)"
proof -
  note A = mp_add_val[OF assms]
  have len: "length r = length b" using A(2) assms(1) by simp
  obtain a' c' where s: "mp_sub_loop r b k = (a', c')" by (cases "mp_sub_loop r b k")
  note S = mp_sub_loop_val[OF len assms(2) s]
  have la: "length a' = length a" using S(2) A(2) by simp
  have eq: "mp_val a' + BASE ^ length a * unat c = mp_val a + BASE ^ length a * unat c'"
    using A(1) S(1) A(2) by simp
  have lt: "mp_val a < BASE ^ length a" "mp_val a' < BASE ^ length a"
    using mp_val_less[of a] mp_val_less[of a'] la by simp_all
  have "(unat c = 0 \<or> unat c = 1) \<and> (unat c' = 0 \<or> unat c' = 1)" using A(3) S(3) by linarith
  then have "mp_val a' = mp_val a \<and> unat c' = unat c" using eq lt by (elim conjE disjE) simp_all
  then show ?thesis using s mp_val_inject[OF la] by (simp add: word_unat_eq_iff)
qed

text \<open>
  C27. Addition and subtraction of limb arrays are inverse: \<open>mp_add\<close> computes the sum of its operands
  and the carry, with the carry out as the digit above the result, and \<open>mp_sub\<close> of the result and
  the second operand, with the same carry in, gives the first operand back and the same carry out.
\<close>
theorem mp_add_sub_inverse:
  assumes "length a = length b" and "length b < 2 ^ 31" and "unat k \<le> 1" and "mp_add a b k = (r, c)"
  shows "mp_val r + BASE ^ length a * unat c = mp_val a + mp_val b + unat k \<and> mp_sub r b k = Some (a, c)"
  using mp_add_val(1)[OF assms(1,3,4)] mp_sub_loop_add[OF assms(1,3,4)] assms(2) by (simp add: mp_sub_def)

theorem mp_add_sub_inverse_witness:
  "mp_add [- 1, 5] [2, - 3] 1 = ([2, 3], 1) \<and> mp_sub [2, 3] [2, - 3] 1 = Some ([- 1, 5], 1)"
proof -
  have add: "mp_add [- 1, 5] [2, - 3] 1 = ([2, 3], 1)" by code_simp
  from mp_add_sub_inverse[OF _ _ _ add] show ?thesis using add by simp
qed

text \<open>
  C26. The schoolbook product is the product: for a result of the size of both operands together and
  a second operand of at least one limb, \<open>mp_mul_basecase\<close> stays within its arrays, fills the
  whole result whatever it held before, and the value of the result is the product of the values.
\<close>
theorem mp_mul_basecase_product:
  assumes "length res = length op1 + length op2" and "op2 \<noteq> []"
  shows "\<exists>r. mp_mul_basecase res op1 op2 = Some r \<and> length r = length res \<and> mp_val r = mp_val op1 * mp_val op2"
  using mp_mul_basecase_val[OF assms] by blast

theorem mp_mul_basecase_product_witness:
  "mp_mul_basecase [7, 7, 7, 7] [- 1, - 1] [- 1, 2] = Some [1, - 3, - 2, 2] \<and>
   mp_val [1, - 3, - 2, 2] = mp_val [- 1, - 1] * mp_val [- 1, 2]"
proof -
  have run: "mp_mul_basecase [7, 7, 7, 7] [- 1, - 1] [- 1, 2] = Some [1, - 3, - 2, 2]" by code_simp
  from mp_mul_basecase_product[of "[7, 7, 7, 7]" "[- 1, - 1]" "[- 1, 2]"] show ?thesis using run by auto
qed

end
