(* ===== verification/Bf_Div.thy ===== *)
theory Bf_Div
  imports Bf_Limb
begin

text \<open>
  Division of \<open>libbf.c\<close>: a double limb by a normalized limb through its reciprocal (\<open>udiv1norm\<close>), an
  array by a limb, and the schoolbook division \<open>mp_divnorm\<close>.
\<close>

section \<open>Division by one limb\<close>

definition UDIV1NORM_THRESHOLD :: nat where "UDIV1NORM_THRESHOLD = 3"

definition dlimb_of :: "limb \<Rightarrow> limb \<Rightarrow> dlimb" where
  "dlimb_of hi lo = push_bit 64 (ucast hi) OR ucast lo"

definition udiv1norm_init :: "limb \<Rightarrow> limb option" where
  "udiv1norm_init d =
     (if d = 0 then None else Some (ucast (dlimb_of (- d - 1) (- 1) div ucast d)))"

text \<open>The quotient and the remainder.\<close>

definition udiv1norm :: "limb \<Rightarrow> limb \<Rightarrow> limb \<Rightarrow> limb \<Rightarrow> limb \<times> limb" where
  "udiv1norm a1 a0 d d_inv =
     (let n1m = signed_drop_bit 63 a0;
          n_adj = a0 + (n1m AND d);
          a = (ucast d_inv :: dlimb) * ucast (a1 - n1m) + ucast n_adj;
          q = ucast (drop_bit 64 a) + a1;
          a = dlimb_of a1 a0;
          a = a - ucast q * ucast d - ucast d;
          ah = ucast (drop_bit 64 a);
          q = q + (1 + ah);
          r = ucast a + (ah AND d)
      in (q, r))"

definition dlimb_div :: "limb \<Rightarrow> limb \<Rightarrow> limb \<Rightarrow> (limb \<times> limb) option" where
  "dlimb_div a1 a0 b =
     (if b = 0 then None
      else let a = dlimb_of a1 a0 in Some (ucast (a div ucast b), ucast (a mod ucast b)))"

text \<open>
  Both loops of \<open>mp_div1norm\<close>, from the most significant limb down; \<open>step r a\<close> divides
  \<open>r * 2^64 + a\<close>.
\<close>

primrec div1_loop :: "(limb \<Rightarrow> limb \<Rightarrow> (limb \<times> limb) option) \<Rightarrow> limb list \<Rightarrow> limb \<Rightarrow> (limb list \<times> limb) option" where
  "div1_loop step [] r = Some ([], r)"
| "div1_loop step (a # taba) r =
     do {
       (qs, r) \<leftarrow> div1_loop step taba r;
       (q, r) \<leftarrow> step r a;
       Some (q # qs, r)
     }"

definition mp_div1norm :: "limb list \<Rightarrow> limb \<Rightarrow> limb \<Rightarrow> (limb list \<times> limb) option" where
  "mp_div1norm taba b r =
     (if length taba \<ge> UDIV1NORM_THRESHOLD then do {
        b_inv \<leftarrow> udiv1norm_init b;
        div1_loop (\<lambda>r a. Some (udiv1norm r a b b_inv)) taba r
      }
      else div1_loop (\<lambda>r a. dlimb_div r a b) taba r)"

lemma unat_down: "unat (ucast (x :: dlimb) :: limb) = unat x mod BASE"
  by (simp only: unsigned_ucast_eq take_bit_eq_mod) (simp add: BASE_def)

lemma unat_limb_max: "unat (- 1 :: limb) = BASE - 1"
  by (simp add: unsigned_minus_1_eq_mask mask_eq_exp_minus_1 BASE_def)

lemma unat_limb_0: "unat (x :: limb) = 0 \<longleftrightarrow> x = 0"
  by (metis unsigned_0 word_unat_eq_iff)

lemma unat_limb_add: "unat (x + y :: limb) = (unat x + unat y) mod BASE"
  by (simp add: unat_word_ariths BASE_def)

lemma unat_dlimb_of: "unat (dlimb_of hi lo) = BASE * unat hi + unat lo"
proof -
  have "BASE * unat hi < 2 ^ 128" using unat_limb[of hi] by (simp add: BASE_def)
  then have "unat (push_bit 64 (ucast hi :: dlimb)) = BASE * unat hi"
    by (simp only: unsigned_push_bit_eq unat_ucast_limb)
       (simp add: push_bit_eq_mult take_bit_nat_eq_self BASE_def mult.commute)
  then show ?thesis
    using unat_or_high[of "ucast lo :: dlimb" 64 "push_bit 64 (ucast hi)"] unat_limb[of lo]
    by (simp add: dlimb_of_def unat_ucast_limb BASE_def)
qed

locale limb_division =
  fixes step :: "limb \<Rightarrow> limb \<Rightarrow> (limb \<times> limb) option" and d :: limb
  assumes step_correct: "r < d \<Longrightarrow>
    \<exists>q r'. step r a = Some (q, r') \<and> BASE * unat r + unat a = unat q * unat d + unat r' \<and> r' < d"
begin

lemma loop_correct:
  assumes "r < d"
  shows "\<exists>q r'. div1_loop step tab r = Some (q, r') \<and> length q = length tab \<and> r' < d \<and>
    mp_val tab + BASE ^ length tab * unat r = mp_val q * unat d + unat r'"
proof (induction tab)
  case (Cons a tab)
  then obtain q r1 where IH: "div1_loop step tab r = Some (q, r1)" "length q = length tab" "r1 < d"
    "mp_val tab + BASE ^ length tab * unat r = mp_val q * unat d + unat r1" by blast
  from step_correct[OF IH(3), of a] obtain x r2 where
    s: "step r1 a = Some (x, r2)" "BASE * unat r1 + unat a = unat x * unat d + unat r2" "r2 < d" by blast
  have "mp_val (a # tab) + BASE ^ length (a # tab) * unat r = unat a + BASE * (mp_val tab + BASE ^ length tab * unat r)"
    by (simp add: algebra_simps)
  also have "\<dots> = (BASE * unat r1 + unat a) + BASE * (mp_val q * unat d)" unfolding IH(4) by (simp add: algebra_simps)
  also have "\<dots> = mp_val (x # q) * unat d + unat r2" unfolding s(2) by (simp add: algebra_simps)
  finally show ?case using IH s by simp
qed (use assms in simp)

end

lemma dlimb_div_correct:
  assumes "r < d"
  shows "\<exists>q r'. dlimb_div r a d = Some (q, r') \<and> BASE * unat r + unat a = unat q * unat d + unat r' \<and> r' < d"
proof -
  let ?n = "BASE * unat r + unat a"
  have d: "0 < unat d" "d \<noteq> 0" "unat r < unat d" using assms by (auto simp: word_less_nat_alt)
  have "?n < BASE * (unat r + 1)" using unat_limb[of a] by simp
  also have "\<dots> \<le> BASE * unat d" using d by (intro mult_le_mono2) simp
  finally have n: "?n div unat d < BASE" by (intro less_mult_imp_div_less) (simp add: mult.commute)
  have m: "?n mod unat d < BASE" using d(1) unat_limb[of d] by (intro order_less_trans[OF mod_less_divisor])
  have q: "unat (ucast (dlimb_of r a div ucast d) :: limb) = ?n div unat d"
    using n by (simp add: unat_down unat_div unat_dlimb_of unat_ucast_limb)
  have r: "unat (ucast (dlimb_of r a mod ucast d) :: limb) = ?n mod unat d"
    using m by (simp add: unat_down unat_mod unat_dlimb_of unat_ucast_limb)
  show ?thesis using d by (simp add: dlimb_div_def Let_def q r word_less_nat_alt)
qed

interpretation plain: limb_division "\<lambda>r a. dlimb_div r a d" d for d
  by unfold_locales (rule dlimb_div_correct)

text \<open>
  The estimate of \<open>udiv1norm\<close>, with \<open>h\<close> the top bit of \<open>a0\<close>: from the truncated reciprocal \<open>m\<close> of
  \<open>d\<close> comes a quotient that is exact or one too small.
\<close>

lemma udiv_estimate:
  fixes B d m k a1 a0 h :: int
  assumes B: "0 < B" and d: "B \<le> 2 * d" "d < B" and a: "0 \<le> a1" "a1 < d" "0 \<le> a0" "a0 < B"
    and h: "h = 0 \<and> 2 * a0 < B \<or> h = 1 \<and> B \<le> 2 * a0"
    and m: "d * m = B * B - k - d * B" and k: "1 \<le> k" "k \<le> d"
  defines "X \<equiv> m * (a1 + h) + (a0 + h * (d - B))"
  defines "q \<equiv> a1 + X div B"
  shows "d * q \<le> a1 * B + a0" and "a1 * B + a0 < d * q + 2 * d"
proof -
  have X: "B * (X div B) \<le> X" "X < B * (X div B) + B"
    using pos_mod_sign[OF B, of X] pos_mod_bound[OF B, of X] mult_div_mod_eq[of B X] by linarith+
  have dX: "d * X = (B * B - k - d * B) * (a1 + h) + d * (a0 + h * (d - B))"
    unfolding X_def m[symmetric] by (simp add: algebra_simps)
  have ka: "0 \<le> k * a1" "k * (a1 + 1) \<le> d * d" using k a by (simp, intro mult_mono, auto)
  obtain P where P: "P = d * (B * (X div B))" by blast
  have lo: "P \<le> d * X" and hi: "d * X < P + d * B"
    using X d B unfolding P by (auto intro: mult_left_mono simp flip: distrib_left intro: mult_strict_left_mono)
  have Bq: "B * (d * q) = d * B * a1 + P" unfolding P q_def by (simp add: algebra_simps)
  have dB: "0 \<le> (B - d) * a0" using d a by simp
  consider (low) "h = 0" "2 * a0 < B"
      "d * X = a1 * (B * B) - k * a1 - d * B * a1 + d * a0"
    | (high) "h = 1" "B \<le> 2 * a0"
      "d * X = a1 * (B * B) + B * B - k * a1 - k - d * B * a1 - d * B + d * a0 + d * d - d * B"
    using h unfolding dX by (auto simp: algebra_simps)
  note cases = this
  from cases have "B * (d * q) \<le> B * (a1 * B + a0)"
  proof cases
    case low
    then show ?thesis using lo ka(1) dB unfolding Bq by (simp add: algebra_simps)
  next
    case high
    have "(B - d) * (B - d) \<le> a0 * (B - d)" using high(2) d by (intro mult_right_mono) auto
    then show ?thesis using lo ka(1) k high(3) unfolding Bq by (simp add: algebra_simps)
  qed
  then show "d * q \<le> a1 * B + a0" using B by simp
  from cases have "B * (a1 * B + a0) < B * (d * q) + B * (2 * d)"
  proof cases
    case low
    have "a0 * (B - d) \<le> d * (B - d)" using low(2) d by (intro mult_right_mono) auto
    then show ?thesis using hi ka(2) k d low(3) B unfolding Bq by (simp add: algebra_simps)
  next
    case high
    have "a0 * (B - d) \<le> B * (B - d)" using a d by (intro mult_right_mono) auto
    then show ?thesis using hi ka(2) k d high(3) B unfolding Bq by (simp add: algebra_simps)
  qed
  then show "a1 * B + a0 < d * q + 2 * d" using B by (simp flip: distrib_left)
qed

lemma udiv1norm_init_val:
  assumes "BASE \<le> 2 * unat d"
  obtains m where "udiv1norm_init d = Some m" and "unat d * unat m + unat d * BASE < BASE * BASE"
    and "BASE * BASE \<le> unat d * unat m + unat d * BASE + unat d"
proof -
  have d: "unat d < BASE" "0 < unat d" "d \<noteq> 0" using assms unat_limb[of d] by auto
  let ?n = "BASE * (BASE - 1 - unat d) + (BASE - 1)"
  define m where "m = (ucast (dlimb_of (- d - 1) (- 1) div ucast d) :: limb)"
  have "- d - 1 = (- 1) - d" by simp
  then have "unat (- d - 1) = BASE - 1 - unat d"
    using d by (simp only: unat_sub_if') (simp add: unat_limb_max BASE_def)
  then have n: "unat (dlimb_of (- d - 1) (- 1)) = ?n"
    by (simp add: unat_dlimb_of unat_limb_max BASE_def)
  have N: "?n + unat d * BASE + 1 = BASE * BASE"
  proof -
    have "BASE - 1 - unat d + unat d + 1 = BASE" using d by simp
    then have "BASE * (BASE - 1 - unat d) + BASE * unat d + BASE = BASE * BASE"
      by (metis add_mult_distrib2 mult.right_neutral)
    then show ?thesis using d by (simp add: mult.commute)
  qed
  have "BASE * BASE \<le> BASE * (2 * unat d)" using assms by (rule mult_le_mono2)
  moreover have "BASE * (2 * unat d) = unat d * BASE + BASE * unat d" by simp
  ultimately have "?n < BASE * unat d" using N by linarith
  then have "?n div unat d < BASE" by (rule less_mult_imp_div_less)
  then have m: "unat m = ?n div unat d" by (simp only: m_def unat_down unat_div n unat_ucast_limb mod_less)
  have "unat d * unat m + ?n mod unat d = ?n" by (simp add: m)
  moreover have "?n mod unat d < unat d" using d by simp
  ultimately have "unat d * unat m + unat d * BASE < BASE * BASE"
    "BASE * BASE \<le> unat d * unat m + unat d * BASE + unat d" using N by linarith+
  then show thesis using that[of m] d by (simp add: udiv1norm_init_def m_def)
qed

lemma sign_fill: "signed_drop_bit 63 (a :: limb) = (if 2 ^ 63 \<le> unat a then - 1 else 0)"
proof -
  have "bit a 63 \<longleftrightarrow> 2 ^ 63 \<le> unat a"
  proof -
    have "unat a div 2 ^ 63 < 2" using unat_limb[of a] by (intro less_mult_imp_div_less) (simp add: BASE_def)
    then have "odd (unat a div 2 ^ 63) \<longleftrightarrow> unat a div 2 ^ 63 = 1" by (auto simp: less_2_cases_iff)
    also have "\<dots> \<longleftrightarrow> 2 ^ 63 \<le> unat a" using \<open>unat a div 2 ^ 63 < 2\<close> by (simp add: div_eq_dividend_iff) linarith
    finally have "odd (unat a div 2 ^ 63) \<longleftrightarrow> 2 ^ 63 \<le> unat a" .
    moreover have "bit a 63 \<longleftrightarrow> bit (unat a) 63" by (simp add: bit_unsigned_iff)
    ultimately show ?thesis by (simp only: bit_iff_odd)
  qed
  moreover have "signed_drop_bit 63 a = (if bit a 63 then - 1 else 0)"
  proof (rule bit_eqI)
    fix n assume "possible_bit TYPE(limb) n"
    then show "bit (signed_drop_bit 63 a) n \<longleftrightarrow> bit (if bit a 63 then - 1 else 0 :: limb) n"
      by (cases n) (auto simp: bit_signed_drop_bit_iff)
  qed
  ultimately show ?thesis by simp
qed

lemma unat_hi: "unat (ucast (drop_bit 64 (t :: dlimb)) :: limb) = unat t div BASE"
proof -
  have "unat (drop_bit 64 t) = unat t div BASE" by (simp only: unat_drop_bit BASE_def)
  moreover have "unat t div BASE < BASE" using unat_dlimb[of t] by (intro less_mult_imp_div_less)
  ultimately show ?thesis by (simp add: unat_down)
qed

text \<open>The step that corrects an estimate \<open>q\<close> of the quotient.\<close>

lemma udiv_correct_step:
  fixes n :: dlimb and q d :: limb
  assumes lo: "unat q * unat d \<le> unat n" and hi: "unat n < unat q * unat d + 2 * unat d"
    and n: "unat n < BASE * unat d"
  defines "t \<equiv> n - ucast q * ucast d - ucast d"
  defines "ah \<equiv> ucast (drop_bit 64 t) :: limb"
  shows "unat n = unat (q + (1 + ah)) * unat d + unat (ucast t + (ah AND d) :: limb)"
    and "ucast t + (ah AND d) < d"
proof -
  have d: "unat d < BASE" "0 < unat d" using unat_limb[of d] hi lo by auto
  have qd: "unat (ucast q * ucast d :: dlimb) = unat q * unat d" using unat_madd[of q d 0 0] by simp
  then have n1: "unat (n - ucast q * ucast d) = unat n - unat q * unat d" using lo by (simp add: unat_sub_if')
  have ud: "unat (ucast d :: dlimb) = unat d" by (rule unat_ucast_limb)
  have BB: "2 ^ LENGTH(128) = BASE * BASE" by (simp add: BASE_def)
  define e where "e = unat n - unat q * unat d"
  have e: "unat n = unat q * unat d + e" "e < 2 * unat d" using lo hi by (simp_all add: e_def)
  have "unat n = unat (q + (1 + ah)) * unat d + unat (ucast t + (ah AND d) :: limb) \<and> ucast t + (ah AND d) < d"
  proof (cases "unat d \<le> e")
    case True
    have t: "unat t = e - unat d" unfolding t_def using True n1 ud by (simp add: unat_sub_if' e_def)
    then have "unat t < BASE" using e d by simp
    then have "unat t div BASE = 0" and lo_t: "unat (ucast t :: limb) = e - unat d"
      unfolding unat_down t by simp_all
    then have "unat ah = 0" by (simp only: ah_def unat_hi)
    then have ah: "ah = 0" by (simp only: unat_limb_0)
    have "(unat q + 1) * unat d < BASE * unat d" using n True e by simp
    then have "unat q + 1 < BASE" using mult_less_cancel2 by blast
    then have "unat (q + 1) = unat q + 1" by (simp add: unat_word_ariths BASE_def)
    then show ?thesis using e True ah lo_t by (simp add: word_less_nat_alt)
  next
    case False
    have t: "unat t = BASE * BASE + e - unat d" unfolding t_def using False n1 ud
      by (simp add: unat_sub_if' e_def BB[symmetric])
    also have "\<dots> = BASE * (BASE - 1) + (BASE + e - unat d)" using d by (simp add: BASE_def)
    finally have t': "unat t = BASE * (BASE - 1) + (BASE + e - unat d)" .
    have small: "BASE + e - unat d < BASE" using False d by simp
    have "unat ah = BASE - 1" unfolding ah_def unat_hi t' using small by simp
    then have ah: "ah = - 1" by (simp add: word_unat_eq_iff unat_limb_max BASE_def)
    have "unat (ucast t :: limb) = BASE + e - unat d" unfolding unat_down t' using small by simp
    then have "unat (ucast t + d :: limb) = (BASE + e) mod BASE" using d by (simp add: unat_word_ariths BASE_def)
    also have "\<dots> = e" using False d by simp
    finally have "unat (ucast t + d :: limb) = e" .
    then show ?thesis using e False ah by (simp add: word_less_nat_alt)
  qed
  then show "unat n = unat (q + (1 + ah)) * unat d + unat (ucast t + (ah AND d) :: limb)"
    and "ucast t + (ah AND d) < d" by blast+
qed

lemma udiv1norm_correct:
  assumes d: "BASE \<le> 2 * unat d" and a1: "a1 < d" and init: "udiv1norm_init d = Some d_inv"
    and r: "udiv1norm a1 a0 d d_inv = (q, r)"
  shows "BASE * unat a1 + unat a0 = unat q * unat d + unat r" and "r < d"
proof -
  define n1m where "n1m = signed_drop_bit 63 a0"
  define n_adj where "n_adj = a0 + (n1m AND d)"
  define a where "a = (ucast d_inv :: dlimb) * ucast (a1 - n1m) + ucast n_adj"
  define q1 where "q1 = ucast (drop_bit 64 a) + a1"
  define n where "n = dlimb_of a1 a0"
  define h :: nat where "h = (if 2 ^ 63 \<le> unat a0 then 1 else 0)"
  define X where "X = int (unat d_inv) * (int (unat a1) + int h) + (int (unat a0) + int h * (int (unat d) - int BASE))"
  have lt: "unat d < BASE" "unat a0 < BASE" "unat a1 < unat d"
    using a1 unat_limb by (simp_all add: word_less_nat_alt)
  from udiv1norm_init_val[OF d] init have
    m: "unat d * unat d_inv + unat d * BASE < BASE * BASE" "BASE * BASE \<le> unat d * unat d_inv + unat d * BASE + unat d"
    by auto
  define k where "k = int (BASE * BASE) - int (unat d * unat d_inv + unat d * BASE)"
  have k: "1 \<le> k" "k \<le> int (unat d)" using m unfolding k_def by linarith+
  have k': "int (unat d) * int (unat d_inv) = int BASE * int BASE - k - int (unat d) * int BASE" by (simp add: k_def)
  have "h = 0 \<and> 2 * unat a0 < BASE \<or> h = 1 \<and> BASE \<le> 2 * unat a0" by (simp add: h_def BASE_def)
  then have hh: "int h = 0 \<and> 2 * int (unat a0) < int BASE \<or> int h = 1 \<and> int BASE \<le> 2 * int (unat a0)"
    by presburger
  have I: "0 < int BASE" "int BASE \<le> 2 * int (unat d)" "int (unat d) < int BASE" "0 \<le> int (unat a1)"
    "int (unat a1) < int (unat d)" "0 \<le> int (unat a0)" "int (unat a0) < int BASE"
    using d lt BASE_pos(1) by linarith+
  have "unat (a1 - n1m) = unat a1 + h"
    using lt by (simp add: n1m_def sign_fill h_def unat_word_ariths BASE_def)
  moreover have adj: "int (unat n_adj) = int (unat a0) + int h * (int (unat d) - int BASE)"
    using lt d by (auto simp: n_adj_def n1m_def sign_fill h_def unat_word_ariths BASE_def mod_if)
  moreover have "unat a = unat d_inv * unat (a1 - n1m) + unat n_adj"
    unfolding a_def using unat_madd[of d_inv "a1 - n1m" n_adj 0] by simp
  ultimately have a: "int (unat a) = X" by (simp add: X_def)
  have bounds: "int (unat d) * (int (unat a1) + X div int BASE) \<le> int (unat a1) * int BASE + int (unat a0)"
    "int (unat a1) * int BASE + int (unat a0) < int (unat d) * (int (unat a1) + X div int BASE) + 2 * int (unat d)"
    using udiv_estimate[OF I hh k' k] unfolding X_def by blast+
  have n: "unat n = BASE * unat a1 + unat a0" by (simp add: n_def unat_dlimb_of)
  have "unat n < BASE * (unat a1 + 1)" using lt n by simp
  also have "\<dots> \<le> BASE * unat d" using lt by (intro mult_le_mono2) simp
  finally have nd: "unat n < BASE * unat d" .
  have hi: "X div int BASE = int (unat a div BASE)" by (simp add: a[symmetric] zdiv_int)
  define Q where "Q = unat a1 + unat a div BASE"
  have "int (unat d * Q) \<le> int (unat n)" "int (unat n) < int (unat d * Q + 2 * unat d)"
    using bounds unfolding hi n Q_def of_nat_add of_nat_mult of_nat_numeral by (simp_all only: mult.commute)
  then have Q: "unat d * Q \<le> unat n" "unat n < unat d * Q + 2 * unat d" by presburger+
  then have "unat d * Q < unat d * BASE" using nd by (simp only: mult.commute)
  then have "Q < BASE" using mult_less_cancel1 by blast
  then have q1: "unat q1 = Q"
    unfolding q1_def unat_limb_add unat_hi Q_def by (simp only: add.commute mod_less)
  have est1: "unat q1 * unat d \<le> unat n" "unat n < unat q1 * unat d + 2 * unat d"
    using Q unfolding q1 by (simp_all only: mult.commute)
  have "udiv1norm a1 a0 d d_inv = (let t = n - ucast q1 * ucast d - ucast d; ah = ucast (drop_bit 64 t)
      in (q1 + (1 + ah), ucast t + (ah AND d)))"
    unfolding udiv1norm_def Let_def n1m_def n_adj_def a_def q1_def n_def ..
  then have qr: "q = q1 + (1 + ucast (drop_bit 64 (n - ucast q1 * ucast d - ucast d)))"
    "r = ucast (n - ucast q1 * ucast d - ucast d) + (ucast (drop_bit 64 (n - ucast q1 * ucast d - ucast d)) AND d)"
    unfolding Let_def r prod.inject by blast+
  show "BASE * unat a1 + unat a0 = unat q * unat d + unat r" and "r < d"
    using udiv_correct_step[OF est1 nd] unfolding qr n by blast+
qed

lemma reciprocal_division:
  assumes "BASE \<le> 2 * unat d" and "udiv1norm_init d = Some d_inv"
  shows "limb_division (\<lambda>r a. Some (udiv1norm r a d d_inv)) d"
proof
  fix r a assume "r < d"
  obtain q r' where "udiv1norm r a d d_inv = (q, r')" by (cases "udiv1norm r a d d_inv")
  with udiv1norm_correct[OF assms(1) \<open>r < d\<close> assms(2)] show
    "\<exists>q r'. Some (udiv1norm r a d d_inv) = Some (q, r') \<and> BASE * unat r + unat a = unat q * unat d + unat r' \<and> r' < d"
    by blast
qed

lemma mp_div1norm_correct:
  assumes "BASE \<le> 2 * unat b" and "r < b"
  obtains q r' where "mp_div1norm a b r = Some (q, r')" and "length q = length a" and "r' < b"
    and "mp_val a + BASE ^ length a * unat r = mp_val q * unat b + unat r'"
proof (cases "length a \<ge> UDIV1NORM_THRESHOLD")
  case True
  obtain m where m: "udiv1norm_init b = Some m" using udiv1norm_init_val[OF assms(1)] by blast
  from limb_division.loop_correct[OF reciprocal_division[OF assms(1) m] assms(2), of a] that True m
  show thesis by (auto simp: mp_div1norm_def)
next
  case False
  from plain.loop_correct[OF assms(2), of a] that False show thesis by (auto simp: mp_div1norm_def)
qed

section \<open>Schoolbook division\<close>

definition DIVNORM_LARGE_THRESHOLD :: nat where "DIVNORM_LARGE_THRESHOLD = 50"

text \<open>The comparison of the first iteration, from the most significant limb down.\<close>

primrec divnorm_first :: "limb list \<Rightarrow> limb list \<Rightarrow> nat \<Rightarrow> nat \<Rightarrow> limb option" where
  "divnorm_first taba tabb n 0 = Some 1"
| "divnorm_first taba tabb n (Suc j) =
     do {
       x \<leftarrow> mem_get taba (n + j);
       y \<leftarrow> mem_get tabb j;
       if x \<noteq> y then Some (if x < y then 0 else 1) else divnorm_first taba tabb n j
     }"

definition divnorm_guess :: "limb list \<Rightarrow> nat \<Rightarrow> nat \<Rightarrow> limb \<Rightarrow> limb \<Rightarrow> limb option" where
  "divnorm_guess taba nb i b1 b1_inv =
     do {
       hi \<leftarrow> mem_get taba (i + nb);
       if hi \<ge> b1 then Some (- 1)
       else do {
         lo \<leftarrow> mem_get taba (i + nb - 1);
         if b1_inv \<noteq> 0 then Some (fst (udiv1norm hi lo b1 b1_inv))
         else do { (q, r) \<leftarrow> dlimb_div hi lo b1; Some q }
       }
     }"

text \<open>The loop that adds the divisor back until the remainder is no longer negative.\<close>

partial_function (option) divnorm_fix ::
  "limb list \<Rightarrow> limb list \<Rightarrow> nat \<Rightarrow> limb \<Rightarrow> (limb list \<times> limb) option" where
  [code]: "divnorm_fix taba tabb i q =
     do {
       w \<leftarrow> mem_read taba i (length tabb);
       taba \<leftarrow> mem_write taba i (fst (mp_add w tabb 0));
       if snd (mp_add w tabb 0) \<noteq> 0 then do {
         v \<leftarrow> mem_get taba (i + length tabb);
         taba \<leftarrow> mem_set taba (i + length tabb) (v + 1);
         if v + 1 = 0 then Some (taba, q - 1) else divnorm_fix taba tabb i (q - 1)
       }
       else divnorm_fix taba tabb i (q - 1)
     }"

definition divnorm_step :: "limb list \<Rightarrow> limb list \<Rightarrow> nat \<Rightarrow> limb \<Rightarrow> limb \<Rightarrow> (limb list \<times> limb) option" where
  "divnorm_step taba tabb i b1 b1_inv =
     do {
       q \<leftarrow> divnorm_guess taba (length tabb) i b1 b1_inv;
       w \<leftarrow> mem_read taba i (length tabb);
       let (w, r) = mp_sub_mul1 w tabb q;
       taba \<leftarrow> mem_write taba i w;
       v \<leftarrow> mem_get taba (i + length tabb);
       let a = v - r;
       taba \<leftarrow> mem_set taba (i + length tabb) a;
       if a > v then divnorm_fix taba tabb i q else Some (taba, q)
     }"

primrec divnorm_loop ::
  "nat \<Rightarrow> limb list \<Rightarrow> limb list \<Rightarrow> limb list \<Rightarrow> limb \<Rightarrow> limb \<Rightarrow> (limb list \<times> limb list) option" where
  "divnorm_loop 0 tabq taba tabb b1 b1_inv = Some (tabq, taba)"
| "divnorm_loop (Suc i) tabq taba tabb b1 b1_inv =
     do {
       (taba, q) \<leftarrow> divnorm_step taba tabb i b1 b1_inv;
       tabq \<leftarrow> mem_set tabq i q;
       divnorm_loop i tabq taba tabb b1 b1_inv
     }"

text \<open>
  \<open>large tabq taba tabb\<close> stands for \<open>mp_divnorm_large\<close>. The result is the return code with the new
  contents of \<open>tabq\<close> and \<open>taba\<close>.
\<close>

type_synonym divnorm_fun = "limb list \<Rightarrow> limb list \<Rightarrow> limb list \<Rightarrow> (int \<times> limb list \<times> limb list) option"

definition mp_divnorm :: "divnorm_fun \<Rightarrow> divnorm_fun" where
  "mp_divnorm large tabq taba tabb =
     (let na = length taba; nb = length tabb in
      if nb = 0 then None
      else do {
        b1 \<leftarrow> mem_get tabb (nb - 1);
        if nb = 1 then do {
          (q, r) \<leftarrow> mp_div1norm taba b1 0;
          tabq \<leftarrow> mem_write tabq 0 q;
          taba \<leftarrow> mem_set taba 0 r;
          Some (0, tabq, taba)
        }
        else do {
          let n = szt (na + (2 ^ 64 - nb));
          if min n nb \<ge> DIVNORM_LARGE_THRESHOLD then large tabq taba tabb
          else do {
            b1_inv \<leftarrow> (if n \<ge> UDIV1NORM_THRESHOLD then udiv1norm_init b1 else Some 0);
            q \<leftarrow> divnorm_first taba tabb n nb;
            tabq \<leftarrow> mem_set tabq n q;
            taba \<leftarrow> (if q \<noteq> 0 then do {
                w \<leftarrow> mem_read taba n nb;
                (w, c) \<leftarrow> mp_sub w tabb 0;
                mem_write taba n w
              } else Some taba);
            (tabq, taba) \<leftarrow> divnorm_loop n tabq taba tabb b1 b1_inv;
            Some (0, tabq, taba)
          }
        }
      })"

text \<open>The array as a window of the size of the divisor, the limb above it, and the rest.\<close>

lemma window_ops:
  assumes "length lo = i" and "length w = nb"
  shows "mem_read (lo @ w @ hi) i nb = Some w"
    and "length w' = nb \<Longrightarrow> mem_write (lo @ w @ hi) i w' = Some (lo @ w' @ hi)"
    and "mem_get (lo @ w @ v # hi') (i + nb) = Some v"
    and "mem_set (lo @ w @ v # hi') (i + nb) v' = Some (lo @ w @ v' # hi')"
    and "0 < nb \<Longrightarrow> mem_get (lo @ w @ hi) (i + nb - 1) = Some (last w)"
proof -
  show "0 < nb \<Longrightarrow> mem_get (lo @ w @ hi) (i + nb - 1) = Some (last w)"
    using assms by (cases w rule: rev_cases) (auto simp: nth_append)
qed (use assms in \<open>simp_all add: nth_append list_update_append\<close>)

lemma window_less:
  fixes v :: limb
  assumes "length w = n"
  shows "mp_val w + BASE ^ n * unat v < BASE ^ (n + 1)"
proof -
  have "mp_val w + BASE ^ n * unat v = mp_val (w @ [v])" using assms by (simp add: mp_val_append)
  also have "\<dots> < BASE ^ (n + 1)" using mp_val_less[of "w @ [v]"] assms by simp
  finally show ?thesis .
qed

lemma divnorm_fix_correct:
  assumes "length lo = i" and "length w = length b"
    and "mp_val w + BASE ^ length b * unat v + unat q * mp_val b = W + BASE ^ (length b + 1)"
  shows "\<exists>w' v' q'. divnorm_fix (lo @ w @ v # hi) b i q = Some (lo @ w' @ v' # hi, q') \<and> length w' = length b \<and>
    W = unat q' * mp_val b + (mp_val w' + BASE ^ length b * unat v') \<and>
    mp_val w' + BASE ^ length b * unat v' < mp_val b"
  using assms(2,3)
proof (induction "unat q" arbitrary: q w v rule: less_induct)
  case less
  let ?nb = "length b" and ?V = "mp_val b"
  note win = window_less[OF less.prems(1), of v]
  have q: "unat q \<noteq> 0" using win less.prems(2) by (intro notI) simp
  then have "q \<noteq> 0" by (simp add: unat_limb_0)
  then have q1: "unat (q - 1) = unat q - 1" "unat (q - 1) < unat q" using q unat_minus_one[of q] by simp_all
  have qV: "unat q * ?V = unat (q - 1) * ?V + ?V" using q q1(1) by (cases "unat q") simp_all
  obtain w1 c where add: "mp_add w b 0 = (w1, c)" by (cases "mp_add w b 0")
  note A = mp_add_val[OF less.prems(1) _ add, simplified]
  note ops = window_ops[OF assms(1) less.prems(1)] window_ops[OF assms(1), of w1 ?nb]
  have unfold: "divnorm_fix (lo @ w @ v # hi) b i q =
      (if c \<noteq> 0 then if v + 1 = 0 then Some (lo @ w1 @ (v + 1) # hi, q - 1) else divnorm_fix (lo @ w1 @ (v + 1) # hi) b i (q - 1)
       else divnorm_fix (lo @ w1 @ v # hi) b i (q - 1))"
    using A(2) less.prems(1)
    by (subst divnorm_fix.simps) (simp add: ops add del: mem_get_Some mem_set_Some mem_read_Some mem_write_Some)
  have len: "length w1 = ?nb" using A(2) less.prems(1) by simp
  show ?case
  proof (cases "c = 0")
    case True
    have "mp_val w1 + BASE ^ ?nb * unat v + unat (q - 1) * ?V = W + BASE ^ (?nb + 1)"
      using less.prems A(1) True qV by simp
    from less.hyps[OF q1(2) len this] True show ?thesis by (simp add: unfold)
  next
    case False
    then have "unat c \<noteq> 0" by (simp only: unat_limb_0 simp_thms)
    then have c: "unat c = 1" using A(3) by simp
    show ?thesis
    proof (cases "v + 1 = 0")
      case True
      then have "v = - 1" by (simp add: eq_neg_iff_add_eq_0)
      then have v: "unat v + 1 = BASE" by (simp add: unat_limb_max)
      have "BASE ^ ?nb * (unat v + 1) = BASE ^ (?nb + 1)" unfolding v by simp
      then have "mp_val w1 + unat (q - 1) * ?V = W" using less.prems A(1) c qV by simp
      moreover have "mp_val w1 < ?V"
        using A(1) c mp_val_less[of w] less.prems(1) by simp
      ultimately show ?thesis using False True len by (auto simp: unfold)
    next
      case nowrap: False
      then have v: "unat (v + 1) = unat v + 1" by (metis add.commute unatSuc Suc_eq_plus1)
      have "mp_val w1 + BASE ^ ?nb * unat (v + 1) + unat (q - 1) * ?V = W + BASE ^ (?nb + 1)"
        using less.prems A(1) c qV by (simp add: v)
      from less.hyps[OF q1(2) len this] False nowrap show ?thesis by (simp add: unfold)
    qed
  qed
qed

lemma mp_val_last:
  assumes "w \<noteq> []"
  shows "mp_val w = mp_val (butlast w) + BASE ^ (length w - 1) * unat (last w)"
    and "mp_val (butlast w) < BASE ^ (length w - 1)"
  using mp_val_append[of "butlast w" "[last w]"] mp_val_less[of "butlast w"] assms by simp_all

text \<open>The divisor is normalized and its reciprocal, when it is used, is the one of its top limb.\<close>

definition divisor_ok :: "limb list \<Rightarrow> limb \<Rightarrow> bool" where
  "divisor_ok b b1_inv \<longleftrightarrow>
     b \<noteq> [] \<and> BASE \<le> 2 * unat (last b) \<and> (b1_inv = 0 \<or> udiv1norm_init (last b) = Some b1_inv)"

lemma divnorm_guess_ge:
  assumes ok: "divisor_ok b b1_inv" and len: "length lo = i" "length w = length b"
    and W: "mp_val w + BASE ^ length b * unat v < BASE * mp_val b"
  obtains q where "divnorm_guess (lo @ w @ v # hi) (length b) i (last b) b1_inv = Some q"
    and "\<And>Q. Q * mp_val b \<le> mp_val w + BASE ^ length b * unat v \<Longrightarrow> Q \<le> unat q"
proof -
  have b: "b \<noteq> []" "w \<noteq> []" "0 < length b" using ok len(2) by (auto simp: divisor_ok_def)
  note ops = window_ops(3)[OF len] window_ops(5)[OF len b(3)] window_ops(5)[OF len b(3), unfolded One_nat_def]
  show thesis
  proof (cases "v \<ge> last b")
    case True
    have "Q \<le> unat (- 1 :: limb)" if "Q * mp_val b \<le> mp_val w + BASE ^ length b * unat v" for Q
    proof -
      have "Q * mp_val b < BASE * mp_val b" using that W by linarith
      then have "Q < BASE" using mult_less_cancel2 by blast
      then show ?thesis unfolding unat_limb_max by simp
    qed
    then show thesis using that[of "- 1"] True
      by (simp add: divnorm_guess_def ops del: mem_get_Some)
  next
    case False
    then have v: "v < last b" by simp
    have "\<exists>q r. (if b1_inv \<noteq> 0 then Some (fst (udiv1norm v (last w) (last b) b1_inv))
        else do { (q, r) \<leftarrow> dlimb_div v (last w) (last b); Some q }) = Some q \<and>
        BASE * unat v + unat (last w) = unat q * unat (last b) + unat r \<and> r < last b"
    proof (cases "b1_inv = 0")
      case True
      with dlimb_div_correct[OF v, of "last w"] show ?thesis by auto
    next
      case False
      then have init: "udiv1norm_init (last b) = Some b1_inv" "BASE \<le> 2 * unat (last b)"
        using ok by (auto simp: divisor_ok_def)
      obtain q r where "udiv1norm v (last w) (last b) b1_inv = (q, r)" by (cases "udiv1norm v (last w) (last b) b1_inv")
      with udiv1norm_correct[OF init(2) v init(1)] False show ?thesis by auto
    qed
    then obtain q r where g: "divnorm_guess (lo @ w @ v # hi) (length b) i (last b) b1_inv = Some q"
      and q: "BASE * unat v + unat (last w) = unat q * unat (last b) + unat r" "r < last b"
      using False by (auto simp: divnorm_guess_def ops simp del: mem_get_Some linorder_not_le)
    have "Q \<le> unat q" if Q: "Q * mp_val b \<le> mp_val w + BASE ^ length b * unat v" for Q
    proof -
      let ?P = "BASE ^ (length b - 1)"
      have P: "BASE ^ length b = ?P * BASE" using b(3) by (cases "length b") simp_all
      have "Q * (?P * unat (last b)) \<le> Q * mp_val b" using mp_val_last[OF b(1)] by (intro mult_le_mono2) simp
      also have "\<dots> \<le> mp_val (butlast w) + ?P * (BASE * unat v + unat (last w))"
        using Q mp_val_last(1)[OF b(2)] len(2) unfolding P by (simp add: algebra_simps)
      also have "\<dots> < ?P * (BASE * unat v + unat (last w) + 1)"
        using mp_val_last(2)[OF b(2)] len(2) by (simp add: algebra_simps)
      finally have "?P * (Q * unat (last b)) < ?P * (BASE * unat v + unat (last w) + 1)" by (simp only: mult.left_commute)
      then have "Q * unat (last b) < BASE * unat v + unat (last w) + 1" using mult_less_cancel1 by blast
      also have "\<dots> \<le> (unat q + 1) * unat (last b)" using q by (simp add: word_less_nat_alt)
      finally have "Q < unat q + 1" using mult_less_cancel2 by blast
      then show ?thesis by simp
    qed
    then show thesis using that[OF g] by blast
  qed
qed

lemma divnorm_step_correct:
  assumes ok: "divisor_ok b b1_inv" and len: "length lo = i" "length w = length b"
    and W: "mp_val w + BASE ^ length b * unat v < BASE * mp_val b"
  obtains w' v' q where "divnorm_step (lo @ w @ v # hi) b i (last b) b1_inv = Some (lo @ w' @ v' # hi, q)"
    and "length w' = length b" and "mp_val w' + BASE ^ length b * unat v' < mp_val b"
    and "mp_val w + BASE ^ length b * unat v = unat q * mp_val b + (mp_val w' + BASE ^ length b * unat v')"
proof -
  let ?nb = "length b" and ?V = "mp_val b" and ?W = "mp_val w + BASE ^ length b * unat v"
  from divnorm_guess_ge[OF assms] obtain q where
    g: "divnorm_guess (lo @ w @ v # hi) ?nb i (last b) b1_inv = Some q" and q: "\<And>Q. Q * ?V \<le> ?W \<Longrightarrow> Q \<le> unat q"
    by blast
  obtain w1 r where s: "mp_sub_mul1 w b q = (w1, r)" by (cases "mp_sub_mul1 w b q")
  note S = mp_sub_mul1_val[OF len(2) s]
  have l1: "length w1 = ?nb" using S len by simp
  note ops = window_ops[OF len] window_ops[OF len(1), of w1 ?nb]
  have step: "divnorm_step (lo @ w @ v # hi) b i (last b) b1_inv =
      (if v - r > v then divnorm_fix (lo @ w1 @ (v - r) # hi) b i q else Some (lo @ w1 @ (v - r) # hi, q))"
    using l1 by (simp add: divnorm_step_def g ops s del: mem_get_Some mem_set_Some mem_read_Some mem_write_Some)
  note br = sub_borrow[of v r]
  show thesis
  proof (cases "v - r > v")
    case True
    have "BASE ^ ?nb * (unat (v - r) + unat r) = BASE ^ ?nb * unat v + BASE ^ (?nb + 1)"
      using br True by (simp add: algebra_simps)
    then have "mp_val w1 + BASE ^ ?nb * unat (v - r) + unat q * ?V = ?W + BASE ^ (?nb + 1)"
      using S(1) by (simp add: algebra_simps)
    from divnorm_fix_correct[OF len(1) l1 this] that True show thesis unfolding step by auto
  next
    case False
    have "BASE ^ ?nb * (unat (v - r) + unat r) = BASE ^ ?nb * unat v" using br False by simp
    then have eq: "?W = unat q * ?V + (mp_val w1 + BASE ^ ?nb * unat (v - r))"
      using S(1) by (simp add: algebra_simps)
    have "mp_val w1 + BASE ^ ?nb * unat (v - r) < ?V"
    proof (rule ccontr)
      assume "\<not> ?thesis"
      then have "(unat q + 1) * ?V \<le> ?W" using eq by simp
      from q[OF this] show False by simp
    qed
    then show thesis using that[of w1 "v - r" q] False l1 eq unfolding step by simp
  qed
qed

lemma divnorm_loop_correct:
  assumes ok: "divisor_ok b b1_inv"
  shows "i + length b \<le> length taba \<Longrightarrow> i \<le> length tabq \<Longrightarrow> mp_val (drop i taba) < mp_val b \<Longrightarrow>
    \<exists>tabq' taba'. divnorm_loop i tabq taba b (last b) b1_inv = Some (tabq', taba') \<and>
      length tabq' = length tabq \<and> length taba' = length taba \<and> drop i tabq' = drop i tabq \<and>
      mp_val taba = mp_val b * mp_val (take i tabq') + mp_val taba' \<and> mp_val taba' < mp_val b"
proof (induction i arbitrary: tabq taba)
  case (Suc i)
  let ?nb = "length b" and ?V = "mp_val b"
  define lo where "lo = take i taba"
  define w where "w = take ?nb (drop i taba)"
  define v where "v = taba ! (i + ?nb)"
  define hi where "hi = drop (i + ?nb + 1) taba"
  have len: "length lo = i" "length w = ?nb" using Suc.prems(1) by (simp_all add: lo_def w_def)
  have rest: "drop i taba = w @ v # hi"
  proof -
    have "drop ?nb (drop i taba) = v # hi"
      using Suc.prems(1) by (simp add: v_def hi_def add.commute Cons_nth_drop_Suc)
    then show ?thesis unfolding w_def by (metis append_take_drop_id)
  qed
  then have taba: "taba = lo @ w @ v # hi" unfolding lo_def by (metis append_take_drop_id)
  have "w \<noteq> []" using ok len(2) by (auto simp: divisor_ok_def)
  then obtain x w0 where w0: "w = x # w0" by (cases w) auto
  have top: "drop (Suc i) taba = w0 @ [v] @ hi" using taba len(1) w0 by simp
  have "mp_val (w0 @ [v]) + BASE ^ ?nb * mp_val hi < BASE ^ ?nb"
  proof -
    have "length (w0 @ [v]) = ?nb" using len(2) w0 by simp
    then have "mp_val (drop (Suc i) taba) = mp_val (w0 @ [v]) + BASE ^ ?nb * mp_val hi"
      unfolding top by (metis mp_val_append append_assoc)
    then show ?thesis using Suc.prems(3) mp_val_less[of b] by linarith
  qed
  then have hi: "mp_val hi = 0" by (cases "mp_val hi") auto
  have W: "mp_val w + BASE ^ ?nb * unat v = unat x + BASE * mp_val (drop (Suc i) taba)"
  proof -
    have "BASE ^ ?nb = BASE * BASE ^ length w0" using len(2) w0 by (metis power_Suc length_Cons)
    then show ?thesis unfolding top using hi w0 by (simp add: mp_val_append algebra_simps)
  qed
  also have "\<dots> < BASE * (mp_val (drop (Suc i) taba) + 1)" using unat_limb[of x] by simp
  also have "\<dots> \<le> BASE * ?V" using Suc.prems(3) by (intro mult_le_mono2) simp
  finally have W: "mp_val w + BASE ^ ?nb * unat v < BASE * ?V" .
  from divnorm_step_correct[OF ok len W] obtain w' v' q where
    step: "divnorm_step taba b i (last b) b1_inv = Some (lo @ w' @ v' # hi, q)" and l': "length w' = ?nb"
    and rem: "mp_val w' + BASE ^ ?nb * unat v' < ?V"
    and eq: "mp_val w + BASE ^ ?nb * unat v = unat q * ?V + (mp_val w' + BASE ^ ?nb * unat v')"
    unfolding taba by blast
  let ?taba = "lo @ w' @ v' # hi" and ?tabq = "tabq[i := q]"
  have "i + ?nb \<le> length ?taba" "i \<le> length ?tabq" "mp_val (drop i ?taba) < ?V"
    using len l' Suc.prems(2) rem hi by (simp_all add: mp_val_append)
  from Suc.IH[OF this] obtain tabq' taba' where
    IH: "divnorm_loop i ?tabq ?taba b (last b) b1_inv = Some (tabq', taba')" "length tabq' = length tabq"
      "length taba' = length ?taba" "drop i tabq' = drop i ?tabq"
      "mp_val ?taba = ?V * mp_val (take i tabq') + mp_val taba'" "mp_val taba' < ?V"
    by auto
  have iq: "i < length tabq" using Suc.prems(2) by simp
  then have "drop i ?tabq = q # drop (Suc i) tabq" by (simp add: Cons_nth_drop_Suc[symmetric])
  then have tq: "drop i tabq' = q # drop (Suc i) tabq" using IH(4) by simp
  then have "take (Suc i) tabq' = take i tabq' @ [q]" "drop (Suc i) tabq' = drop (Suc i) tabq"
    using iq IH(2) by (simp_all add: take_Suc_conv_app_nth Cons_nth_drop_Suc[symmetric])
  moreover have "mp_val taba = mp_val ?taba + BASE ^ i * (unat q * ?V)"
  proof -
    have "mp_val taba = mp_val lo + BASE ^ i * (mp_val w + BASE ^ ?nb * unat v)"
      using len hi by (simp add: taba mp_val_append)
    then show ?thesis unfolding eq using len l' hi by (simp add: mp_val_append algebra_simps)
  qed
  ultimately have "mp_val taba = ?V * mp_val (take (Suc i) tabq') + mp_val taba'"
    using IH(5) iq IH(2) by (simp add: mp_val_append algebra_simps)
  moreover have "divnorm_loop (Suc i) tabq taba b (last b) b1_inv = Some (tabq', taba')"
    using IH(1) iq by (simp add: step mem_set_def)
  ultimately show ?case using IH(2,3,6) len l' taba \<open>drop (Suc i) tabq' = drop (Suc i) tabq\<close> by simp
qed simp

lemma mp_val_snoc_less:
  assumes "length xs = length ys" and "x < y"
  shows "mp_val (xs @ [x]) < mp_val (ys @ [y])"
proof -
  have "mp_val (xs @ [x]) < BASE ^ length xs * (unat x + 1)" using mp_val_less[of xs] by (simp add: mp_val_append)
  also have "\<dots> \<le> BASE ^ length xs * unat y" using assms(2) by (intro mult_le_mono2) (simp add: word_less_nat_alt)
  also have "\<dots> \<le> mp_val (ys @ [y])" using assms(1) by (simp add: mp_val_append)
  finally show ?thesis .
qed

lemma divnorm_first_correct:
  "n + j \<le> length taba \<Longrightarrow> j \<le> length b \<Longrightarrow>
    divnorm_first taba b n j = Some (if mp_val (take j b) \<le> mp_val (take j (drop n taba)) then 1 else 0)"
proof (induction j)
  case (Suc j)
  let ?x = "taba ! (n + j)" and ?y = "b ! j"
  have split: "take (Suc j) b = take j b @ [?y]" "take (Suc j) (drop n taba) = take j (drop n taba) @ [?x]"
    using Suc.prems by (simp_all add: take_Suc_conv_app_nth)
  have len: "length (take j b) = length (take j (drop n taba))" using Suc.prems by simp
  consider "?x < ?y" | "?y < ?x" | "?x = ?y" by (rule linorder_cases)
  then show ?case
  proof cases
    case 1
    from mp_val_snoc_less[OF len[symmetric] 1] show ?thesis using Suc.prems 1 less_imp_neq[OF 1] by (simp add: split mem_get_def)
  next
    case 2
    from mp_val_snoc_less[OF len 2] show ?thesis using Suc.prems less_imp_neq[OF 2] less_not_sym[OF 2] by (simp add: split mem_get_def)
  next
    case 3
    then show ?thesis using Suc by (simp add: split mp_val_append mem_get_def len)
  qed
qed simp

lemma mp_divnorm_correct:
  assumes norm: "tabb \<noteq> []" "BASE \<le> 2 * unat (last tabb)"
    and size: "length tabb \<le> length taba" "length tabq = length taba - length tabb + 1"
      "length tabb < 2 ^ 31" "length taba < 2 ^ 64"
    and small: "min (length taba - length tabb) (length tabb) < DIVNORM_LARGE_THRESHOLD \<or> length tabb = 1"
  shows "\<exists>tabq' taba'. mp_divnorm large tabq taba tabb = Some (0, tabq', taba') \<and>
    length tabq' = length tabq \<and> length taba' = length taba \<and>
    mp_val taba = mp_val tabq' * mp_val tabb + mp_val (take (length tabb) taba') \<and>
    mp_val (take (length tabb) taba') < mp_val tabb"
proof (cases "length tabb = 1")
  case True
  then obtain b where b: "tabb = [b]" by (cases tabb) auto
  then have "0 < b" using norm(2) by (cases "b = 0") (auto simp: word_neq_0_conv)
  from mp_div1norm_correct[of b 0 taba] obtain q r where
    q: "mp_div1norm taba b 0 = Some (q, r)" "length q = length taba" "r < b" "mp_val taba = mp_val q * unat b + unat r"
    using norm(2) b \<open>0 < b\<close> by auto
  have "mp_divnorm large tabq taba tabb = Some (0, q, taba[0 := r])"
    using b q size by (auto simp: mp_divnorm_def mem_get_def mem_set_def mem_write_def)
  moreover have "take 1 (taba[0 := r]) = [r]" using size(1) b by (cases taba) auto
  ultimately show ?thesis using b q size by (auto simp: word_less_nat_alt)
next
  case False
  let ?nb = "length tabb" and ?V = "mp_val tabb" and ?n = "length taba - length tabb"
  have nb: "0 < ?nb" "?nb \<noteq> 0" using norm(1) by auto
  have n: "szt (length taba + (2 ^ 64 - ?nb)) = ?n"
  proof -
    have "length taba + (2 ^ 64 - ?nb) = ?n + 2 ^ 64" "?n < 2 ^ 64" using size by simp_all
    then show ?thesis by (simp only: szt_def mod_add_self2 mod_less)
  qed
  obtain m where m: "(if ?n \<ge> UDIV1NORM_THRESHOLD then udiv1norm_init (last tabb) else Some 0) = Some m"
    and ok: "divisor_ok tabb m"
  proof (cases "?n \<ge> UDIV1NORM_THRESHOLD")
    case True
    obtain m where "udiv1norm_init (last tabb) = Some m" using udiv1norm_init_val[OF norm(2)] by blast
    then show thesis using that[of m] True norm by (simp add: divisor_ok_def)
  next
    case False
    then show thesis using that[of 0] norm by (simp add: divisor_ok_def)
  qed
  let ?top = "drop ?n taba"
  have ltop: "length ?top = ?nb" using size by simp
  let ?q = "if ?V \<le> mp_val ?top then 1 else 0 :: limb"
  have first: "divnorm_first taba tabb ?n ?nb = Some ?q"
    using divnorm_first_correct[of ?n ?nb taba tabb] size ltop by simp
  have "BASE ^ ?nb \<le> 2 * ?V"
  proof -
    have "BASE ^ ?nb = BASE ^ (?nb - 1) * BASE" using nb by (cases ?nb) simp_all
    also have "\<dots> \<le> BASE ^ (?nb - 1) * (2 * unat (last tabb))" using norm(2) by (rule mult_le_mono2)
    also have "\<dots> \<le> 2 * ?V" using mp_val_last(1)[OF norm(1)] by simp
    finally show ?thesis .
  qed
  then have top2: "mp_val ?top < 2 * ?V" using mp_val_less[of ?top] ltop by simp
  obtain t where
    sub: "(if ?q \<noteq> 0 then do { w \<leftarrow> mem_read taba ?n ?nb; (w, c) \<leftarrow> mp_sub w tabb 0; mem_write taba ?n w } else Some taba) =
        Some (take ?n taba @ t)"
    and t: "length t = ?nb" "mp_val ?top = unat ?q * ?V + mp_val t" "mp_val t < ?V"
  proof (cases "?V \<le> mp_val ?top")
    case True
    obtain t c where s: "mp_sub ?top tabb 0 = Some (t, c)" "mp_val t + ?V = mp_val ?top + BASE ^ ?nb * unat c" "length t = ?nb"
      by (rule mp_sub_val[OF ltop size(3), of 0]) (use size(1) in simp_all)
    have "unat c = 0"
    proof (rule ccontr)
      assume "unat c \<noteq> 0"
      then have "BASE ^ ?nb \<le> BASE ^ ?nb * unat c" by simp
      then show False using s(2) True mp_val_less[of t, unfolded s(3)] by linarith
    qed
    with s(2) top2 have "mp_val ?top = ?V + mp_val t" "mp_val t < ?V" by simp_all
    then show thesis using that[of t] True s(1,3) size ltop by (simp add: mem_read_def mem_write_def)
  next
    case False
    then show thesis using that[of ?top] ltop by simp
  qed
  let ?taba = "take ?n taba @ t" and ?tabq = "tabq[?n := ?q]"
  have "?n + ?nb \<le> length ?taba" "?n \<le> length ?tabq" "mp_val (drop ?n ?taba) < ?V"
    using size t by simp_all
  from divnorm_loop_correct[OF ok this] obtain tabq' taba' where
    L: "divnorm_loop ?n ?tabq ?taba tabb (last tabb) m = Some (tabq', taba')" "length tabq' = length tabq"
      "length taba' = length taba" "drop ?n tabq' = drop ?n ?tabq"
      "mp_val ?taba = ?V * mp_val (take ?n tabq') + mp_val taba'" "mp_val taba' < ?V"
    using size t by auto
  have run: "mp_divnorm large tabq taba tabb = Some (0, tabq', taba')"
  proof -
    have "\<not> min ?n ?nb \<ge> DIVNORM_LARGE_THRESHOLD" using small False by linarith
    moreover have "mem_get tabb (?nb - 1) = Some (last tabb)" using norm(1) by (simp add: mem_get_def last_conv_nth)
    moreover have "mem_set tabq ?n ?q = Some ?tabq" using size by (simp add: mem_set_def)
    ultimately show ?thesis
      unfolding mp_divnorm_def Let_def n using False nb L(1)
      by (simp only: if_False bind.simps m first sub case_prod_conv)
  qed
  have "drop ?n tabq' = [?q]" using L(4) size(2) by (simp add: Cons_nth_drop_Suc[symmetric])
  then have tq: "tabq' = take ?n tabq' @ [?q]" by (metis append_take_drop_id)
  have "mp_val tabq' = mp_val (take ?n tabq') + BASE ^ ?n * unat ?q"
    using L(2) size(2) by (subst tq) (simp add: mp_val_append)
  moreover have "mp_val taba = mp_val (take ?n taba) + BASE ^ ?n * (unat ?q * ?V + mp_val t)"
    using mp_val_append[of "take ?n taba" ?top] t(2) size(1) by simp
  moreover have "mp_val ?taba = mp_val (take ?n taba) + BASE ^ ?n * mp_val t" by (simp add: mp_val_append)
  ultimately have "mp_val taba = mp_val tabq' * ?V + mp_val taba'" using L(5) by (simp add: algebra_simps)
  moreover have "mp_val (take ?nb taba') = mp_val taba'"
  proof -
    have "mp_val taba' = mp_val (take ?nb taba') + BASE ^ ?nb * mp_val (drop ?nb taba')"
      using mp_val_append[of "take ?nb taba'" "drop ?nb taba'"] L(3) size(1) by simp
    moreover have "mp_val (drop ?nb taba') = 0"
      using calculation L(6) mp_val_less[of tabb] by (cases "mp_val (drop ?nb taba')") auto
    ultimately show ?thesis by simp
  qed
  ultimately show ?thesis using run L(2,3,6) by auto
qed

section \<open>Properties\<close>

text \<open>
  C25. The division through the reciprocal is the division: for a divisor with its top bit set, the
  reciprocal that \<open>udiv1norm_init\<close> computes for it, and a high limb below the divisor,
  \<open>udiv1norm\<close>, which multiplies, returns the same quotient and remainder as the division of the
  double limb by the limb, the reference that \<open>mp_div1norm\<close> uses for short arrays.
\<close>
theorem udiv1norm_is_division:
  assumes d: "BASE \<le> 2 * unat d" and a1: "a1 < d" and init: "udiv1norm_init d = Some d_inv"
  shows "dlimb_div a1 a0 d = Some (udiv1norm a1 a0 d d_inv) \<and>
    unat (fst (udiv1norm a1 a0 d d_inv)) = (BASE * unat a1 + unat a0) div unat d \<and>
    unat (snd (udiv1norm a1 a0 d d_inv)) = (BASE * unat a1 + unat a0) mod unat d"
proof -
  obtain q r where u: "udiv1norm a1 a0 d d_inv = (q, r)" by (cases "udiv1norm a1 a0 d d_inv")
  note U = udiv1norm_correct[OF d a1 init u]
  obtain q' r' where p: "dlimb_div a1 a0 d = Some (q', r')" "BASE * unat a1 + unat a0 = unat q' * unat d + unat r'" "r' < d"
    using dlimb_div_correct[OF a1] by blast
  have dm: "(unat x * unat d + unat y) div unat d = unat x" "(unat x * unat d + unat y) mod unat d = unat y"
    if "y < d" for x y :: limb
    using that by (simp_all add: word_less_nat_alt)
  have "q' = q" "r' = r" using dm[OF U(2), of q] dm[OF p(3), of q'] U(1) p(2) by (simp_all add: word_unat_eq_iff)
  then show ?thesis using dm[OF U(2), of q] U(1) u p(1) by simp
qed

theorem udiv1norm_is_division_witness:
  "dlimb_div 5 7 0x8000000000000001 = Some (9, 9223372036854775806) \<and>
   udiv1norm 5 7 0x8000000000000001 18446744073709551612 = (9, 9223372036854775806)"
proof -
  have init: "udiv1norm_init 0x8000000000000001 = Some 18446744073709551612" by code_simp
  have run: "udiv1norm 5 7 0x8000000000000001 18446744073709551612 = (9, 9223372036854775806)" by code_simp
  have "BASE \<le> 2 * unat (0x8000000000000001 :: limb)" "(5 :: limb) < 0x8000000000000001" by (simp_all add: BASE_def)
  from udiv1norm_is_division[OF this init, of 7] show ?thesis unfolding run by simp
qed

text \<open>
  C24. Schoolbook division of limb arrays: for a divisor whose top limb has its top bit set, a
  dividend that is at least as long, room for the quotient, and sizes below the threshold of the
  subquadratic algorithm, \<open>mp_divnorm\<close> terminates, stays within its arrays, and leaves the quotient in
  \<open>tabq\<close> and the remainder in the low limbs of \<open>taba\<close>. It does so although the quotient digit it
  guesses from two limbs is often too large; the loop that corrects it always ends.
\<close>
theorem mp_divnorm_divides:
  assumes "tabb \<noteq> []" and "BASE \<le> 2 * unat (last tabb)"
    and "length tabb \<le> length taba" and "length tabq = length taba - length tabb + 1"
    and "length tabb < 2 ^ 31" and "length taba < 2 ^ 64"
    and "min (length taba - length tabb) (length tabb) < DIVNORM_LARGE_THRESHOLD \<or> length tabb = 1"
  shows "\<exists>tabq' taba'. mp_divnorm large tabq taba tabb = Some (0, tabq', taba') \<and>
    length tabq' = length tabq \<and> length taba' = length taba \<and>
    mp_val tabq' = mp_val taba div mp_val tabb \<and>
    mp_val (take (length tabb) taba') = mp_val taba mod mp_val tabb"
proof -
  from mp_divnorm_correct[OF assms, of large] obtain tabq' taba' where
    r: "mp_divnorm large tabq taba tabb = Some (0, tabq', taba')" "length tabq' = length tabq" "length taba' = length taba"
    "mp_val taba = mp_val tabq' * mp_val tabb + mp_val (take (length tabb) taba')"
    "mp_val (take (length tabb) taba') < mp_val tabb" by blast
  from r(5) have "(mp_val tabq' * mp_val tabb + mp_val (take (length tabb) taba')) div mp_val tabb = mp_val tabq'"
    "(mp_val tabq' * mp_val tabb + mp_val (take (length tabb) taba')) mod mp_val tabb = mp_val (take (length tabb) taba')"
    by simp_all
  with r show ?thesis by metis
qed

theorem mp_divnorm_divides_witness:
  "\<exists>tabq' taba'. mp_divnorm (\<lambda>_ _ _. None) [9, 9, 9] [- 1, - 1, 0x7fffffffffffffff, 0x8000000000000000] [- 1, 0x8000000000000000] =
     Some (0, tabq', taba') \<and> mp_val tabq' = 3 + BASE * 0xffffffffffffffff \<and>
     mp_val (take 2 taba') = 2 + BASE * 0x7ffffffffffffffc"
proof -
  let ?a = "[- 1, - 1, 0x7fffffffffffffff, 0x8000000000000000] :: limb list" and ?d = "[- 1, 0x8000000000000000] :: limb list"
  have len: "length ?d = 2" by simp
  have "?d \<noteq> []" "BASE \<le> 2 * unat (last ?d)" "length ?d \<le> length ?a" "length [9, 9, 9 :: limb] = length ?a - length ?d + 1"
    "length ?d < 2 ^ 31" "length ?a < 2 ^ 64" "min (length ?a - length ?d) (length ?d) < DIVNORM_LARGE_THRESHOLD \<or> length ?d = 1"
    by (simp_all add: BASE_def DIVNORM_LARGE_THRESHOLD_def)
  from mp_divnorm_divides[OF this, of "\<lambda>_ _ _. None"] obtain tabq' taba' where
    "mp_divnorm (\<lambda>_ _ _. None) [9, 9, 9] ?a ?d = Some (0, tabq', taba')"
    "mp_val tabq' = mp_val ?a div mp_val ?d" "mp_val (take 2 taba') = mp_val ?a mod mp_val ?d"
    unfolding len by blast
  moreover have "mp_val ?a div mp_val ?d = 3 + BASE * 0xffffffffffffffff"
    "mp_val ?a mod mp_val ?d = 2 + BASE * 0x7ffffffffffffffc"
    by (simp_all add: unat_limb_max BASE_def)
  ultimately show ?thesis by auto
qed

end
