(* ===== verification/Cutils_Sort.thy ===== *)
theory Cutils_Sort
  imports Prelude "HOL-Library.Multiset"
begin

text \<open>
  The sorting function of \<open>cutils.c\<close>. The array is the list of its elements and a pointer into it is
  the index of the element (the C code steps in multiples of \<open>size\<close>). The comparison function may
  have effects on what \<open>opaque\<close> points to: it takes and returns that state.
\<close>

section \<open>Elements\<close>

type_synonym ('a, 's) cmp_f = "'a \<Rightarrow> 'a \<Rightarrow> 's \<Rightarrow> int \<times> 's"

definition cmp_at :: "('a, 's) cmp_f \<Rightarrow> 'a list \<Rightarrow> nat \<Rightarrow> nat \<Rightarrow> 's \<Rightarrow> (int \<times> 's) option" where
  "cmp_at cmp xs i j s = do { a \<leftarrow> mem_get xs i; b \<leftarrow> mem_get xs j; Some (cmp a b s) }"

definition swap_at :: "'a list \<Rightarrow> nat \<Rightarrow> nat \<Rightarrow> 'a list option" where
  "swap_at xs i j = do { a \<leftarrow> mem_get xs i; b \<leftarrow> mem_get xs j; Some (xs[i := b, j := a]) }"

primrec swap_block :: "'a list \<Rightarrow> nat \<Rightarrow> nat \<Rightarrow> nat \<Rightarrow> 'a list option" where
  "swap_block xs i j 0 = Some xs"
| "swap_block xs i j (Suc n) = do { xs \<leftarrow> swap_at xs i j; swap_block xs (i + 1) (j + 1) n }"

section \<open>Heap sort\<close>

text \<open>The child of \<open>r\<close> to compare with: the right one when the left one is not greater.\<close>

definition heap_child ::
  "('a, 's) cmp_f \<Rightarrow> nat \<Rightarrow> nat \<Rightarrow> nat \<Rightarrow> 'a list \<Rightarrow> 's \<Rightarrow> (nat \<times> 's) option" where
  "heap_child cmp base n c xs s =
     (if c < n - 1 then do {
        (k, s) \<leftarrow> cmp_at cmp xs (base + c) (base + c + 1) s;
        Some (if k \<le> 0 then c + 1 else c, s)
      }
      else Some (c, s))"

lemma heap_child_ge: "heap_child cmp base n c xs s = Some (c', s') \<Longrightarrow> c \<le> c'"
  by (auto simp: heap_child_def Option.bind_eq_Some_conv split: if_splits)

function heap_sift ::
  "('a, 's) cmp_f \<Rightarrow> nat \<Rightarrow> nat \<Rightarrow> nat \<Rightarrow> 'a list \<Rightarrow> 's \<Rightarrow> ('a list \<times> 's) option" where
  "heap_sift cmp base n r xs s =
     (if r * 2 + 1 < n then do {
        (c, s) \<leftarrow> heap_child cmp base n (r * 2 + 1) xs s;
        (k, s) \<leftarrow> cmp_at cmp xs (base + r) (base + c) s;
        if k > 0 then Some (xs, s)
        else do {
          xs \<leftarrow> swap_at xs (base + r) (base + c);
          heap_sift cmp base n c xs s
        }
      }
      else Some (xs, s))"
  by auto
termination
  by (relation "measure (\<lambda>(cmp, base, n, r, xs, s). n - r)") (auto dest!: heap_child_ge)

declare heap_sift.simps [simp del]

primrec heap_build :: "('a, 's) cmp_f \<Rightarrow> nat \<Rightarrow> nat \<Rightarrow> nat \<Rightarrow> 'a list \<Rightarrow> 's \<Rightarrow> ('a list \<times> 's) option" where
  "heap_build cmp base n 0 xs s = Some (xs, s)"
| "heap_build cmp base n (Suc i) xs s =
     do { (xs, s) \<leftarrow> heap_sift cmp base n i xs s; heap_build cmp base n i xs s }"

primrec heap_extract :: "('a, 's) cmp_f \<Rightarrow> nat \<Rightarrow> nat \<Rightarrow> 'a list \<Rightarrow> 's \<Rightarrow> ('a list \<times> 's) option" where
  "heap_extract cmp base 0 xs s = Some (xs, s)"
| "heap_extract cmp base (Suc i) xs s =
     do {
       xs \<leftarrow> swap_at xs base (base + Suc i);
       (xs, s) \<leftarrow> heap_sift cmp base (Suc i) 0 xs s;
       heap_extract cmp base i xs s
     }"

definition heapsortx :: "('a, 's) cmp_f \<Rightarrow> nat \<Rightarrow> nat \<Rightarrow> 'a list \<Rightarrow> 's \<Rightarrow> ('a list \<times> 's) option" where
  "heapsortx cmp base nmemb xs s =
     (if nmemb > 1 then do {
        (xs, s) \<leftarrow> heap_build cmp base nmemb (nmemb div 2) xs s;
        heap_extract cmp base (nmemb - 1) xs s
      }
      else Some (xs, s))"

section \<open>Partition\<close>

definition med3 ::
  "('a, 's) cmp_f \<Rightarrow> 'a list \<Rightarrow> nat \<Rightarrow> nat \<Rightarrow> nat \<Rightarrow> 's \<Rightarrow> (nat \<times> 's) option" where
  "med3 cmp xs a b c s =
     do {
       (k, s) \<leftarrow> cmp_at cmp xs a b s;
       if k < 0 then do {
         (k, s) \<leftarrow> cmp_at cmp xs b c s;
         if k < 0 then Some (b, s)
         else do { (k, s) \<leftarrow> cmp_at cmp xs a c s; Some (if k < 0 then c else a, s) }
       }
       else do {
         (k, s) \<leftarrow> cmp_at cmp xs b c s;
         if k > 0 then Some (b, s)
         else do { (k, s) \<leftarrow> cmp_at cmp xs a c s; Some (if k < 0 then a else c, s) }
       }
     }"

text \<open>
  The counters \<open>i\<close>, \<open>lt\<close> and \<open>gt\<close> are the offsets from \<open>ptr\<close> of the pointers \<open>pi\<close>, \<open>plt\<close> and \<open>pgt\<close>
  that the code moves along with them; \<open>j\<close> is the offset of \<open>pj\<close>.
\<close>

function scan_up ::
  "('a, 's) cmp_f \<Rightarrow> nat \<Rightarrow> nat \<Rightarrow> nat \<Rightarrow> nat \<Rightarrow> 'a list \<Rightarrow> 's \<Rightarrow> (nat \<times> nat \<times> 'a list \<times> 's) option" where
  "scan_up cmp ptr j i lt xs s =
     (if i < j then do {
        (c, s) \<leftarrow> cmp_at cmp xs ptr (ptr + i) s;
        if c \<ge> 0 then
          if c = 0 then do {
            xs \<leftarrow> swap_at xs (ptr + lt) (ptr + i);
            scan_up cmp ptr j (i + 1) (lt + 1) xs s
          }
          else scan_up cmp ptr j (i + 1) lt xs s
        else Some (i, lt, xs, s)
      }
      else Some (i, lt, xs, s))"
  by auto
termination
  by (relation "measure (\<lambda>(cmp, ptr, j, i, lt, xs, s). j - i)") auto

declare scan_up.simps [simp del]

text \<open>Called with \<open>j > 0\<close>; the loop takes one from \<open>j\<close> before each test.\<close>

primrec scan_down ::
  "('a, 's) cmp_f \<Rightarrow> nat \<Rightarrow> nat \<Rightarrow> nat \<Rightarrow> nat \<Rightarrow> 'a list \<Rightarrow> 's \<Rightarrow> (nat \<times> nat \<times> 'a list \<times> 's) option" where
  "scan_down cmp ptr i 0 gt xs s = None"
| "scan_down cmp ptr i (Suc j) gt xs s =
     (if i < j then do {
        (c, s) \<leftarrow> cmp_at cmp xs ptr (ptr + j) s;
        if c \<le> 0 then
          if c = 0 then do {
            xs \<leftarrow> swap_at xs (ptr + (gt - 1)) (ptr + j);
            scan_down cmp ptr i j (gt - 1) xs s
          }
          else scan_down cmp ptr i j gt xs s
        else Some (j, gt, xs, s)
      }
      else Some (j, gt, xs, s))"

lemma scan_up_bounds:
  "scan_up cmp ptr j i lt xs s = Some (i', lt', xs', s') \<Longrightarrow> i \<le> i' \<and> (i \<le> j \<longrightarrow> i' \<le> j)"
proof (induction "j - i" arbitrary: i lt xs s rule: less_induct)
  case less
  from less.prems consider "i' = i"
    | lt2 xs2 s2 where "i < j" "scan_up cmp ptr j (i + 1) lt2 xs2 s2 = Some (i', lt', xs', s')"
    by (subst (asm) scan_up.simps) (auto simp: Option.bind_eq_Some_conv split: if_splits)
  then show ?case
  proof cases
    case 2
    then have "j - (i + 1) < j - i" by simp
    from less.hyps[OF this 2(2)] 2(1) show ?thesis by auto
  qed simp
qed

lemma scan_down_bounds:
  "scan_down cmp ptr i j gt xs s = Some (j', gt', xs', s') \<Longrightarrow> j' < j \<and> (i \<le> j \<longrightarrow> i \<le> j' + 1)"
  by (induction j arbitrary: gt xs s)
     (fastforce simp: Option.bind_eq_Some_conv less_Suc_eq split: if_splits)+

function partition_loop ::
  "('a, 's) cmp_f \<Rightarrow> nat \<Rightarrow> nat \<Rightarrow> nat \<Rightarrow> nat \<Rightarrow> nat \<Rightarrow> 'a list \<Rightarrow> 's \<Rightarrow> (nat \<times> nat \<times> nat \<times> 'a list \<times> 's) option" where
  "partition_loop cmp ptr i j lt gt xs s =
     do {
       (i, lt, xs, s) \<leftarrow> scan_up cmp ptr j i lt xs s;
       (j, gt, xs, s) \<leftarrow> scan_down cmp ptr i j gt xs s;
       if i \<ge> j then Some (i, lt, gt, xs, s)
       else do {
         xs \<leftarrow> swap_at xs (ptr + i) (ptr + j);
         partition_loop cmp ptr (i + 1) j lt gt xs s
       }
     }"
  by auto
termination
  by (relation "measure (\<lambda>(cmp, ptr, i, j, lt, gt, xs, s). j - i)")
     (auto dest!: scan_up_bounds scan_down_bounds)

declare partition_loop.simps [simp del]

text \<open>
  One round: the median of three moves to the front, the scans leave the elements equal to it at
  both ends, and two block exchanges bring these to the middle. The result tells where the elements
  equal to the pivot begin and end.
\<close>

definition partition ::
  "('a, 's) cmp_f \<Rightarrow> nat \<Rightarrow> nat \<Rightarrow> 'a list \<Rightarrow> 's \<Rightarrow> (nat \<times> nat \<times> 'a list \<times> 's) option" where
  "partition cmp ptr nmemb xs s =
     do {
       let m4 = nmemb div 4;
       (m, s) \<leftarrow> med3 cmp xs (ptr + m4) (ptr + 2 * m4) (ptr + 3 * m4) s;
       xs \<leftarrow> swap_at xs ptr m;
       (i, lt, gt, xs, s) \<leftarrow> partition_loop cmp ptr 1 nmemb 1 nmemb xs s;
       let span = min lt (i - lt);
       let lt = i - lt;
       xs \<leftarrow> swap_block xs ptr (ptr + (i - span)) span;
       let span = min (nmemb - gt) (gt - i);
       let gt = nmemb - (gt - i);
       xs \<leftarrow> swap_block xs (ptr + i) (ptr + (nmemb - span)) span;
       Some (lt, gt, xs, s)
     }"

section \<open>The sort\<close>

type_synonym segment = "nat \<times> nat \<times> nat"

definition STACK_SIZE :: nat where "STACK_SIZE = 50"

text \<open>
  The loop over one segment pushes the larger part and goes on with the smaller one; beyond a depth
  of 50 it hands the rest to \<open>heapsortx\<close>. A push onto a full stack is out of bounds.
\<close>

function segment_loop ::
  "('a, 's) cmp_f \<Rightarrow> segment list \<Rightarrow> nat \<Rightarrow> nat \<Rightarrow> nat \<Rightarrow> 'a list \<Rightarrow> 's \<Rightarrow>
   (segment list \<times> nat \<times> nat \<times> 'a list \<times> 's) option" where
  "segment_loop cmp stack ptr nmemb depth xs s =
     (if nmemb > 6 then
        if depth + 1 > 50 then do {
          (xs, s) \<leftarrow> heapsortx cmp ptr nmemb xs s;
          Some (stack, ptr, 0, xs, s)
        }
        else do {
          (lt, gt, xs, s) \<leftarrow> partition cmp ptr nmemb xs s;
          if length stack \<ge> STACK_SIZE then None
          else if lt > nmemb - gt then
            segment_loop cmp ((ptr, lt, depth + 1) # stack) (ptr + gt) (nmemb - gt) (depth + 1) xs s
          else segment_loop cmp ((ptr + gt, nmemb - gt, depth + 1) # stack) ptr lt (depth + 1) xs s
        }
      else Some (stack, ptr, nmemb, xs, s))"
  by auto
termination
  by (relation "measure (\<lambda>(cmp, stack, ptr, nmemb, depth, xs, s). 50 - depth)") auto

declare segment_loop.simps [simp del]

primrec insert_back :: "('a, 's) cmp_f \<Rightarrow> nat \<Rightarrow> nat \<Rightarrow> 'a list \<Rightarrow> 's \<Rightarrow> ('a list \<times> 's) option" where
  "insert_back cmp ptr 0 xs s = Some (xs, s)"
| "insert_back cmp ptr (Suc j) xs s =
     do {
       (k, s) \<leftarrow> cmp_at cmp xs (ptr + j) (ptr + Suc j) s;
       if k > 0 then do {
         xs \<leftarrow> swap_at xs (ptr + Suc j) (ptr + j);
         insert_back cmp ptr j xs s
       }
       else Some (xs, s)
     }"

text \<open>\<open>insertion_sort cmp ptr i k\<close> inserts the \<open>k\<close> elements from offset \<open>i\<close> on.\<close>

primrec insertion_sort :: "('a, 's) cmp_f \<Rightarrow> nat \<Rightarrow> nat \<Rightarrow> nat \<Rightarrow> 'a list \<Rightarrow> 's \<Rightarrow> ('a list \<times> 's) option" where
  "insertion_sort cmp ptr i 0 xs s = Some (xs, s)"
| "insertion_sort cmp ptr i (Suc k) xs s =
     do {
       (xs, s) \<leftarrow> insert_back cmp ptr i xs s;
       insertion_sort cmp ptr (i + 1) k xs s
     }"

partial_function (option) rqsort_loop ::
  "('a, 's) cmp_f \<Rightarrow> segment list \<Rightarrow> 'a list \<Rightarrow> 's \<Rightarrow> ('a list \<times> 's) option" where
  [code]: "rqsort_loop cmp stack xs s =
     (case stack of
        [] \<Rightarrow> Some (xs, s)
      | (ptr, nmemb, depth) # stack \<Rightarrow> do {
          (stack, ptr, nmemb, xs, s) \<leftarrow> segment_loop cmp stack ptr nmemb depth xs s;
          (xs, s) \<leftarrow> insertion_sort cmp ptr 1 (nmemb - 1) xs s;
          rqsort_loop cmp stack xs s
        })"

text \<open>\<open>elt_size\<close> is the size of an element in bytes.\<close>

definition rqsort :: "('a, 's) cmp_f \<Rightarrow> nat \<Rightarrow> 'a list \<Rightarrow> 's \<Rightarrow> ('a list \<times> 's) option" where
  "rqsort cmp elt_size xs s =
     (if length xs < 2 \<or> elt_size = 0 then Some (xs, s)
      else rqsort_loop cmp [(0, length xs, 0)] xs s)"

section \<open>Every comparison function\<close>

text \<open>\<open>within b n xs ys\<close>: \<open>ys\<close> is \<open>xs\<close> with the \<open>n\<close> elements from \<open>b\<close> on permuted.\<close>

definition within :: "nat \<Rightarrow> nat \<Rightarrow> 'a list \<Rightarrow> 'a list \<Rightarrow> bool" where
  "within b n xs ys \<longleftrightarrow> mset ys = mset xs \<and> take b ys = take b xs \<and> drop (b + n) ys = drop (b + n) xs"

lemma within_refl [simp]: "within b n xs xs"
  by (simp add: within_def)

lemma within_trans: "within b n xs ys \<Longrightarrow> within b n ys zs \<Longrightarrow> within b n xs zs"
  by (simp add: within_def)

lemma within_length: "within b n xs ys \<Longrightarrow> length ys = length xs"
  unfolding within_def by (metis size_mset)

lemma within_mono:
  assumes "within b n xs ys" and "b' \<le> b" and "b + n \<le> b' + n'"
  shows "within b' n' xs ys"
proof -
  have "take b' zs = take b' (take b zs)" for zs :: "'a list" using assms(2) by (simp add: min.absorb1)
  moreover have "drop (b' + n') zs = drop (b' + n' - (b + n)) (drop (b + n) zs)" for zs :: "'a list"
    using assms(3) by simp
  ultimately show ?thesis using assms(1) unfolding within_def by metis
qed

lemma within_swap:
  assumes "b \<le> i" "i < b + n" "b \<le> j" "j < b + n" "b + n \<le> length xs"
  shows "within b n xs (xs[i := xs ! j, j := xs ! i])"
  using assms by (simp add: within_def mset_swap)

lemma swap_at_Some:
  "i < length xs \<Longrightarrow> j < length xs \<Longrightarrow> swap_at xs i j = Some (xs[i := xs ! j, j := xs ! i])"
  by (simp add: swap_at_def mem_get_def)

lemma cmp_at_Some:
  "i < length xs \<Longrightarrow> j < length xs \<Longrightarrow> cmp_at cmp xs i j s = Some (cmp (xs ! i) (xs ! j) s)"
  by (simp add: cmp_at_def mem_get_def)

lemma within_nth: "within b n xs ys \<Longrightarrow> i < b \<or> b + n \<le> i \<Longrightarrow> i < length xs \<Longrightarrow> ys ! i = xs ! i"
proof -
  assume w: "within b n xs ys" and i: "i < b \<or> b + n \<le> i" "i < length xs"
  from i(1) show "ys ! i = xs ! i"
  proof
    assume "i < b"
    then have "ys ! i = take b ys ! i" "xs ! i = take b xs ! i" by simp_all
    then show ?thesis using w by (simp add: within_def)
  next
    assume "b + n \<le> i"
    then have "ys ! i = drop (b + n) ys ! (i - (b + n))" "xs ! i = drop (b + n) xs ! (i - (b + n))"
      using i(2) within_length[OF w] by simp_all
    then show ?thesis using w by (simp add: within_def)
  qed
qed

text \<open>The elements of a segment stay in it.\<close>

lemma within_segment:
  assumes "within b n xs ys"
  shows "mset (take n (drop b ys)) = mset (take n (drop b xs))"
proof -
  have split: "mset zs = mset (take b zs) + (mset (take n (drop b zs)) + mset (drop (b + n) zs))" for zs :: "'a list"
  proof -
    have "mset zs = mset (take b zs) + mset (drop b zs)" by (metis append_take_drop_id mset_append)
    also have "mset (drop b zs) = mset (take n (drop b zs)) + mset (drop n (drop b zs))"
      by (metis append_take_drop_id mset_append)
    finally show ?thesis by (simp add: add.commute)
  qed
  have m: "mset ys = mset xs" "take b ys = take b xs" "drop (b + n) ys = drop (b + n) xs"
    using assms by (simp_all add: within_def)
  show ?thesis using trans[OF sym[OF split[of ys, unfolded m]] split[of xs]] by (simp only: add_left_cancel add_right_cancel)
qed

lemma within_elem:
  assumes "within b n xs ys" and "b \<le> i" and "i < b + n" and "i < length xs"
  obtains j where "b \<le> j" "j < b + n" "j < length xs" "ys ! i = xs ! j"
proof -
  have "i - b < length xs - b" "i - b < n" using assms by linarith+
  then have "i - b < length (take n (drop b ys))" using within_length[OF assms(1)] by simp
  then have "take n (drop b ys) ! (i - b) \<in> set (take n (drop b ys))" by (rule nth_mem)
  then have "ys ! i \<in> set (take n (drop b xs))"
    using assms within_length[OF assms(1)] within_segment[OF assms(1)]
    by (simp flip: set_mset_mset)
  then obtain k where "k < length (take n (drop b xs))" "take n (drop b xs) ! k = ys ! i" by (metis in_set_conv_nth)
  moreover have "b \<le> length xs" using assms by linarith
  ultimately show thesis using that[of "b + k"] by (simp add: less_diff_conv add.commute)
qed

lemma swap_block_safe:
  "b \<le> i \<Longrightarrow> i + k \<le> b + n \<Longrightarrow> b \<le> j \<Longrightarrow> j + k \<le> b + n \<Longrightarrow> b + n \<le> length xs \<Longrightarrow>
    \<exists>ys. swap_block xs i j k = Some ys \<and> within b n xs ys"
proof (induction k arbitrary: xs i j)
  case (Suc k)
  let ?xs = "xs[i := xs ! j, j := xs ! i]"
  have w: "within b n xs ?xs" using Suc.prems by (intro within_swap) auto
  have "\<exists>ys. swap_block ?xs (i + 1) (j + 1) k = Some ys \<and> within b n ?xs ys"
    using Suc.prems by (intro Suc.IH) auto
  then show ?case using Suc.prems w by (auto simp: swap_at_Some dest: within_trans)
qed simp

lemma swap_block_nth:
  "swap_block xs i j k = Some ys \<Longrightarrow> i + k \<le> j \<Longrightarrow> j + k \<le> length xs \<Longrightarrow>
    (\<forall>d<k. ys ! (i + d) = xs ! (j + d) \<and> ys ! (j + d) = xs ! (i + d)) \<and>
    (\<forall>m. (m < i \<or> i + k \<le> m) \<and> (m < j \<or> j + k \<le> m) \<longrightarrow> ys ! m = xs ! m)"
proof (induction k arbitrary: xs i j)
  case (Suc k)
  let ?xs = "xs[i := xs ! j, j := xs ! i]"
  have "swap_block ?xs (i + 1) (j + 1) k = Some ys" using Suc.prems by (simp add: swap_at_Some)
  then have IH: "d < k \<Longrightarrow> ys ! (i + 1 + d) = ?xs ! (j + 1 + d)" "d < k \<Longrightarrow> ys ! (j + 1 + d) = ?xs ! (i + 1 + d)"
    "(m < i + 1 \<or> i + 1 + k \<le> m) \<Longrightarrow> (m < j + 1 \<or> j + 1 + k \<le> m) \<Longrightarrow> ys ! m = ?xs ! m" for d m
    using Suc.IH[of ?xs "i + 1" "j + 1"] Suc.prems by auto
  have at: "?xs ! q = (if q = j then xs ! i else if q = i then xs ! j else xs ! q)" for q
    using Suc.prems by (simp add: nth_list_update)
  have "ys ! (i + d) = xs ! (j + d) \<and> ys ! (j + d) = xs ! (i + d)" if "d < Suc k" for d
  proof (cases d)
    case 0
    then show ?thesis using IH(3)[of i] IH(3)[of j] at Suc.prems by auto
  next
    case (Suc e)
    then show ?thesis using IH(1,2)[of e] at that Suc.prems by auto
  qed
  moreover have "ys ! m = xs ! m" if "m < i \<or> i + Suc k \<le> m" "m < j \<or> j + Suc k \<le> m" for m
    using IH(3)[of m] at[of m] that by auto
  ultimately show ?case by blast
qed simp

lemma heap_child_safe:
  assumes "c < n" and "base + n \<le> length xs"
  obtains c' s' where "heap_child cmp base n c xs s = Some (c', s')" "c \<le> c'" "c' < n" "c' \<le> c + 1"
proof (cases "c < n - 1")
  case True
  obtain k s' where "cmp (xs ! (base + c)) (xs ! (base + c + 1)) s = (k, s')" by fastforce
  then have "heap_child cmp base n c xs s = Some (if k \<le> 0 then c + 1 else c, s')"
    using assms True by (simp add: heap_child_def cmp_at_Some)
  then show thesis using that True by (cases "k \<le> 0") auto
next
  case False
  then show thesis using that[of c s] assms by (simp add: heap_child_def)
qed

lemma heap_sift_safe:
  "base + n \<le> length xs \<Longrightarrow> r < n \<Longrightarrow>
    \<exists>ys s'. heap_sift cmp base n r xs s = Some (ys, s') \<and> within base n xs ys"
proof (induction "n - r" arbitrary: r xs s rule: less_induct)
  case less
  show ?case
  proof (cases "r * 2 + 1 < n")
    case True
    from heap_child_safe[OF True less.prems(1), of cmp s] obtain c s1 where
      c: "heap_child cmp base n (r * 2 + 1) xs s = Some (c, s1)" "r * 2 + 1 \<le> c" "c < n" by blast
    obtain k s2 where k: "cmp (xs ! (base + r)) (xs ! (base + c)) s1 = (k, s2)" by fastforce
    let ?xs = "xs[base + r := xs ! (base + c), base + c := xs ! (base + r)]"
    have w: "within base n xs ?xs" using less.prems c by (intro within_swap) auto
    have "n - c < n - r" "base + n \<le> length ?xs" using c less.prems by auto
    from less.hyps[OF this c(3)] obtain ys s' where
      "heap_sift cmp base n c ?xs s2 = Some (ys, s')" "within base n ?xs ys" by blast
    then show ?thesis using True c k less.prems w
      by (subst heap_sift.simps) (auto simp: cmp_at_Some swap_at_Some dest: within_trans)
  next
    case False
    then show ?thesis by (subst heap_sift.simps) auto
  qed
qed

lemma heap_build_safe:
  "base + n \<le> length xs \<Longrightarrow> i \<le> n \<Longrightarrow> \<exists>ys s'. heap_build cmp base n i xs s = Some (ys, s') \<and> within base n xs ys"
proof (induction i arbitrary: xs s)
  case (Suc i)
  then obtain xs1 s1 where 1: "heap_sift cmp base n i xs s = Some (xs1, s1)" "within base n xs xs1"
    using heap_sift_safe[of base n xs i cmp s] by auto
  then obtain ys s' where "heap_build cmp base n i xs1 s1 = Some (ys, s')" "within base n xs1 ys"
    using Suc.IH[of xs1 s1] Suc.prems within_length[OF 1(2)] by auto
  with 1 show ?case by (auto dest: within_trans)
qed simp

lemma heap_extract_safe:
  "base + n \<le> length xs \<Longrightarrow> i < n \<Longrightarrow> \<exists>ys s'. heap_extract cmp base i xs s = Some (ys, s') \<and> within base n xs ys"
proof (induction i arbitrary: xs s)
  case (Suc i)
  let ?xs = "xs[base := xs ! (base + Suc i), base + Suc i := xs ! base]"
  have w: "within base n xs ?xs" using Suc.prems by (intro within_swap) auto
  obtain xs1 s1 where 1: "heap_sift cmp base (Suc i) 0 ?xs s = Some (xs1, s1)" "within base (Suc i) ?xs xs1"
    using heap_sift_safe[of base "Suc i" ?xs 0 cmp s] Suc.prems by auto
  then have w1: "within base n ?xs xs1" using Suc.prems by (auto elim: within_mono)
  then obtain ys s' where "heap_extract cmp base i xs1 s1 = Some (ys, s')" "within base n xs1 ys"
    using Suc.IH[of xs1 s1] Suc.prems within_length[OF w1] by auto
  with 1 w w1 Suc.prems show ?case by (auto simp: swap_at_Some dest: within_trans)
qed simp

lemma heapsortx_safe:
  assumes "base + n \<le> length xs"
  shows "\<exists>ys s'. heapsortx cmp base n xs s = Some (ys, s') \<and> within base n xs ys"
proof (cases "n > 1")
  case True
  obtain xs1 s1 where 1: "heap_build cmp base n (n div 2) xs s = Some (xs1, s1)" "within base n xs xs1"
    using heap_build_safe[OF assms, of "n div 2" cmp s] by auto
  obtain ys s' where "heap_extract cmp base (n - 1) xs1 s1 = Some (ys, s')" "within base n xs1 ys"
    using heap_extract_safe[of base n xs1 "n - 1" cmp s1] assms True within_length[OF 1(2)] by auto
  with 1 True show ?thesis by (auto simp: heapsortx_def dest: within_trans)
qed (simp add: heapsortx_def)

lemma med3_safe:
  assumes "a < length xs" "b < length xs" "c < length xs"
  shows "\<exists>m s'. med3 cmp xs a b c s = Some (m, s') \<and> m \<in> {a, b, c}"
  using assms by (auto simp: med3_def cmp_at_Some split: prod.splits)

lemma scan_up_safe:
  "ptr + n \<le> length xs \<Longrightarrow> j \<le> n \<Longrightarrow> 1 \<le> lt \<Longrightarrow> lt \<le> i \<Longrightarrow> i \<le> j \<Longrightarrow>
    \<exists>i' lt' ys s'. scan_up cmp ptr j i lt xs s = Some (i', lt', ys, s') \<and> within ptr n xs ys \<and>
      i \<le> i' \<and> i' \<le> j \<and> lt \<le> lt' \<and> lt' \<le> i'"
proof (induction "j - i" arbitrary: i lt xs s rule: less_induct)
  case less
  show ?case
  proof (cases "i < j")
    case True
    obtain c s1 where c: "cmp (xs ! ptr) (xs ! (ptr + i)) s = (c, s1)" by fastforce
    have dec: "j - (i + 1) < j - i" using True by simp
    have at: "cmp_at cmp xs ptr (ptr + i) s = Some (c, s1)" using True less.prems c by (simp add: cmp_at_Some)
    consider "c < 0" | "c > 0" | "c = 0" by linarith
    then show ?thesis
    proof cases
      case 1
      then show ?thesis using less.prems by (subst scan_up.simps) (simp add: at)
    next
      case 2
      from less.hyps[OF dec less.prems(1-3), of s1] less.prems True obtain i' lt' ys s' where
        "scan_up cmp ptr j (i + 1) lt xs s1 = Some (i', lt', ys, s')" "within ptr n xs ys" "i + 1 \<le> i'" "i' \<le> j" "lt \<le> lt'" "lt' \<le> i'"
        by auto
      then show ?thesis using 2 True by (subst scan_up.simps) (simp add: at)
    next
      case 3
      let ?xs = "xs[ptr + lt := xs ! (ptr + i), ptr + i := xs ! (ptr + lt)]"
      have w: "within ptr n xs ?xs" using less.prems True by (intro within_swap) auto
      have sw: "swap_at xs (ptr + lt) (ptr + i) = Some ?xs" using less.prems True by (simp add: swap_at_Some)
      from less.hyps[OF dec, of ?xs "lt + 1" s1] less.prems True obtain i' lt' ys s' where
        "scan_up cmp ptr j (i + 1) (lt + 1) ?xs s1 = Some (i', lt', ys, s')" "within ptr n ?xs ys" "i + 1 \<le> i'" "i' \<le> j"
        "lt + 1 \<le> lt'" "lt' \<le> i'"
        by auto
      then show ?thesis using 3 True within_trans[OF w] by (subst scan_up.simps) (auto simp: at sw)
    qed
  next
    case False
    then show ?thesis using less.prems by (subst scan_up.simps) auto
  qed
qed

lemma scan_down_safe:
  "ptr + n \<le> length xs \<Longrightarrow> 1 \<le> i \<Longrightarrow> i \<le> j \<Longrightarrow> j \<le> gt \<Longrightarrow> gt \<le> n \<Longrightarrow>
    \<exists>j' gt' ys s'. scan_down cmp ptr i j gt xs s = Some (j', gt', ys, s') \<and> within ptr n xs ys \<and>
      j' < j \<and> i \<le> j' + 1 \<and> j' < gt' \<and> gt' \<le> gt \<and> i \<le> gt'"
proof (induction j arbitrary: gt xs s)
  case (Suc j)
  show ?case
  proof (cases "i < j")
    case True
    obtain c s1 where c: "cmp (xs ! ptr) (xs ! (ptr + j)) s = (c, s1)" by fastforce
    have at: "cmp_at cmp xs ptr (ptr + j) s = Some (c, s1)" using True Suc.prems c by (simp add: cmp_at_Some)
    consider "c > 0" | "c < 0" | "c = 0" by linarith
    then show ?thesis
    proof cases
      case 1
      then show ?thesis using Suc.prems True by (simp add: at)
    next
      case 2
      from Suc.IH[of xs gt s1] Suc.prems True obtain j' gt' ys s' where
        "scan_down cmp ptr i j gt xs s1 = Some (j', gt', ys, s')" "within ptr n xs ys" "j' < j" "i \<le> j' + 1" "j' < gt'" "gt' \<le> gt"
        "i \<le> gt'" by auto
      then show ?thesis using 2 True by (simp add: at)
    next
      case 3
      let ?xs = "xs[ptr + (gt - 1) := xs ! (ptr + j), ptr + j := xs ! (ptr + (gt - 1))]"
      have w: "within ptr n xs ?xs" using Suc.prems True by (intro within_swap) auto
      have sw: "swap_at xs (ptr + (gt - 1)) (ptr + j) = Some ?xs" using Suc.prems True by (simp add: swap_at_Some)
      have "ptr + n \<le> length ?xs" "1 \<le> i" "i \<le> j" "j \<le> gt - 1" "gt - 1 \<le> n" using Suc.prems True by auto
      from Suc.IH[OF this] obtain j' gt' ys s' where
        r: "scan_down cmp ptr i j (gt - 1) ?xs s1 = Some (j', gt', ys, s')" "within ptr n ?xs ys" "j' < j" "i \<le> j' + 1" "j' < gt'"
        "gt' \<le> gt - 1" "i \<le> gt'" by blast
      have "scan_down cmp ptr i (Suc j) gt xs s = scan_down cmp ptr i j (gt - 1) ?xs s1"
        by (simp only: scan_down.simps True if_True at Option.bind.simps prod.case 3 sw order.refl simp_thms)
      then have "scan_down cmp ptr i (Suc j) gt xs s = Some (j', gt', ys, s')" using r(1) by (simp only:)
      moreover have "j' < Suc j" "gt' \<le> gt" using r by auto
      ultimately show ?thesis using within_trans[OF w r(2)] r(4,5,7) by blast
    qed
  next
    case False
    then show ?thesis using Suc.prems by auto
  qed
qed simp

lemma partition_loop_safe:
  "ptr + n \<le> length xs \<Longrightarrow> 1 \<le> lt \<Longrightarrow> lt \<le> i \<Longrightarrow> i \<le> j \<Longrightarrow> j \<le> gt \<Longrightarrow> gt \<le> n \<Longrightarrow>
    \<exists>i' lt' gt' ys s'. partition_loop cmp ptr i j lt gt xs s = Some (i', lt', gt', ys, s') \<and> within ptr n xs ys \<and>
      1 \<le> lt' \<and> lt' \<le> i' \<and> i' \<le> gt' \<and> gt' \<le> n"
proof (induction "j - i" arbitrary: i j lt gt xs s rule: less_induct)
  case less
  have "j \<le> n" using less.prems by linarith
  from scan_up_safe[OF less.prems(1) this less.prems(2-4), of cmp s] obtain i1 lt1 xs1 s1 where
    up: "scan_up cmp ptr j i lt xs s = Some (i1, lt1, xs1, s1)" "within ptr n xs xs1" "i \<le> i1" "i1 \<le> j" "lt \<le> lt1" "lt1 \<le> i1"
    by blast
  have "ptr + n \<le> length xs1" "1 \<le> i1" using less.prems up within_length[OF up(2)] by auto
  from scan_down_safe[OF this up(4) less.prems(5,6), of cmp s1] obtain j1 gt1 xs2 s2 where
    down: "scan_down cmp ptr i1 j gt xs1 s1 = Some (j1, gt1, xs2, s2)" "within ptr n xs1 xs2" "j1 < j" "i1 \<le> j1 + 1" "j1 < gt1"
      "gt1 \<le> gt" "i1 \<le> gt1" by blast
  have w2: "within ptr n xs xs2" by (rule within_trans[OF up(2) down(2)])
  note len2 = within_length[OF w2]
  show ?case
  proof (cases "i1 \<ge> j1")
    case True
    then show ?thesis using up down w2 less.prems by (subst partition_loop.simps) auto
  next
    case False
    let ?xs = "xs2[ptr + i1 := xs2 ! (ptr + j1), ptr + j1 := xs2 ! (ptr + i1)]"
    have w: "within ptr n xs2 ?xs" using less.prems False down len2 by (intro within_swap) auto
    have sw: "swap_at xs2 (ptr + i1) (ptr + j1) = Some ?xs" using less.prems False down len2 by (simp add: swap_at_Some)
    have "j1 - (i1 + 1) < j - i" using down up False by linarith
    moreover have "ptr + n \<le> length ?xs" "1 \<le> lt1" "lt1 \<le> i1 + 1" "i1 + 1 \<le> j1" "j1 \<le> gt1" "gt1 \<le> n"
      using less.prems False up down len2 by auto
    ultimately obtain i' lt' gt' ys s' where
      "partition_loop cmp ptr (i1 + 1) j1 lt1 gt1 ?xs s2 = Some (i', lt', gt', ys, s')" "within ptr n ?xs ys"
      "1 \<le> lt'" "lt' \<le> i'" "i' \<le> gt'" "gt' \<le> n"
      using less.hyps[of j1 "i1 + 1" ?xs lt1 gt1 s2] by blast
    then show ?thesis using up(1) down(1) False sw within_trans[OF within_trans[OF w2 w]]
      by (subst partition_loop.simps) auto
  qed
qed

lemma partition_safe:
  assumes "6 < n" and "ptr + n \<le> length xs"
  shows "\<exists>lt gt ys s'. partition cmp ptr n xs s = Some (lt, gt, ys, s') \<and> within ptr n xs ys \<and> lt < gt \<and> gt \<le> n"
proof -
  have m4: "3 * (n div 4) < n" "n div 4 < n" "2 * (n div 4) < n" using assms(1) by auto
  then obtain m s1 where m: "med3 cmp xs (ptr + n div 4) (ptr + 2 * (n div 4)) (ptr + 3 * (n div 4)) s = Some (m, s1)"
    "m \<in> {ptr + n div 4, ptr + 2 * (n div 4), ptr + 3 * (n div 4)}"
    using med3_safe[of "ptr + n div 4" xs "ptr + 2 * (n div 4)" "ptr + 3 * (n div 4)" cmp s] assms by auto
  let ?xs = "xs[ptr := xs ! m, m := xs ! ptr]"
  have mb: "ptr \<le> m" "m < ptr + n" using m(2) m4 by auto
  have w1: "within ptr n xs ?xs" using mb assms by (intro within_swap) auto
  have sw: "swap_at xs ptr m = Some ?xs" using mb assms by (simp add: swap_at_Some)
  obtain i lt gt xs2 s2 where
    loop: "partition_loop cmp ptr 1 n 1 n ?xs s1 = Some (i, lt, gt, xs2, s2)" "within ptr n ?xs xs2"
      "1 \<le> lt" "lt \<le> i" "i \<le> gt" "gt \<le> n"
    using partition_loop_safe[of ptr n ?xs 1 1 n n cmp s1] assms by auto
  have len2: "ptr + n \<le> length xs2" using assms within_length[OF loop(2)] by simp
  let ?k = "min lt (i - lt)"
  obtain xs3 where b1: "swap_block xs2 ptr (ptr + (i - ?k)) ?k = Some xs3" "within ptr n xs2 xs3"
  proof -
    have "ptr \<le> ptr" "ptr + ?k \<le> ptr + n" "ptr \<le> ptr + (i - ?k)" "ptr + (i - ?k) + ?k \<le> ptr + n" using loop by auto
    from swap_block_safe[OF this len2] that show thesis by blast
  qed
  have len3: "ptr + n \<le> length xs3" using len2 within_length[OF b1(2)] by simp
  let ?k2 = "min (n - gt) (gt - i)"
  obtain xs4 where b2: "swap_block xs3 (ptr + i) (ptr + (n - ?k2)) ?k2 = Some xs4" "within ptr n xs3 xs4"
  proof -
    have "ptr \<le> ptr + i" "ptr + i + ?k2 \<le> ptr + n" "ptr \<le> ptr + (n - ?k2)" "ptr + (n - ?k2) + ?k2 \<le> ptr + n"
      using loop by auto
    from swap_block_safe[OF this len3] that show thesis by blast
  qed
  have "partition cmp ptr n xs s = Some (i - lt, n - (gt - i), xs4, s2)"
    using m(1) sw loop(1) b1(1) b2(1) by (simp add: partition_def Let_def)
  moreover have "within ptr n xs xs4" using w1 loop(2) b1(2) b2(2) by (blast intro: within_trans)
  ultimately show ?thesis using loop by auto
qed

lemma insert_back_safe:
  "ptr + n \<le> length xs \<Longrightarrow> j < n \<Longrightarrow> \<exists>ys s'. insert_back cmp ptr j xs s = Some (ys, s') \<and> within ptr n xs ys"
proof (induction j arbitrary: xs s)
  case (Suc j)
  obtain k s1 where k: "cmp (xs ! (ptr + j)) (xs ! (ptr + Suc j)) s = (k, s1)" by fastforce
  let ?xs = "xs[ptr + Suc j := xs ! (ptr + j), ptr + j := xs ! (ptr + Suc j)]"
  have w: "within ptr n xs ?xs" using Suc.prems by (intro within_swap) auto
  obtain ys s' where "insert_back cmp ptr j ?xs s1 = Some (ys, s')" "within ptr n ?xs ys"
    using Suc.IH[of ?xs s1] Suc.prems by auto
  then show ?case using Suc.prems k w by (auto simp: cmp_at_Some swap_at_Some dest: within_trans)
qed simp

lemma insertion_sort_safe:
  "ptr + n \<le> length xs \<Longrightarrow> k = 0 \<or> i + k \<le> n \<Longrightarrow>
    \<exists>ys s'. insertion_sort cmp ptr i k xs s = Some (ys, s') \<and> within ptr n xs ys"
proof (induction k arbitrary: i xs s)
  case (Suc k)
  then obtain xs1 s1 where 1: "insert_back cmp ptr i xs s = Some (xs1, s1)" "within ptr n xs xs1"
    using insert_back_safe[of ptr n xs i cmp s] by auto
  then obtain ys s' where "insertion_sort cmp ptr (i + 1) k xs1 s1 = Some (ys, s')" "within ptr n xs1 ys"
    using Suc.IH[of xs1 "i + 1" s1] Suc.prems within_length[OF 1(2)] by auto
  with 1 show ?case by (auto dest: within_trans)
qed simp

text \<open>
  The stack: an entry at height \<open>p\<close> has at least the depth \<open>p\<close>, so the limit on the depth keeps the
  height below \<open>STACK_SIZE\<close>. Its weight goes down with every segment that is taken from it.
\<close>

primrec stack_ok :: "nat \<Rightarrow> segment list \<Rightarrow> bool" where
  "stack_ok n [] = True"
| "stack_ok n (e # st) =
     (fst e + fst (snd e) \<le> n \<and> length st \<le> snd (snd e) \<and> snd (snd e) \<le> 50 \<and> stack_ok n st)"

primrec weight :: "segment list \<Rightarrow> nat" where
  "weight [] = 0"
| "weight (e # st) = 2 * fst (snd e) + 1 + weight st"

lemma segment_loop_safe:
  "ptr + n \<le> length xs \<Longrightarrow> stack_ok (length xs) stack \<Longrightarrow> length stack \<le> depth \<Longrightarrow> depth \<le> 50 \<Longrightarrow>
    \<exists>stack' ptr' n' ys s'. segment_loop cmp stack ptr n depth xs s = Some (stack', ptr', n', ys, s') \<and>
      mset ys = mset xs \<and> length ys = length xs \<and> stack_ok (length xs) stack' \<and> ptr' + n' \<le> length xs \<and>
      weight stack' + 2 * n' \<le> weight stack + 2 * n"
proof (induction "50 - depth" arbitrary: stack ptr n depth xs s rule: less_induct)
  case less
  show ?case
  proof (cases "n > 6")
    case True
    show ?thesis
    proof (cases "depth + 1 > 50")
      case deep: True
      obtain ys s' where h: "heapsortx cmp ptr n xs s = Some (ys, s')" "within ptr n xs ys"
        using heapsortx_safe[OF less.prems(1), of cmp s] by blast
      have "segment_loop cmp stack ptr n depth xs s = Some (stack, ptr, 0, ys, s')"
        using True deep h(1) by (subst segment_loop.simps) simp
      moreover have "mset ys = mset xs" "length ys = length xs" using h(2) within_length[OF h(2)] by (simp_all add: within_def)
      moreover have "ptr + 0 \<le> length xs" "weight stack + 2 * 0 \<le> weight stack + 2 * n" using less.prems(1) by simp_all
      ultimately show ?thesis using less.prems(2) by blast
    next
      case shallow: False
      obtain lt gt ys s1 where p: "partition cmp ptr n xs s = Some (lt, gt, ys, s1)" "within ptr n xs ys" "lt < gt" "gt \<le> n"
        using partition_safe[OF True less.prems(1), of cmp s] by blast
      note len = within_length[OF p(2)]
      have room: "\<not> length stack \<ge> STACK_SIZE" using shallow less.prems by (simp add: STACK_SIZE_def)
      have dec: "50 - (depth + 1) < 50 - depth" using shallow by simp
      have ms: "mset ys = mset xs" using p(2) by (simp add: within_def)
      let ?l = "(ptr, lt, depth + 1) # stack" and ?r = "(ptr + gt, n - gt, depth + 1) # stack"
      have range: "ptr + lt \<le> length ys" "ptr + gt + (n - gt) \<le> length ys" using p less.prems(1) len by simp_all
      have ok: "stack_ok (length ys) ?l" "stack_ok (length ys) ?r" "length ?l \<le> depth + 1" "length ?r \<le> depth + 1" "depth + 1 \<le> 50"
        using less.prems p len shallow range by simp_all
      have w: "weight ?l + 2 * (n - gt) \<le> weight stack + 2 * n" "weight ?r + 2 * lt \<le> weight stack + 2 * n"
        using p by simp_all
      show ?thesis
      proof (cases "lt > n - gt")
        case left: True
        from less.hyps[OF dec range(2) ok(1,3,5), of s1] obtain stack' ptr' n' zs s' where
          "segment_loop cmp ?l (ptr + gt) (n - gt) (depth + 1) ys s1 = Some (stack', ptr', n', zs, s')" "mset zs = mset ys"
          "length zs = length ys" "stack_ok (length ys) stack'" "ptr' + n' \<le> length ys"
          "weight stack' + 2 * n' \<le> weight ?l + 2 * (n - gt)" by blast
        then show ?thesis using True shallow room left p(1) ms len w(1)
          by (subst segment_loop.simps) (simp del: weight.simps)
      next
        case right: False
        from less.hyps[OF dec range(1) ok(2,4,5), of s1] obtain stack' ptr' n' zs s' where
          "segment_loop cmp ?r ptr lt (depth + 1) ys s1 = Some (stack', ptr', n', zs, s')" "mset zs = mset ys"
          "length zs = length ys" "stack_ok (length ys) stack'" "ptr' + n' \<le> length ys"
          "weight stack' + 2 * n' \<le> weight ?r + 2 * lt" by blast
        then show ?thesis using True shallow room right p(1) ms len w(2)
          by (subst segment_loop.simps) (simp del: weight.simps)
      qed
    qed
  next
    case False
    then show ?thesis using less.prems by (subst segment_loop.simps) auto
  qed
qed

lemma rqsort_loop_safe:
  "stack_ok (length xs) stack \<Longrightarrow> \<exists>ys s'. rqsort_loop cmp stack xs s = Some (ys, s') \<and> mset ys = mset xs"
proof (induction "weight stack" arbitrary: stack xs s rule: less_induct)
  case less
  show ?case
  proof (cases stack)
    case Nil
    then show ?thesis by (subst rqsort_loop.simps) simp
  next
    case (Cons e st)
    obtain ptr n depth where e: "e = (ptr, n, depth)" by (cases e)
    have ok: "ptr + n \<le> length xs" "stack_ok (length xs) st" "length st \<le> depth" "depth \<le> 50"
      using less.prems Cons e by simp_all
    from segment_loop_safe[OF ok, of cmp s] obtain stack' ptr' n' ys s1 where
      1: "segment_loop cmp st ptr n depth xs s = Some (stack', ptr', n', ys, s1)" "mset ys = mset xs" "length ys = length xs"
        "stack_ok (length xs) stack'" "ptr' + n' \<le> length xs" "weight stack' + 2 * n' \<le> weight st + 2 * n" by blast
    have "ptr' + n' \<le> length ys" "n' - 1 = 0 \<or> 1 + (n' - 1) \<le> n'" using 1 by auto
    from insertion_sort_safe[OF this, of cmp s1] obtain zs s2 where
      2: "insertion_sort cmp ptr' 1 (n' - 1) ys s1 = Some (zs, s2)" "within ptr' n' ys zs" by blast
    have "weight stack' < weight stack" using 1(6) Cons e by simp
    moreover have "stack_ok (length zs) stack'" using 1 within_length[OF 2(2)] by simp
    ultimately obtain ws s' where "rqsort_loop cmp stack' zs s2 = Some (ws, s')" "mset ws = mset zs"
      using less.hyps by blast
    then show ?thesis using 1 2 Cons e by (subst rqsort_loop.simps) (simp add: within_def)
  qed
qed

lemma rqsort_total: "\<exists>ys s'. rqsort cmp elt_size xs s = Some (ys, s') \<and> mset ys = mset xs"
proof (cases "length xs < 2 \<or> elt_size = 0")
  case False
  have "stack_ok (length xs) [(0, length xs, 0)]" by simp
  from rqsort_loop_safe[OF this, of cmp s] False show ?thesis by (auto simp: rqsort_def)
qed (auto simp: rqsort_def)

section \<open>Properties\<close>

text \<open>
  C19. Sorting is safe with every comparison function, also one that is inconsistent or changes its
  mind, as a comparison function written in JavaScript may: \<open>rqsort\<close> terminates, reads and writes only
  elements of the array, never pushes onto a full stack, and the result is a permutation of
  the array.
\<close>
theorem rqsort_permutes: "\<exists>ys s'. rqsort cmp elt_size xs s = Some (ys, s') \<and> mset ys = mset xs"
  by (rule rqsort_total)

end
