(* ===== verification/Cutils_Exchange.thy ===== *)
theory Cutils_Exchange
  imports Cutils_Sort
begin

unbundle bit_operations_syntax

text \<open>
  The exchange functions of \<open>rqsort\<close>, on the bytes of the array: \<open>addr\<close> is the address of its first
  byte, \<open>a\<close> and \<open>b\<close> are offsets into it. A word access that is not aligned is undefined. The lemmas show
  that they exchange elements, as \<open>swap_at\<close> and \<open>swap_block\<close> do.
\<close>

section \<open>The exchange functions\<close>

text \<open>\<open>n\<close> times a unit of \<open>w\<close> bytes, by accesses that need the alignment \<open>al\<close>.\<close>

primrec exchange_units :: "nat \<Rightarrow> nat \<Rightarrow> nat \<Rightarrow> nat \<Rightarrow> 'a list \<Rightarrow> nat \<Rightarrow> nat \<Rightarrow> 'a list option" where
  "exchange_units al w 0 addr m a b = Some m"
| "exchange_units al w (Suc n) addr m a b =
     (if (addr + a) mod al = 0 \<and> (addr + b) mod al = 0 then do {
        t \<leftarrow> mem_read m a w;
        u \<leftarrow> mem_read m b w;
        m \<leftarrow> mem_write m a u;
        m \<leftarrow> mem_write m b t;
        exchange_units al w n addr m (a + w) (b + w)
      }
      else None)"

type_synonym 'a exchange_f = "nat \<Rightarrow> 'a list \<Rightarrow> nat \<Rightarrow> nat \<Rightarrow> nat \<Rightarrow> 'a list option"

definition exchange_bytes :: "'a exchange_f" where
  "exchange_bytes addr m a b n = exchange_units 1 1 n addr m a b"

definition exchange_one_byte :: "'a exchange_f" where
  "exchange_one_byte addr m a b n = exchange_units 1 1 1 addr m a b"

definition exchange_int16s :: "'a exchange_f" where
  "exchange_int16s addr m a b n = exchange_units 2 2 (n div 2) addr m a b"

definition exchange_one_int16 :: "'a exchange_f" where
  "exchange_one_int16 addr m a b n = exchange_units 2 2 1 addr m a b"

definition exchange_int32s :: "'a exchange_f" where
  "exchange_int32s addr m a b n = exchange_units 4 4 (n div 4) addr m a b"

definition exchange_one_int32 :: "'a exchange_f" where
  "exchange_one_int32 addr m a b n = exchange_units 4 4 1 addr m a b"

definition exchange_int64s :: "'a exchange_f" where
  "exchange_int64s addr m a b n = exchange_units 8 8 (n div 8) addr m a b"

definition exchange_one_int64 :: "'a exchange_f" where
  "exchange_one_int64 addr m a b n = exchange_units 8 8 1 addr m a b"

definition exchange_int128s :: "'a exchange_f" where
  "exchange_int128s addr m a b n = exchange_units 8 16 (n div 16) addr m a b"

definition exchange_one_int128 :: "'a exchange_f" where
  "exchange_one_int128 addr m a b n = exchange_units 8 16 1 addr m a b"

definition exchange_func :: "nat \<Rightarrow> nat \<Rightarrow> 'a exchange_f" where
  "exchange_func base n =
     (let k = (base OR n) AND 15 in
      if k = 0 then if n = 16 then exchange_one_int128 else exchange_int128s
      else if k = 8 then if n = 8 then exchange_one_int64 else exchange_int64s
      else if k = 4 \<or> k = 12 then if n = 4 then exchange_one_int32 else exchange_int32s
      else if k = 2 \<or> k = 6 \<or> k = 10 \<or> k = 14 then if n = 2 then exchange_one_int16 else exchange_int16s
      else if n = 1 then exchange_one_byte else exchange_bytes)"

section \<open>Blocks of bytes\<close>

lemma swap_block_add:
  "swap_block m a b (k + l) = do { m \<leftarrow> swap_block m a b k; swap_block m (a + k) (b + k) l }"
proof (induction k arbitrary: m a b)
  case (Suc k)
  then show ?case by (cases "swap_at m a b") simp_all
qed simp

lemma swap_block_1: "swap_block m i j 1 = swap_at m i j"
  by (cases "swap_at m i j") simp_all

lemma swap_at_commute: "swap_at m i j = swap_at m j i"
proof (cases "i < length m \<and> j < length m")
  case True
  then show ?thesis by (cases "i = j") (simp_all add: swap_at_Some list_update_swap)
next
  case False
  then show ?thesis by (auto simp: swap_at_def mem_get_def split: option.split)
qed

lemma swap_block_commute: "swap_block m i j k = swap_block m j i k"
  by (induction k arbitrary: m i j) (simp_all add: swap_at_commute)

definition separate :: "nat \<Rightarrow> nat \<Rightarrow> nat \<Rightarrow> bool" where
  "separate i j k \<longleftrightarrow> i + k \<le> j \<or> j + k \<le> i \<or> i = j"

lemma swap_block_same: "i + k \<le> length m \<Longrightarrow> swap_block m i i k = Some m"
  by (induction k arbitrary: i) (simp_all add: swap_at_Some)

lemma swap_block_lists:
  "swap_block (lo @ xs @ mid @ ys @ hi) (length lo) (length lo + length xs + length mid) k = Some (lo @ ys @ mid @ xs @ hi)"
  if "length xs = k" "length ys = k"
  using that
proof (induction k arbitrary: lo xs mid ys)
  case (Suc k)
  obtain x xs' y ys' where xs: "xs = x # xs'" and ys: "ys = y # ys'" using Suc.prems by (cases xs; cases ys) auto
  let ?m = "lo @ xs @ mid @ ys @ hi"
  have "?m ! length lo = x" "?m ! (length lo + length xs + length mid) = y" by (simp_all add: xs ys nth_append)
  then have "swap_at ?m (length lo) (length lo + length xs + length mid) = Some (lo @ y # xs' @ mid @ x # ys' @ hi)"
    by (simp add: swap_at_Some xs ys list_update_append nth_append)
  moreover have "swap_block ((lo @ [y]) @ xs' @ (mid @ [x]) @ ys' @ hi) (length (lo @ [y]))
      (length (lo @ [y]) + length xs' + length (mid @ [x])) k = Some ((lo @ [y]) @ ys' @ (mid @ [x]) @ xs' @ hi)"
    using Suc.prems by (intro Suc.IH) (simp_all add: xs ys)
  ultimately show ?case using xs ys by simp
qed simp

lemma split_two:
  assumes "a + w \<le> b" and "b + w \<le> length m"
  obtains lo xs mid ys hi where "m = lo @ xs @ mid @ ys @ hi" and "length lo = a" and "length xs = w"
    and "b = length lo + length xs + length mid" and "length ys = w"
proof
  define r where "r = drop (a + w) m"
  have "m = take a m @ take w (drop a m) @ r" unfolding r_def by (metis append_take_drop_id drop_drop add.commute)
  also have "r = take (b - (a + w)) r @ take w (drop (b - (a + w)) r) @ drop w (drop (b - (a + w)) r)"
    by (metis append_take_drop_id)
  finally show "m = take a m @ take w (drop a m) @ take (b - (a + w)) r @ take w (drop (b - (a + w)) r) @ drop w (drop (b - (a + w)) r)" .
  show "length (take a m) = a" "length (take w (drop a m)) = w"
    "b = length (take a m) + length (take w (drop a m)) + length (take (b - (a + w)) r)"
    "length (take w (drop (b - (a + w)) r)) = w"
    using assms by (auto simp: r_def)
qed

lemma exchange_unit:
  assumes "separate a b w" and "a + w \<le> length m" and "b + w \<le> length m"
  shows "do { t \<leftarrow> mem_read m a w; u \<leftarrow> mem_read m b w; m \<leftarrow> mem_write m a u; mem_write m b t } = swap_block m a b w"
proof -
  have two: "do { t \<leftarrow> mem_read m a w; u \<leftarrow> mem_read m b w; m \<leftarrow> mem_write m a u; mem_write m b t } = swap_block m a b w"
    "do { t \<leftarrow> mem_read m b w; u \<leftarrow> mem_read m a w; m \<leftarrow> mem_write m b u; mem_write m a t } = swap_block m a b w"
    if "a + w \<le> b" "b + w \<le> length m" for a b
  proof -
    from split_two[OF that] obtain lo xs mid ys hi where m: "m = lo @ xs @ mid @ ys @ hi" "length lo = a" "length xs = w"
      "b = length lo + length xs + length mid" "length ys = w" .
    have sw: "swap_block m a b w = Some (lo @ ys @ mid @ xs @ hi)" using swap_block_lists[OF m(3,5), of lo mid hi] m by simp
    show "do { t \<leftarrow> mem_read m a w; u \<leftarrow> mem_read m b w; m \<leftarrow> mem_write m a u; mem_write m b t } = swap_block m a b w"
      unfolding sw using m by (simp add: mem_read_def mem_write_def)
    show "do { t \<leftarrow> mem_read m b w; u \<leftarrow> mem_read m a w; m \<leftarrow> mem_write m b u; mem_write m a t } = swap_block m a b w"
      unfolding sw using m by (simp add: mem_read_def mem_write_def)
  qed
  consider "a + w \<le> b" | "b + w \<le> a" | "a = b" using assms(1) by (auto simp: separate_def)
  then show ?thesis
  proof cases
    case 1
    then show ?thesis using two(1) assms by blast
  next
    case 2
    then show ?thesis using two(2)[of b a] assms swap_block_commute by metis
  next
    case 3
    have "take a m @ take w (drop a m) @ drop (a + w) m = m" by (metis append_take_drop_id drop_drop add.commute)
    then show ?thesis using assms 3 by (simp add: mem_read_def mem_write_def swap_block_same)
  qed
qed

lemma exchange_units_swap:
  assumes "(addr + a) mod al = 0" and "(addr + b) mod al = 0" and "w mod al = 0"
  shows "separate a b (n * w) \<Longrightarrow> a + n * w \<le> length m \<Longrightarrow> b + n * w \<le> length m \<Longrightarrow>
    exchange_units al w n addr m a b = swap_block m a b (n * w)"
  using assms
proof (induction n arbitrary: m a b)
  case (Suc n)
  have sep: "separate a b w" "separate (a + w) (b + w) (n * w)" using Suc.prems(1) by (auto simp: separate_def)
  have al: "(addr + (a + w)) mod al = 0" "(addr + (b + w)) mod al = 0"
    using Suc.prems(4-6) by (metis add.assoc mod_add_eq add_0 mod_0)+
  let ?unit = "do { t \<leftarrow> mem_read m a w; u \<leftarrow> mem_read m b w; m \<leftarrow> mem_write m a u; mem_write m b t }"
  have "a + w \<le> length m" "b + w \<le> length m" using Suc.prems(2,3) by simp_all
  note unit = exchange_unit[OF sep(1) this]
  have "exchange_units al w (Suc n) addr m a b = do { m \<leftarrow> ?unit; exchange_units al w n addr m (a + w) (b + w) }"
    using Suc.prems(4,5) by simp
  also have "\<dots> = do { m \<leftarrow> swap_block m a b w; swap_block m (a + w) (b + w) (n * w) }"
    unfolding unit
  proof (cases "swap_block m a b w")
    case (Some m1)
    have "\<exists>ys. swap_block m a b w = Some ys \<and> within 0 (length m) m ys"
      using Suc.prems(2,3) by (intro swap_block_safe) auto
    then have "length m1 = length m" using Some within_length by auto
    then show "do { m \<leftarrow> swap_block m a b w; exchange_units al w n addr m (a + w) (b + w) } =
        do { m \<leftarrow> swap_block m a b w; swap_block m (a + w) (b + w) (n * w) }"
      using Suc.IH[OF sep(2) _ _ al Suc.prems(6), of m1] Suc.prems(2,3) Some by (simp add: add.assoc)
  qed simp
  also have "\<dots> = swap_block m a b (Suc n * w)" by (simp add: swap_block_add)
  finally show ?case .
qed simp

section \<open>The choice of the function\<close>

lemma and_15: "x AND 15 = take_bit 4 (x :: nat)"
  by (simp add: take_bit_eq_mask mask_eq_exp_minus_1)

lemma low_bits_dvd:
  assumes "2 ^ e dvd (x OR z) AND (15 :: nat)" and "e \<le> 4"
  shows "2 ^ e dvd x" and "2 ^ e dvd z"
proof -
  have "take_bit e (x OR z) = 0"
    using assms unfolding and_15 by (metis take_bit_eq_0_iff take_bit_take_bit min.absorb1)
  then have "take_bit e x = 0 \<and> take_bit e z = 0" by (simp add: take_bit_or or_eq_0_iff)
  then show "2 ^ e dvd x" "2 ^ e dvd z" by (simp_all only: take_bit_eq_0_iff)
qed

text \<open>Whatever is chosen, it exchanges whole units whose size divides that of an element.\<close>

lemma exchange_func_units:
  assumes "one \<longrightarrow> n = z" and "\<not> one \<longrightarrow> z > 16" and "0 < z"
  obtains al e where "\<And>m a b. exchange_func addr z addr m a b n = exchange_units al (2 ^ e) (n div 2 ^ e) addr m a b"
    and "al dvd 2 ^ e" "e \<le> 4" "2 ^ e dvd (addr OR z) AND 15"
proof -
  let ?k = "(addr OR z) AND 15"
  consider "?k = 0" | "?k = 8" | "?k = 4 \<or> ?k = 12" | "?k = 2 \<or> ?k = 6 \<or> ?k = 10 \<or> ?k = 14"
    | "?k \<noteq> 0 \<and> ?k \<noteq> 8 \<and> \<not> (?k = 4 \<or> ?k = 12) \<and> \<not> (?k = 2 \<or> ?k = 6 \<or> ?k = 10 \<or> ?k = 14)" by blast
  then show thesis
  proof cases
    case 1
    then show thesis using that[of 8 4] assms
      by (cases "z = 16") (auto simp: exchange_func_def exchange_one_int128_def exchange_int128s_def)
  next
    case 2
    then show thesis using that[of 8 3] assms
      by (cases "z = 8") (auto simp: exchange_func_def exchange_one_int64_def exchange_int64s_def)
  next
    case 3
    then show thesis using that[of 4 2] assms
      by (cases "z = 4") (auto simp: exchange_func_def exchange_one_int32_def exchange_int32s_def)
  next
    case 4
    then show thesis using that[of 2 1] assms
      by (cases "z = 2") (auto simp: exchange_func_def exchange_one_int16_def exchange_int16s_def)
  next
    case 5
    then show thesis using that[of 1 0] assms
      by (cases "z = 1") (auto simp: exchange_func_def exchange_one_byte_def exchange_bytes_def)
  qed
qed

section \<open>Elements\<close>

definition elems :: "nat \<Rightarrow> nat \<Rightarrow> 'a list \<Rightarrow> 'a list list" where
  "elems z n m = map (\<lambda>k. take z (drop (k * z) m)) [0..<n]"

lemma length_elems [simp]: "length (elems z n m) = n"
  by (simp add: elems_def)

lemma swap_bytes_elem:
  assumes len: "length m = n * z" and ij: "i < n" "j < n" and sw: "swap_block m (i * z) (j * z) z = Some m'"
  shows "swap_at (elems z n m) i j = Some (elems z n m')" and "length m' = n * z"
proof -
  have bound: "k * z + z \<le> n * z" if "k < n" for k
  proof -
    have "(k + 1) * z \<le> n * z" using that by (intro mult_le_mono1) simp
    then show ?thesis by simp
  qed
  have "\<exists>ys. swap_block m (i * z) (j * z) z = Some ys \<and> within 0 (n * z) m ys"
    using bound[OF ij(1)] bound[OF ij(2)] len by (intro swap_block_safe) auto
  then have "within 0 (n * z) m m'" using sw by auto
  from within_length[OF this] show len': "length m' = n * z" using len by simp
  have sep: "k * z + z \<le> l * z" if "k < l" for k l
  proof -
    have "(k + 1) * z \<le> l * z" using that by (intro mult_le_mono1) simp
    then show ?thesis by simp
  qed
  have key: "(\<forall>d<z. m' ! (i * z + d) = m ! (j * z + d) \<and> m' ! (j * z + d) = m ! (i * z + d)) \<and>
      (\<forall>q. (q < i * z \<or> i * z + z \<le> q) \<and> (q < j * z \<or> j * z + z \<le> q) \<longrightarrow> m' ! q = m ! q)"
  proof -
    consider "i < j" | "j < i" | "i = j" by linarith
    then show ?thesis
    proof cases
      case 1
      show ?thesis using swap_block_nth[OF sw sep[OF 1]] bound[OF ij(2)] len by simp
    next
      case 2
      have "swap_block m (j * z) (i * z) z = Some m'" using sw swap_block_commute by metis
      from swap_block_nth[OF this sep[OF 2]] show ?thesis using bound[OF ij(1)] len by auto
    next
      case 3
      then show ?thesis using sw bound[OF ij(1)] len by (simp add: swap_block_same)
    qed
  qed
  have elem: "take z (drop (k * z) m') = take z (drop ((if k = i then j else if k = j then i else k) * z) m)" if k: "k < n" for k
  proof (rule nth_equalityI)
    let ?l = "if k = i then j else if k = j then i else k"
    have l: "?l < n" using k ij by simp
    show "length (take z (drop (k * z) m')) = length (take z (drop (?l * z) m))"
      using bound[OF k] bound[OF l] len len' by simp
    fix d assume "d < length (take z (drop (k * z) m'))"
    then have d: "d < z" by simp
    have "m' ! (k * z + d) = m ! (?l * z + d)"
    proof (cases "k = i \<or> k = j")
      case True
      then show ?thesis using key d by auto
    next
      case False
      have "k * z + d < l * z \<or> l * z + z \<le> k * z + d" if "k \<noteq> l" for l
        using sep[of k l] sep[of l k] that d by linarith
      then show ?thesis using key False by auto
    qed
    moreover have "k * z \<le> length m'" "?l * z \<le> length m" using bound[OF k] bound[OF l] len len' by linarith+
    ultimately show "take z (drop (k * z) m') ! d = take z (drop (?l * z) m) ! d"
      by (simp only: nth_take[OF d] nth_drop)
  qed
  show "swap_at (elems z n m) i j = Some (elems z n m')"
    using ij elem by (auto simp: swap_at_Some elems_def nth_list_update intro!: nth_equalityI)
qed

lemma swap_bytes_elems:
  "length m = n * z \<Longrightarrow> i + k \<le> n \<Longrightarrow> j + k \<le> n \<Longrightarrow> swap_block m (i * z) (j * z) (k * z) = Some m' \<Longrightarrow>
    swap_block (elems z n m) i j k = Some (elems z n m') \<and> length m' = n * z"
proof (induction k arbitrary: m i j)
  case (Suc k)
  obtain m1 where 1: "swap_block m (i * z) (j * z) z = Some m1" and 2: "swap_block m1 ((i + 1) * z) ((j + 1) * z) (k * z) = Some m'"
    using Suc.prems(4) by (auto simp: swap_block_add Option.bind_eq_Some_conv add.commute)
  from swap_bytes_elem[OF Suc.prems(1) _ _ 1] Suc.prems(2,3) have
    "swap_at (elems z n m) i j = Some (elems z n m1)" "length m1 = n * z" by simp_all
  then show ?case using Suc.IH[OF _ _ _ 2] Suc.prems(2,3) by simp
qed simp

section \<open>Properties\<close>

text \<open>
  C23. The exchange functions exchange elements: on an array of \<open>n\<close> elements of \<open>z\<close> bytes, the function
  that \<open>exchange_func\<close> chooses from the address and the element size never makes a misaligned access
  and exchanges the bytes of two elements and no others; the one that \<open>rqsort\<close> takes for blocks
  exchanges two blocks of elements that do not overlap.
\<close>
theorem exchange_func_exchanges:
  fixes m :: "'a list"
  assumes "0 < z" and "length m = n * z" and "i + k \<le> n" and "j + k \<le> n" and "separate i j k"
  shows "(k = 1 \<longrightarrow> (\<exists>m'. exchange_func addr z addr m (i * z) (j * z) z = Some m' \<and> length m' = length m \<and>
      swap_at (elems z n m) i j = Some (elems z n m'))) \<and>
    (\<exists>m'. exchange_func addr (z OR 128) addr m (i * z) (j * z) (k * z) = Some m' \<and> length m' = length m \<and>
      swap_block (elems z n m) i j k = Some (elems z n m'))"
proof -
  have bound: "i * z + k * z \<le> length m" "j * z + k * z \<le> length m" "separate (i * z) (j * z) (k * z)"
    using mult_le_mono1[OF assms(3), of z] mult_le_mono1[OF assms(4), of z] assms(2,5)
      mult_le_mono1[of "i + k" j z] mult_le_mono1[of "j + k" i z]
    by (auto simp: separate_def add_mult_distrib)
  have "\<exists>ys. swap_block m (i * z) (j * z) (k * z) = Some ys \<and> within 0 (length m) m ys"
    using bound by (intro swap_block_safe) auto
  then obtain m' where m': "swap_block m (i * z) (j * z) (k * z) = Some m'" by blast
  from swap_bytes_elems[OF assms(2-4) m'] have el: "swap_block (elems z n m) i j k = Some (elems z n m')" "length m' = length m"
    using assms(2) by simp_all
  have run: "f = Some m'"
    if f: "f = exchange_units al (2 ^ e) (k * z div 2 ^ e) addr m (i * z) (j * z)"
      and w: "al dvd 2 ^ e" "e \<le> 4" "2 ^ e dvd (addr OR z) AND 15" for f al e
  proof -
    note low = low_bits_dvd[OF w(3,2)]
    have kz: "k * z div 2 ^ e * 2 ^ e = k * z" using low(2) by (simp add: dvd_mult)
    have "al dvd z" "al dvd addr" using w(1) low by (blast intro: dvd_trans)+
    then have al: "(addr + i * z) mod al = 0" "(addr + j * z) mod al = 0" "2 ^ e mod al = 0"
      using w(1) by (simp_all add: dvd_eq_mod_eq_0[symmetric])
    show ?thesis
      unfolding f using exchange_units_swap[OF al, of "k * z div 2 ^ e" m, unfolded kz, OF bound(3,1,2)] m' by simp
  qed
  have one: "exchange_func addr z addr m (i * z) (j * z) z = Some m'" if "k = 1"
  proof (rule exchange_func_units[of True z z addr])
    fix al e
    assume "\<And>(m :: 'a list) a b. exchange_func addr z addr m a b z = exchange_units al (2 ^ e) (z div 2 ^ e) addr m a b"
      "al dvd 2 ^ e" "e \<le> 4" "2 ^ e dvd (addr OR z) AND 15"
    then show ?thesis using run[of _ al e] that by simp
  qed (use assms(1) in auto)
  have low: "(addr OR (z OR 128)) AND 15 = (addr OR z) AND 15" by (simp add: and_15 take_bit_or or.assoc[symmetric])
  have "int 128 \<le> int (z OR 128)" using or_greater_eq[of "int z" 128] by (simp add: of_nat_or_eq or.commute)
  then have big: "16 < z OR 128" by linarith
  have many: "exchange_func addr (z OR 128) addr m (i * z) (j * z) (k * z) = Some m'"
  proof (rule exchange_func_units[of False "k * z" "z OR 128" addr])
    fix al e
    assume "\<And>(m :: 'a list) a b. exchange_func addr (z OR 128) addr m a b (k * z) = exchange_units al (2 ^ e) (k * z div 2 ^ e) addr m a b"
      "al dvd 2 ^ e" "e \<le> 4" "2 ^ e dvd (addr OR (z OR 128)) AND 15"
    then show ?thesis using run[of _ al e] low by simp
  qed (use big in auto)
  show ?thesis using el one many swap_block_1[of "elems z n m" i j] by auto
qed

theorem exchange_func_exchanges_witness:
  "exchange_func 4 2 4 [1, 2, 3, 4, 5, 6, 7, 8 :: u8] 2 6 2 = Some [1, 2, 7, 8, 5, 6, 3, 4] \<and>
   swap_at (elems 2 4 [1, 2, 3, 4, 5, 6, 7, 8 :: u8]) 1 3 = Some [[1, 2], [7, 8], [5, 6], [3, 4]] \<and>
   (\<exists>m'. exchange_func 4 2 4 [1, 2, 3, 4, 5, 6, 7, 8 :: u8] (1 * 2) (3 * 2) 2 = Some m' \<and>
     swap_at (elems 2 4 [1, 2, 3, 4, 5, 6, 7, 8]) 1 3 = Some (elems 2 4 m'))"
proof -
  have "(1::nat) + 1 \<le> 4" "(3::nat) + 1 \<le> 4" "separate 1 3 1" by (simp_all add: separate_def)
  from exchange_func_exchanges[OF _ _ this, of 2 "[1, 2, 3, 4, 5, 6, 7, 8 :: u8]" 4] have
    "\<exists>m'. exchange_func 4 2 4 [1, 2, 3, 4, 5, 6, 7, 8 :: u8] (1 * 2) (3 * 2) 2 = Some m' \<and>
     swap_at (elems 2 4 [1, 2, 3, 4, 5, 6, 7, 8]) 1 3 = Some (elems 2 4 m')" by auto
  moreover have "exchange_func 4 2 4 [1, 2, 3, 4, 5, 6, 7, 8 :: u8] 2 6 2 = Some [1, 2, 7, 8, 5, 6, 3, 4]" by code_simp
  moreover have "swap_at (elems 2 4 [1, 2, 3, 4, 5, 6, 7, 8 :: u8]) 1 3 = Some [[1, 2], [7, 8], [5, 6], [3, 4]]" by code_simp
  ultimately show ?thesis by blast
qed

end
