(* ===== verification/Cutils_Sorted.thy ===== *)
theory Cutils_Sorted
  imports Cutils_Sort
begin

text \<open>
  What \<open>rqsort\<close> computes when the comparison function is consistent: the interface \<open>comparison\<close>
  states the contract, the lemmas under it that each part of the sort establishes its order.
\<close>

section \<open>The contract of a comparison function\<close>

definition sorted_seg :: "('a \<Rightarrow> 'a \<Rightarrow> bool) \<Rightarrow> nat \<Rightarrow> nat \<Rightarrow> 'a list \<Rightarrow> bool" where
  "sorted_seg le a b xs \<longleftrightarrow> (\<forall>i j. a \<le> i \<and> i < j \<and> j < b \<longrightarrow> le (xs ! i) (xs ! j))"

definition child :: "nat \<Rightarrow> nat \<Rightarrow> bool" where
  "child p c \<longleftrightarrow> c = p * 2 + 1 \<or> c = p * 2 + 2"

lemma child_less: "child p c \<Longrightarrow> p < c"
  by (auto simp: child_def)

lemma child_unique: "child p c \<Longrightarrow> child q c \<Longrightarrow> p = q"
  unfolding child_def by presburger

text \<open>Every parent from \<open>l\<close> on is at least as great as its children among the first \<open>n\<close> elements.\<close>

definition heap_from :: "('a \<Rightarrow> 'a \<Rightarrow> bool) \<Rightarrow> nat \<Rightarrow> nat \<Rightarrow> nat \<Rightarrow> 'a list \<Rightarrow> bool" where
  "heap_from le base l n xs \<longleftrightarrow> (\<forall>p c. l \<le> p \<and> child p c \<and> c < n \<longrightarrow> le (xs ! (base + c)) (xs ! (base + p)))"

text \<open>The four parts of the array around the pivot \<open>p\<close> during a partition.\<close>

definition low_part :: "('a \<Rightarrow> 'a \<Rightarrow> bool) \<Rightarrow> 'a \<Rightarrow> nat \<Rightarrow> nat \<Rightarrow> nat \<Rightarrow> 'a list \<Rightarrow> bool" where
  "low_part le p ptr lt i xs \<longleftrightarrow>
     (\<forall>k<lt. le (xs ! (ptr + k)) p \<and> le p (xs ! (ptr + k))) \<and> (\<forall>k. lt \<le> k \<and> k < i \<longrightarrow> le (xs ! (ptr + k)) p)"

definition high_part :: "('a \<Rightarrow> 'a \<Rightarrow> bool) \<Rightarrow> 'a \<Rightarrow> nat \<Rightarrow> nat \<Rightarrow> nat \<Rightarrow> nat \<Rightarrow> 'a list \<Rightarrow> bool" where
  "high_part le p ptr j gt n xs \<longleftrightarrow>
     (\<forall>k. j \<le> k \<and> k < gt \<longrightarrow> le p (xs ! (ptr + k))) \<and>
     (\<forall>k. gt \<le> k \<and> k < n \<longrightarrow> le (xs ! (ptr + k)) p \<and> le p (xs ! (ptr + k)))"

text \<open>
  Between two rounds, two elements are in order or lie in a common segment still to be sorted, and
  these segments do not overlap.
\<close>

definition in_seg :: "segment \<Rightarrow> nat \<Rightarrow> bool" where
  "in_seg e i \<longleftrightarrow> fst e \<le> i \<and> i < fst e + fst (snd e)"

definition sorted_mod :: "('a \<Rightarrow> 'a \<Rightarrow> bool) \<Rightarrow> segment set \<Rightarrow> 'a list \<Rightarrow> bool" where
  "sorted_mod le S xs \<longleftrightarrow>
     (\<forall>i j. i < j \<and> j < length xs \<longrightarrow> le (xs ! i) (xs ! j) \<or> (\<exists>e\<in>S. in_seg e i \<and> in_seg e j))"

definition apart :: "segment \<Rightarrow> segment set \<Rightarrow> bool" where
  "apart e S \<longleftrightarrow> (\<forall>f\<in>S. \<forall>i. \<not> (in_seg e i \<and> in_seg f i))"

primrec all_apart :: "segment list \<Rightarrow> bool" where
  "all_apart [] = True"
| "all_apart (e # st) = (apart e (set st) \<and> all_apart st)"

lemma in_seg_simp [simp]: "in_seg (b, n, d) i \<longleftrightarrow> b \<le> i \<and> i < b + n"
  by (simp add: in_seg_def)

lemma apart_sub: "apart e S \<Longrightarrow> (\<And>i. in_seg f i \<Longrightarrow> in_seg e i) \<Longrightarrow> apart f S"
  by (auto simp: apart_def)

text \<open>A segment may be replaced by the parts of it that are still to be sorted.\<close>

lemma sorted_mod_refine:
  assumes s: "sorted_mod le (insert (p, n, d) S) xs" and a: "apart (p, n, d) S" and w: "within p n xs ys"
    and new: "\<And>i j. p \<le> i \<Longrightarrow> i < j \<Longrightarrow> j < p + n \<Longrightarrow> le (ys ! i) (ys ! j) \<or> (\<exists>e\<in>T. in_seg e i \<and> in_seg e j)"
  shows "sorted_mod le (T \<union> S) ys"
  unfolding sorted_mod_def
proof (intro allI impI)
  fix i j assume ij: "i < j \<and> j < length ys"
  note len = within_length[OF w]
  have old: "le (xs ! a) (xs ! b) \<or> (p \<le> a \<and> b < p + n) \<or> (\<exists>e\<in>S. in_seg e a \<and> in_seg e b)" if "a < b" "b < length xs" for a b
    using s that unfolding sorted_mod_def by fastforce
  have off: "\<not> in_seg e k" if "e \<in> S" "p \<le> k" "k < p + n" for e k using a that by (auto simp: apart_def)
  let ?in = "\<lambda>k. p \<le> k \<and> k < p + n"
  consider "?in i" "?in j" | "?in i" "\<not> ?in j" | "\<not> ?in i" "?in j" | "\<not> ?in i" "\<not> ?in j" by blast
  then show "le (ys ! i) (ys ! j) \<or> (\<exists>e\<in>T \<union> S. in_seg e i \<and> in_seg e j)"
  proof cases
    case 1
    then show ?thesis using new[of i j] ij by blast
  next
    case 2
    obtain k where k: "p \<le> k" "k < p + n" "ys ! i = xs ! k" using within_elem[OF w, of i] 2 ij len by auto
    have "ys ! j = xs ! j" using within_nth[OF w, of j] 2 ij len by auto
    moreover have "p + n \<le> j" using 2 ij by auto
    then have "le (xs ! k) (xs ! j)" using old[of k j] k ij len off[of _ k] by auto
    ultimately show ?thesis using k by simp
  next
    case 3
    obtain k where k: "p \<le> k" "k < p + n" "k < length xs" "ys ! j = xs ! k" using within_elem[OF w, of j] 3 ij len by auto
    have "ys ! i = xs ! i" using within_nth[OF w, of i] 3 ij len by auto
    moreover have "i < p" using 3 ij by auto
    then have "le (xs ! i) (xs ! k)" using old[of i k] k off[of _ k] by auto
    ultimately show ?thesis using k by simp
  next
    case 4
    have "ys ! i = xs ! i" "ys ! j = xs ! j" using within_nth[OF w] 4 ij len by auto
    moreover have "\<not> (p \<le> i \<and> j < p + n)" using 4 ij by auto
    ultimately show ?thesis using old[of i j] ij len by auto
  qed
qed

text \<open>The comparison may change its state; \<open>good\<close> is an invariant of the state.\<close>

locale keeps_state =
  fixes cmp :: "('a, 's) cmp_f" and good :: "'s \<Rightarrow> bool"
  assumes cmp_good: "good s \<Longrightarrow> good (snd (cmp a b s))"
begin

lemma cmp_at_good: "cmp_at cmp xs i j s = Some (c, s') \<Longrightarrow> good s \<Longrightarrow> good s'"
  using cmp_good[of s "xs ! i" "xs ! j"] by (auto simp: cmp_at_def Option.bind_eq_Some_conv)

text \<open>Every part of the sort keeps the invariant.\<close>

lemma insert_back_good: "insert_back cmp ptr j xs s = Some (ys, s') \<Longrightarrow> good s \<Longrightarrow> good s'"
  by (induction j arbitrary: xs s) (auto simp: Option.bind_eq_Some_conv split: if_splits dest: cmp_at_good)

lemma insertion_sort_good: "insertion_sort cmp ptr i k xs s = Some (ys, s') \<Longrightarrow> good s \<Longrightarrow> good s'"
  by (induction k arbitrary: i xs s) (auto simp: Option.bind_eq_Some_conv dest: insert_back_good)

lemma heap_child_good: "heap_child cmp base n c xs s = Some (c', s') \<Longrightarrow> good s \<Longrightarrow> good s'"
  by (auto simp: heap_child_def Option.bind_eq_Some_conv split: if_splits dest: cmp_at_good)

lemma heap_sift_good: "heap_sift cmp base n r xs s = Some (ys, s') \<Longrightarrow> good s \<Longrightarrow> good s'"
proof (induction "n - r" arbitrary: r xs s rule: less_induct)
  case less
  from less.prems(1) consider "s' = s"
    | c s1 k s2 where "heap_child cmp base n (r * 2 + 1) xs s = Some (c, s1)" "cmp_at cmp xs (base + r) (base + c) s1 = Some (k, s2)" "s' = s2"
    | c s1 k s2 xs1 where "r * 2 + 1 < n" "heap_child cmp base n (r * 2 + 1) xs s = Some (c, s1)"
      "cmp_at cmp xs (base + r) (base + c) s1 = Some (k, s2)" "heap_sift cmp base n c xs1 s2 = Some (ys, s')"
    by (subst (asm) heap_sift.simps) (auto simp: Option.bind_eq_Some_conv split: if_splits)
  then show ?case
  proof cases
    case 3
    then have "n - c < n - r" using heap_child_ge[OF 3(2)] by simp
    then show ?thesis using less.hyps 3 less.prems(2) heap_child_good cmp_at_good by blast
  qed (use less.prems(2) heap_child_good cmp_at_good in blast)+
qed

lemma heap_build_good: "heap_build cmp base n i xs s = Some (ys, s') \<Longrightarrow> good s \<Longrightarrow> good s'"
  by (induction i arbitrary: xs s) (auto simp: Option.bind_eq_Some_conv dest: heap_sift_good)

lemma heap_extract_good: "heap_extract cmp base i xs s = Some (ys, s') \<Longrightarrow> good s \<Longrightarrow> good s'"
  by (induction i arbitrary: xs s) (auto simp: Option.bind_eq_Some_conv dest: heap_sift_good)

lemma heapsortx_good: "heapsortx cmp base n xs s = Some (ys, s') \<Longrightarrow> good s \<Longrightarrow> good s'"
  by (auto simp: heapsortx_def Option.bind_eq_Some_conv split: if_splits dest: heap_build_good heap_extract_good)

lemma med3_good: "med3 cmp xs a b c s = Some (m, s') \<Longrightarrow> good s \<Longrightarrow> good s'"
  by (auto simp: med3_def Option.bind_eq_Some_conv split: if_splits dest!: cmp_at_good)

lemma scan_up_good: "scan_up cmp ptr j i lt xs s = Some (i', lt', ys, s') \<Longrightarrow> good s \<Longrightarrow> good s'"
proof (induction "j - i" arbitrary: i lt xs s rule: less_induct)
  case less
  from less.prems(1) consider "s' = s"
    | c where "cmp_at cmp xs ptr (ptr + i) s = Some (c, s')"
    | c s1 lt1 xs1 where "i < j" "cmp_at cmp xs ptr (ptr + i) s = Some (c, s1)" "scan_up cmp ptr j (i + 1) lt1 xs1 s1 = Some (i', lt', ys, s')"
    by (subst (asm) scan_up.simps) (auto simp: Option.bind_eq_Some_conv split: if_splits)
  then show ?case
  proof cases
    case 3
    then have "j - (i + 1) < j - i" by simp
    then show ?thesis using less.hyps 3 less.prems(2) cmp_at_good by blast
  qed (use less.prems(2) cmp_at_good in blast)+
qed

lemma scan_down_good: "scan_down cmp ptr i j gt xs s = Some (j', gt', ys, s') \<Longrightarrow> good s \<Longrightarrow> good s'"
  by (induction j arbitrary: gt xs s) (auto simp: Option.bind_eq_Some_conv split: if_splits dest: cmp_at_good)

lemma partition_loop_good: "partition_loop cmp ptr i j lt gt xs s = Some (i', lt', gt', ys, s') \<Longrightarrow> good s \<Longrightarrow> good s'"
proof (induction "j - i" arbitrary: i j lt gt xs s rule: less_induct)
  case less
  note eq = less.prems(1)[unfolded partition_loop.simps[of cmp ptr i j lt gt xs s]]
  obtain i1 lt1 xs1 s1 where 1: "scan_up cmp ptr j i lt xs s = Some (i1, lt1, xs1, s1)"
    using eq by (cases "scan_up cmp ptr j i lt xs s") auto
  obtain j1 gt1 xs2 s2 where 2: "scan_down cmp ptr i1 j gt xs1 s1 = Some (j1, gt1, xs2, s2)"
    using eq 1 by (cases "scan_down cmp ptr i1 j gt xs1 s1") auto
  have r: "i1 \<ge> j1 \<and> s' = s2 \<or> i1 < j1 \<and> (\<exists>xs3. partition_loop cmp ptr (i1 + 1) j1 lt1 gt1 xs3 s2 = Some (i', lt', gt', ys, s'))"
  proof (cases "i1 \<ge> j1")
    case False
    then show ?thesis using eq 1 2 by (cases "swap_at xs2 (ptr + i1) (ptr + j1)") auto
  qed (use eq 1 2 in simp)
  have g: "good s2" using 1 2 less.prems(2) scan_up_good scan_down_good by blast
  have "i1 < j1 \<Longrightarrow> j1 - (i1 + 1) < j - i" using scan_up_bounds[OF 1] scan_down_bounds[OF 2] by linarith
  then show ?case using r g less.hyps by blast
qed

lemma partition_good: "partition cmp ptr n xs s = Some (lt, gt, ys, s') \<Longrightarrow> good s \<Longrightarrow> good s'"
  by (auto simp: partition_def Let_def Option.bind_eq_Some_conv dest!: med3_good partition_loop_good)

lemma segment_loop_good:
  "segment_loop cmp stack ptr n depth xs s = Some (stack', ptr', n', ys, s') \<Longrightarrow> good s \<Longrightarrow> good s'"
proof (induction "50 - depth" arbitrary: stack ptr n depth xs s rule: less_induct)
  case less
  note eq = less.prems(1)[unfolded segment_loop.simps[of cmp stack ptr n depth xs s]]
  show ?case
  proof (cases "n > 6 \<and> depth + 1 \<le> 50")
    case False
    then show ?thesis using eq less.prems(2) by (auto simp: Option.bind_eq_Some_conv split: if_splits dest: heapsortx_good)
  next
    case True
    obtain lt gt zs s1 where p: "partition cmp ptr n xs s = Some (lt, gt, zs, s1)"
      using eq True by (cases "partition cmp ptr n xs s") auto
    have "50 - (depth + 1) < 50 - depth" using True by linarith
    note IH = less.hyps[OF this _ partition_good[OF p less.prems(2)]]
    show ?thesis using eq p True IH by (auto split: if_splits)
  qed
qed

lemma rqsort_loop_good: "rqsort_loop cmp stack xs s = Some (ys, s') \<Longrightarrow> good s \<Longrightarrow> good s'"
proof -
  assume run: "rqsort_loop cmp stack xs s = Some (ys, s')" and g: "good s"
  have "cmp = cmp \<longrightarrow> good s \<longrightarrow> good (snd (ys, s'))"
    by (rule rqsort_loop.raw_induct[where P = "\<lambda>c stack xs s r. c = cmp \<longrightarrow> good s \<longrightarrow> good (snd r)", OF _ run])
      (fastforce simp: Option.bind_eq_Some_conv split: list.splits dest: segment_loop_good insertion_sort_good)
  then show ?thesis using g by simp
qed

lemma rqsort_good: "rqsort cmp elt_size xs s = Some (ys, s') \<Longrightarrow> good s \<Longrightarrow> good s'"
  using rqsort_loop_good by (auto simp: rqsort_def split: if_splits)

end

text \<open>Under the invariant, the answers are those of the total preorder \<open>le\<close>.\<close>

locale comparison = keeps_state +
  fixes le :: "'a \<Rightarrow> 'a \<Rightarrow> bool"
  assumes le_iff: "good s \<Longrightarrow> fst (cmp a b s) \<le> 0 \<longleftrightarrow> le a b"
    and ge_iff: "good s \<Longrightarrow> fst (cmp a b s) \<ge> 0 \<longleftrightarrow> le b a"
    and le_trans: "le a b \<Longrightarrow> le b c \<Longrightarrow> le a c"
    and le_refl: "le a a"
begin

lemma cmp_at_cases:
  assumes "cmp_at cmp xs i j s = Some (c, s')" and "good s"
  shows "c \<le> 0 \<longleftrightarrow> le (xs ! i) (xs ! j)" and "c \<ge> 0 \<longleftrightarrow> le (xs ! j) (xs ! i)" and "i < length xs" and "j < length xs"
proof -
  from assms have c: "cmp (xs ! i) (xs ! j) s = (c, s')" and "i < length xs" "j < length xs"
    by (auto simp: cmp_at_def Option.bind_eq_Some_conv)
  then show "c \<le> 0 \<longleftrightarrow> le (xs ! i) (xs ! j)" "c \<ge> 0 \<longleftrightarrow> le (xs ! j) (xs ! i)" "i < length xs" "j < length xs"
    using le_iff[OF assms(2), of "xs ! i" "xs ! j"] ge_iff[OF assms(2), of "xs ! i" "xs ! j"] by simp_all
qed

text \<open>Insertion: all but the element at \<open>j\<close> are in order, and it is not greater than those behind it.\<close>

lemma insert_back_sorts:
  assumes "insert_back cmp ptr j xs s = Some (ys, s')" and "ptr + j < b" and "b \<le> length xs"
    and "\<And>i k. ptr \<le> i \<Longrightarrow> i < k \<Longrightarrow> k < b \<Longrightarrow> i \<noteq> ptr + j \<Longrightarrow> k \<noteq> ptr + j \<Longrightarrow> le (xs ! i) (xs ! k)"
    and "\<And>k. ptr + j < k \<Longrightarrow> k < b \<Longrightarrow> le (xs ! (ptr + j)) (xs ! k)" and "good s"
  shows "sorted_seg le ptr b ys"
  using assms
proof (induction j arbitrary: xs s)
  case 0
  show ?case unfolding sorted_seg_def
  proof (intro allI impI)
    fix i k assume "ptr \<le> i \<and> i < k \<and> k < b"
    then show "le (ys ! i) (ys ! k)" using 0 by (cases "i = ptr") auto
  qed
next
  case (Suc j)
  obtain c s1 where c: "cmp_at cmp xs (ptr + j) (ptr + Suc j) s = Some (c, s1)"
    using Suc.prems(1) by (auto simp: Option.bind_eq_Some_conv)
  note C = cmp_at_cases[OF c Suc.prems(6)]
  show ?case
  proof (cases "c > 0")
    case True
    let ?xs = "xs[ptr + Suc j := xs ! (ptr + j), ptr + j := xs ! (ptr + Suc j)]"
    have "swap_at xs (ptr + Suc j) (ptr + j) = Some ?xs" using C by (simp add: swap_at_Some)
    then have rec: "insert_back cmp ptr j ?xs s1 = Some (ys, s')" using Suc.prems(1) True c by simp
    have gt: "le (xs ! (ptr + Suc j)) (xs ! (ptr + j))" using C(2) True by simp
    show ?thesis
    proof (rule Suc.IH[OF rec])
      show "ptr + j < b" "b \<le> length ?xs" using Suc.prems by simp_all
      show "le (?xs ! i) (?xs ! k)" if "ptr \<le> i" "i < k" "k < b" "i \<noteq> ptr + j" "k \<noteq> ptr + j" for i k
      proof -
        consider "i = ptr + Suc j" | "k = ptr + Suc j" | "i \<noteq> ptr + Suc j" "k \<noteq> ptr + Suc j" by blast
        then show ?thesis
          using that C(3,4) Suc.prems(4)[of "ptr + j" k] Suc.prems(4)[of i "ptr + j"] Suc.prems(4)[of i k] by cases auto
      qed
      show "le (?xs ! (ptr + j)) (?xs ! k)" if "ptr + j < k" "k < b" for k
        using that C(3,4) gt Suc.prems(5)[of k] by (cases "k = ptr + Suc j") auto
      show "good s1" using cmp_at_good[OF c Suc.prems(6)] .
    qed
  next
    case False
    then have ys: "ys = xs" using Suc.prems(1) c by simp
    have le: "le (xs ! (ptr + j)) (xs ! (ptr + Suc j))" using False C(1) by simp
    show ?thesis unfolding sorted_seg_def ys
    proof (intro allI impI)
      fix i k assume ik: "ptr \<le> i \<and> i < k \<and> k < b"
      consider "i = ptr + Suc j" | "k = ptr + Suc j" "i = ptr + j" | "k = ptr + Suc j" "i < ptr + j"
        | "i \<noteq> ptr + Suc j" "k \<noteq> ptr + Suc j" using ik by linarith
      then show "le (xs ! i) (xs ! k)"
      proof cases
        case 3
        then have "le (xs ! i) (xs ! (ptr + j))" using ik Suc.prems by simp
        then show ?thesis using le le_trans 3 by blast
      qed (use ik le Suc.prems in auto)
    qed
  qed
qed

lemma insertion_sort_sorts:
  "insertion_sort cmp ptr i k xs s = Some (ys, s') \<Longrightarrow> ptr + i + k \<le> length xs \<Longrightarrow> sorted_seg le ptr (ptr + i) xs \<Longrightarrow> good s \<Longrightarrow>
    sorted_seg le ptr (ptr + i + k) ys"
proof (induction k arbitrary: i xs s)
  case (Suc k)
  obtain xs1 s1 where 1: "insert_back cmp ptr i xs s = Some (xs1, s1)"
    and 2: "insertion_sort cmp ptr (i + 1) k xs1 s1 = Some (ys, s')"
    using Suc.prems(1) by (auto simp: Option.bind_eq_Some_conv)
  have "sorted_seg le ptr (ptr + i + 1) xs1"
    by (rule insert_back_sorts[OF 1]) (use Suc.prems in \<open>auto simp: sorted_seg_def\<close>)
  moreover have "length xs1 = length xs"
    using insert_back_safe[of ptr "i + 1" xs i cmp s] 1 Suc.prems(2) within_length by fastforce
  ultimately show ?case using Suc.IH[OF 2 _ _ insert_back_good[OF 1 Suc.prems(4)]] Suc.prems(2) by (simp add: add.assoc)
qed simp

text \<open>Heap sort: the child that is compared is a greatest one.\<close>

lemma heap_child_greater:
  assumes "heap_child cmp base n (r * 2 + 1) xs s = Some (c, s')" and "r * 2 + 1 < n" and "good s"
  shows "c = r * 2 + 1 \<or> c = r * 2 + 2" and "c < n"
    and "r * 2 + 1 < n \<Longrightarrow> le (xs ! (base + (r * 2 + 1))) (xs ! (base + c))"
    and "r * 2 + 2 < n \<Longrightarrow> le (xs ! (base + (r * 2 + 2))) (xs ! (base + c))"
proof -
  have *: "(c = r * 2 + 1 \<or> c = r * 2 + 2) \<and> c < n \<and> le (xs ! (base + (r * 2 + 1))) (xs ! (base + c)) \<and>
      (r * 2 + 2 < n \<longrightarrow> le (xs ! (base + (r * 2 + 2))) (xs ! (base + c)))"
  proof (cases "r * 2 + 1 < n - 1")
    case True
    obtain k s1 where k: "cmp_at cmp xs (base + (r * 2 + 1)) (base + (r * 2 + 1) + 1) s = Some (k, s1)"
      and c: "c = (if k \<le> 0 then r * 2 + 1 + 1 else r * 2 + 1)"
      using assms(1) True by (auto simp: heap_child_def Option.bind_eq_Some_conv)
    show ?thesis using cmp_at_cases(1,2)[OF k assms(3)] c True le_refl by (auto simp: add.assoc)
  next
    case False
    then show ?thesis using assms le_refl by (auto simp: heap_child_def)
  qed
  then show "c = r * 2 + 1 \<or> c = r * 2 + 2" "c < n" "r * 2 + 1 < n \<Longrightarrow> le (xs ! (base + (r * 2 + 1))) (xs ! (base + c))"
    "r * 2 + 2 < n \<Longrightarrow> le (xs ! (base + (r * 2 + 2))) (xs ! (base + c))" by blast+
qed

text \<open>Sifting repairs a heap that is broken at \<open>r\<close> only, where the children of \<open>r\<close> fit under its parent.\<close>

lemma heap_sift_heap:
  "heap_sift cmp base n r xs s = Some (ys, s') \<Longrightarrow> base + n \<le> length xs \<Longrightarrow> r < n \<Longrightarrow> l \<le> r \<Longrightarrow>
    (\<And>p c. l \<le> p \<Longrightarrow> child p c \<Longrightarrow> c < n \<Longrightarrow> p \<noteq> r \<Longrightarrow> le (xs ! (base + c)) (xs ! (base + p))) \<Longrightarrow>
    (\<And>p c. l \<le> p \<Longrightarrow> child p r \<Longrightarrow> child r c \<Longrightarrow> c < n \<Longrightarrow> le (xs ! (base + c)) (xs ! (base + p))) \<Longrightarrow> good s \<Longrightarrow>
    heap_from le base l n ys"
proof (induction "n - r" arbitrary: r xs s rule: less_induct)
  case less
  note H1 = less.prems(5) and H2 = less.prems(6)
  show ?case
  proof (cases "r * 2 + 1 < n")
    case False
    then have "ys = xs" using less.prems(1) by (subst (asm) heap_sift.simps) simp
    moreover have "\<not> (child r c \<and> c < n)" for c using False by (auto simp: child_def)
    ultimately show ?thesis unfolding heap_from_def using H1 by metis
  next
    case True
    obtain c s1 where c: "heap_child cmp base n (r * 2 + 1) xs s = Some (c, s1)"
      using less.prems(1) True by (subst (asm) heap_sift.simps) (auto simp: Option.bind_eq_Some_conv)
    obtain k s2 where k: "cmp_at cmp xs (base + r) (base + c) s1 = Some (k, s2)"
      using less.prems(1) True c by (subst (asm) heap_sift.simps) (auto simp: Option.bind_eq_Some_conv)
    have g: "good s1" "good s2" using heap_child_good[OF c less.prems(7)] cmp_at_good[OF k] by simp_all
    note G = heap_child_greater[OF c True less.prems(7)] and K = cmp_at_cases[OF k g(1)]
    have cc: "child r c" using G(1) by (simp add: child_def)
    have big: "le (xs ! (base + d)) (xs ! (base + c))" if "child r d" "d < n" for d
      using that G(3,4) by (auto simp: child_def)
    show ?thesis
    proof (cases "k > 0")
      case stop: True
      then have "ys = xs" using less.prems(1) True c k by (subst (asm) heap_sift.simps) simp
      moreover have "le (xs ! (base + c)) (xs ! (base + r))" using K(2) stop by simp
      ultimately show ?thesis unfolding heap_from_def using H1 big le_trans by metis
    next
      case swap: False
      let ?xs = "xs[base + r := xs ! (base + c), base + c := xs ! (base + r)]"
      have "heap_sift cmp base n c ?xs s2 = Some (ys, s')"
        using less.prems(1) True c k swap K(3,4) by (subst (asm) heap_sift.simps) (simp add: swap_at_Some)
      moreover have "n - c < n - r" using G(2) child_less[OF cc] by simp
      moreover have "base + n \<le> length ?xs" "l \<le> c" using less.prems child_less[OF cc] by simp_all
      moreover have le_rc: "le (xs ! (base + r)) (xs ! (base + c))" using K(1) swap by simp
      moreover have at: "?xs ! (base + r) = xs ! (base + c)" "?xs ! (base + c) = xs ! (base + r)"
        "\<And>d. d \<noteq> r \<Longrightarrow> d \<noteq> c \<Longrightarrow> ?xs ! (base + d) = xs ! (base + d)"
        using K(3,4) child_less[OF cc] by auto
      moreover have "le (?xs ! (base + d)) (?xs ! (base + p))" if p: "l \<le> p" "child p d" "d < n" "p \<noteq> c" for p d
      proof (cases "p = r")
        case True
        then show ?thesis using p big le_rc at child_less[OF p(2)] by (cases "d = c") auto
      next
        case False
        then have "d \<noteq> c" using p(2) cc child_unique by blast
        then show ?thesis using p False at H1[of p d] H2[of p c] cc G(2) by (cases "d = r") auto
      qed
      moreover have "le (?xs ! (base + d)) (?xs ! (base + p))" if p: "l \<le> p" "child p c" "child c d" "d < n" for p d
      proof -
        have "p = r" using p(2) cc child_unique by blast
        moreover have "c < d" "r < c" using p(3) cc child_less by blast+
        ultimately show ?thesis using at H1[of c d] p less.prems(4) by auto
      qed
      ultimately show ?thesis using less.hyps[of c ?xs s2] G(2) g(2) by blast
    qed
  qed
qed

lemma heap_build_heap:
  "heap_build cmp base n i xs s = Some (ys, s') \<Longrightarrow> base + n \<le> length xs \<Longrightarrow> i \<le> n \<Longrightarrow> heap_from le base i n xs \<Longrightarrow> good s \<Longrightarrow>
    heap_from le base 0 n ys"
proof (induction i arbitrary: xs s)
  case (Suc i)
  obtain xs1 s1 where 1: "heap_sift cmp base n i xs s = Some (xs1, s1)" and 2: "heap_build cmp base n i xs1 s1 = Some (ys, s')"
    using Suc.prems(1) by (auto simp: Option.bind_eq_Some_conv)
  have "heap_from le base i n xs1"
    by (rule heap_sift_heap[OF 1 Suc.prems(2)])
      (use Suc.prems(3-5) in \<open>auto simp: heap_from_def dest: child_less\<close>)
  moreover have "length xs1 = length xs"
    using heap_sift_safe[of base n xs i cmp s] 1 Suc.prems(2,3) within_length by fastforce
  ultimately show ?case using Suc.IH[OF 2] Suc.prems heap_sift_good[OF 1] by simp
qed simp

lemma heap_root_max: "heap_from le base 0 n xs \<Longrightarrow> c < n \<Longrightarrow> le (xs ! (base + c)) (xs ! base)"
proof (induction c rule: less_induct)
  case (less c)
  show ?case
  proof (cases "c = 0")
    case False
    define p where "p = (c - 1) div 2"
    have p: "child p c" unfolding child_def p_def using False by presburger
    then have "le (xs ! (base + c)) (xs ! (base + p))" using less.prems by (auto simp: heap_from_def)
    moreover have "le (xs ! (base + p)) (xs ! base)" using less child_less[OF p] by simp
    ultimately show ?thesis by (rule le_trans)
  qed (simp add: le_refl)
qed

text \<open>After the extraction of a maximum, the elements behind the heap are in order and above it.\<close>

lemma heap_extract_sorts:
  "heap_extract cmp base i xs s = Some (ys, s') \<Longrightarrow> base + n \<le> length xs \<Longrightarrow> i < n \<Longrightarrow>
    heap_from le base 0 (i + 1) xs \<Longrightarrow> sorted_seg le (base + i + 1) (base + n) xs \<Longrightarrow>
    (\<And>c k. c \<le> i \<Longrightarrow> i < k \<Longrightarrow> k < n \<Longrightarrow> le (xs ! (base + c)) (xs ! (base + k))) \<Longrightarrow> good s \<Longrightarrow>
    sorted_seg le base (base + n) ys"
proof (induction i arbitrary: xs s)
  case 0
  show ?case unfolding sorted_seg_def
  proof (intro allI impI)
    fix a b assume ab: "base \<le> a \<and> a < b \<and> b < base + n"
    then obtain k where "b = base + k" "0 < k" "k < n" 
      by (intro that[of "b - base"]) auto
    then show "le (ys ! a) (ys ! b)" using 0 ab by (cases "a = base") (auto simp: sorted_seg_def)
  qed
next
  case (Suc i)
  let ?xs = "xs[base := xs ! (base + Suc i), base + Suc i := xs ! base]"
  have "swap_at xs base (base + Suc i) = Some ?xs" using Suc.prems(2,3) by (simp add: swap_at_Some)
  then obtain xs1 s1 where 1: "heap_sift cmp base (Suc i) 0 ?xs s = Some (xs1, s1)" and 2: "heap_extract cmp base i xs1 s1 = Some (ys, s')"
    using Suc.prems(1) by (auto simp: Option.bind_eq_Some_conv)
  have at: "?xs ! (base + Suc i) = xs ! base" "?xs ! base = xs ! (base + Suc i)"
    "\<And>d. d \<noteq> base \<Longrightarrow> d \<noteq> base + Suc i \<Longrightarrow> ?xs ! d = xs ! d"
    using Suc.prems(2,3) by auto
  have heap: "heap_from le base 0 (i + 1) xs1"
  proof -
    have len: "base + Suc i \<le> length ?xs" using Suc.prems(2,3) by simp
    have "le (?xs ! (base + c)) (?xs ! (base + p))" if "child p c" "c < Suc i" "p \<noteq> 0" for p c
      using that Suc.prems(4) at(3)[of "base + c"] at(3)[of "base + p"] child_less[OF that(1)] by (auto simp: heap_from_def)
    then have "heap_from le base 0 (Suc i) xs1"
      by (intro heap_sift_heap[OF 1 len]) (use Suc.prems(7) in \<open>auto dest: child_less\<close>)
    then show ?thesis by simp
  qed
  obtain ys1 s2 where "heap_sift cmp base (Suc i) 0 ?xs s = Some (ys1, s2)" "within base (Suc i) ?xs ys1"
    using heap_sift_safe[of base "Suc i" ?xs 0 cmp s] Suc.prems(2,3) by auto
  with 1 have w: "within base (Suc i) ?xs xs1" by simp
  have len: "length xs1 = length xs" using within_length[OF w] by simp
  have out: "xs1 ! (base + k) = ?xs ! (base + k)" if "Suc i \<le> k" "k < n" for k
    using within_nth[OF w, of "base + k"] that Suc.prems(2) by simp
  have top: "le (xs1 ! (base + c)) (xs1 ! (base + k))" if c: "c \<le> i" and k: "i < k" "k < n" for c k
  proof -
    obtain d where d: "base \<le> d" "d < base + Suc i" "xs1 ! (base + c) = ?xs ! d"
      using within_elem[OF w, of "base + c"] c Suc.prems(2,3) by auto
    have "\<exists>e \<le> Suc i. xs1 ! (base + c) = xs ! (base + e)"
    proof (cases "d = base")
      case True
      then show ?thesis using d(3) at(2) by auto
    next
      case False
      then show ?thesis using d at(3)[of d] by (intro exI[of _ "d - base"]) auto
    qed
    then obtain e where e: "e \<le> Suc i" "xs1 ! (base + c) = xs ! (base + e)" by blast
    show ?thesis
    proof (cases "k = Suc i")
      case True
      then show ?thesis using heap_root_max[OF Suc.prems(4), of e] e out[of k] k at(1) by simp
    next
      case False
      then show ?thesis using Suc.prems(6)[of e k] e k out[of k] at(3)[of "base + k"] by simp
    qed
  qed
  have tail: "sorted_seg le (base + i + 1) (base + n) xs1" unfolding sorted_seg_def
  proof (intro allI impI)
    fix a b assume ab: "base + i + 1 \<le> a \<and> a < b \<and> b < base + n"
    define j k where "j = a - base" and "k = b - base"
    have jk: "a = base + j" "b = base + k" "Suc i \<le> j" "j < k" "k < n" using ab by (auto simp: j_def k_def)
    have "le (?xs ! (base + j)) (?xs ! (base + k))"
    proof (cases "j = Suc i")
      case True
      then show ?thesis using Suc.prems(6)[of 0 k] jk at(1) at(3)[of "base + k"] by simp
    next
      case False
      then show ?thesis using Suc.prems(5) jk at(3)[of "base + j"] at(3)[of "base + k"] by (simp add: sorted_seg_def)
    qed
    then show "le (xs1 ! a) (xs1 ! b)" using out jk by simp
  qed
  show ?case
    by (rule Suc.IH[OF 2 _ _ heap tail top heap_sift_good[OF 1 Suc.prems(7)]]) (use Suc.prems(2,3) len in auto)
qed

lemma heapsortx_sorts:
  assumes "heapsortx cmp base n xs s = Some (ys, s')" and "base + n \<le> length xs" and "good s"
  shows "sorted_seg le base (base + n) ys"
proof (cases "n > 1")
  case True
  obtain xs1 s1 where 1: "heap_build cmp base n (n div 2) xs s = Some (xs1, s1)" and 2: "heap_extract cmp base (n - 1) xs1 s1 = Some (ys, s')"
    using assms(1) True by (auto simp: heapsortx_def Option.bind_eq_Some_conv)
  have "heap_from le base (n div 2) n xs" by (auto simp: heap_from_def child_def)
  from heap_build_heap[OF 1 assms(2) _ this assms(3)] have "heap_from le base 0 (n - 1 + 1) xs1" using True by simp
  moreover have "length xs1 = length xs"
    using heap_build_safe[OF assms(2), of "n div 2" cmp s] 1 within_length by fastforce
  moreover have "sorted_seg le (base + (n - 1) + 1) (base + n) xs1" using True by (auto simp: sorted_seg_def)
  ultimately show ?thesis
    using heap_extract_sorts[OF 2, of n] heap_build_good[OF 1 assms(3)] True assms(2) by auto
next
  case False
  then show ?thesis by (auto simp: sorted_seg_def)
qed

text \<open>Partition.\<close>

lemma scan_up_order:
  "scan_up cmp ptr j i lt xs s = Some (i', lt', ys, s') \<Longrightarrow> ptr + j \<le> length xs \<Longrightarrow> 1 \<le> lt \<Longrightarrow> lt \<le> i \<Longrightarrow> i \<le> j \<Longrightarrow>
    xs ! ptr = p \<Longrightarrow> low_part le p ptr lt i xs \<Longrightarrow> good s \<Longrightarrow>
    low_part le p ptr lt' i' ys \<and> ys ! ptr = p \<and> (i' = j \<or> le p (ys ! (ptr + i'))) \<and> (\<forall>k\<ge>j. ys ! (ptr + k) = xs ! (ptr + k))"
proof (induction "j - i" arbitrary: i lt xs s rule: less_induct)
  case less
  show ?case
  proof (cases "i < j")
    case False
    then have "i' = i \<and> lt' = lt \<and> ys = xs" using less.prems(1) by (subst (asm) scan_up.simps) simp
    then show ?thesis using less.prems False by simp
  next
    case True
    obtain c s1 where c: "cmp_at cmp xs ptr (ptr + i) s = Some (c, s1)"
      using less.prems(1) True by (subst (asm) scan_up.simps) (auto simp: Option.bind_eq_Some_conv)
    note C = cmp_at_cases[OF c less.prems(8)] and g = cmp_at_good[OF c less.prems(8)]
    have dec: "j - (i + 1) < j - i" using True by simp
    consider "c < 0" | "c > 0" | "c = 0" by linarith
    then show ?thesis
    proof cases
      case 1
      then have "i' = i \<and> lt' = lt \<and> ys = xs" using less.prems(1) True c by (subst (asm) scan_up.simps) simp
      moreover have "le p (xs ! (ptr + i))" using C(1) 1 less.prems(6) by simp
      ultimately show ?thesis using less.prems by simp
    next
      case 2
      then have "scan_up cmp ptr j (i + 1) lt xs s1 = Some (i', lt', ys, s')"
        using less.prems(1) True c by (subst (asm) scan_up.simps) simp
      moreover have "low_part le p ptr lt (i + 1) xs"
        using less.prems(6,7) C(2) 2 by (auto simp: low_part_def less_Suc_eq)
      ultimately show ?thesis using less.hyps[OF dec] less.prems True g by simp
    next
      case 3
      let ?xs = "xs[ptr + lt := xs ! (ptr + i), ptr + i := xs ! (ptr + lt)]"
      have len: "ptr + lt < length xs" "ptr + i < length xs" using less.prems True by simp_all
      have at: "?xs ! (ptr + k) = (if k = i then xs ! (ptr + lt) else if k = lt then xs ! (ptr + i) else xs ! (ptr + k))" for k
        using len by (simp add: nth_list_update)
      have "scan_up cmp ptr j (i + 1) (lt + 1) ?xs s1 = Some (i', lt', ys, s')"
        using less.prems(1) True c 3 len by (subst (asm) scan_up.simps) (simp add: swap_at_Some)
      moreover have "low_part le p ptr (lt + 1) (i + 1) ?xs"
      proof -
        have eq: "le (xs ! (ptr + i)) p" "le p (xs ! (ptr + i))" using C(1,2) 3 less.prems(6) by simp_all
        show ?thesis using less.prems(4,7) eq unfolding low_part_def at by (auto simp: less_Suc_eq)
      qed
      moreover have "?xs ! ptr = p" using at[of 0] less.prems(3,4,6) by simp
      moreover have "\<forall>k\<ge>j. ?xs ! (ptr + k) = xs ! (ptr + k)" using at less.prems(4) True by simp
      ultimately show ?thesis using less.hyps[OF dec, of "lt + 1" ?xs s1] less.prems True g by simp
    qed
  qed
qed

lemma scan_down_order:
  "scan_down cmp ptr i j gt xs s = Some (j', gt', ys, s') \<Longrightarrow> ptr + n \<le> length xs \<Longrightarrow> 1 \<le> i \<Longrightarrow> j \<le> gt \<Longrightarrow> gt \<le> n \<Longrightarrow>
    xs ! ptr = p \<Longrightarrow> high_part le p ptr j gt n xs \<Longrightarrow> good s \<Longrightarrow>
    high_part le p ptr (j' + 1) gt' n ys \<and> (j' \<le> i \<or> le (ys ! (ptr + j')) p) \<and> (\<forall>k\<le>i. ys ! (ptr + k) = xs ! (ptr + k))"
proof (induction j arbitrary: gt xs s)
  case (Suc j)
  show ?case
  proof (cases "i < j")
    case False
    then have "j' = j \<and> gt' = gt \<and> ys = xs" using Suc.prems(1) by simp
    then show ?thesis using Suc.prems False by simp
  next
    case True
    obtain c s1 where c: "cmp_at cmp xs ptr (ptr + j) s = Some (c, s1)"
      using Suc.prems(1) True by (auto simp: Option.bind_eq_Some_conv)
    note C = cmp_at_cases[OF c Suc.prems(8)] and g = cmp_at_good[OF c Suc.prems(8)]
    have le_Suc: "j \<le> k \<longleftrightarrow> k = j \<or> Suc j \<le> k" for k by auto
    consider "c > 0" | "c < 0" | "c = 0" by linarith
    then show ?thesis
    proof cases
      case 1
      then have "j' = j \<and> gt' = gt \<and> ys = xs" using Suc.prems(1) True c by simp
      moreover have "le (xs ! (ptr + j)) p" using C(2) 1 Suc.prems(6) by simp
      ultimately show ?thesis using Suc.prems by simp
    next
      case 2
      then have "scan_down cmp ptr i j gt xs s1 = Some (j', gt', ys, s')" using Suc.prems(1) True c by simp
      moreover have "high_part le p ptr j gt n xs"
        using Suc.prems(6,7) C(1) 2 unfolding high_part_def le_Suc by auto
      ultimately show ?thesis using Suc.IH Suc.prems g by simp
    next
      case 3
      let ?g = "gt - 1"
      let ?xs = "xs[ptr + ?g := xs ! (ptr + j), ptr + j := xs ! (ptr + ?g)]"
      have len: "ptr + ?g < length xs" "ptr + j < length xs" using Suc.prems True by simp_all
      have at: "?xs ! (ptr + k) = (if k = j then xs ! (ptr + ?g) else if k = ?g then xs ! (ptr + j) else xs ! (ptr + k))" for k
        using len by (simp add: nth_list_update)
      have sw: "swap_at xs (ptr + ?g) (ptr + j) = Some ?xs" using len by (simp only: swap_at_Some)
      have "scan_down cmp ptr i (Suc j) gt xs s = scan_down cmp ptr i j ?g ?xs s1"
        by (simp only: scan_down.simps True if_True c Option.bind.simps prod.case 3 sw order.refl simp_thms)
      then have rec: "scan_down cmp ptr i j ?g ?xs s1 = Some (j', gt', ys, s')" using Suc.prems(1) by (simp only:)
      have eq: "le (xs ! (ptr + j)) p" "le p (xs ! (ptr + j))" using C(1,2) 3 Suc.prems(6) by simp_all
      have "Suc j \<le> ?g \<Longrightarrow> le p (xs ! (ptr + ?g))"
        using Suc.prems(4,7) unfolding high_part_def by (elim conjE allE[of _ ?g]) simp
      then have high: "high_part le p ptr j ?g n ?xs"
        using Suc.prems(4,5,7) eq unfolding high_part_def at le_Suc by auto
      have nz: "0 \<noteq> j" "0 \<noteq> ?g" using Suc.prems(3,4) True by auto
      have "?xs ! (ptr + 0) = p" unfolding at using nz Suc.prems(6) by simp
      then have "?xs ! ptr = p" by (simp only: add_0_right)
      moreover have "\<forall>k\<le>i. ?xs ! (ptr + k) = xs ! (ptr + k)" unfolding at using Suc.prems(4) True by auto
      moreover have "ptr + n \<le> length ?xs" "j \<le> ?g" "?g \<le> n" using Suc.prems by simp_all
      ultimately show ?thesis using Suc.IH[OF rec _ Suc.prems(3) _ _ _ high g] by simp
    qed
  qed
qed simp

lemma partition_loop_order:
  "partition_loop cmp ptr i j lt gt xs s = Some (i', lt', gt', ys, s') \<Longrightarrow> ptr + n \<le> length xs \<Longrightarrow>
    1 \<le> lt \<Longrightarrow> lt \<le> i \<Longrightarrow> i \<le> j \<Longrightarrow> j \<le> gt \<Longrightarrow> gt \<le> n \<Longrightarrow>
    xs ! ptr = p \<Longrightarrow> low_part le p ptr lt i xs \<Longrightarrow> high_part le p ptr j gt n xs \<Longrightarrow> good s \<Longrightarrow>
    low_part le p ptr lt' i' ys \<and> high_part le p ptr i' gt' n ys"
proof (induction "j - i" arbitrary: i j lt gt xs s rule: less_induct)
  case less
  have jn: "j \<le> n" using less.prems by linarith
  from scan_up_safe[OF less.prems(2) jn less.prems(3-5), of cmp s] obtain i1 lt1 xs1 s1 where
    up: "scan_up cmp ptr j i lt xs s = Some (i1, lt1, xs1, s1)" "within ptr n xs xs1" "i \<le> i1" "i1 \<le> j" "lt \<le> lt1" "lt1 \<le> i1"
    by blast
  have len1: "ptr + n \<le> length xs1" and one: "1 \<le> i1" using less.prems up within_length[OF up(2)] by auto
  from scan_down_safe[OF len1 one up(4) less.prems(6,7), of cmp s1] obtain j1 gt1 xs2 s2 where
    down: "scan_down cmp ptr i1 j gt xs1 s1 = Some (j1, gt1, xs2, s2)" "within ptr n xs1 xs2" "j1 < j" "i1 \<le> j1 + 1" "j1 < gt1"
      "gt1 \<le> gt" "i1 \<le> gt1" by blast
  have len2: "ptr + n \<le> length xs2" using len1 within_length[OF down(2)] by simp
  have "ptr + j \<le> length xs" using jn less.prems(2) by linarith
  from scan_up_order[OF up(1) this less.prems(3-5,8,9,11)] have
    U: "low_part le p ptr lt1 i1 xs1" "xs1 ! ptr = p" "i1 = j \<or> le p (xs1 ! (ptr + i1))"
      "\<And>k. j \<le> k \<Longrightarrow> xs1 ! (ptr + k) = xs ! (ptr + k)" by auto
  have "high_part le p ptr j gt n xs1" using less.prems(6,10) U(4) by (auto simp: high_part_def)
  from scan_down_order[OF down(1) len1 one less.prems(6,7) U(2) this scan_up_good[OF up(1) less.prems(11)]] have
    D: "high_part le p ptr (j1 + 1) gt1 n xs2" "j1 \<le> i1 \<or> le (xs2 ! (ptr + j1)) p"
      "\<And>k. k \<le> i1 \<Longrightarrow> xs2 ! (ptr + k) = xs1 ! (ptr + k)" by auto
  have low2: "low_part le p ptr lt1 i1 xs2" using U(1) D(3) up(6) by (auto simp: low_part_def)
  have p2: "xs2 ! ptr = p" using D(3)[of 0] U(2) by simp
  show ?case
  proof (cases "i1 \<ge> j1")
    case True
    then have r: "i' = i1" "lt' = lt1" "gt' = gt1" "ys = xs2"
      using less.prems(1) up(1) down(1) by (subst (asm) partition_loop.simps, simp)+
    have "high_part le p ptr i1 gt1 n xs2"
    proof (cases "i1 = j1 + 1")
      case False
      then have "i1 = j1" using True down(4) by simp
      then have "le p (xs2 ! (ptr + i1))" using U(3) D(3)[of i1] down(3) by simp
      moreover have "i1 \<le> k \<longleftrightarrow> k = i1 \<or> j1 + 1 \<le> k" for k using \<open>i1 = j1\<close> by auto
      ultimately show ?thesis using D(1) unfolding high_part_def by auto
    qed (use D(1) in simp)
    then show ?thesis using low2 r by simp
  next
    case False
    let ?xs = "xs2[ptr + i1 := xs2 ! (ptr + j1), ptr + j1 := xs2 ! (ptr + i1)]"
    have len: "ptr + i1 < length xs2" "ptr + j1 < length xs2" using False down jn len2 by linarith+
    have at: "?xs ! (ptr + k) = (if k = j1 then xs2 ! (ptr + i1) else if k = i1 then xs2 ! (ptr + j1) else xs2 ! (ptr + k))" for k
      using len by (simp add: nth_list_update)
    have rec: "partition_loop cmp ptr (i1 + 1) j1 lt1 gt1 ?xs s2 = Some (i', lt', gt', ys, s')"
      using less.prems(1) up(1) down(1) False len by (subst (asm) partition_loop.simps) (simp add: swap_at_Some)
    have "le p (xs2 ! (ptr + i1))" using U(3) D(3)[of i1] False down(3) by auto
    moreover have "j1 \<le> k \<longleftrightarrow> k = j1 \<or> j1 + 1 \<le> k" for k by auto
    ultimately have "high_part le p ptr j1 gt1 n ?xs"
      using D(1) False down(5) unfolding high_part_def at by auto
    moreover have "low_part le p ptr lt1 (i1 + 1) ?xs"
      using low2 D(2) False up(6) unfolding low_part_def at by (auto simp: less_Suc_eq)
    moreover have "?xs ! ptr = p" using at[of 0] one False p2 by simp
    moreover have "j1 - (i1 + 1) < j - i" "ptr + n \<le> length ?xs" "1 \<le> lt1" "lt1 \<le> i1 + 1" "i1 + 1 \<le> j1" "j1 \<le> gt1" "gt1 \<le> n"
      using less.prems(3,7) False up down len2 by auto
    moreover have "good s2" using scan_down_good[OF down(1) scan_up_good[OF up(1) less.prems(11)]] .
    ultimately show ?thesis using less.hyps[OF _ rec] by blast
  qed
qed

text \<open>The block exchanges bring the elements equal to the pivot from the ends to the middle.\<close>

lemma swap_low_parts:
  assumes "swap_block xs ptr (ptr + (i - min lt (i - lt))) (min lt (i - lt)) = Some ys" and "lt \<le> i" and "ptr + i \<le> length xs"
    and "low_part le p ptr lt i xs"
  shows "\<forall>k<i - lt. le (ys ! (ptr + k)) p" and "\<forall>k. i - lt \<le> k \<and> k < i \<longrightarrow> le (ys ! (ptr + k)) p \<and> le p (ys ! (ptr + k))"
    and "\<And>k. i \<le> k \<Longrightarrow> ys ! (ptr + k) = xs ! (ptr + k)"
proof -
  define m where "m = min lt (i - lt)"
  have m: "m \<le> lt" "m \<le> i - lt" "m = lt \<or> m = i - lt" by (auto simp: m_def)
  have "ptr + m \<le> ptr + (i - m)" "ptr + (i - m) + m \<le> length xs" using m assms(2,3) by auto
  note B = swap_block_nth[OF assms(1)[folded m_def] this]
  have S: "\<And>d. d < m \<Longrightarrow> ys ! (ptr + d) = xs ! (ptr + (i - m + d))" "\<And>d. d < m \<Longrightarrow> ys ! (ptr + (i - m + d)) = xs ! (ptr + d)"
    using B by (simp_all only: add.assoc)
  have S3: "ys ! (ptr + d) = xs ! (ptr + d)" if "m \<le> d" "d < i - m \<or> i \<le> d" for d
    by (rule B[THEN conjunct2, rule_format]) (use that m assms(2) in auto)
  have L: "\<And>k. k < lt \<Longrightarrow> le (xs ! (ptr + k)) p \<and> le p (xs ! (ptr + k))" "\<And>k. lt \<le> k \<Longrightarrow> k < i \<Longrightarrow> le (xs ! (ptr + k)) p"
    using assms(4) by (auto simp: low_part_def)
  show "\<forall>k<i - lt. le (ys ! (ptr + k)) p"
  proof (intro allI impI)
    fix k assume k: "k < i - lt"
    show "le (ys ! (ptr + k)) p"
    proof (cases "k < m")
      case True
      then show ?thesis using S(1) L(2)[of "i - m + k"] m assms(2) k by auto
    next
      case False
      then have "k < i - m" "lt \<le> k" using k m by auto
      then show ?thesis using S3[of k] L(2)[of k] False k by auto
    qed
  qed
  show "\<forall>k. i - lt \<le> k \<and> k < i \<longrightarrow> le (ys ! (ptr + k)) p \<and> le p (ys ! (ptr + k))"
  proof (intro allI impI)
    fix k assume k: "i - lt \<le> k \<and> k < i"
    show "le (ys ! (ptr + k)) p \<and> le p (ys ! (ptr + k))"
    proof (cases "k < i - m")
      case True
      then have "m \<le> k" "k < lt" using k m by auto
      then show ?thesis using S3[of k] L(1)[of k] True by simp
    next
      case False
      then have "k = i - m + (k - (i - m))" "k - (i - m) < m" using k m assms(2) by auto
      then show ?thesis using S(2)[of "k - (i - m)"] L(1)[of "k - (i - m)"] m by auto
    qed
  qed
  show "ys ! (ptr + k) = xs ! (ptr + k)" if "i \<le> k" for k using S3[of k] that m by auto
qed

lemma swap_high_parts:
  assumes "swap_block xs (ptr + i) (ptr + (n - min (n - gt) (gt - i))) (min (n - gt) (gt - i)) = Some ys"
    and "i \<le> gt" and "gt \<le> n" and "ptr + n \<le> length xs" and "high_part le p ptr i gt n xs"
  shows "\<forall>k. i \<le> k \<and> k < n - (gt - i) \<longrightarrow> le (ys ! (ptr + k)) p \<and> le p (ys ! (ptr + k))"
    and "\<forall>k. n - (gt - i) \<le> k \<and> k < n \<longrightarrow> le p (ys ! (ptr + k))"
    and "\<And>k. k < i \<Longrightarrow> ys ! (ptr + k) = xs ! (ptr + k)"
proof -
  define m where "m = min (n - gt) (gt - i)"
  have m: "m \<le> n - gt" "m \<le> gt - i" "m = n - gt \<or> m = gt - i" by (auto simp: m_def)
  have "ptr + i + m \<le> ptr + (n - m)" "ptr + (n - m) + m \<le> length xs" using m assms(2-4) by auto
  note B = swap_block_nth[OF assms(1)[folded m_def] this]
  have S: "\<And>d. d < m \<Longrightarrow> ys ! (ptr + (i + d)) = xs ! (ptr + (n - m + d))" "\<And>d. d < m \<Longrightarrow> ys ! (ptr + (n - m + d)) = xs ! (ptr + (i + d))"
    using B by (simp_all only: add.assoc)
  have S3: "ys ! (ptr + d) = xs ! (ptr + d)" if "d < i \<or> i + m \<le> d" "d < n - m" for d
    by (rule B[THEN conjunct2, rule_format]) (use that m assms(2,3) in auto)
  have H: "\<And>k. gt \<le> k \<Longrightarrow> k < n \<Longrightarrow> le (xs ! (ptr + k)) p \<and> le p (xs ! (ptr + k))" "\<And>k. i \<le> k \<Longrightarrow> k < gt \<Longrightarrow> le p (xs ! (ptr + k))"
    using assms(5) by (auto simp: high_part_def)
  show "\<forall>k. i \<le> k \<and> k < n - (gt - i) \<longrightarrow> le (ys ! (ptr + k)) p \<and> le p (ys ! (ptr + k))"
  proof (intro allI impI)
    fix k assume k: "i \<le> k \<and> k < n - (gt - i)"
    show "le (ys ! (ptr + k)) p \<and> le p (ys ! (ptr + k))"
    proof (cases "k < i + m")
      case True
      then have "k = i + (k - i)" "k - i < m" using k by auto
      then show ?thesis using S(1)[of "k - i"] H(1)[of "n - m + (k - i)"] m assms(2,3) by auto
    next
      case False
      then have "gt \<le> k" "k < n - m" using k m assms(2,3) by auto
      then show ?thesis using S3[of k] H(1)[of k] False by auto
    qed
  qed
  show "\<forall>k. n - (gt - i) \<le> k \<and> k < n \<longrightarrow> le p (ys ! (ptr + k))"
  proof (intro allI impI)
    fix k assume k: "n - (gt - i) \<le> k \<and> k < n"
    show "le p (ys ! (ptr + k))"
    proof (cases "k < n - m")
      case True
      then have "i + m \<le> k" "k < gt" using k m assms(2,3) by auto
      then show ?thesis using S3[of k] H(2)[of k] True by auto
    next
      case False
      then have "k = n - m + (k - (n - m))" "k - (n - m) < m" using k m assms(2,3) by auto
      then show ?thesis using S(2)[of "k - (n - m)"] H(2)[of "i + (k - (n - m))"] m by auto
    qed
  qed
  show "ys ! (ptr + k) = xs ! (ptr + k)" if "k < i" for k using S3[of k] that m assms(2,3) by auto
qed

lemma partition_order:
  assumes "partition cmp ptr n xs s = Some (lt, gt, ys, s')" and "6 < n" and "ptr + n \<le> length xs" and "good s"
  obtains p where "\<And>k. k < lt \<Longrightarrow> le (ys ! (ptr + k)) p" and "\<And>k. lt \<le> k \<Longrightarrow> k < gt \<Longrightarrow> le (ys ! (ptr + k)) p \<and> le p (ys ! (ptr + k))"
    and "\<And>k. gt \<le> k \<Longrightarrow> k < n \<Longrightarrow> le p (ys ! (ptr + k))"
proof -
  obtain a b c m s1 xs1 i lt0 gt0 xs2 s2 xs3 where
    med: "med3 cmp xs a b c s = Some (m, s1)" and sw: "swap_at xs ptr m = Some xs1" and loop: "partition_loop cmp ptr 1 n 1 n xs1 s1 = Some (i, lt0, gt0, xs2, s2)"
    and b1: "swap_block xs2 ptr (ptr + (i - min lt0 (i - lt0))) (min lt0 (i - lt0)) = Some xs3"
    and b2: "swap_block xs3 (ptr + i) (ptr + (n - min (n - gt0) (gt0 - i))) (min (n - gt0) (gt0 - i)) = Some ys"
    and r: "lt = i - lt0" "gt = n - (gt0 - i)"
    using assms(1) by (auto simp: partition_def Let_def Option.bind_eq_Some_conv)
  have len1: "length xs1 = length xs" using sw by (auto simp: swap_at_def Option.bind_eq_Some_conv)
  let ?p = "xs1 ! ptr"
  have n: "1 \<le> n" "ptr + n \<le> length xs1" using assms(2,3) len1 by auto
  have "low_part le ?p ptr 1 1 xs1" "high_part le ?p ptr n n n xs1" by (auto simp: low_part_def high_part_def le_refl)
  from partition_loop_order[OF loop n(2) _ _ n(1) _ _ refl this med3_good[OF med assms(4)]]
  have P: "low_part le ?p ptr lt0 i xs2" "high_part le ?p ptr i gt0 n xs2" by simp_all
  from partition_loop_safe[OF n(2) _ _ n(1), of 1 n cmp s1] loop have
    W: "within ptr n xs1 xs2" "lt0 \<le> i" "i \<le> gt0" "gt0 \<le> n" by auto
  have len2: "ptr + n \<le> length xs2" using n(2) within_length[OF W(1)] by simp
  have "ptr + i \<le> length xs2" using len2 W by linarith
  note B1 = swap_low_parts[OF b1 W(2) this P(1)]
  have "high_part le ?p ptr i gt0 n xs3" using P(2) B1(3) W(3) by (auto simp: high_part_def)
  moreover have "ptr + n \<le> length xs3"
  proof -
    have "ptr \<le> ptr" "ptr + min lt0 (i - lt0) \<le> ptr + n" "ptr \<le> ptr + (i - min lt0 (i - lt0))"
      "ptr + (i - min lt0 (i - lt0)) + min lt0 (i - lt0) \<le> ptr + n" using W by auto
    from swap_block_safe[OF this len2] b1 within_length len2 show ?thesis by fastforce
  qed
  ultimately have B2: "\<forall>k. i \<le> k \<and> k < gt \<longrightarrow> le (ys ! (ptr + k)) ?p \<and> le ?p (ys ! (ptr + k))"
    "\<forall>k. gt \<le> k \<and> k < n \<longrightarrow> le ?p (ys ! (ptr + k))" "\<And>k. k < i \<Longrightarrow> ys ! (ptr + k) = xs3 ! (ptr + k)"
    using swap_high_parts[OF b2 W(3,4)] r by blast+
  show thesis
  proof (rule that[of ?p])
    show "le (ys ! (ptr + k)) ?p" if "k < lt" for k using B1(1) B2(3)[of k] that r by simp
    show "le (ys ! (ptr + k)) ?p \<and> le ?p (ys ! (ptr + k))" if "lt \<le> k" "k < gt" for k
      using B1(2) B2(1,3) that r by (cases "k < i") auto
    show "le ?p (ys ! (ptr + k))" if "gt \<le> k" "k < n" for k using B2(2) that by blast
  qed
qed

text \<open>The whole sort.\<close>

lemma segment_loop_sorts:
  "segment_loop cmp stack ptr n depth xs s = Some (stack', ptr', n', ys, s') \<Longrightarrow> ptr + n \<le> length xs \<Longrightarrow>
    sorted_mod le (insert (ptr, n, 0) (set stack)) xs \<Longrightarrow> all_apart ((ptr, n, 0) # stack) \<Longrightarrow> good s \<Longrightarrow>
    sorted_mod le (insert (ptr', n', 0) (set stack')) ys \<and> all_apart ((ptr', n', 0) # stack') \<and> good s'"
proof (induction "50 - depth" arbitrary: stack ptr n depth xs s rule: less_induct)
  case less
  note S = less.prems(3) and A = less.prems(4)
  show ?case
  proof (cases "n > 6")
    case False
    then have "stack' = stack \<and> ptr' = ptr \<and> n' = n \<and> ys = xs \<and> s' = s"
      using less.prems(1) by (subst (asm) segment_loop.simps) simp
    then show ?thesis using S A less.prems(5) by simp
  next
    case big: True
    show ?thesis
    proof (cases "depth + 1 > 50")
      case True
      then have h: "heapsortx cmp ptr n xs s = Some (ys, s')" and r: "stack' = stack" "ptr' = ptr" "n' = 0"
        using less.prems(1) big by (subst (asm) segment_loop.simps, auto simp: Option.bind_eq_Some_conv)+
      have w: "within ptr n xs ys" using heapsortx_safe[OF less.prems(2), of cmp s] h by auto
      have "sorted_mod le ({(ptr, 0, 0)} \<union> set stack) ys"
        by (rule sorted_mod_refine[OF S _ w]) (use A heapsortx_sorts[OF h less.prems(2,5)] in \<open>auto simp: sorted_seg_def\<close>)
      then show ?thesis using r A heapsortx_good[OF h less.prems(5)] by (auto simp: apart_def)
    next
      case False
      obtain lt gt zs s1 where p: "partition cmp ptr n xs s = Some (lt, gt, zs, s1)" "within ptr n xs zs" "lt < gt" "gt \<le> n"
        using partition_safe[OF big less.prems(2), of cmp s] by blast
      have len: "length zs = length xs" using within_length[OF p(2)] .
      have dec: "50 - (depth + 1) < 50 - depth" using False by simp
      let ?l = "(ptr, lt, depth + 1)" and ?r = "(ptr + gt, n - gt, depth + 1)"
      obtain v where v: "\<And>k. k < lt \<Longrightarrow> le (zs ! (ptr + k)) v" "\<And>k. lt \<le> k \<Longrightarrow> k < gt \<Longrightarrow> le (zs ! (ptr + k)) v \<and> le v (zs ! (ptr + k))"
        "\<And>k. gt \<le> k \<Longrightarrow> k < n \<Longrightarrow> le v (zs ! (ptr + k))"
        using partition_order[OF p(1) big less.prems(2,5)] by blast
      have S2: "sorted_mod le ({?l, ?r} \<union> set stack) zs"
      proof (rule sorted_mod_refine[OF S _ p(2)])
        fix i j assume ij: "ptr \<le> i" "i < j" "j < ptr + n"
        define a b where "a = i - ptr" and "b = j - ptr"
        have ab: "i = ptr + a" "j = ptr + b" "a < b" "b < n" using ij by (auto simp: a_def b_def)
        show "le (zs ! i) (zs ! j) \<or> (\<exists>e\<in>{?l, ?r}. in_seg e i \<and> in_seg e j)"
        proof (cases "b < lt \<or> gt \<le> a")
          case True
          then show ?thesis using ab p(4) by auto
        next
          case mid: False
          then have "le (zs ! (ptr + a)) v" using v(1)[of a] v(2)[of a] by (cases "a < lt") auto
          moreover have "le v (zs ! (ptr + b))" using v(2)[of b] v(3)[of b] mid ab by (cases "b < gt") auto
          ultimately show ?thesis using ab le_trans by blast
        qed
      qed (use A in simp)
      have ap: "apart (ptr, n, 0) (set stack)" "all_apart stack" using A by simp_all
      have sub: "apart (ptr, lt, d) (set stack)" "apart (ptr + gt, n - gt, d) (set stack)" for d
        using p(3,4) by (auto intro!: apart_sub[OF ap(1)])
      have mid: "apart (ptr, lt, d) {(ptr + gt, n - gt, e)}" "apart (ptr + gt, n - gt, d) {(ptr, lt, e)}" for d e
        using p(3) by (auto simp: apart_def)
      show ?thesis
      proof (cases "lt > n - gt")
        case left: True
        have run: "segment_loop cmp (?l # stack) (ptr + gt) (n - gt) (depth + 1) zs s1 = Some (stack', ptr', n', ys, s')"
          using less.prems(1) big False left p(1) by (subst (asm) segment_loop.simps) (simp split: if_splits)
        have "sorted_mod le (insert (ptr + gt, n - gt, 0) (set (?l # stack))) zs"
          using S2 by (auto simp: sorted_mod_def)
        moreover have "all_apart ((ptr + gt, n - gt, 0) # ?l # stack)"
          using ap(2) sub mid by (simp add: apart_def)
        ultimately show ?thesis using less.hyps[OF dec run] len less.prems(2) p(4) partition_good[OF p(1) less.prems(5)] by simp
      next
        case right: False
        have run: "segment_loop cmp (?r # stack) ptr lt (depth + 1) zs s1 = Some (stack', ptr', n', ys, s')"
          using less.prems(1) big False right p(1) by (subst (asm) segment_loop.simps) (simp split: if_splits)
        have "sorted_mod le (insert (ptr, lt, 0) (set (?r # stack))) zs"
          using S2 by (auto simp: sorted_mod_def)
        moreover have "all_apart ((ptr, lt, 0) # ?r # stack)"
          using ap(2) sub mid by (simp add: apart_def)
        ultimately show ?thesis using less.hyps[OF dec run] len less.prems(2) p(3,4) partition_good[OF p(1) less.prems(5)] by simp
      qed
    qed
  qed
qed

lemma rqsort_loop_sorts:
  "rqsort_loop cmp stack xs s = Some (ys, s') \<Longrightarrow> stack_ok (length xs) stack \<Longrightarrow> sorted_mod le (set stack) xs \<Longrightarrow>
    all_apart stack \<Longrightarrow> good s \<Longrightarrow> sorted_mod le {} ys \<and> good s'"
proof (induction "weight stack" arbitrary: stack xs s rule: less_induct)
  case less
  show ?case
  proof (cases stack)
    case Nil
    then show ?thesis using less.prems by (subst (asm) rqsort_loop.simps) simp
  next
    case (Cons e st)
    obtain ptr n depth where e: "e = (ptr, n, depth)" by (cases e)
    have ok: "ptr + n \<le> length xs" "stack_ok (length xs) st" "length st \<le> depth" "depth \<le> 50"
      using less.prems(2) Cons e by simp_all
    from segment_loop_safe[OF ok, of cmp s] obtain stack' ptr' n' zs s1 where
      1: "segment_loop cmp st ptr n depth xs s = Some (stack', ptr', n', zs, s1)" "length zs = length xs"
        "stack_ok (length xs) stack'" "ptr' + n' \<le> length xs" "weight stack' + 2 * n' \<le> weight st + 2 * n" by blast
    have "ptr' + n' \<le> length zs" "n' - 1 = 0 \<or> 1 + (n' - 1) \<le> n'" using 1 by auto
    from insertion_sort_safe[OF this, of cmp s1] obtain ws s2 where
      2: "insertion_sort cmp ptr' 1 (n' - 1) zs s1 = Some (ws, s2)" "within ptr' n' zs ws" by blast
    have rec: "rqsort_loop cmp stack' ws s2 = Some (ys, s')"
      using less.prems(1) Cons e 1(1) 2(1) by (subst (asm) rqsort_loop.simps) simp
    have "sorted_mod le (insert (ptr, n, 0) (set st)) xs" "all_apart ((ptr, n, 0) # st)"
      using less.prems(3,4) Cons e by (auto simp: sorted_mod_def apart_def)
    from segment_loop_sorts[OF 1(1) ok(1) this less.prems(5)] have
      S: "sorted_mod le (insert (ptr', n', 0) (set stack')) zs" "all_apart ((ptr', n', 0) # stack')" "good s1" by simp_all
    have "sorted_mod le ({} \<union> set stack') ws"
    proof (rule sorted_mod_refine[OF S(1) _ 2(2)])
      show "apart (ptr', n', 0) (set stack')" using S(2) by simp
      fix i j assume ij: "ptr' \<le> i" "i < j" "j < ptr' + n'"
      then have "ptr' + 1 + (n' - 1) \<le> length zs" using 1 by simp
      moreover have "sorted_seg le ptr' (ptr' + 1) zs" by (auto simp: sorted_seg_def)
      ultimately have "sorted_seg le ptr' (ptr' + 1 + (n' - 1)) ws" using S(3) by (rule insertion_sort_sorts[OF 2(1)])
      then show "le (ws ! i) (ws ! j) \<or> (\<exists>e\<in>{}. in_seg e i \<and> in_seg e j)" using ij by (auto simp: sorted_seg_def)
    qed
    moreover have "stack_ok (length ws) stack'" using 1 within_length[OF 2(2)] by simp
    moreover have "weight stack' < weight stack" using 1(5) Cons e by simp
    ultimately show ?thesis using less.hyps[OF _ rec] S(2) insertion_sort_good[OF 2(1) S(3)] by simp
  qed
qed

lemma rqsort_sorts:
  assumes "rqsort cmp elt_size xs s = Some (ys, s')" and "0 < elt_size" and "good s"
  shows "sorted_wrt le ys \<and> good s'"
proof (cases "length xs < 2")
  case True
  then have "ys = xs" "s' = s" using assms(1) by (simp_all add: rqsort_def)
  then show ?thesis using True assms(3) by (cases xs) (auto simp: numeral_2_eq_2 less_Suc_eq)
next
  case False
  then have run: "rqsort_loop cmp [(0, length xs, 0)] xs s = Some (ys, s')" using assms by (simp add: rqsort_def)
  have "sorted_mod le {} ys \<and> good s'"
    by (rule rqsort_loop_sorts[OF run]) (use assms(3) in \<open>auto simp: sorted_mod_def apart_def\<close>)
  then show ?thesis by (simp add: sorted_mod_def sorted_wrt_iff_nth_less)
qed

end

section \<open>Properties\<close>

text \<open>
  C18. Sorting sorts: when the state of the comparison function satisfies an invariant that every call
  keeps, and under it the sign of the answer depends on the two elements alone and is that of a total
  preorder, \<open>rqsort\<close> returns the elements of the array in ascending order.
\<close>
theorem rqsort_sorts_array:
  assumes "\<And>a b s. good s \<Longrightarrow> good (snd (cmp a b s))"
    and "\<And>a b s. good s \<Longrightarrow> fst (cmp a b s) \<le> 0 \<longleftrightarrow> le a b" and "\<And>a b s. good s \<Longrightarrow> fst (cmp a b s) \<ge> 0 \<longleftrightarrow> le b a"
    and "\<And>a b c. le a b \<Longrightarrow> le b c \<Longrightarrow> le a c" and "0 < elt_size" and "good s"
  shows "\<exists>ys s'. rqsort cmp elt_size xs s = Some (ys, s') \<and> mset ys = mset xs \<and> sorted_wrt le ys"
proof -
  have "le a a" for a using assms(2,3)[OF assms(6), of a a] by linarith
  then have c: "comparison cmp good le" using assms(1-4) by unfold_locales blast+
  show ?thesis using rqsort_total[of cmp elt_size xs s] comparison.rqsort_sorts[OF c _ assms(5,6)] by blast
qed

theorem rqsort_sorts_array_witness:
  "rqsort (\<lambda>a b s. (a - b, s + 1)) 4 [5, 3, 8, 1, 9, 2, 7, 3 :: int] (0 :: nat) = Some ([1, 2, 3, 3, 5, 7, 8, 9], 24) \<and>
   sorted_wrt (\<le>) [1, 2, 3, 3, 5, 7, 8, 9 :: int]"
proof -
  have run: "rqsort (\<lambda>a b s. (a - b, s + 1)) 4 [5, 3, 8, 1, 9, 2, 7, 3 :: int] (0 :: nat) = Some ([1, 2, 3, 3, 5, 7, 8, 9], 24)"
    by code_simp
  have "\<exists>ys s'. rqsort (\<lambda>a b s. (a - b, s + 1)) 4 [5, 3, 8, 1, 9, 2, 7, 3 :: int] (0 :: nat) = Some (ys, s') \<and>
      mset ys = mset [5, 3, 8, 1, 9, 2, 7, 3] \<and> sorted_wrt (\<le>) ys"
    by (rule rqsort_sorts_array[where good = "\<lambda>_. True"]) auto
  then show ?thesis using run by auto
qed

end
