(* ===== verification/Quickjs_Sort.thy ===== *)
theory Quickjs_Sort
  imports Cutils_Sorted
begin

text \<open>
  \<open>TypedArray.prototype.sort\<close> of \<open>quickjs.c\<close>: the comparison functions of the eleven kinds of element,
  which provide the contract \<open>comparison\<close> of the sort, the comparison by a function of the program, and
  \<open>js_typed_array_sort\<close> on top of \<open>rqsort\<close>. The rest of the engine is a parameter of the model.
\<close>

section \<open>Integer elements\<close>

definition js_TA_cmp_int8 :: "(8 word, 's) cmp_f" where
  "js_TA_cmp_int8 a b s = (sint a - sint b, s)"

definition js_TA_cmp_uint8 :: "(8 word, 's) cmp_f" where
  "js_TA_cmp_uint8 a b s = (uint a - uint b, s)"

definition js_TA_cmp_int16 :: "(16 word, 's) cmp_f" where
  "js_TA_cmp_int16 a b s = (sint a - sint b, s)"

definition js_TA_cmp_uint16 :: "(16 word, 's) cmp_f" where
  "js_TA_cmp_uint16 a b s = (uint a - uint b, s)"

definition js_TA_cmp_int32 :: "(32 word, 's) cmp_f" where
  "js_TA_cmp_int32 x y s = (of_bool (sint y < sint x) - of_bool (sint y > sint x), s)"

definition js_TA_cmp_uint32 :: "(32 word, 's) cmp_f" where
  "js_TA_cmp_uint32 x y s = (of_bool (y < x) - of_bool (y > x), s)"

definition js_TA_cmp_int64 :: "(64 word, 's) cmp_f" where
  "js_TA_cmp_int64 x y s = (of_bool (sint y < sint x) - of_bool (sint y > sint x), s)"

definition js_TA_cmp_uint64 :: "(64 word, 's) cmp_f" where
  "js_TA_cmp_uint64 x y s = (of_bool (y < x) - of_bool (y > x), s)"

section \<open>Floating point elements\<close>

text \<open>
  A double is given by its bits: sign, eleven bits of exponent, 52 bits of fraction. Numbers that are
  not NaN are ordered by sign and magnitude, and both zeros are equal.
\<close>

definition dbl_isnan :: "u64 \<Rightarrow> bool" where
  "dbl_isnan x \<longleftrightarrow> uint x mod 2 ^ 63 > 0x7ff * 2 ^ 52"

definition dbl_signbit :: "u64 \<Rightarrow> bool" where
  "dbl_signbit x \<longleftrightarrow> uint x \<ge> 2 ^ 63"

definition dbl_key :: "u64 \<Rightarrow> int" where
  "dbl_key x = (if dbl_signbit x then - (uint x mod 2 ^ 63) else uint x mod 2 ^ 63)"

definition js_cmp_doubles :: "u64 \<Rightarrow> u64 \<Rightarrow> int" where
  "js_cmp_doubles x y =
     (if dbl_isnan x then if dbl_isnan y then 0 else 1
      else if dbl_isnan y then - 1
      else if dbl_key x < dbl_key y then - 1
      else if dbl_key x > dbl_key y then 1
      else if dbl_key x \<noteq> 0 then 0
      else if dbl_signbit x then if dbl_signbit y then 0 else - 1
      else if dbl_signbit y then 1 else 0)"

definition js_TA_cmp_float64 :: "(u64, 's) cmp_f" where
  "js_TA_cmp_float64 a b s = (js_cmp_doubles a b, s)"

text \<open>
  The conversion of a float (eight bits of exponent, 23 bits of fraction) to a double, which is exact:
  a subnormal float \<open>f \<cdot> 2\<^sup>-\<^sup>1\<^sup>4\<^sup>9\<close> is a normal double, whose exponent is the place of its highest bit.
\<close>

fun top_bit :: "nat \<Rightarrow> nat" where
  "top_bit n = (if n < 2 then 0 else Suc (top_bit (n div 2)))"

declare top_bit.simps [simp del]

definition float_to_double :: "u32 \<Rightarrow> u64" where
  "float_to_double x =
     (let sign = uint x div 2 ^ 31; e = uint x div 2 ^ 23 mod 2 ^ 8; f = uint x mod 2 ^ 23;
          mag = (if e = 0xff then 0x7ff * 2 ^ 52 + f * 2 ^ 29
                 else if e > 0 then (e + 896) * 2 ^ 52 + f * 2 ^ 29
                 else if f = 0 then 0
                 else let k = top_bit (nat f) in (int k + 874) * 2 ^ 52 + (f - 2 ^ k) * 2 ^ (52 - k))
      in word_of_int (sign * 2 ^ 63 + mag))"

definition js_TA_cmp_float32 :: "(u32, 's) cmp_f" where
  "js_TA_cmp_float32 a b s = (js_cmp_doubles (float_to_double a) (float_to_double b), s)"

text \<open>The order of the specification: negative before positive zero, and NaN last.\<close>

definition dbl_rank :: "u64 \<Rightarrow> int" where
  "dbl_rank x =
     (if dbl_isnan x then 2 ^ 63 else if dbl_signbit x then - (uint x mod 2 ^ 63) - 1 else uint x mod 2 ^ 63)"

lemma js_cmp_doubles_rank:
  "js_cmp_doubles x y = (if dbl_rank x < dbl_rank y then - 1 else if dbl_rank x > dbl_rank y then 1 else 0)"
proof -
  obtain a where a: "uint x mod 2 ^ 63 = a" "0 \<le> a" "a < 2 ^ 63" by simp
  obtain b where b: "uint y mod 2 ^ 63 = b" "0 \<le> b" "b < 2 ^ 63" by simp
  obtain m :: int where m: "2 ^ 63 = m" by blast
  show ?thesis
    using a(2,3) b(2,3) unfolding js_cmp_doubles_def dbl_rank_def dbl_key_def unfolding a(1) b(1) unfolding m
    by (cases "dbl_isnan x"; cases "dbl_isnan y"; cases "dbl_signbit x"; cases "dbl_signbit y"; auto)
qed

section \<open>The kinds of typed arrays\<close>

datatype ta_class =
    JS_CLASS_UINT8C_ARRAY | JS_CLASS_INT8_ARRAY | JS_CLASS_UINT8_ARRAY | JS_CLASS_INT16_ARRAY | JS_CLASS_UINT16_ARRAY
  | JS_CLASS_INT32_ARRAY | JS_CLASS_UINT32_ARRAY | JS_CLASS_BIG_INT64_ARRAY | JS_CLASS_BIG_UINT64_ARRAY
  | JS_CLASS_FLOAT32_ARRAY | JS_CLASS_FLOAT64_ARRAY

fun typed_array_size_log2 :: "ta_class \<Rightarrow> nat" where
  "typed_array_size_log2 JS_CLASS_UINT8C_ARRAY = 0"
| "typed_array_size_log2 JS_CLASS_INT8_ARRAY = 0"
| "typed_array_size_log2 JS_CLASS_UINT8_ARRAY = 0"
| "typed_array_size_log2 JS_CLASS_INT16_ARRAY = 1"
| "typed_array_size_log2 JS_CLASS_UINT16_ARRAY = 1"
| "typed_array_size_log2 JS_CLASS_INT32_ARRAY = 2"
| "typed_array_size_log2 JS_CLASS_UINT32_ARRAY = 2"
| "typed_array_size_log2 JS_CLASS_BIG_INT64_ARRAY = 3"
| "typed_array_size_log2 JS_CLASS_BIG_UINT64_ARRAY = 3"
| "typed_array_size_log2 JS_CLASS_FLOAT32_ARRAY = 2"
| "typed_array_size_log2 JS_CLASS_FLOAT64_ARRAY = 3"

text \<open>An element is kept in 64 bits; each comparison reads as many of them as its type has.\<close>

fun cmpfun :: "ta_class \<Rightarrow> (u64, 's) cmp_f" where
  "cmpfun JS_CLASS_INT8_ARRAY a b = js_TA_cmp_int8 (ucast a) (ucast b)"
| "cmpfun JS_CLASS_UINT8C_ARRAY a b = js_TA_cmp_uint8 (ucast a) (ucast b)"
| "cmpfun JS_CLASS_UINT8_ARRAY a b = js_TA_cmp_uint8 (ucast a) (ucast b)"
| "cmpfun JS_CLASS_INT16_ARRAY a b = js_TA_cmp_int16 (ucast a) (ucast b)"
| "cmpfun JS_CLASS_UINT16_ARRAY a b = js_TA_cmp_uint16 (ucast a) (ucast b)"
| "cmpfun JS_CLASS_INT32_ARRAY a b = js_TA_cmp_int32 (ucast a) (ucast b)"
| "cmpfun JS_CLASS_UINT32_ARRAY a b = js_TA_cmp_uint32 (ucast a) (ucast b)"
| "cmpfun JS_CLASS_BIG_INT64_ARRAY a b = js_TA_cmp_int64 a b"
| "cmpfun JS_CLASS_BIG_UINT64_ARRAY a b = js_TA_cmp_uint64 a b"
| "cmpfun JS_CLASS_FLOAT32_ARRAY a b = js_TA_cmp_float32 (ucast a) (ucast b)"
| "cmpfun JS_CLASS_FLOAT64_ARRAY a b = js_TA_cmp_float64 a b"

text \<open>The place of an element in the order of its kind.\<close>

fun ta_rank :: "ta_class \<Rightarrow> u64 \<Rightarrow> int" where
  "ta_rank JS_CLASS_INT8_ARRAY a = sint (ucast a :: 8 word)"
| "ta_rank JS_CLASS_UINT8C_ARRAY a = uint (ucast a :: 8 word)"
| "ta_rank JS_CLASS_UINT8_ARRAY a = uint (ucast a :: 8 word)"
| "ta_rank JS_CLASS_INT16_ARRAY a = sint (ucast a :: 16 word)"
| "ta_rank JS_CLASS_UINT16_ARRAY a = uint (ucast a :: 16 word)"
| "ta_rank JS_CLASS_INT32_ARRAY a = sint (ucast a :: 32 word)"
| "ta_rank JS_CLASS_UINT32_ARRAY a = uint (ucast a :: 32 word)"
| "ta_rank JS_CLASS_BIG_INT64_ARRAY a = sint a"
| "ta_rank JS_CLASS_BIG_UINT64_ARRAY a = uint a"
| "ta_rank JS_CLASS_FLOAT32_ARRAY a = dbl_rank (float_to_double (ucast a))"
| "ta_rank JS_CLASS_FLOAT64_ARRAY a = dbl_rank a"

lemmas js_TA_cmp_defs =
  js_TA_cmp_int8_def js_TA_cmp_uint8_def js_TA_cmp_int16_def js_TA_cmp_uint16_def js_TA_cmp_int32_def
  js_TA_cmp_uint32_def js_TA_cmp_int64_def js_TA_cmp_uint64_def js_TA_cmp_float32_def js_TA_cmp_float64_def
  js_cmp_doubles_rank word_less_def

text \<open>The sign of each comparison.\<close>

lemma ta_cmp_le:
  "fst (js_TA_cmp_int8 a8 b8 s) \<le> 0 \<longleftrightarrow> sint a8 \<le> sint b8"
  "fst (js_TA_cmp_uint8 a8 b8 s) \<le> 0 \<longleftrightarrow> uint a8 \<le> uint b8"
  "fst (js_TA_cmp_int16 a16 b16 s) \<le> 0 \<longleftrightarrow> sint a16 \<le> sint b16"
  "fst (js_TA_cmp_uint16 a16 b16 s) \<le> 0 \<longleftrightarrow> uint a16 \<le> uint b16"
  "fst (js_TA_cmp_int32 a32 b32 s) \<le> 0 \<longleftrightarrow> sint a32 \<le> sint b32"
  "fst (js_TA_cmp_uint32 a32 b32 s) \<le> 0 \<longleftrightarrow> uint a32 \<le> uint b32"
  "fst (js_TA_cmp_int64 a64 b64 s) \<le> 0 \<longleftrightarrow> sint a64 \<le> sint b64"
  "fst (js_TA_cmp_uint64 a64 b64 s) \<le> 0 \<longleftrightarrow> uint a64 \<le> uint b64"
  "fst (js_TA_cmp_float32 a32 b32 s) \<le> 0 \<longleftrightarrow> dbl_rank (float_to_double a32) \<le> dbl_rank (float_to_double b32)"
  "fst (js_TA_cmp_float64 a64 b64 s) \<le> 0 \<longleftrightarrow> dbl_rank a64 \<le> dbl_rank b64"
  for s :: 's
  by (simp_all add: js_TA_cmp_defs not_less)

lemma ta_cmp_ge:
  "fst (js_TA_cmp_int8 a8 b8 s) \<ge> 0 \<longleftrightarrow> sint b8 \<le> sint a8"
  "fst (js_TA_cmp_uint8 a8 b8 s) \<ge> 0 \<longleftrightarrow> uint b8 \<le> uint a8"
  "fst (js_TA_cmp_int16 a16 b16 s) \<ge> 0 \<longleftrightarrow> sint b16 \<le> sint a16"
  "fst (js_TA_cmp_uint16 a16 b16 s) \<ge> 0 \<longleftrightarrow> uint b16 \<le> uint a16"
  "fst (js_TA_cmp_int32 a32 b32 s) \<ge> 0 \<longleftrightarrow> sint b32 \<le> sint a32"
  "fst (js_TA_cmp_uint32 a32 b32 s) \<ge> 0 \<longleftrightarrow> uint b32 \<le> uint a32"
  "fst (js_TA_cmp_int64 a64 b64 s) \<ge> 0 \<longleftrightarrow> sint b64 \<le> sint a64"
  "fst (js_TA_cmp_uint64 a64 b64 s) \<ge> 0 \<longleftrightarrow> uint b64 \<le> uint a64"
  "fst (js_TA_cmp_float32 a32 b32 s) \<ge> 0 \<longleftrightarrow> dbl_rank (float_to_double b32) \<le> dbl_rank (float_to_double a32)"
  "fst (js_TA_cmp_float64 a64 b64 s) \<ge> 0 \<longleftrightarrow> dbl_rank b64 \<le> dbl_rank a64"
  for s :: 's
  by (simp_all add: js_TA_cmp_defs not_less)

lemma cmpfun_state: "snd (cmpfun c a b s) = s"
  by (cases c) (simp_all add: js_TA_cmp_defs)

lemma cmpfun_le: "fst (cmpfun c a b s) \<le> 0 \<longleftrightarrow> ta_rank c a \<le> ta_rank c b"
  by (cases c) (simp_all only: cmpfun.simps ta_rank.simps ta_cmp_le)

lemma cmpfun_ge: "fst (cmpfun c a b s) \<ge> 0 \<longleftrightarrow> ta_rank c b \<le> ta_rank c a"
  by (cases c) (simp_all only: cmpfun.simps ta_rank.simps ta_cmp_ge)

interpretation ta: comparison "cmpfun c" "\<lambda>_. True" "\<lambda>a b. ta_rank c a \<le> ta_rank c b" for c
  by unfold_locales (simp_all add: cmpfun_le cmpfun_ge)

section \<open>A comparison function of the program\<close>

text \<open>
  \<open>class_id\<close>, \<open>count\<close>, the elements and whether the buffer is detached are what the sort reads of the
  object. \<open>object\<close> is the object of the call in a state of the engine, if it is a typed array.
  \<open>throw\<close> records a type error, \<open>box\<close> is the value \<open>js_TA_get_*\<close> make of an element, \<open>js_call\<close>
  calls the function (no result is an exception), \<open>int_tag\<close> is the value of a result that is an
  integer, \<open>to_float64\<close> converts any other result, \<open>positive\<close> and \<open>negative\<close> compare it with zero.
\<close>

record ta_object =
  class_id :: ta_class
  count :: u32
  elements :: "u64 list"
  detached :: bool

record ('v, 'r, 'd, 's) engine =
  object :: "'s \<Rightarrow> ta_object option"
  throw :: "'s \<Rightarrow> 's"
  box :: "ta_class \<Rightarrow> u64 \<Rightarrow> 'v"
  js_call :: "'v \<Rightarrow> 'v \<Rightarrow> 's \<Rightarrow> 'r option \<times> 's"
  int_tag :: "'r \<Rightarrow> int option"
  to_float64 :: "'r \<Rightarrow> 's \<Rightarrow> 'd option \<times> 's"
  positive :: "'d \<Rightarrow> bool"
  negative :: "'d \<Rightarrow> bool"

definition validate_typed_array :: "('v, 'r, 'd, 's) engine \<Rightarrow> 's \<Rightarrow> int \<times> 's" where
  "validate_typed_array E s =
     (case object E s of
        None \<Rightarrow> (- 1, throw E s)
      | Some p \<Rightarrow> if detached p then (- 1, throw E s) else (0, s))"

definition js_typed_array_get_length_internal :: "('v, 'r, 'd, 's) engine \<Rightarrow> 's \<Rightarrow> int \<times> 's" where
  "js_typed_array_get_length_internal E s =
     (case object E s of
        None \<Rightarrow> (- 1, throw E s)
      | Some p \<Rightarrow> if detached p then (- 1, throw E s) else (sint (count p), s))"

text \<open>The end of the comparison: offsets decide between equals, and the array must not be detached.\<close>

definition js_TA_cmp_offsets :: "('v, 'r, 'd, 's) engine \<Rightarrow> nat \<Rightarrow> nat \<Rightarrow> int \<Rightarrow> 's \<Rightarrow> int \<times> bool \<times> 's" where
  "js_TA_cmp_offsets E a_idx b_idx cmp s =
     (let cmp = (if cmp = 0 then of_bool (a_idx > b_idx) - of_bool (a_idx < b_idx) else cmp);
          (v, s) = validate_typed_array E s
      in (cmp, v < 0, s))"

text \<open>
  The state is the flag \<open>exception\<close> of the sort context and the state of the engine; \<open>getfun\<close> reads
  the element at an offset of \<open>array_ptr\<close>, which is the memory of the object.
\<close>

definition js_TA_cmp_generic :: "('v, 'r, 'd, 's) engine \<Rightarrow> (nat \<Rightarrow> 's \<Rightarrow> 'v) \<Rightarrow> (nat, bool \<times> 's) cmp_f" where
  "js_TA_cmp_generic E getfun a_idx b_idx st =
     (let (exception, s) = st in
      if exception then (0, True, s)
      else
        case js_call E (getfun a_idx s) (getfun b_idx s) s of
          (None, s) \<Rightarrow> (0, True, s)
        | (Some res, s) \<Rightarrow>
            (case int_tag E res of
               Some val \<Rightarrow> js_TA_cmp_offsets E a_idx b_idx (of_bool (val > 0) - of_bool (val < 0)) s
             | None \<Rightarrow>
                 (case to_float64 E res s of
                    (None, s) \<Rightarrow> (0, True, s)
                  | (Some val, s) \<Rightarrow>
                      js_TA_cmp_offsets E a_idx b_idx (of_bool (positive E val) - of_bool (negative E val)) s)))"

text \<open>While no exception is pending, the object is there.\<close>

definition ta_getfun :: "('v, 'r, 'd, 's) engine \<Rightarrow> nat \<Rightarrow> 's \<Rightarrow> 'v" where
  "ta_getfun E i s = (let p = the (object E s) in box E (class_id p) (elements p ! i))"

text \<open>
  \<open>js_typed_array_sort\<close>: \<open>cmp\<close> is the argument, undefined or a value that is or is not a function; \<open>ok1\<close>
  and \<open>ok2\<close> are the outcomes of the two allocations. The result is the exception or the new elements,
  with the state of the engine. Access outside the memory of the array is undefined.
\<close>

definition js_typed_array_sort ::
  "('v, 'r, 'd, 's) engine \<Rightarrow> bool option \<Rightarrow> bool \<Rightarrow> bool \<Rightarrow> 's \<Rightarrow> ((unit + u64 list) \<times> 's) option" where
  "js_typed_array_sort E cmp ok1 ok2 s =
     (let (len, s) = js_typed_array_get_length_internal E s in
      if len < 0 then Some (Inl (), s)
      else if cmp = Some False then Some (Inl (), throw E s)
      else do {
        p \<leftarrow> object E s;
        if len > 1 then
          let n = nat len; elt_size = 2 ^ typed_array_size_log2 (class_id p) in
          if length (elements p) < n then None
          else if cmp \<noteq> None then
            if \<not> ok1 then Some (Inl (), throw E s)
            else do {
              (idx, exception, s) \<leftarrow> rqsort (js_TA_cmp_generic E (ta_getfun E)) 4 [0..<n] (False, s);
              if exception then Some (Inl (), s)
              else if \<not> ok2 then Some (Inl (), throw E s)
              else do {
                p \<leftarrow> object E s;
                let tmp = elements p;
                if length tmp < n then None else Some (Inr (map (\<lambda>j. tmp ! j) idx @ drop n tmp), s)
              }
            }
          else do {
            (xs, _) \<leftarrow> rqsort (cmpfun (class_id p)) elt_size (take n (elements p)) ();
            Some (Inr (xs @ drop n (elements p)), s)
          }
        else Some (Inr (elements p), s)
      })"

section \<open>The comparison keeps its state\<close>





lemma sort_offsets_total:
  fixes st :: "bool \<times> 's"
  obtains idx exc s' where "rqsort cmp 4 [0..<n] st = Some (idx, exc, s')" and "mset idx = mset [0..<n]"
  using rqsort_total[of cmp 4 "[0..<n]" st] by (metis surj_pair)

lemma mset_map_nth: "mset idx = mset [0..<length xs] \<Longrightarrow> mset (map (\<lambda>j. xs ! j) idx) = mset xs"
  by (metis map_nth mset_map)

section \<open>Properties\<close>

lemma typed_array_length:
  assumes "object E s = Some p" and "\<not> detached p" and "sint (count p) = int (length (elements p))"
  shows "js_typed_array_get_length_internal E s = (int (length (elements p)), s)"
  using assms by (simp add: js_typed_array_get_length_internal_def)

text \<open>An engine for examples: its state is the object, and a function answers with an integer.\<close>

definition sample_engine :: "(u64 \<Rightarrow> u64 \<Rightarrow> ta_object \<Rightarrow> int option \<times> ta_object) \<Rightarrow> (u64, int, int, ta_object) engine" where
  "sample_engine f =
     \<lparr>object = Some, throw = (\<lambda>s. s), box = (\<lambda>c x. x), js_call = f, int_tag = Some, to_float64 = (\<lambda>r s. (Some r, s)),
      positive = (\<lambda>d. d > 0), negative = (\<lambda>d. d < 0)\<rparr>"

definition sample_array :: "ta_class \<Rightarrow> u64 list \<Rightarrow> ta_object" where
  "sample_array c xs = \<lparr>class_id = c, count = of_nat (length xs), elements = xs, detached = False\<rparr>"

text \<open>
  C22. Without a comparison function, \<open>TypedArray.prototype.sort\<close> on an array whose buffer is
  attached succeeds for every kind of element: the array then holds the same elements in the
  ascending order of its kind, with negative zero before positive zero and NaN at the end.
\<close>
theorem js_typed_array_sort_numbers:
  assumes "object E s = Some p" and "\<not> detached p" and "sint (count p) = int (length (elements p))"
  shows "\<exists>ys. js_typed_array_sort E None ok1 ok2 s = Some (Inr ys, s) \<and> mset ys = mset (elements p) \<and>
    sorted_wrt (\<lambda>a b. ta_rank (class_id p) a \<le> ta_rank (class_id p) b) ys"
proof (cases "length (elements p) \<le> 1")
  case True
  then have "sorted_wrt r (elements p)" for r by (cases "elements p") auto
  then show ?thesis using True assms by (simp add: js_typed_array_sort_def typed_array_length[OF assms])
next
  case False
  obtain ys u where r: "rqsort (cmpfun (class_id p)) (2 ^ typed_array_size_log2 (class_id p)) (elements p) () = Some (ys, u)"
    "mset ys = mset (elements p)"
    using rqsort_total[of "cmpfun (class_id p)" "2 ^ typed_array_size_log2 (class_id p)" "elements p" "()"] by blast
  have "sorted_wrt (\<lambda>a b. ta_rank (class_id p) a \<le> ta_rank (class_id p) b) ys"
    using ta.rqsort_sorts[OF r(1)] by simp
  then show ?thesis using r False assms by (simp add: js_typed_array_sort_def typed_array_length[OF assms] Let_def)
qed

theorem js_typed_array_sort_numbers_witness:
  "js_typed_array_sort (sample_engine (\<lambda>a b s. (None, s))) None True True
     (sample_array JS_CLASS_FLOAT32_ARRAY [0x7fc00000, 0, 0x3f800000, 0x80000000, 0xbf800000]) =
     Some (Inr [0xbf800000, 0x80000000, 0, 0x3f800000, 0x7fc00000],
       sample_array JS_CLASS_FLOAT32_ARRAY [0x7fc00000, 0, 0x3f800000, 0x80000000, 0xbf800000]) \<and>
   sorted_wrt (\<lambda>a b. ta_rank JS_CLASS_FLOAT32_ARRAY a \<le> ta_rank JS_CLASS_FLOAT32_ARRAY b)
     [0xbf800000, 0x80000000, 0, 0x3f800000, 0x7fc00000]"
proof -
  let ?p = "sample_array JS_CLASS_FLOAT32_ARRAY [0x7fc00000, 0, 0x3f800000, 0x80000000, 0xbf800000]"
  have run: "js_typed_array_sort (sample_engine (\<lambda>a b s. (None, s))) None True True ?p =
      Some (Inr [0xbf800000, 0x80000000, 0, 0x3f800000, 0x7fc00000], ?p)" by code_simp
  have "object (sample_engine (\<lambda>a b s. (None, s))) ?p = Some ?p" "\<not> detached ?p"
    "sint (count ?p) = int (length (elements ?p))" "class_id ?p = JS_CLASS_FLOAT32_ARRAY"
    by (simp_all add: sample_engine_def sample_array_def)
  from js_typed_array_sort_numbers[OF this(1-3), of True True] this(4) show ?thesis using run by auto
qed



text \<open>
  A comparison function that orders the elements by a number, in states that satisfy \<open>P\<close>: it throws
  nothing and leaves the array as it is.
\<close>

definition answers :: "('v, 'r, 'd, 's) engine \<Rightarrow> ta_object \<Rightarrow> ('s \<Rightarrow> bool) \<Rightarrow> (u64 \<Rightarrow> int) \<Rightarrow> bool" where
  "answers E p P key \<longleftrightarrow>
     (\<forall>t. P t \<longrightarrow> object E t = Some p \<and> \<not> detached p) \<and>
     (\<forall>x y t. P t \<longrightarrow>
       (\<exists>r t1. js_call E (box E (class_id p) x) (box E (class_id p) y) t = (Some r, t1) \<and>
         (case int_tag E r of
            Some v \<Rightarrow> sgn v = sgn (key x - key y) \<and> P t1
          | None \<Rightarrow> \<exists>v t2. to_float64 E r t1 = (Some v, t2) \<and>
              of_bool (positive E v) - of_bool (negative E v) = sgn (key x - key y) \<and> P t2)))"

lemma js_TA_cmp_offsets_answer:
  assumes "answers E p P key" and "P s"
  shows "js_TA_cmp_offsets E a b c s = (if c = 0 then of_bool (a > b) - of_bool (a < b) else c, False, s)"
  using assms by (simp add: answers_def js_TA_cmp_offsets_def validate_typed_array_def)

lemma js_TA_cmp_generic_answer:
  assumes "answers E p P key" and "P s"
  shows "\<exists>s'. P s' \<and> js_TA_cmp_generic E (ta_getfun E) a b (False, s) =
    (let c = sgn (key (elements p ! a) - key (elements p ! b)) in
     if c = 0 then of_bool (a > b) - of_bool (a < b) else c, False, s')"
proof -
  let ?c = "sgn (key (elements p ! a) - key (elements p ! b))"
  have get: "ta_getfun E i s = box E (class_id p) (elements p ! i)" for i
    using assms by (simp add: answers_def ta_getfun_def)
  obtain r t where call: "js_call E (ta_getfun E a s) (ta_getfun E b s) s = (Some r, t)"
    and ans: "case int_tag E r of Some v \<Rightarrow> sgn v = ?c \<and> P t
      | None \<Rightarrow> \<exists>v t2. to_float64 E r t = (Some v, t2) \<and> of_bool (positive E v) - of_bool (negative E v) = ?c \<and> P t2"
    using assms unfolding answers_def get by blast
  show ?thesis
  proof (cases "int_tag E r")
    case None
    then obtain v t2 where v: "to_float64 E r t = (Some v, t2)" "of_bool (positive E v) - of_bool (negative E v) = ?c" "P t2"
      using ans by auto
    show ?thesis
      by (rule exI[of _ t2]) (simp add: js_TA_cmp_generic_def call None v js_TA_cmp_offsets_answer[OF assms(1) v(3)])
  next
    case (Some v)
    then have v: "sgn v = ?c" "P t" using ans by auto
    have "of_bool (v > 0) - of_bool (v < 0) = sgn v" by (simp add: sgn_if)
    then show ?thesis
      by (intro exI[of _ t]) (simp add: js_TA_cmp_generic_def call Some v js_TA_cmp_offsets_answer[OF assms(1) v(2)])
  qed
qed

text \<open>The offsets come out by the number of their element, and in their own order where it is the same.\<close>

lemma offsets_sorted:
  assumes a: "answers E p P key" "P s"
    and r: "rqsort (js_TA_cmp_generic E (ta_getfun E)) 4 [0..<n] (False, s) = Some (idx, exc, s')"
  defines "k \<equiv> \<lambda>i. key (elements p ! i)"
  shows "sorted_wrt (\<lambda>i j. k i < k j \<or> k i = k j \<and> i \<le> j) idx" and "\<not> exc" and "P s'"
proof -
  have cmp: "\<exists>t. P t \<and> js_TA_cmp_generic E (ta_getfun E) i j st =
      (let c = sgn (k i - k j) in if c = 0 then of_bool (i > j) - of_bool (i < j) else c, False, t)"
    if "\<not> fst st \<and> P (snd st)" for i j st
    using js_TA_cmp_generic_answer[OF a(1), of "snd st" i j] that unfolding k_def by (cases st) simp
  have "comparison (js_TA_cmp_generic E (ta_getfun E)) (\<lambda>st. \<not> fst st \<and> P (snd st))
      (\<lambda>i j. k i < k j \<or> k i = k j \<and> i \<le> j)"
  proof unfold_locales
    fix st i j assume st: "\<not> fst st \<and> P (snd st)"
    then show "\<not> fst (snd (js_TA_cmp_generic E (ta_getfun E) i j st)) \<and> P (snd (snd (js_TA_cmp_generic E (ta_getfun E) i j st)))"
      using cmp[OF st, of i j] by auto
    show "fst (js_TA_cmp_generic E (ta_getfun E) i j st) \<le> 0 \<longleftrightarrow> k i < k j \<or> k i = k j \<and> i \<le> j"
      using cmp[OF st, of i j] by (cases rule: linorder_cases[of "k i" "k j"]) (auto simp: Let_def)
    show "fst (js_TA_cmp_generic E (ta_getfun E) i j st) \<ge> 0 \<longleftrightarrow> k j < k i \<or> k j = k i \<and> j \<le> i"
      using cmp[OF st, of i j] by (cases rule: linorder_cases[of "k i" "k j"]) (auto simp: Let_def)
  qed auto
  from comparison.rqsort_sorts[OF this r] a(2)
  show "sorted_wrt (\<lambda>i j. k i < k j \<or> k i = k j \<and> i \<le> j) idx" "\<not> exc" "P s'" by simp_all
qed

lemma filter_offsets:
  assumes "sorted_wrt (\<lambda>i j. k i < k j \<or> k i = k j \<and> i \<le> j) idx" and "mset idx = mset [0..<n]"
  shows "filter (\<lambda>i. k i = (c :: int)) idx = filter (\<lambda>i. k i = c) [0..<n]"
proof (rule sorted_distinct_set_unique)
  have "sorted_wrt (\<lambda>i j. k i < k j \<or> k i = k j \<and> i \<le> j) (filter (\<lambda>i. k i = c) idx)"
    using assms(1) by (rule sorted_wrt_filter)
  then show "sorted (filter (\<lambda>i. k i = c) idx)" by (rule sorted_wrt_mono_rel[rotated]) auto
  show "distinct (filter (\<lambda>i. k i = c) idx)" using assms(2) mset_eq_imp_distinct_iff[OF assms(2)] by simp
  show "set (filter (\<lambda>i. k i = c) idx) = set (filter (\<lambda>i. k i = c) [0..<n])" using mset_eq_setD[OF assms(2)] by auto
qed (simp_all add: sorted_wrt_filter)

lemma offsets_sort_key:
  assumes "sorted_wrt (\<lambda>i j. key (xs ! i) < key (xs ! j) \<or> key (xs ! i) = key (xs ! j) \<and> i \<le> j) idx"
    and "mset idx = mset [0..<length xs]"
  shows "map (\<lambda>i. xs ! i) idx = sort_key (key :: _ \<Rightarrow> int) xs"
proof (rule sym, rule properties_for_sort_key)
  show "mset (map (\<lambda>i. xs ! i) idx) = mset xs" by (rule mset_map_nth[OF assms(2)])
  show "filter (\<lambda>x. key k = key x) (map (\<lambda>i. xs ! i) idx) = filter (\<lambda>x. key k = key x) xs" for k
  proof -
    have "filter (\<lambda>x. key k = key x) (map (\<lambda>i. xs ! i) idx) = map (\<lambda>i. xs ! i) (filter (\<lambda>i. key (xs ! i) = key k) idx)"
      by (simp add: filter_map o_def eq_commute[of "key k"])
    also have "\<dots> = map (\<lambda>i. xs ! i) (filter (\<lambda>i. key (xs ! i) = key k) [0..<length xs])"
      by (simp only: filter_offsets[where k = "\<lambda>i. key (xs ! i)", OF assms])
    also have "\<dots> = filter (\<lambda>x. key k = key x) (map (\<lambda>i. xs ! i) [0..<length xs])"
      by (simp add: filter_map o_def eq_commute[of "key k"])
    finally show ?thesis by (simp add: map_nth)
  qed
  have "sorted_wrt (\<lambda>i j. key (xs ! i) \<le> key (xs ! j)) idx" using assms(1) by (rule sorted_wrt_mono_rel[rotated]) auto
  then show "sorted (map key (map (\<lambda>i. xs ! i) idx))" by (simp add: sorted_wrt_map)
qed

text \<open>
  C21. \<open>TypedArray.prototype.sort\<close> with a comparison function is stable: when the function orders the
  elements by a number, whether it answers with integers or with doubles, the array ends up as the
  stable sort of its elements by that number, although \<open>rqsort\<close> is not stable.
\<close>
theorem js_typed_array_sort_stable:
  assumes "answers E p P key" and "P s" and "sint (count p) = int (length (elements p))"
  shows "\<exists>s'. js_typed_array_sort E (Some True) True True s = Some (Inr (sort_key key (elements p)), s') \<and> P s'"
proof -
  have p: "object E t = Some p" "\<not> detached p" if "P t" for t using assms(1) that unfolding answers_def by blast+
  note l = typed_array_length[OF p[OF assms(2)] assms(3)]
  show ?thesis
  proof (cases "length (elements p) \<le> 1")
    case True
    then have "sort_key key (elements p) = elements p" by (cases "elements p") auto
    then show ?thesis using True l p[OF assms(2)] assms(2) by (simp add: js_typed_array_sort_def)
  next
    case False
    obtain idx exc s' where r: "rqsort (js_TA_cmp_generic E (ta_getfun E)) 4 [0..<length (elements p)] (False, s) = Some (idx, exc, s')"
      and m: "mset idx = mset [0..<length (elements p)]" by (rule sort_offsets_total)
    note S = offsets_sorted[OF assms(1,2) r]
    show ?thesis
      using False l r S(2,3) p[OF assms(2)] p[OF S(3)] offsets_sort_key[OF S(1) m]
      by (simp add: js_typed_array_sort_def Let_def)
  qed
qed

text \<open>A function that compares the tens.\<close>

theorem js_typed_array_sort_stable_witness:
  "js_typed_array_sort (sample_engine (\<lambda>a b s. (Some (uint a div 10 - uint b div 10), s))) (Some True) True True
     (sample_array JS_CLASS_UINT8_ARRAY [31, 12, 35, 17, 11, 30]) =
     Some (Inr [12, 17, 11, 31, 35, 30], sample_array JS_CLASS_UINT8_ARRAY [31, 12, 35, 17, 11, 30]) \<and>
   sort_key (\<lambda>x. uint x div 10) [31, 12, 35, 17, 11, 30 :: u64] = [12, 17, 11, 31, 35, 30]"
proof -
  let ?p = "sample_array JS_CLASS_UINT8_ARRAY [31, 12, 35, 17, 11, 30]"
    and ?E = "sample_engine (\<lambda>a b s. (Some (uint a div 10 - uint b div 10), s))"
  have run: "js_typed_array_sort ?E (Some True) True True ?p = Some (Inr [12, 17, 11, 31, 35, 30], ?p)" by code_simp
  have H: "answers ?E ?p (\<lambda>s. s = ?p) (\<lambda>x. uint x div 10)" "sint (count ?p) = int (length (elements ?p))"
    "elements ?p = [31, 12, 35, 17, 11, 30]"
    by (simp_all add: answers_def sample_engine_def sample_array_def)
  from js_typed_array_sort_stable[OF H(1) refl H(2)] show ?thesis using run H(3) by auto
qed

end
