(* ===== verification/Cutils_Reach.thy ===== *)
theory Cutils_Reach
  imports Cutils_DynBuf
begin

text \<open>
  The dynamic buffer as a state machine: the states that a client can reach from \<open>dbuf_init2\<close> by any
  sequence of operations, with any outcomes of the allocator, and what holds in all of them.
\<close>

datatype dbuf_op =
    Op_realloc nat
  | Op_write nat "u8 list"
  | Op_put "u8 list"
  | Op_put_self nat nat
  | Op_putc u8
  | Op_put_u16 u16
  | Op_put_u32 u32
  | Op_put_u64 u64
  | Op_putstr "u8 list"
  | Op_printf "u8 list"
  | Op_set_error

fun dbuf_exec :: "dbuf_op \<Rightarrow> dynbuf \<Rightarrow> (int \<times> dynbuf) option" where
  "dbuf_exec (Op_realloc n) s = dbuf_realloc s n"
| "dbuf_exec (Op_write offset xs) s = dbuf_write s offset xs"
| "dbuf_exec (Op_put xs) s = dbuf_put s xs"
| "dbuf_exec (Op_put_self offset n) s = dbuf_put_self s offset n"
| "dbuf_exec (Op_putc c) s = dbuf_putc s c"
| "dbuf_exec (Op_put_u16 v) s = dbuf_put_u16 s v"
| "dbuf_exec (Op_put_u32 v) s = dbuf_put_u32 s v"
| "dbuf_exec (Op_put_u64 v) s = dbuf_put_u64 s v"
| "dbuf_exec (Op_putstr str) s = dbuf_putstr s str"
| "dbuf_exec (Op_printf out) s = dbuf_printf s out"
| "dbuf_exec Op_set_error s = Some (0, dbuf_set_error s)"

text \<open>
  What a caller has to ensure: sources are memory objects, a string ends with a terminator, a copy
  of a part of the contents stays inside them, an offset is the size of an object.
\<close>

fun op_ok :: "dbuf_op \<Rightarrow> dynbuf \<Rightarrow> bool" where
  "op_ok (Op_write offset xs) s \<longleftrightarrow> offset \<le> PTRDIFF_MAX \<and> length xs \<le> PTRDIFF_MAX"
| "op_ok (Op_put xs) s \<longleftrightarrow> length xs \<le> PTRDIFF_MAX"
| "op_ok (Op_put_self offset n) s \<longleftrightarrow> offset + n \<le> dsize s"
| "op_ok (Op_putstr str) s \<longleftrightarrow> 0 \<in> set str \<and> length str \<le> PTRDIFF_MAX"
| "op_ok (Op_printf out) s \<longleftrightarrow> length out < 2 ^ 31"
| "op_ok _ s \<longleftrightarrow> True"

inductive dbuf_reachable :: "u8 heap \<Rightarrow> dynbuf \<Rightarrow> bool" for h where
  init: "dbuf_reachable h (dbuf_init2 h)"
| step: "dbuf_reachable h s \<Longrightarrow> op_ok op s \<Longrightarrow> dbuf_exec op s = Some (r, s') \<Longrightarrow> dbuf_reachable h s'"

section \<open>One operation\<close>

text \<open>
  The capacity never shrinks. The error flag is never cleared, and while it is set the capacity stays.
  An operation that fails sets it and leaves the contents alone.
\<close>

definition advances :: "dynbuf \<Rightarrow> int \<Rightarrow> dynbuf \<Rightarrow> bool" where
  "advances s r s' \<longleftrightarrow>
     dbuf_wf s' \<and> (r = 0 \<or> r = - 1) \<and> allocated_size s \<le> allocated_size s' \<and>
     (derror s \<longrightarrow> derror s' \<and> allocated_size s' = allocated_size s) \<and>
     (r \<noteq> 0 \<longrightarrow> derror s' \<and> dbuf_data s' = dbuf_data s)"

lemma realloc_advances:
  assumes "dbuf_wf s" and "dbuf_realloc s n = Some (r, s')"
  shows "advances s r s'" and "dsize s' = dsize s" and "r = 0 \<Longrightarrow> n \<le> allocated_size s'"
proof -
  from dbuf_realloc_spec[OF assms(1), of n] obtain r1 s1 where
    1: "dbuf_realloc s n = Some (r1, s1)" "dbuf_wf s1" "dbuf_data s1 = dbuf_data s" "dsize s1 = dsize s"
      "r1 = 0 \<Longrightarrow> n \<le> allocated_size s1 \<and> derror s1 = derror s" "r1 \<noteq> 0 \<Longrightarrow> r1 = - 1 \<and> derror s1"
      "take (allocated_size s) (buf s1) = buf s" by metis
  have eq: "r1 = r" "s1 = s'" using 1(1) assms(2) by simp_all
  have "length (take (allocated_size s) (buf s1)) = length (buf s)" using 1(7) by simp
  then have "allocated_size s \<le> allocated_size s1" using 1(2) assms(1) by (auto simp: dbuf_wf_def)
  moreover have "derror s \<Longrightarrow> allocated_size s1 = allocated_size s"
    using 1(1) by (auto simp: dbuf_realloc_def split: if_splits)
  ultimately show "advances s r s'" "dsize s' = dsize s" "r = 0 \<Longrightarrow> n \<le> allocated_size s'"
    using 1 eq unfolding advances_def by auto
qed

lemma dbuf_write_safe:
  assumes "dbuf_wf s" and "offset \<le> PTRDIFF_MAX" and "length xs \<le> PTRDIFF_MAX"
  shows "\<exists>r s'. dbuf_write s offset xs = Some (r, s') \<and> advances s r s'"
proof -
  have small: "offset + length xs < 2 ^ 64" using assms by (simp add: PTRDIFF_MAX_def)
  obtain r s1 where r: "dbuf_realloc s (offset + length xs) = Some (r, s1)"
    using dbuf_realloc_spec[OF assms(1), of "offset + length xs"] by metis
  note R = realloc_advances[OF assms(1) r]
  show ?thesis
  proof (cases "r = 0")
    case True
    then have fits: "offset + length xs \<le> length (buf s1)" using R by (simp add: advances_def dbuf_wf_def)
    then show ?thesis using r True small R by (auto simp: dbuf_write_def Let_def mem_write_def advances_def dbuf_wf_def)
  next
    case False
    then show ?thesis using r small R by (auto simp: dbuf_write_def Let_def advances_def)
  qed
qed

lemma dbuf_put_safe:
  assumes "dbuf_wf s" and "length xs \<le> PTRDIFF_MAX"
  shows "\<exists>r s'. dbuf_put s xs = Some (r, s') \<and> advances s r s'"
proof (cases "dsize s + length xs > allocated_size s")
  case False
  then show ?thesis using assms
    by (auto simp: dbuf_put_def Let_def mem_write_def advances_def dbuf_wf_def PTRDIFF_MAX_def)
next
  case True
  have small: "dsize s + length xs < 2 ^ 64" using assms by (simp add: dbuf_wf_def PTRDIFF_MAX_def)
  obtain r s1 where r: "dbuf_realloc s (dsize s + length xs) = Some (r, s1)"
    using dbuf_realloc_spec[OF assms(1), of "dsize s + length xs"] by metis
  note R = realloc_advances[OF assms(1) r]
  show ?thesis
  proof (cases "r = 0")
    case ok: True
    then have fits: "dsize s1 + length xs \<le> length (buf s1)" using R by (simp add: advances_def dbuf_wf_def)
    then show ?thesis
      using r ok small R True by (auto simp: dbuf_put_def Let_def mem_write_def advances_def dbuf_wf_def)
  next
    case False
    then show ?thesis using r small R True by (auto simp: dbuf_put_def Let_def advances_def)
  qed
qed

lemma dbuf_put_self_safe:
  assumes "dbuf_wf s" and "offset + n \<le> dsize s"
  shows "\<exists>r s'. dbuf_put_self s offset n = Some (r, s') \<and> advances s r s'"
proof (cases "dsize s + n > allocated_size s")
  case False
  then show ?thesis using assms
    by (auto simp: dbuf_put_self_def Let_def mem_read_def mem_write_def advances_def dbuf_wf_def PTRDIFF_MAX_def)
next
  case True
  have small: "dsize s + n < 2 ^ 64" using assms by (simp add: dbuf_wf_def PTRDIFF_MAX_def)
  obtain r s1 where r: "dbuf_realloc s (dsize s + n) = Some (r, s1)"
    using dbuf_realloc_spec[OF assms(1), of "dsize s + n"] by metis
  note R = realloc_advances[OF assms(1) r]
  show ?thesis
  proof (cases "r = 0")
    case ok: True
    then have fits: "dsize s1 + n \<le> length (buf s1)" using R by (simp add: advances_def dbuf_wf_def)
    then show ?thesis
      using r ok small R True assms(2)
      by (auto simp: dbuf_put_self_def Let_def mem_read_def mem_write_def advances_def dbuf_wf_def)
  next
    case False
    then show ?thesis using r small R True by (auto simp: dbuf_put_self_def Let_def advances_def)
  qed
qed

lemma dbuf_putstr_safe:
  assumes "dbuf_wf s" and "0 \<in> set str" and "length str \<le> PTRDIFF_MAX"
  shows "\<exists>r s'. dbuf_putstr s str = Some (r, s') \<and> advances s r s'"
proof -
  have "length (takeWhile (\<lambda>c. c \<noteq> 0) str) < length str"
    using assms(2) by (auto simp: length_takeWhile_less_ex)
  then obtain n where n: "strlen str 0 = Some n" by (auto simp: strlen_def Let_def)
  have "length (take n str) \<le> PTRDIFF_MAX" using assms(3) by simp
  from dbuf_put_safe[OF assms(1) this] show ?thesis by (simp add: dbuf_putstr_def n)
qed

lemma dbuf_printf_safe:
  assumes "dbuf_wf s" and "length out < 2 ^ 31"
  shows "\<exists>r s'. dbuf_printf s out = Some (r, s') \<and> advances s r s'"
proof (cases "length out < 128")
  case True
  then show ?thesis using dbuf_put_safe[OF assms(1), of out] by (simp add: dbuf_printf_def PTRDIFF_MAX_def)
next
  case long: False
  let ?n = "dsize s + length out + 1"
  have small: "?n < 2 ^ 64" using assms by (simp add: dbuf_wf_def PTRDIFF_MAX_def)
  obtain r s1 where r: "dbuf_realloc s ?n = Some (r, s1)" using dbuf_realloc_spec[OF assms(1), of ?n] by metis
  note R = realloc_advances[OF assms(1) r]
  show ?thesis
  proof (cases "r = 0")
    case True
    then have "?n \<le> length (buf s1)" "length (buf s1) = allocated_size s1" using R by (simp_all add: advances_def dbuf_wf_def)
    then show ?thesis using r True small long R
      by (auto simp: dbuf_printf_def mem_write_def advances_def dbuf_wf_def)
  next
    case False
    then show ?thesis using r small R long by (auto simp: dbuf_printf_def advances_def)
  qed
qed

lemma dbuf_exec_safe:
  assumes "dbuf_wf s" and "op_ok op s"
  shows "\<exists>r s'. dbuf_exec op s = Some (r, s') \<and> advances s r s'"
proof (cases op)
  case (Op_realloc n)
  then show ?thesis using dbuf_realloc_spec[OF assms(1), of n] realloc_advances(1)[OF assms(1), of n] by (metis dbuf_exec.simps(1))
next
  case Op_set_error
  then show ?thesis using assms(1) by (auto simp: dbuf_set_error_def advances_def dbuf_wf_def)
qed (use assms in \<open>auto simp: dbuf_write_safe dbuf_put_safe dbuf_put_self_safe dbuf_putstr_safe dbuf_printf_safe
       dbuf_putc_def dbuf_put_u16_def dbuf_put_u32_def dbuf_put_u64_def PTRDIFF_MAX_def\<close>)

lemma dbuf_reachable_wf: "dbuf_reachable h s \<Longrightarrow> dbuf_wf s"
proof (induction rule: dbuf_reachable.induct)
  case (step s op r s')
  then show ?case using dbuf_exec_safe[OF step.IH step.hyps(2)] by (auto simp: advances_def)
qed (rule dbuf_wf_init2)

section \<open>Property\<close>

text \<open>
  C16. In every state that a client can reach, with any outcomes of the allocator, the buffer is well
  formed (its size is within its capacity, which is the size of the memory object behind it), and every
  operation called as it has to be is defined. An operation returns 0 or -1 and never shrinks the
  capacity; if it fails, it sets the error flag and leaves the contents alone; once set the flag stays,
  and the capacity stays with it.
\<close>
theorem dbuf_reachable_invariant:
  assumes "dbuf_reachable h s"
  shows "dbuf_wf s \<and> (\<forall>op. op_ok op s \<longrightarrow> (\<exists>r s'. dbuf_exec op s = Some (r, s') \<and> dbuf_reachable h s' \<and>
    (r = 0 \<or> r = - 1) \<and> allocated_size s \<le> allocated_size s' \<and>
    (derror s \<longrightarrow> derror s' \<and> allocated_size s' = allocated_size s) \<and>
    (r = - 1 \<longrightarrow> derror s' \<and> dbuf_data s' = dbuf_data s)))"
proof -
  note wf = dbuf_reachable_wf[OF assms]
  have "\<exists>r s'. dbuf_exec op s = Some (r, s') \<and> dbuf_reachable h s' \<and> (r = 0 \<or> r = - 1) \<and>
      allocated_size s \<le> allocated_size s' \<and> (derror s \<longrightarrow> derror s' \<and> allocated_size s' = allocated_size s) \<and>
      (r = - 1 \<longrightarrow> derror s' \<and> dbuf_data s' = dbuf_data s)" if "op_ok op s" for op
    using dbuf_exec_safe[OF wf that] dbuf_reachable.step[OF assms that] unfolding advances_def by fastforce
  then show ?thesis using wf by blast
qed

text \<open>The second allocation fails: the flag is set, and the byte written before is kept.\<close>

theorem dbuf_reachable_invariant_witness:
  "\<exists>s. dbuf_reachable [Some (\<lambda>_. 7), None] s \<and> dbuf_data s = [5] \<and> \<not> derror s \<and>
     (\<exists>s'. dbuf_exec (Op_put [1, 2]) s = Some (- 1, s') \<and> derror s' \<and> dbuf_data s' = [5])"
proof -
  let ?s = "\<lparr>buf = [5], dsize = 1, allocated_size = 1, derror = False, has_realloc = True, opaque = [None]\<rparr> :: dynbuf"
  have r: "dbuf_reachable [Some (\<lambda>_. 7), None] ?s"
  proof (rule dbuf_reachable.step[OF dbuf_reachable.init])
    show "dbuf_exec (Op_putc 5) (dbuf_init2 [Some (\<lambda>_. 7), None]) = Some (0, ?s)"
      by (simp add: dbuf_putc_def dbuf_put_def dbuf_init2_def dbuf_realloc_def realloc_func_def mem_write_def
          PTRDIFF_MAX_def)
  qed simp
  have "op_ok (Op_put [1, 2]) ?s" by (simp add: PTRDIFF_MAX_def)
  then obtain q s' where s': "dbuf_exec (Op_put [1, 2]) ?s = Some (q, s')" "q = - 1 \<longrightarrow> derror s' \<and> dbuf_data s' = dbuf_data ?s"
    using dbuf_reachable_invariant[OF r] by blast
  moreover have "q = - 1" using s'(1)
    by (simp add: dbuf_put_def dbuf_realloc_def realloc_func_def)
  ultimately show ?thesis using r by (intro exI[of _ ?s]) (auto simp: dbuf_data_def)
qed

end
