(* ===== verification/List_Head.thy ===== *)
theory List_Head
  imports Prelude
begin

text \<open>
  The intrusive doubly linked circular lists of \<open>list.h\<close>, on a memory of links. An address is a
  number, \<open>NULL\<close> is 0, and reading or writing through it is undefined. A list is a ring through its
  head; the operations are those of the sequence of its elements.
\<close>

record links =
  lprev :: "nat \<Rightarrow> nat"
  lnext :: "nat \<Rightarrow> nat"

definition init_list_head :: "nat \<Rightarrow> links \<Rightarrow> links option" where
  "init_list_head head m =
     (if head = 0 then None
      else Some (m\<lparr>lprev := (lprev m)(head := head), lnext := (lnext m)(head := head)\<rparr>))"

text \<open>\<open>__list_add\<close>\<close>

definition list_add_between :: "nat \<Rightarrow> nat \<Rightarrow> nat \<Rightarrow> links \<Rightarrow> links option" where
  "list_add_between el prev nxt m =
     (if prev = 0 \<or> el = 0 \<or> nxt = 0 then None
      else
        let m = m\<lparr>lnext := (lnext m)(prev := el)\<rparr>;
            m = m\<lparr>lprev := (lprev m)(el := prev)\<rparr>;
            m = m\<lparr>lnext := (lnext m)(el := nxt)\<rparr>
        in Some (m\<lparr>lprev := (lprev m)(nxt := el)\<rparr>))"

definition list_add :: "nat \<Rightarrow> nat \<Rightarrow> links \<Rightarrow> links option" where
  "list_add el head m = (if head = 0 then None else list_add_between el head (lnext m head) m)"

definition list_add_tail :: "nat \<Rightarrow> nat \<Rightarrow> links \<Rightarrow> links option" where
  "list_add_tail el head m = (if head = 0 then None else list_add_between el (lprev m head) head m)"

definition list_del :: "nat \<Rightarrow> links \<Rightarrow> links option" where
  "list_del el m =
     (if el = 0 then None
      else
        let prev = lprev m el; nxt = lnext m el
        in if prev = 0 \<or> nxt = 0 then None
           else
             let m = m\<lparr>lnext := (lnext m)(prev := nxt)\<rparr>;
                 m = m\<lparr>lprev := (lprev m)(nxt := prev)\<rparr>;
                 m = m\<lparr>lprev := (lprev m)(el := 0)\<rparr>
             in Some (m\<lparr>lnext := (lnext m)(el := 0)\<rparr>))"

definition list_empty :: "nat \<Rightarrow> links \<Rightarrow> bool option" where
  "list_empty el m = (if el = 0 then None else Some (lnext m el = el))"

section \<open>Rings\<close>

text \<open>\<open>path m a xs b\<close>: from \<open>a\<close> the links lead forth through \<open>xs\<close> to \<open>b\<close>, and back.\<close>

primrec path :: "links \<Rightarrow> nat \<Rightarrow> nat list \<Rightarrow> nat \<Rightarrow> bool" where
  "path m a [] b \<longleftrightarrow> lnext m a = b \<and> lprev m b = a"
| "path m a (x # xs) b \<longleftrightarrow> lnext m a = x \<and> lprev m x = a \<and> path m x xs b"

definition ring :: "links \<Rightarrow> nat \<Rightarrow> nat list \<Rightarrow> bool" where
  "ring m head xs \<longleftrightarrow> path m head xs head \<and> distinct (head # xs) \<and> 0 \<notin> set (head # xs)"

text \<open>The links of all other nodes are those of before.\<close>

definition links_outside :: "nat set \<Rightarrow> links \<Rightarrow> links \<Rightarrow> bool" where
  "links_outside S m m' \<longleftrightarrow> (\<forall>p. p \<notin> S \<longrightarrow> lprev m' p = lprev m p \<and> lnext m' p = lnext m p)"

lemma path_append [simp]: "path m a (xs @ x # ys) b \<longleftrightarrow> path m a xs x \<and> path m x ys b"
  by (induction xs arbitrary: a) auto

lemma path_cong:
  assumes "path m a xs b" and "\<And>x. x \<in> set (a # xs) \<Longrightarrow> lnext m' x = lnext m x"
    and "\<And>x. x \<in> set (xs @ [b]) \<Longrightarrow> lprev m' x = lprev m x"
  shows "path m' a xs b"
  using assms by (induction xs arbitrary: a) auto

text \<open>The same path to another end, and from another start.\<close>

lemma path_to:
  assumes "path m a xs b" and "\<And>x. x \<in> set (butlast (a # xs)) \<Longrightarrow> lnext m' x = lnext m x"
    and "\<And>x. x \<in> set xs \<Longrightarrow> lprev m' x = lprev m x"
    and "lnext m' (last (a # xs)) = c" and "lprev m' c = last (a # xs)"
  shows "path m' a xs c"
  using assms by (induction xs arbitrary: a) auto

lemma path_from:
  assumes "path m a xs b" and "\<And>x. x \<in> set xs \<Longrightarrow> lnext m' x = lnext m x"
    and "\<And>x. x \<in> set (tl (xs @ [b])) \<Longrightarrow> lprev m' x = lprev m x"
    and "lnext m' c = hd (xs @ [b])" and "lprev m' (hd (xs @ [b])) = c"
  shows "path m' c xs b"
proof (cases xs)
  case (Cons y ys)
  then show ?thesis using assms path_cong[of m y ys b m'] by simp
qed (use assms in simp)

lemma path_ends: "path m a xs b \<Longrightarrow> lnext m a = hd (xs @ [b]) \<and> lprev m b = last (a # xs)"
  by (induction xs arbitrary: a) auto

lemma ring_frame:
  assumes "ring m head xs" and "links_outside S m m'" and "S \<inter> set (head # xs) = {}"
  shows "ring m' head xs"
proof -
  have "x \<notin> S" if "x \<in> set (head # xs)" for x using assms(3) that by blast
  then have same: "lprev m' x = lprev m x" "lnext m' x = lnext m x" if "x \<in> set (head # xs)" for x
    using assms(2) that unfolding links_outside_def by blast+
  have "path m' head xs head"
    by (rule path_cong) (use assms(1) same in \<open>auto simp: ring_def\<close>)
  then show ?thesis using assms(1) by (simp add: ring_def)
qed

lemma last_not_butlast: "distinct xs \<Longrightarrow> x \<in> set (butlast xs) \<Longrightarrow> x \<noteq> last xs"
  by (induction xs rule: rev_induct) auto

lemma ring_init: "head \<noteq> 0 \<Longrightarrow> \<exists>m'. init_list_head head m = Some m' \<and> ring m' head [] \<and> links_outside {head} m m'"
  by (simp add: init_list_head_def ring_def links_outside_def)

lemma ring_add:
  assumes "ring m head xs" and "el \<notin> set (head # xs)" and "el \<noteq> 0"
  shows "\<exists>m'. list_add el head m = Some m' \<and> ring m' head (el # xs) \<and> links_outside (set (head # el # xs)) m m'"
proof -
  let ?n = "hd (xs @ [head])"
  let ?m = "m\<lparr>lnext := ((lnext m)(head := el))(el := ?n), lprev := ((lprev m)(el := head))(?n := el)\<rparr>"
  have p: "path m head xs head" and d: "distinct (head # xs)" "0 \<notin> set (head # xs)" using assms(1) by (simp_all add: ring_def)
  have n: "?n \<in> set (head # xs)" by (cases xs) auto
  have "?n \<noteq> 0" "?n \<noteq> el" using n d(2) assms(2) by metis+
  then have run: "list_add el head m = Some ?m"
    using d assms(2,3) path_ends[OF p] by (simp add: list_add_def list_add_between_def Let_def)
  have "path ?m el xs head"
    by (rule path_from[OF p]) (use d assms(2) in \<open>cases xs; auto\<close>)+
  then have "ring ?m head (el # xs)" using d assms(2,3) n \<open>?n \<noteq> el\<close> by (auto simp: ring_def)
  moreover have "links_outside (set (head # el # xs)) m ?m" using n by (auto simp: links_outside_def)
  ultimately show ?thesis using run by blast
qed

lemma ring_add_tail:
  assumes "ring m head xs" and "el \<notin> set (head # xs)" and "el \<noteq> 0"
  shows "\<exists>m'. list_add_tail el head m = Some m' \<and> ring m' head (xs @ [el]) \<and> links_outside (set (head # el # xs)) m m'"
proof -
  let ?p = "last (head # xs)"
  let ?m = "m\<lparr>lnext := ((lnext m)(?p := el))(el := head), lprev := ((lprev m)(el := ?p))(head := el)\<rparr>"
  have p: "path m head xs head" and d: "distinct (head # xs)" "0 \<notin> set (head # xs)" using assms(1) by (simp_all add: ring_def)
  have l: "?p \<in> set (head # xs)" by (rule last_in_set) simp
  have l0: "?p \<noteq> 0" "?p \<noteq> el" using l d(2) assms(2) by metis+
  then have run: "list_add_tail el head m = Some ?m"
    using d assms(2,3) path_ends[OF p] by (simp add: list_add_tail_def list_add_between_def Let_def)
  have "path ?m head xs el"
  proof (rule path_to[OF p])
    show "lnext ?m x = lnext m x" if "x \<in> set (butlast (head # xs))" for x
      using that last_not_butlast[OF d(1) that] in_set_butlastD[OF that] assms(2) by auto
    show "lprev ?m x = lprev m x" if "x \<in> set xs" for x using that d assms(2) by auto
  qed (use l0 assms(2) in auto)
  then have "ring ?m head (xs @ [el])" using d assms(2,3) by (auto simp: ring_def)
  moreover have "links_outside (set (head # el # xs)) m ?m" using l by (auto simp: links_outside_def)
  ultimately show ?thesis using run by blast
qed

lemma ring_del:
  assumes "ring m head (xs @ el # ys)"
  shows "\<exists>m'. list_del el m = Some m' \<and> ring m' head (xs @ ys) \<and> lprev m' el = 0 \<and> lnext m' el = 0 \<and>
    links_outside (set (head # xs @ el # ys)) m m'"
proof -
  let ?p = "last (head # xs)" and ?n = "hd (ys @ [head])"
  let ?m = "m\<lparr>lnext := ((lnext m)(?p := ?n))(el := 0), lprev := ((lprev m)(?n := ?p))(el := 0)\<rparr>"
  have p: "path m head xs el" "path m el ys head" and d: "distinct (head # xs @ el # ys)" "0 \<notin> set (head # xs @ el # ys)"
    using assms by (simp_all add: ring_def)
  have l: "?p \<in> set (head # xs)" by (rule last_in_set) simp
  have n: "?n \<in> set (head # ys)" by (cases ys) auto
  have ne: "?p \<noteq> 0" "?n \<noteq> 0" "?p \<noteq> el" "?n \<noteq> el" "el \<noteq> 0" using l n d by auto
  have run: "list_del el m = Some ?m"
    using ne path_ends[OF p(1)] path_ends[OF p(2)] by (simp add: list_del_def Let_def)
  have low: "path ?m head xs ?n"
  proof (rule path_to[OF p(1)])
    show "lnext ?m x = lnext m x" if "x \<in> set (butlast (head # xs))" for x
      using that last_not_butlast[OF _ that] in_set_butlastD[OF that] d by auto
    show "lprev ?m x = lprev m x" if "x \<in> set xs" for x using that d n by auto
  qed (use ne in auto)
  have "path ?m head (xs @ ys) head"
  proof (cases ys)
    case (Cons y zs)
    have "path ?m y zs head"
    proof (rule path_cong)
      show "path m y zs head" using p(2) Cons by simp
      show "lnext ?m x = lnext m x" if "x \<in> set (y # zs)" for x using that l d Cons by auto
      show "lprev ?m x = lprev m x" if "x \<in> set (zs @ [head])" for x using that d Cons by auto
    qed
    then show ?thesis using low Cons by simp
  qed (use low in simp)
  then have "ring ?m head (xs @ ys)" using d by (auto simp: ring_def)
  moreover have "links_outside (set (head # xs @ el # ys)) m ?m" using l n by (auto simp: links_outside_def)
  moreover have "lprev ?m el = 0" "lnext ?m el = 0" by simp_all
  ultimately show ?thesis using run by blast
qed

text \<open>The element after \<open>el\<close> on a list.\<close>

lemma ring_next: "ring m head (xs @ el # ys) \<Longrightarrow> lnext m el = hd (ys @ [head])"
  by (auto simp: ring_def dest: path_ends)

lemma ring_first: "ring m head xs \<Longrightarrow> lnext m head = hd (xs @ [head])"
  by (auto simp: ring_def dest: path_ends)

lemma ring_hd: "ring m head (xs @ ys) \<Longrightarrow> hd (ys @ [head]) \<noteq> 0 \<and> (hd (ys @ [head]) = head \<longleftrightarrow> ys = [])"
  by (cases ys) (auto simp: ring_def)

lemma ring_empty: "ring m head xs \<Longrightarrow> list_empty head m = Some (xs = [])"
  by (cases xs) (auto simp: list_empty_def ring_def)

section \<open>The interface\<close>

text \<open>
  What a client of the lists relies on: adding and removing act on one sequence and keep every list that
  shares no node with it.
\<close>

locale intrusive_list =
  fixes seq :: "'m \<Rightarrow> nat \<Rightarrow> nat list \<Rightarrow> bool"
    and add_tail :: "nat \<Rightarrow> nat \<Rightarrow> 'm \<Rightarrow> 'm option"
    and del :: "nat \<Rightarrow> 'm \<Rightarrow> 'm option"
  assumes seq_distinct: "seq m h xs \<Longrightarrow> distinct (h # xs) \<and> 0 \<notin> set (h # xs)"
    and add_tail_seq: "seq m h xs \<Longrightarrow> el \<notin> set (h # xs) \<Longrightarrow> el \<noteq> 0 \<Longrightarrow>
      \<exists>m'. add_tail el h m = Some m' \<and> seq m' h (xs @ [el]) \<and>
        (\<forall>h' ys. seq m h' ys \<longrightarrow> set (h' # ys) \<inter> set (h # el # xs) = {} \<longrightarrow> seq m' h' ys)"
    and del_seq: "seq m h (xs @ el # ys) \<Longrightarrow>
      \<exists>m'. del el m = Some m' \<and> seq m' h (xs @ ys) \<and>
        (\<forall>h' zs. seq m h' zs \<longrightarrow> set (h' # zs) \<inter> set (h # xs @ el # ys) = {} \<longrightarrow> seq m' h' zs)"
begin

lemma move:
  assumes "seq m A (xs @ p # ys)" and "seq m B ts" and "set (A # xs @ p # ys) \<inter> set (B # ts) = {}"
  shows "\<exists>m'. do { m \<leftarrow> del p m; add_tail p B m } = Some m' \<and> seq m' A (xs @ ys) \<and> seq m' B (ts @ [p])"
proof -
  obtain m1 where 1: "del p m = Some m1" "seq m1 A (xs @ ys)"
    "\<And>h' zs. seq m h' zs \<Longrightarrow> set (h' # zs) \<inter> set (A # xs @ p # ys) = {} \<Longrightarrow> seq m1 h' zs"
    using del_seq[OF assms(1)] by blast
  have "seq m1 B ts" using 1(3)[OF assms(2)] assms(3) by blast
  moreover have p: "p \<notin> set (B # ts)" "p \<noteq> 0" "p \<notin> set (A # xs @ ys)" using seq_distinct[OF assms(1)] assms(3) by auto
  ultimately obtain m2 where 2: "add_tail p B m1 = Some m2" "seq m2 B (ts @ [p])"
    "\<And>h' zs. seq m1 h' zs \<Longrightarrow> set (h' # zs) \<inter> set (B # p # ts) = {} \<Longrightarrow> seq m2 h' zs"
    using add_tail_seq[of m1 B ts p] by blast
  have "set (A # xs @ ys) \<inter> set (B # p # ts) = {}" using assms(3) p by auto
  then show ?thesis using 1 2 by (intro exI[of _ m2]) simp
qed

end

interpretation ilist: intrusive_list ring list_add_tail list_del
proof
  fix m :: links and h el :: nat and xs ys :: "nat list"
  show "distinct (h # xs) \<and> 0 \<notin> set (h # xs)" if "ring m h xs" using that by (simp add: ring_def)
  show "\<exists>m'. list_add_tail el h m = Some m' \<and> ring m' h (xs @ [el]) \<and>
      (\<forall>h' ys. ring m h' ys \<longrightarrow> set (h' # ys) \<inter> set (h # el # xs) = {} \<longrightarrow> ring m' h' ys)"
    if "ring m h xs" "el \<notin> set (h # xs)" "el \<noteq> 0"
    using ring_add_tail[OF that] ring_frame by (metis Int_commute)
  show "\<exists>m'. list_del el m = Some m' \<and> ring m' h (xs @ ys) \<and>
      (\<forall>h' zs. ring m h' zs \<longrightarrow> set (h' # zs) \<inter> set (h # xs @ el # ys) = {} \<longrightarrow> ring m' h' zs)"
    if "ring m h (xs @ el # ys)"
    using ring_del[OF that] ring_frame by (metis Int_commute)
qed

section \<open>Property\<close>

text \<open>
  C17. The pointer operations of \<open>list.h\<close> implement the operations of sequences: on a well linked list
  \<open>list_add\<close> puts a new element in front, \<open>list_add_tail\<close> at the end, \<open>list_del\<close> removes an
  element and clears its links, \<open>list_empty\<close> tells whether there is none. The list stays well linked,
  no null pointer is followed, and no link outside of the list and the new element changes.
\<close>
theorem list_ops_refine_sequences:
  assumes "ring m head xs"
  shows "(el \<notin> set (head # xs) \<and> el \<noteq> 0 \<longrightarrow>
      (\<exists>m'. list_add el head m = Some m' \<and> ring m' head (el # xs) \<and> links_outside (set (head # el # xs)) m m') \<and>
      (\<exists>m'. list_add_tail el head m = Some m' \<and> ring m' head (xs @ [el]) \<and> links_outside (set (head # el # xs)) m m')) \<and>
    (el \<in> set xs \<longrightarrow>
      (\<exists>m'. list_del el m = Some m' \<and> ring m' head (remove1 el xs) \<and> lprev m' el = 0 \<and> lnext m' el = 0 \<and>
        links_outside (set (head # xs)) m m')) \<and>
    list_empty head m = Some (xs = [])"
proof -
  have "\<exists>m'. list_del el m = Some m' \<and> ring m' head (remove1 el xs) \<and> lprev m' el = 0 \<and> lnext m' el = 0 \<and>
        links_outside (set (head # xs)) m m'" if el: "el \<in> set xs"
  proof -
    obtain us vs where xs: "xs = us @ el # vs" "el \<notin> set us" using split_list_first[OF el] by blast
    then have "remove1 el xs = us @ vs" by (simp add: remove1_append)
    then show ?thesis using ring_del[of m head us el vs] assms xs by simp
  qed
  then show ?thesis using ring_add[OF assms] ring_add_tail[OF assms] ring_empty[OF assms] by blast
qed

theorem list_ops_refine_sequences_witness:
  "\<exists>m'. list_del 3 \<lparr>lprev = (\<lambda>p. if p = 1 then 3 else p - 1), lnext = (\<lambda>p. if p = 3 then 1 else p + 1)\<rparr> = Some m' \<and>
     ring m' 1 [2] \<and> lnext m' 3 = 0 \<and> lnext m' 7 = 8"
proof -
  let ?m = "\<lparr>lprev = (\<lambda>p. if p = 1 then 3 else p - 1), lnext = (\<lambda>p. if p = 3 then 1 else p + 1)\<rparr> :: links"
  have "ring ?m 1 [2, 3]" by (simp add: ring_def)
  from list_ops_refine_sequences[OF this, of 3] obtain m' where
    m': "list_del 3 ?m = Some m'" "ring m' 1 [2]" "lnext m' 3 = 0" "links_outside {1, 2, 3} ?m m'" by auto
  then have "lnext m' 7 = 8" by (simp add: links_outside_def)
  then show ?thesis using m' by blast
qed

end
