(* ===== verification/Quickjs_Gc.thy ===== *)
theory Quickjs_Gc
  imports List_Head
begin

text \<open>
  The cycle collector of \<open>quickjs.c\<close>: marking the children of an object, and the two passes by
  which \<open>JS_RunGC\<close> separates the objects that are referenced from outside from the garbage. The
  objects are kept in two intrusive lists. \<open>gc_free_cycles\<close>, which runs the finalizers, is left out.
\<close>

section \<open>Objects\<close>

text \<open>An address is that of the header of an object, and 0 is \<open>NULL\<close>.\<close>

datatype js_value = JS_TAG_OBJECT nat | JS_TAG_FUNCTION_BYTECODE nat | JS_TAG_OTHER

text \<open>A property by the kind in its flags; \<open>JS_PROP_DELETED\<close> has no atom.\<close>

datatype js_property =
    JS_PROP_NORMAL js_value
  | JS_PROP_GETSET nat nat
  | JS_PROP_VARREF nat bool
  | JS_PROP_AUTOINIT nat
  | JS_PROP_DELETED

text \<open>
  A module has exports, each local or not and with its variable (or null), and four values. The contents
  of an object go by \<open>gc_obj_type\<close>; the last argument of \<open>JS_OBJECT\<close> is what the \<open>gc_mark\<close> of
  its class marks. A running asynchronous function has no stack (\<open>cur_sp\<close> is null). A context has its
  modules, its values in the order of \<open>JS_MarkContext\<close> and \<open>array_shape\<close>.
\<close>

datatype js_module = JSModuleDef "(bool \<times> nat) list" js_value js_value js_value js_value

datatype gc_obj =
    JS_GC_OBJ_TYPE_JS_OBJECT nat "js_property list" "nat list"
  | JS_GC_OBJ_TYPE_FUNCTION_BYTECODE "js_value list" nat
  | JS_GC_OBJ_TYPE_SHAPE nat
  | JS_GC_OBJ_TYPE_VAR_REF bool js_value
  | JS_GC_OBJ_TYPE_ASYNC_FUNCTION "(js_value \<times> js_value \<times> js_value list option) option" js_value js_value
  | JS_GC_OBJ_TYPE_JS_CONTEXT "js_module list" "js_value list" nat

record gc_state =
  ref_count :: "nat \<Rightarrow> int"
  mark :: "nat \<Rightarrow> nat"
  links_of :: links

record runtime =
  gc_obj_list :: nat
  tmp_obj_list :: nat
  object_at :: "nat \<Rightarrow> gc_obj option"

section \<open>Marking\<close>

type_synonym mark_func = "nat \<Rightarrow> gc_state \<Rightarrow> gc_state option"

primrec mark_each :: "('a \<Rightarrow> 's \<Rightarrow> 's option) \<Rightarrow> 'a list \<Rightarrow> 's \<Rightarrow> 's option" where
  "mark_each f [] s = Some s"
| "mark_each f (x # xs) s = do { s \<leftarrow> f x s; mark_each f xs s }"

fun JS_MarkValue :: "mark_func \<Rightarrow> js_value \<Rightarrow> gc_state \<Rightarrow> gc_state option" where
  "JS_MarkValue f (JS_TAG_OBJECT p) s = f p s"
| "JS_MarkValue f (JS_TAG_FUNCTION_BYTECODE p) s = f p s"
| "JS_MarkValue f JS_TAG_OTHER s = Some s"

definition mark_pointer :: "mark_func \<Rightarrow> nat \<Rightarrow> gc_state \<Rightarrow> gc_state option" where
  "mark_pointer f p s = (if p \<noteq> 0 then f p s else Some s)"

fun mark_property :: "mark_func \<Rightarrow> js_property \<Rightarrow> gc_state \<Rightarrow> gc_state option" where
  "mark_property f (JS_PROP_NORMAL v) s = JS_MarkValue f v s"
| "mark_property f (JS_PROP_GETSET g h) s = do { s \<leftarrow> mark_pointer f g s; mark_pointer f h s }"
| "mark_property f (JS_PROP_VARREF r is_detached) s = (if is_detached then f r s else Some s)"
| "mark_property f (JS_PROP_AUTOINIT realm) s = f realm s"
| "mark_property f JS_PROP_DELETED s = Some s"

fun async_func_mark :: "mark_func \<Rightarrow> js_value \<times> js_value \<times> js_value list option \<Rightarrow> gc_state \<Rightarrow> gc_state option" where
  "async_func_mark f (cur_func, this_val, stack) s =
     do {
       s \<leftarrow> JS_MarkValue f cur_func s;
       s \<leftarrow> JS_MarkValue f this_val s;
       case stack of None \<Rightarrow> Some s | Some vs \<Rightarrow> mark_each (JS_MarkValue f) vs s
     }"

fun js_mark_module_def :: "mark_func \<Rightarrow> js_module \<Rightarrow> gc_state \<Rightarrow> gc_state option" where
  "js_mark_module_def f (JSModuleDef exports module_ns func_obj eval_exception meta_obj) s =
     do {
       s \<leftarrow> mark_each (\<lambda>(is_local, var_ref) s. if is_local then mark_pointer f var_ref s else Some s) exports s;
       s \<leftarrow> JS_MarkValue f module_ns s;
       s \<leftarrow> JS_MarkValue f func_obj s;
       s \<leftarrow> JS_MarkValue f eval_exception s;
       JS_MarkValue f meta_obj s
     }"

definition JS_MarkContext :: "mark_func \<Rightarrow> js_module list \<Rightarrow> js_value list \<Rightarrow> nat \<Rightarrow> gc_state \<Rightarrow> gc_state option" where
  "JS_MarkContext f modules vs array_shape s =
     do {
       s \<leftarrow> mark_each (js_mark_module_def f) modules s;
       s \<leftarrow> mark_each (JS_MarkValue f) vs s;
       mark_pointer f array_shape s
     }"

fun mark_object :: "mark_func \<Rightarrow> gc_obj \<Rightarrow> gc_state \<Rightarrow> gc_state option" where
  "mark_object f (JS_GC_OBJ_TYPE_JS_OBJECT shape props class_marks) s =
     do {
       s \<leftarrow> f shape s;
       s \<leftarrow> mark_each (mark_property f) props s;
       mark_each f class_marks s
     }"
| "mark_object f (JS_GC_OBJ_TYPE_FUNCTION_BYTECODE cpool realm) s =
     do { s \<leftarrow> mark_each (JS_MarkValue f) cpool s; mark_pointer f realm s }"
| "mark_object f (JS_GC_OBJ_TYPE_VAR_REF is_detached v) s =
     (if \<not> is_detached then None else JS_MarkValue f v s)"
| "mark_object f (JS_GC_OBJ_TYPE_ASYNC_FUNCTION active r0 r1) s =
     do {
       s \<leftarrow> (case active of None \<Rightarrow> Some s | Some st \<Rightarrow> async_func_mark f st s);
       s \<leftarrow> JS_MarkValue f r0 s;
       JS_MarkValue f r1 s
     }"
| "mark_object f (JS_GC_OBJ_TYPE_SHAPE proto) s = mark_pointer f proto s"
| "mark_object f (JS_GC_OBJ_TYPE_JS_CONTEXT modules vs array_shape) s = JS_MarkContext f modules vs array_shape s"

definition mark_children :: "runtime \<Rightarrow> nat \<Rightarrow> mark_func \<Rightarrow> gc_state \<Rightarrow> gc_state option" where
  "mark_children rt p f s = do { c \<leftarrow> object_at rt p; mark_object f c s }"

section \<open>The collector\<close>

text \<open>Where objects enter and leave the list; \<open>gc_obj_type\<close> is set with the contents.\<close>

definition add_gc_object :: "runtime \<Rightarrow> nat \<Rightarrow> gc_state \<Rightarrow> gc_state option" where
  "add_gc_object rt h s =
     (if h = 0 then None
      else do {
        let s = s\<lparr>mark := (mark s)(h := 0)\<rparr>;
        m \<leftarrow> list_add_tail h (gc_obj_list rt) (links_of s);
        Some (s\<lparr>links_of := m\<rparr>)
      })"

definition remove_gc_object :: "nat \<Rightarrow> gc_state \<Rightarrow> gc_state option" where
  "remove_gc_object h s = do { m \<leftarrow> list_del h (links_of s); Some (s\<lparr>links_of := m\<rparr>) }"

definition gc_move :: "nat \<Rightarrow> nat \<Rightarrow> gc_state \<Rightarrow> gc_state option" where
  "gc_move p head s =
     do {
       m \<leftarrow> list_del p (links_of s);
       m \<leftarrow> list_add_tail p head m;
       Some (s\<lparr>links_of := m\<rparr>)
     }"

text \<open>A failed \<open>assert\<close> and the access through a pointer to no object are undefined.\<close>

definition gc_decref_child :: "runtime \<Rightarrow> mark_func" where
  "gc_decref_child rt p s =
     (if object_at rt p = None \<or> \<not> ref_count s p > 0 then None
      else
        let s = s\<lparr>ref_count := (ref_count s)(p := ref_count s p - 1)\<rparr>
        in if ref_count s p = 0 \<and> mark s p = 1 then gc_move p (tmp_obj_list rt) s else Some s)"

text \<open>\<open>list_for_each_safe\<close> has read the next element before the body runs.\<close>

partial_function (option) gc_decref_loop :: "runtime \<Rightarrow> nat \<Rightarrow> nat \<Rightarrow> gc_state \<Rightarrow> gc_state option" where
  [code]: "gc_decref_loop rt el el1 s =
     (if el = gc_obj_list rt then Some s
      else if el = 0 \<or> mark s el \<noteq> 0 then None
      else do {
        s \<leftarrow> mark_children rt el (gc_decref_child rt) s;
        let s = s\<lparr>mark := (mark s)(el := 1)\<rparr>;
        s \<leftarrow> (if ref_count s el = 0 then gc_move el (tmp_obj_list rt) s else Some s);
        if el1 = 0 then None else gc_decref_loop rt el1 (lnext (links_of s) el1) s
      })"

definition gc_decref :: "runtime \<Rightarrow> gc_state \<Rightarrow> gc_state option" where
  "gc_decref rt s =
     do {
       m \<leftarrow> init_list_head (tmp_obj_list rt) (links_of s);
       let s = s\<lparr>links_of := m\<rparr>;
       let el = lnext m (gc_obj_list rt);
       if el = 0 then None else gc_decref_loop rt el (lnext m el) s
     }"

definition gc_scan_incref_child :: "runtime \<Rightarrow> mark_func" where
  "gc_scan_incref_child rt p s =
     (if object_at rt p = None then None
      else
        let s = s\<lparr>ref_count := (ref_count s)(p := ref_count s p + 1)\<rparr>
        in if ref_count s p = 1 then do {
             s \<leftarrow> gc_move p (gc_obj_list rt) s;
             Some (s\<lparr>mark := (mark s)(p := 0)\<rparr>)
           }
           else Some s)"

definition gc_scan_incref_child2 :: "runtime \<Rightarrow> mark_func" where
  "gc_scan_incref_child2 rt p s =
     (if object_at rt p = None then None
      else Some (s\<lparr>ref_count := (ref_count s)(p := ref_count s p + 1)\<rparr>))"

partial_function (option) gc_scan_keep :: "runtime \<Rightarrow> nat \<Rightarrow> gc_state \<Rightarrow> gc_state option" where
  [code]: "gc_scan_keep rt el s =
     (if el = gc_obj_list rt then Some s
      else if el = 0 \<or> \<not> ref_count s el > 0 then None
      else do {
        let s = s\<lparr>mark := (mark s)(el := 0)\<rparr>;
        s \<leftarrow> mark_children rt el (gc_scan_incref_child rt) s;
        gc_scan_keep rt (lnext (links_of s) el) s
      })"

partial_function (option) gc_scan_restore :: "runtime \<Rightarrow> nat \<Rightarrow> gc_state \<Rightarrow> gc_state option" where
  [code]: "gc_scan_restore rt el s =
     (if el = tmp_obj_list rt then Some s
      else if el = 0 then None
      else do {
        s \<leftarrow> mark_children rt el (gc_scan_incref_child2 rt) s;
        gc_scan_restore rt (lnext (links_of s) el) s
      })"

definition gc_scan :: "runtime \<Rightarrow> gc_state \<Rightarrow> gc_state option" where
  "gc_scan rt s =
     do {
       s \<leftarrow> gc_scan_keep rt (lnext (links_of s) (gc_obj_list rt)) s;
       gc_scan_restore rt (lnext (links_of s) (tmp_obj_list rt)) s
     }"

section \<open>The children of an object\<close>

fun value_children :: "js_value \<Rightarrow> nat list" where
  "value_children (JS_TAG_OBJECT p) = [p]"
| "value_children (JS_TAG_FUNCTION_BYTECODE p) = [p]"
| "value_children JS_TAG_OTHER = []"

definition pointer_children :: "nat \<Rightarrow> nat list" where
  "pointer_children p = (if p \<noteq> 0 then [p] else [])"

fun property_children :: "js_property \<Rightarrow> nat list" where
  "property_children (JS_PROP_NORMAL v) = value_children v"
| "property_children (JS_PROP_GETSET g h) = pointer_children g @ pointer_children h"
| "property_children (JS_PROP_VARREF r is_detached) = (if is_detached then [r] else [])"
| "property_children (JS_PROP_AUTOINIT realm) = [realm]"
| "property_children JS_PROP_DELETED = []"

fun module_children :: "js_module \<Rightarrow> nat list" where
  "module_children (JSModuleDef exports module_ns func_obj eval_exception meta_obj) =
     concat (map (\<lambda>(is_local, var_ref). if is_local then pointer_children var_ref else []) exports) @
     value_children module_ns @ value_children func_obj @ value_children eval_exception @ value_children meta_obj"

fun object_children :: "gc_obj \<Rightarrow> nat list" where
  "object_children (JS_GC_OBJ_TYPE_JS_OBJECT shape props class_marks) =
     shape # concat (map property_children props) @ class_marks"
| "object_children (JS_GC_OBJ_TYPE_FUNCTION_BYTECODE cpool realm) =
     concat (map value_children cpool) @ pointer_children realm"
| "object_children (JS_GC_OBJ_TYPE_VAR_REF is_detached v) = value_children v"
| "object_children (JS_GC_OBJ_TYPE_ASYNC_FUNCTION active r0 r1) =
     (case active of
        None \<Rightarrow> []
      | Some (cur_func, this_val, stack) \<Rightarrow>
          value_children cur_func @ value_children this_val @
          (case stack of None \<Rightarrow> [] | Some vs \<Rightarrow> concat (map value_children vs))) @
     value_children r0 @ value_children r1"
| "object_children (JS_GC_OBJ_TYPE_SHAPE proto) = pointer_children proto"
| "object_children (JS_GC_OBJ_TYPE_JS_CONTEXT modules vs array_shape) =
     concat (map module_children modules) @ concat (map value_children vs) @ pointer_children array_shape"

text \<open>A variable reference on the list of the collector is detached.\<close>

fun markable :: "gc_obj \<Rightarrow> bool" where
  "markable (JS_GC_OBJ_TYPE_VAR_REF is_detached v) \<longleftrightarrow> is_detached"
| "markable _ \<longleftrightarrow> True"

lemma mark_each_append: "mark_each f (xs @ ys) = (\<lambda>s. do { s \<leftarrow> mark_each f xs s; mark_each f ys s })"
proof
  show "mark_each f (xs @ ys) s = do { s \<leftarrow> mark_each f xs s; mark_each f ys s }" for s
    by (induction xs arbitrary: s) (auto split: bind_split)
qed

lemma mark_each_nested:
  assumes "\<And>x s. g x s = mark_each f (h x) s"
  shows "mark_each g xs = mark_each f (concat (map h xs))"
proof
  show "mark_each g xs s = mark_each f (concat (map h xs)) s" for s
    by (induction xs arbitrary: s) (auto simp: assms mark_each_append split: bind_split)
qed

lemma JS_MarkValue_each: "JS_MarkValue f v = mark_each f (value_children v)"
  by (rule ext, cases v) auto

lemma mark_pointer_each: "mark_pointer f p = mark_each f (pointer_children p)"
  by (rule ext) (simp add: mark_pointer_def pointer_children_def)

lemma mark_property_each: "mark_property f pr = mark_each f (property_children pr)"
  by (rule ext, cases pr) (auto simp: JS_MarkValue_each mark_pointer_each mark_each_append)

lemma mark_values_each: "mark_each (JS_MarkValue f) vs = mark_each f (concat (map value_children vs))"
  by (rule mark_each_nested) (simp add: JS_MarkValue_each)

lemma js_mark_module_def_each: "js_mark_module_def f m = mark_each f (module_children m)"
proof -
  have "mark_each (\<lambda>(is_local, var_ref) s. if is_local then mark_pointer f var_ref s else Some s) exports =
      mark_each f (concat (map (\<lambda>(is_local, var_ref). if is_local then pointer_children var_ref else []) exports))" for exports
    by (rule mark_each_nested) (auto simp: mark_pointer_each)
  then show ?thesis by (intro ext, cases m) (simp add: mark_each_append JS_MarkValue_each)
qed

lemmas mark_eaches =
  mark_each_append JS_MarkValue_each mark_pointer_each mark_values_each
  mark_each_nested[of "mark_property f" f property_children for f, OF fun_cong[OF mark_property_each]]
  mark_each_nested[of "js_mark_module_def f" f module_children for f, OF fun_cong[OF js_mark_module_def_each]]

lemma mark_object_each: "markable c \<Longrightarrow> mark_object f c s = mark_each f (object_children c) s"
  by (cases c) (auto simp: mark_eaches JS_MarkContext_def split: option.splits bind_split)

section \<open>Moving between the lists\<close>

lemma gc_move_rings:
  assumes "ring (links_of s) A (xs @ p # ys)" and "ring (links_of s) B ts"
    and "set (A # xs @ p # ys) \<inter> set (B # ts) = {}"
  shows "\<exists>m. gc_move p B s = Some (s\<lparr>links_of := m\<rparr>) \<and> ring m A (xs @ ys) \<and> ring m B (ts @ [p])"
  using ilist.move[OF assms] by (auto simp: gc_move_def Option.bind_eq_Some_conv)

section \<open>Objects and references\<close>

definition kids :: "runtime \<Rightarrow> nat \<Rightarrow> nat list" where
  "kids rt p = (case object_at rt p of None \<Rightarrow> [] | Some c \<Rightarrow> object_children c)"

text \<open>The references to \<open>p\<close> from the objects of a set.\<close>

definition refs_from :: "runtime \<Rightarrow> nat set \<Rightarrow> nat \<Rightarrow> int" where
  "refs_from rt A p = (\<Sum>q\<in>A. int (count_list (kids rt q) p))"

text \<open>The objects of the collector: each can be marked, and its children are among them.\<close>

definition gc_objects :: "runtime \<Rightarrow> nat set \<Rightarrow> bool" where
  "gc_objects rt L \<longleftrightarrow>
     finite L \<and> (\<forall>p\<in>L. (\<exists>c. object_at rt p = Some c \<and> markable c) \<and> set (kids rt p) \<subseteq> L) \<and>
     gc_obj_list rt \<notin> L \<and> tmp_obj_list rt \<notin> L \<and> 0 \<notin> L \<and> tmp_obj_list rt \<noteq> 0 \<and> gc_obj_list rt \<noteq> tmp_obj_list rt"

lemma gc_objectsD:
  assumes "gc_objects rt L" and "p \<in> L"
  shows "mark_children rt p f s = mark_each f (kids rt p) s" and "set (kids rt p) \<subseteq> L" and "object_at rt p \<noteq> None" and "p \<noteq> 0"
  using assms by (auto simp: gc_objects_def mark_children_def kids_def mark_object_each)

lemma refs_from_insert: "finite A \<Longrightarrow> q \<notin> A \<Longrightarrow> refs_from rt (insert q A) p = int (count_list (kids rt q) p) + refs_from rt A p"
  by (simp add: refs_from_def)

lemma refs_from_nonneg: "0 \<le> refs_from rt A p"
  by (simp add: refs_from_def sum_nonneg)

lemma refs_from_mono: "finite B \<Longrightarrow> A \<subseteq> B \<Longrightarrow> refs_from rt A p \<le> refs_from rt B p"
  unfolding refs_from_def by (rule sum_mono2) auto

text \<open>
  Two lists that share nothing: the first holds the objects with references left, the second those
  without. \<open>D\<close> are the objects to which this applies, \<open>rest\<close> those of the first list still to come.
\<close>

definition split_lists :: "runtime \<Rightarrow> nat set \<Rightarrow> nat list \<Rightarrow> nat list \<Rightarrow> nat list \<Rightarrow> gc_state \<Rightarrow> bool" where
  "split_lists rt D xs rest ts s \<longleftrightarrow>
     ring (links_of s) (gc_obj_list rt) (xs @ rest) \<and> ring (links_of s) (tmp_obj_list rt) ts \<and>
     set xs = {d \<in> D. ref_count s d > 0} \<and> set ts = {d \<in> D. ref_count s d = 0} \<and> D \<inter> set rest = {} \<and>
     (\<forall>d\<in>D. mark s d = 1) \<and> (\<forall>d\<in>set rest. mark s d = 0)"

lemma split_lists_apart:
  assumes "split_lists rt D xs rest ts s" and "gc_objects rt L" and "D \<union> set rest = L"
  shows "set (gc_obj_list rt # xs @ rest) \<inter> set (tmp_obj_list rt # ts) = {}"
  using assms unfolding split_lists_def gc_objects_def by auto

lemma gc_decref_child_step:
  assumes I: "split_lists rt D xs rest ts s" and G: "gc_objects rt L" and L: "D \<union> set rest = L"
    and p: "p \<in> L" "ref_count s p > 0"
  shows "\<exists>s' xs' ts'. gc_decref_child rt p s = Some s' \<and> split_lists rt D xs' rest ts' s' \<and>
    ref_count s' = (ref_count s)(p := ref_count s p - 1) \<and> mark s' = mark s"
proof -
  let ?s = "s\<lparr>ref_count := (ref_count s)(p := ref_count s p - 1)\<rparr>"
  note ob = gc_objectsD[OF G p(1)] and A = split_lists_apart[OF I G L]
  show ?thesis
  proof (cases "ref_count s p = 1 \<and> mark s p = 1")
    case False
    have "p \<notin> D \<or> ref_count s p > 1" using False I p by (auto simp: split_lists_def)
    then have "split_lists rt D xs rest ts ?s" using I p(2) by (auto simp: split_lists_def)
    moreover have "gc_decref_child rt p s = Some ?s" using False ob p(2) by (auto simp: gc_decref_child_def Let_def)
    ultimately show ?thesis by (intro exI[of _ ?s]) auto
  next
    case True
    then have pD: "p \<in> D" using I L p(1) by (auto simp: split_lists_def)
    then have "p \<in> set xs" using I p(2) by (simp add: split_lists_def)
    then obtain us vs where xs: "xs = us @ p # vs" by (meson split_list)
    have rings: "ring (links_of ?s) (gc_obj_list rt) (us @ p # vs @ rest)" "ring (links_of ?s) (tmp_obj_list rt) ts"
      using I xs by (simp_all add: split_lists_def)
    have "set (gc_obj_list rt # us @ p # vs @ rest) \<inter> set (tmp_obj_list rt # ts) = {}" using A xs by auto
    from gc_move_rings[OF rings this] obtain m where m: "gc_move p (tmp_obj_list rt) ?s = Some (?s\<lparr>links_of := m\<rparr>)"
      "ring m (gc_obj_list rt) (us @ vs @ rest)" "ring m (tmp_obj_list rt) (ts @ [p])" by blast
    let ?s' = "?s\<lparr>links_of := m\<rparr>"
    have "distinct xs" using I by (simp add: split_lists_def ring_def)
    then have "set (us @ vs) = set xs - {p}" using xs by auto
    then have "split_lists rt D (us @ vs) rest (ts @ [p]) ?s'"
      using I m pD True by (auto simp: split_lists_def)
    moreover have "gc_decref_child rt p s = Some ?s'" using True ob m by (simp add: gc_decref_child_def Let_def)
    ultimately show ?thesis by (intro exI[of _ ?s']) auto
  qed
qed

lemma gc_decref_children:
  assumes "split_lists rt D xs rest ts s" and "gc_objects rt L" and "D \<union> set rest = L"
    and "set ps \<subseteq> L" and "\<And>p. int (count_list ps p) \<le> ref_count s p \<or> p \<notin> L"
  shows "\<exists>s' xs' ts'. mark_each (gc_decref_child rt) ps s = Some s' \<and> split_lists rt D xs' rest ts' s' \<and>
    ref_count s' = (\<lambda>p. ref_count s p - int (count_list ps p)) \<and> mark s' = mark s"
  using assms
proof (induction ps arbitrary: s xs ts)
  case (Cons p ps)
  have p: "p \<in> L" using Cons.prems(4) by simp
  then have "ref_count s p > 0" using Cons.prems(5)[of p] by auto
  from gc_decref_child_step[OF Cons.prems(1-3) p this] obtain s1 xs1 ts1 where
    1: "gc_decref_child rt p s = Some s1" "split_lists rt D xs1 rest ts1 s1"
      "ref_count s1 = (ref_count s)(p := ref_count s p - 1)" "mark s1 = mark s" by blast
  have "int (count_list ps q) \<le> ref_count s1 q \<or> q \<notin> L" for q
    using Cons.prems(5)[of q] by (auto simp: 1(3) split: if_splits)
  from Cons.IH[OF 1(2) Cons.prems(2,3) _ this] Cons.prems(4) obtain s2 xs2 ts2 where
    2: "mark_each (gc_decref_child rt) ps s1 = Some s2" "split_lists rt D xs2 rest ts2 s2"
      "ref_count s2 = (\<lambda>p. ref_count s1 p - int (count_list ps p))" "mark s2 = mark s1" by auto
  have "ref_count s2 = (\<lambda>q. ref_count s q - int (count_list (p # ps) q))" by (auto simp: 2(3) 1(3))
  then show ?case using 1 2 by (intro exI[of _ s2]) auto
qed auto

text \<open>The body of the first pass: afterwards \<open>el\<close> belongs to the objects done.\<close>

lemma gc_decref_body:
  assumes I: "split_lists rt D xs (el # rest) ts s" and G: "gc_objects rt L" and L: "D \<union> set (el # rest) = L"
    and ref: "\<And>p. p \<in> L \<Longrightarrow> int (count_list (kids rt el) p) \<le> ref_count s p"
  shows "\<exists>s1 s' xs' ts'. mark_children rt el (gc_decref_child rt) s = Some s1 \<and>
    (let s = s1\<lparr>mark := (mark s1)(el := 1)\<rparr>
     in if ref_count s el = 0 then gc_move el (tmp_obj_list rt) s else Some s) = Some s' \<and>
    split_lists rt (insert el D) xs' rest ts' s' \<and>
    ref_count s' = (\<lambda>p. ref_count s p - int (count_list (kids rt el) p))"
proof -
  have el: "el \<in> L" using L by auto
  note ob = gc_objectsD[OF G el]
  have "int (count_list (kids rt el) p) \<le> ref_count s p \<or> p \<notin> L" for p using ref by blast
  from gc_decref_children[OF I G L ob(2) this] obtain s1 xs1 ts1 where
    1: "mark_children rt el (gc_decref_child rt) s = Some s1" "split_lists rt D xs1 (el # rest) ts1 s1"
      "ref_count s1 = (\<lambda>p. ref_count s p - int (count_list (kids rt el) p))" "mark s1 = mark s"
    unfolding ob(1) by blast
  let ?s = "s1\<lparr>mark := (mark s1)(el := 1)\<rparr>"
  have eD: "el \<notin> D" "el \<notin> set rest" using 1(2) by (auto simp: split_lists_def ring_def)
  have nonneg: "0 \<le> ref_count s1 el" using ref[OF el] by (simp add: 1(3))
  show ?thesis
  proof (cases "ref_count s1 el = 0")
    case False
    then have "split_lists rt (insert el D) (xs1 @ [el]) rest ts1 ?s"
      using 1(2) nonneg eD by (auto simp: split_lists_def)
    then show ?thesis using 1 False by (intro exI[of _ s1] exI[of _ ?s]) auto
  next
    case True
    have rings: "ring (links_of ?s) (gc_obj_list rt) (xs1 @ el # rest)" "ring (links_of ?s) (tmp_obj_list rt) ts1"
      using 1(2) by (simp_all add: split_lists_def)
    from gc_move_rings[OF rings split_lists_apart[OF 1(2) G L]] obtain m where
      m: "gc_move el (tmp_obj_list rt) ?s = Some (?s\<lparr>links_of := m\<rparr>)"
      "ring m (gc_obj_list rt) (xs1 @ rest)" "ring m (tmp_obj_list rt) (ts1 @ [el])" by blast
    have "split_lists rt (insert el D) xs1 rest (ts1 @ [el]) (?s\<lparr>links_of := m\<rparr>)"
      using 1(2) m True eD by (auto simp: split_lists_def)
    then show ?thesis using 1 True m by (intro exI[of _ s1] exI[of _ "?s\<lparr>links_of := m\<rparr>"]) auto
  qed
qed

lemma gc_decref_loop_splits:
  assumes "split_lists rt D xs rest ts s" and "gc_objects rt L" and "D \<union> set rest = L"
    and "\<And>p. p \<in> L \<Longrightarrow> refs_from rt L p \<le> r p" and "\<And>p. p \<in> L \<Longrightarrow> ref_count s p = r p - refs_from rt D p"
  shows "\<exists>s' xs' ts'. gc_decref_loop rt (hd (rest @ [gc_obj_list rt])) (lnext (links_of s) (hd (rest @ [gc_obj_list rt]))) s = Some s' \<and>
    split_lists rt L xs' [] ts' s' \<and> (\<forall>p\<in>L. ref_count s' p = r p - refs_from rt L p)"
  using assms
proof (induction rest arbitrary: D xs ts s)
  case Nil
  then show ?case by (subst gc_decref_loop.simps) auto
next
  case (Cons el rest)
  note I = Cons.prems(1) and G = Cons.prems(2) and L = Cons.prems(3)
  have fin: "finite L" using G by (simp add: gc_objects_def)
  then have D: "finite D" "el \<notin> D" "insert el D \<subseteq> L" using L I by (auto simp: split_lists_def intro: finite_subset)
  note R = refs_from_insert[OF D(1,2)]
  have "int (count_list (kids rt el) p) \<le> ref_count s p" if "p \<in> L" for p
    using refs_from_mono[OF fin D(3), of rt p] R[of rt p] Cons.prems(4,5)[OF that] by linarith
  from gc_decref_body[OF I G L this] obtain s1 s2 xs2 ts2 where
    1: "mark_children rt el (gc_decref_child rt) s = Some s1"
    and 2: "(let s = s1\<lparr>mark := (mark s1)(el := 1)\<rparr>
       in if ref_count s el = 0 then gc_move el (tmp_obj_list rt) s else Some s) = Some s2"
    and I2: "split_lists rt (insert el D) xs2 rest ts2 s2"
    and r2: "ref_count s2 = (\<lambda>p. ref_count s p - int (count_list (kids rt el) p))" by blast
  have G0: "gc_obj_list rt \<notin> L" "0 \<notin> L" using G by (simp_all add: gc_objects_def)
  then have el: "el \<noteq> gc_obj_list rt" "el \<noteq> 0" "mark s el = 0" using L I by (auto simp: split_lists_def)
  have nxt: "lnext (links_of s) el = hd (rest @ [gc_obj_list rt])"
    using I ring_next[of "links_of s" "gc_obj_list rt" xs el rest] by (simp add: split_lists_def)
  have "hd (rest @ [gc_obj_list rt]) \<noteq> 0"
    using I2 ring_hd[of "links_of s2" "gc_obj_list rt" xs2 rest] by (simp add: split_lists_def)
  then have step: "gc_decref_loop rt el (lnext (links_of s) el) s =
      gc_decref_loop rt (hd (rest @ [gc_obj_list rt])) (lnext (links_of s2) (hd (rest @ [gc_obj_list rt]))) s2"
    using el 1 2 nxt by (subst gc_decref_loop.simps) (simp add: Let_def)
  have "ref_count s2 p = r p - refs_from rt (insert el D) p" if "p \<in> L" for p
    using Cons.prems(5)[OF that] R[of rt p] by (simp add: r2)
  moreover have "insert el D \<union> set rest = L" using L by auto
  ultimately show ?case using Cons.IH[OF I2 G _ Cons.prems(4)] step by simp
qed

text \<open>
  What the collector relies on: the list holds the objects, all marks are zero, and every reference from
  an object to an object is counted.
\<close>

definition gc_ready :: "runtime \<Rightarrow> nat list \<Rightarrow> gc_state \<Rightarrow> bool" where
  "gc_ready rt xs s \<longleftrightarrow>
     gc_objects rt (set xs) \<and> ring (links_of s) (gc_obj_list rt) xs \<and>
     (\<forall>p\<in>set xs. mark s p = 0 \<and> refs_from rt (set xs) p \<le> ref_count s p)"

text \<open>The references to an object that no object of the collector holds.\<close>

definition external_refs :: "runtime \<Rightarrow> nat set \<Rightarrow> gc_state \<Rightarrow> nat \<Rightarrow> int" where
  "external_refs rt L s p = ref_count s p - refs_from rt L p"

lemma gc_decref_splits:
  assumes "gc_ready rt xs s"
  shows "\<exists>s' ys ts. gc_decref rt s = Some s' \<and> split_lists rt (set xs) ys [] ts s' \<and>
    (\<forall>p\<in>set xs. ref_count s' p = external_refs rt (set xs) s p)"
proof -
  let ?G = "gc_obj_list rt" and ?T = "tmp_obj_list rt"
  have G: "gc_objects rt (set xs)" and R: "ring (links_of s) ?G xs" using assms by (simp_all add: gc_ready_def)
  have "?T \<noteq> 0" using G by (simp add: gc_objects_def)
  from ring_init[OF this, of "links_of s"] obtain m where
    m: "init_list_head ?T (links_of s) = Some m" "ring m ?T []" "links_outside {?T} (links_of s) m" by blast
  have "ring m ?G xs" by (rule ring_frame[OF R m(3)]) (use G in \<open>auto simp: gc_objects_def\<close>)
  then have I: "split_lists rt {} [] xs [] (s\<lparr>links_of := m\<rparr>)" and first: "lnext m ?G = hd (xs @ [?G])" "hd (xs @ [?G]) \<noteq> 0"
    using assms m(2) ring_first[of m ?G xs] ring_hd[of m ?G "[]" xs] by (auto simp: split_lists_def gc_ready_def)
  have "ref_count (s\<lparr>links_of := m\<rparr>) p = ref_count s p - refs_from rt {} p" for p by (simp add: refs_from_def)
  moreover have "refs_from rt (set xs) p \<le> ref_count s p" if "p \<in> set xs" for p
    using assms that by (simp add: gc_ready_def)
  ultimately show ?thesis
    using gc_decref_loop_splits[OF I G, of "ref_count s"] m(1) first by (simp add: gc_decref_def external_refs_def Let_def)
qed

section \<open>The second pass\<close>

text \<open>
  While the list is walked, the objects with references are on it, the others on the second list;
  \<open>ds\<close> have been visited, and the references from them are counted again.
\<close>

definition scan_lists :: "runtime \<Rightarrow> nat set \<Rightarrow> nat list \<Rightarrow> nat list \<Rightarrow> gc_state \<Rightarrow> bool" where
  "scan_lists rt L ks ts s \<longleftrightarrow>
     ring (links_of s) (gc_obj_list rt) ks \<and> ring (links_of s) (tmp_obj_list rt) ts \<and>
     set ks = {p \<in> L. ref_count s p > 0} \<and> set ts = {p \<in> L. ref_count s p = 0} \<and> (\<forall>p\<in>L. 0 \<le> ref_count s p)"

lemma scan_lists_apart: "scan_lists rt L ks ts s \<Longrightarrow> gc_objects rt L \<Longrightarrow> set (gc_obj_list rt # ks) \<inter> set (tmp_obj_list rt # ts) = {}"
  by (auto simp: scan_lists_def gc_objects_def)

lemma gc_scan_child_step:
  assumes I: "scan_lists rt L ks ts s" and G: "gc_objects rt L" and p: "p \<in> L"
  shows "\<exists>s' new ts'. gc_scan_incref_child rt p s = Some s' \<and> scan_lists rt L (ks @ new) ts' s' \<and> set new \<subseteq> {p} \<and>
    ref_count s' = (ref_count s)(p := ref_count s p + 1) \<and> (\<forall>q. mark s q = 0 \<longrightarrow> mark s' q = 0) \<and> (\<forall>q\<in>set new. mark s' q = 0)"
proof -
  let ?s = "s\<lparr>ref_count := (ref_count s)(p := ref_count s p + 1)\<rparr>"
  note ob = gc_objectsD[OF G p]
  show ?thesis
  proof (cases "ref_count s p = 0")
    case False
    have "0 < ref_count s p" using False I p by (auto simp: scan_lists_def)
    then have "scan_lists rt L (ks @ []) ts ?s" using I by (auto simp: scan_lists_def)
    moreover have "gc_scan_incref_child rt p s = Some ?s" using False ob by (simp add: gc_scan_incref_child_def)
    ultimately show ?thesis by (intro exI[of _ ?s] exI[of _ "[]"] exI[of _ ts]) auto
  next
    case True
    then have "p \<in> set ts" using I p by (simp add: scan_lists_def)
    then obtain us vs where ts: "ts = us @ p # vs" by (meson split_list)
    have rings: "ring (links_of ?s) (tmp_obj_list rt) (us @ p # vs)" "ring (links_of ?s) (gc_obj_list rt) ks"
      using I ts by (simp_all add: scan_lists_def)
    have "set (tmp_obj_list rt # us @ p # vs) \<inter> set (gc_obj_list rt # ks) = {}" using scan_lists_apart[OF I G] ts by auto
    from gc_move_rings[OF rings this] obtain m where m: "gc_move p (gc_obj_list rt) ?s = Some (?s\<lparr>links_of := m\<rparr>)"
      "ring m (tmp_obj_list rt) (us @ vs)" "ring m (gc_obj_list rt) (ks @ [p])" by blast
    let ?s' = "?s\<lparr>links_of := m, mark := (mark s)(p := 0)\<rparr>"
    have "distinct ts" using I by (simp add: scan_lists_def ring_def)
    then have "set (us @ vs) = set ts - {p}" using ts by auto
    then have "scan_lists rt L (ks @ [p]) (us @ vs) ?s'" using I m p True by (auto simp: scan_lists_def)
    moreover have "gc_scan_incref_child rt p s = Some ?s'" using True ob m by (simp add: gc_scan_incref_child_def)
    ultimately show ?thesis by (intro exI[of _ ?s'] exI[of _ "[p]"] exI[of _ "us @ vs"]) auto
  qed
qed

lemma gc_scan_children:
  assumes "scan_lists rt L ks ts s" and "gc_objects rt L" and "set ps \<subseteq> L"
  shows "\<exists>s' new ts'. mark_each (gc_scan_incref_child rt) ps s = Some s' \<and> scan_lists rt L (ks @ new) ts' s' \<and>
    set new \<subseteq> set ps \<and> ref_count s' = (\<lambda>p. ref_count s p + int (count_list ps p)) \<and>
    (\<forall>q. mark s q = 0 \<longrightarrow> mark s' q = 0)"
  using assms
proof (induction ps arbitrary: s ks ts)
  case (Cons p ps)
  have p: "p \<in> L" using Cons.prems(3) by simp
  from gc_scan_child_step[OF Cons.prems(1,2) p] obtain s1 new1 ts1 where
    1: "gc_scan_incref_child rt p s = Some s1" "scan_lists rt L (ks @ new1) ts1 s1" "set new1 \<subseteq> {p}"
      "ref_count s1 = (ref_count s)(p := ref_count s p + 1)" "\<forall>q. mark s q = 0 \<longrightarrow> mark s1 q = 0" by blast
  from Cons.IH[OF 1(2) Cons.prems(2)] Cons.prems(3) obtain s2 new2 ts2 where
    2: "mark_each (gc_scan_incref_child rt) ps s1 = Some s2" "scan_lists rt L ((ks @ new1) @ new2) ts2 s2" "set new2 \<subseteq> set ps"
      "ref_count s2 = (\<lambda>p. ref_count s1 p + int (count_list ps p))" "\<forall>q. mark s1 q = 0 \<longrightarrow> mark s2 q = 0" by auto
  have "ref_count s2 = (\<lambda>q. ref_count s q + int (count_list (p # ps) q))" by (auto simp: 2(4) 1(4))
  moreover have "set (new1 @ new2) \<subseteq> set (p # ps)" using 1(3) 2(3) by auto
  ultimately show ?case using 1 2 by (intro exI[of _ s2] exI[of _ "new1 @ new2"] exI[of _ ts2]) auto
qed (auto intro: exI[of _ "[]"])

text \<open>What the objects with references from outside reach.\<close>

definition child_rel :: "runtime \<Rightarrow> nat set \<Rightarrow> (nat \<times> nat) set" where
  "child_rel rt L = {(a, b). a \<in> L \<and> b \<in> set (kids rt a)}"

definition gc_reachable :: "runtime \<Rightarrow> nat set \<Rightarrow> (nat \<Rightarrow> int) \<Rightarrow> nat set" where
  "gc_reachable rt L ext = {p. \<exists>r\<in>L. ext r > 0 \<and> (r, p) \<in> (child_rel rt L)\<^sup>*}"

lemma gc_reachable_root: "r \<in> L \<Longrightarrow> ext r > 0 \<Longrightarrow> r \<in> gc_reachable rt L ext"
  by (auto simp: gc_reachable_def)

lemma gc_reachable_child: "p \<in> gc_reachable rt L ext \<Longrightarrow> p \<in> L \<Longrightarrow> q \<in> set (kids rt p) \<Longrightarrow> q \<in> gc_reachable rt L ext"
  unfolding gc_reachable_def child_rel_def by (auto intro: rtrancl_into_rtrancl)

lemma gc_reachable_least:
  assumes "\<And>r. r \<in> L \<Longrightarrow> ext r > 0 \<Longrightarrow> r \<in> K" and "\<And>p q. p \<in> K \<Longrightarrow> q \<in> set (kids rt p) \<Longrightarrow> q \<in> K"
  shows "gc_reachable rt L ext \<subseteq> K"
proof -
  have "(r, p) \<in> (child_rel rt L)\<^sup>* \<Longrightarrow> r \<in> K \<Longrightarrow> p \<in> K" for r p
    by (induction rule: rtrancl_induct) (use assms(2) in \<open>auto simp: child_rel_def\<close>)
  then show ?thesis using assms(1) unfolding gc_reachable_def by blast
qed

lemma gc_scan_keep_splits:
  assumes "scan_lists rt L (ds @ todo) ts s" and "gc_objects rt L"
    and "\<And>p. p \<in> L \<Longrightarrow> ref_count s p = e p + refs_from rt (set ds) p"
    and "\<And>p. p \<in> L \<Longrightarrow> 0 \<le> e p" and "set (ds @ todo) \<subseteq> gc_reachable rt L e" and "\<forall>p\<in>set ds. mark s p = 0"
  shows "\<exists>s' ks ts'. gc_scan_keep rt (hd (todo @ [gc_obj_list rt])) s = Some s' \<and> scan_lists rt L ks ts' s' \<and>
    set ks = gc_reachable rt L e \<and> (\<forall>p\<in>L. ref_count s' p = e p + refs_from rt (set ks) p) \<and> (\<forall>p\<in>set ks. mark s' p = 0)"
  using assms
proof (induction "card L - length ds" arbitrary: ds todo ts s rule: less_induct)
  case less
  note I = less.prems(1) and G = less.prems(2) and ref = less.prems(3) and E = less.prems(4) and reach = less.prems(5)
  have dist: "distinct (ds @ todo)" and ks: "set (ds @ todo) = {p \<in> L. ref_count s p > 0}" and fin: "finite L"
    using I G by (auto simp: scan_lists_def ring_def gc_objects_def)
  show ?case
  proof (cases todo)
    case Nil
    have closed: "q \<in> set ds" if "p \<in> set ds" "q \<in> set (kids rt p)" for p q
    proof -
      have q: "q \<in> L" using gc_objectsD(2)[OF G] that ks Nil by auto
      have "int (count_list (kids rt p) q) \<le> refs_from rt (set ds) q"
        unfolding refs_from_def by (rule member_le_sum) (use that in auto)
      moreover have "0 < count_list (kids rt p) q" using that(2) by (metis count_list_0_iff gr0I)
      ultimately have "0 < ref_count s q" using ref[OF q] E[OF q] by linarith
      then show ?thesis using q ks Nil by auto
    qed
    have "gc_reachable rt L e \<subseteq> set ds"
    proof (rule gc_reachable_least)
      fix r assume "r \<in> L" "0 < e r"
      then show "r \<in> set ds" using ref[of r] refs_from_nonneg[of rt "set ds" r] ks Nil by auto
    qed (rule closed)
    then have "set ds = gc_reachable rt L e" using reach Nil by auto
    then show ?thesis using I Nil ref less.prems(6) by (subst gc_scan_keep.simps) auto
  next
    case (Cons el todo')
    have el: "el \<in> L" "ref_count s el > 0" "el \<notin> set ds" using ks dist Cons by auto
    note ob = gc_objectsD[OF G el(1)]
    let ?s = "s\<lparr>mark := (mark s)(el := 0)\<rparr>"
    have "scan_lists rt L (ds @ todo) ts ?s" using I by (simp add: scan_lists_def)
    from gc_scan_children[OF this G ob(2)] obtain s1 new ts1 where
      1: "mark_each (gc_scan_incref_child rt) (kids rt el) ?s = Some s1" "scan_lists rt L ((ds @ todo) @ new) ts1 s1"
        "set new \<subseteq> set (kids rt el)" "ref_count s1 = (\<lambda>p. ref_count s p + int (count_list (kids rt el) p))"
        "\<forall>q. mark ?s q = 0 \<longrightarrow> mark s1 q = 0" by auto
    have I1: "scan_lists rt L ((ds @ [el]) @ (todo' @ new)) ts1 s1" using 1(2) Cons by simp
    have G0: "gc_obj_list rt \<notin> L" using G by (simp add: gc_objects_def)
    have "lnext (links_of s1) el = hd ((todo' @ new) @ [gc_obj_list rt])"
      using I1 ring_next[of "links_of s1" "gc_obj_list rt" ds el "todo' @ new"] by (simp add: scan_lists_def)
    then have step: "gc_scan_keep rt el s = gc_scan_keep rt (hd ((todo' @ new) @ [gc_obj_list rt])) s1"
      using el G0 ob 1(1) by (subst gc_scan_keep.simps) auto
    have "length ds < card L"
    proof -
      have "set (ds @ [el]) \<subseteq> L" using ks el Cons by auto
      then have "card (set (ds @ [el])) \<le> card L" by (rule card_mono[OF fin])
      moreover have "distinct (ds @ [el])" using dist Cons by auto
      ultimately show ?thesis using distinct_card[of "ds @ [el]"] by simp
    qed
    then have less: "card L - length (ds @ [el]) < card L - length ds" by simp
    have "ref_count s1 p = e p + refs_from rt (set (ds @ [el])) p" if "p \<in> L" for p
      using ref[OF that] refs_from_insert[of "set ds" el rt p] el(3) by (simp add: 1(4))
    moreover have "set ((ds @ [el]) @ (todo' @ new)) \<subseteq> gc_reachable rt L e"
    proof -
      have "el \<in> gc_reachable rt L e" using reach Cons by simp
      then have "set new \<subseteq> gc_reachable rt L e" using 1(3) gc_reachable_child[of el rt L e] el(1) by blast
      then show ?thesis using reach Cons by auto
    qed
    moreover have "\<forall>p\<in>set (ds @ [el]). mark s1 p = 0" using 1(5) less.prems(6) by auto
    ultimately show ?thesis using less.hyps[OF less I1 G _ E] step Cons by simp
  qed
qed

lemma gc_restore_children:
  assumes "gc_objects rt L" and "set ps \<subseteq> L"
  shows "mark_each (gc_scan_incref_child2 rt) ps s = Some (s\<lparr>ref_count := (\<lambda>p. ref_count s p + int (count_list ps p))\<rparr>)"
  using assms(2)
proof (induction ps arbitrary: s)
  case (Cons p ps)
  have "object_at rt p \<noteq> None" using gc_objectsD(3)[OF assms(1)] Cons.prems by simp
  moreover have "(\<lambda>q. (if q = p then ref_count s p + 1 else ref_count s q) + int (count_list ps q)) =
      (\<lambda>q. ref_count s q + int (count_list (p # ps) q))" by auto
  ultimately show ?case using Cons by (simp add: gc_scan_incref_child2_def fun_upd_def)
qed simp

lemma gc_scan_restore_counts:
  assumes "gc_objects rt L" and "ring (links_of s) (tmp_obj_list rt) (us @ vs)" and "set (us @ vs) \<subseteq> L"
  shows "gc_scan_restore rt (hd (vs @ [tmp_obj_list rt])) s = Some (s\<lparr>ref_count := (\<lambda>p. ref_count s p + refs_from rt (set vs) p)\<rparr>)"
  using assms(2,3)
proof (induction vs arbitrary: us s)
  case Nil
  then show ?case by (subst gc_scan_restore.simps) (simp add: refs_from_def)
next
  case (Cons el vs)
  have el: "el \<in> L" using Cons.prems(2) by simp
  note ob = gc_objectsD[OF assms(1) el]
  have T: "el \<noteq> tmp_obj_list rt" "el \<notin> set vs" using Cons.prems(1) by (auto simp: ring_def)
  let ?s = "s\<lparr>ref_count := (\<lambda>p. ref_count s p + int (count_list (kids rt el) p))\<rparr>"
  have R: "ring (links_of ?s) (tmp_obj_list rt) ((us @ [el]) @ vs)" "set ((us @ [el]) @ vs) \<subseteq> L" using Cons.prems by simp_all
  have "lnext (links_of ?s) el = hd (vs @ [tmp_obj_list rt])" using ring_next[OF Cons.prems(1)] by simp
  then have "gc_scan_restore rt el s = gc_scan_restore rt (hd (vs @ [tmp_obj_list rt])) ?s"
    using T ob gc_restore_children[OF assms(1) ob(2)] by (subst gc_scan_restore.simps) simp
  then show ?case
    using Cons.IH[OF R] refs_from_insert[of "set vs" el rt] T(2) by (simp add: algebra_simps)
qed

section \<open>The separation of garbage\<close>

text \<open>The two passes of \<open>JS_RunGC\<close>.\<close>

definition gc_separate :: "runtime \<Rightarrow> gc_state \<Rightarrow> gc_state option" where
  "gc_separate rt s = do { s \<leftarrow> gc_decref rt s; gc_scan rt s }"

lemma gc_separate_splits:
  assumes ready: "gc_ready rt xs s"
  obtains s' ks ts where "gc_separate rt s = Some s'" and "ring (links_of s') (gc_obj_list rt) ks"
    and "ring (links_of s') (tmp_obj_list rt) ts"
    and "set ks = gc_reachable rt (set xs) (external_refs rt (set xs) s)" and "set ts = set xs - set ks" and "set ks \<subseteq> set xs"
    and "\<And>p. p \<in> set xs \<Longrightarrow> ref_count s' p = ref_count s p" and "\<And>p. p \<in> set ks \<Longrightarrow> mark s' p = 0"
proof -
  let ?L = "set xs" and ?e = "external_refs rt (set xs) s"
  have G: "gc_objects rt ?L" using ready by (simp add: gc_ready_def)
  have e: "0 \<le> ?e p" if "p \<in> ?L" for p using ready that by (simp add: gc_ready_def external_refs_def)
  obtain s1 ys ts where 1: "gc_decref rt s = Some s1" "split_lists rt ?L ys [] ts s1" "\<forall>p\<in>?L. ref_count s1 p = ?e p"
    using gc_decref_splits[OF ready] by blast
  have I: "scan_lists rt ?L ([] @ ys) ts s1" using 1 e by (auto simp: split_lists_def scan_lists_def)
  have "set ([] @ ys) \<subseteq> gc_reachable rt ?L ?e" using 1 gc_reachable_root by (auto simp: split_lists_def)
  from gc_scan_keep_splits[OF I G _ _ this] 1(3) e obtain s2 ks ts2 where
    2: "gc_scan_keep rt (hd (ys @ [gc_obj_list rt])) s1 = Some s2" "scan_lists rt ?L ks ts2 s2"
      "set ks = gc_reachable rt ?L ?e" "\<forall>p\<in>?L. ref_count s2 p = ?e p + refs_from rt (set ks) p" "\<forall>p\<in>set ks. mark s2 p = 0"
    by (auto simp: refs_from_def)
  have sets: "set ts2 = ?L - set ks" "set ks \<subseteq> ?L" using 2(2) by (auto simp: scan_lists_def)
  let ?s = "s2\<lparr>ref_count := (\<lambda>p. ref_count s2 p + refs_from rt (set ts2) p)\<rparr>"
  have rings: "ring (links_of s2) (gc_obj_list rt) ks" "ring (links_of s2) (tmp_obj_list rt) ([] @ ts2)"
    using 2(2) by (simp_all add: scan_lists_def)
  have "set ([] @ ts2) \<subseteq> ?L" using sets by simp
  note restore = gc_scan_restore_counts[OF G rings(2) this]
  have first: "lnext (links_of s1) (gc_obj_list rt) = hd (ys @ [gc_obj_list rt])"
    "lnext (links_of s2) (tmp_obj_list rt) = hd (ts2 @ [tmp_obj_list rt])"
    using ring_first 1(2) rings(2) by (auto simp: split_lists_def)
  have run: "gc_separate rt s = Some ?s" using 1(1) 2(1) restore first by (simp add: gc_separate_def gc_scan_def)
  have "refs_from rt (set ks) p + refs_from rt (set ts2) p = refs_from rt ?L p" for p
  proof -
    have "?L = set ks \<union> set ts2" "set ks \<inter> set ts2 = {}" using sets by auto
    then show ?thesis unfolding refs_from_def by (simp add: sum.union_disjoint)
  qed
  then have count: "ref_count ?s p = ref_count s p" if "p \<in> ?L" for p
    using 2(4) that by (simp add: external_refs_def add.assoc)
  show thesis by (rule that[of ?s ks ts2]) (use run rings 2(3,5) sets count in auto)
qed

section \<open>Properties\<close>

text \<open>
  C15. The passes of the collector before it frees anything separate the garbage exactly. When the list
  of the collector holds objects whose references to each other are all counted, both passes
  terminate, no assertion fails, and afterwards the list holds exactly the objects that can be
  reached from those with more references than the objects account for; all others are on the list of
  objects to free. The reference counts are what they were, and the kept objects are ready for the next
  run.
\<close>
theorem gc_separates_garbage:
  assumes "gc_ready rt xs s"
  shows "\<exists>s' ks ts. gc_separate rt s = Some s' \<and> ring (links_of s') (gc_obj_list rt) ks \<and> ring (links_of s') (tmp_obj_list rt) ts \<and>
    set ks = gc_reachable rt (set xs) (external_refs rt (set xs) s) \<and> set ts = set xs - set ks \<and>
    (\<forall>p\<in>set xs. ref_count s' p = ref_count s p) \<and> gc_ready rt ks s'"
proof -
  obtain s' ks ts where S: "gc_separate rt s = Some s'" "ring (links_of s') (gc_obj_list rt) ks"
    "ring (links_of s') (tmp_obj_list rt) ts" "set ks = gc_reachable rt (set xs) (external_refs rt (set xs) s)"
    "set ts = set xs - set ks" "set ks \<subseteq> set xs" "\<And>p. p \<in> set xs \<Longrightarrow> ref_count s' p = ref_count s p"
    "\<And>p. p \<in> set ks \<Longrightarrow> mark s' p = 0" by (rule gc_separate_splits[OF assms]) blast
  have G: "gc_objects rt (set xs)" using assms by (simp add: gc_ready_def)
  have "set (kids rt p) \<subseteq> set ks" if "p \<in> set ks" for p
    using gc_reachable_child[of p rt "set xs"] that S(4,6) by blast
  then have "gc_objects rt (set ks)" using G S(6) unfolding gc_objects_def by blast
  moreover have "refs_from rt (set ks) p \<le> ref_count s' p" if "p \<in> set ks" for p
    using refs_from_mono[of "set xs" "set ks" rt p] S(6,7) that assms unfolding gc_ready_def by fastforce
  ultimately have "gc_ready rt ks s'" using S(2,8) by (simp add: gc_ready_def)
  then show ?thesis using S by blast
qed

text \<open>
  Object 1 is referenced from outside; it has the shape 2 and refers to the bytecode 3. The objects 4
  and 5 refer to each other.
\<close>

definition sample_runtime :: runtime where
  "sample_runtime =
     \<lparr>gc_obj_list = 100, tmp_obj_list = 101,
      object_at = (\<lambda>p. if p = 1 then Some (JS_GC_OBJ_TYPE_JS_OBJECT 2 [JS_PROP_NORMAL (JS_TAG_FUNCTION_BYTECODE 3)] [])
        else if p = 2 then Some (JS_GC_OBJ_TYPE_SHAPE 0)
        else if p = 3 then Some (JS_GC_OBJ_TYPE_FUNCTION_BYTECODE [JS_TAG_OTHER] 0)
        else if p = 4 then Some (JS_GC_OBJ_TYPE_JS_OBJECT 2 [JS_PROP_NORMAL (JS_TAG_OBJECT 5)] [])
        else if p = 5 then Some (JS_GC_OBJ_TYPE_JS_OBJECT 2 [JS_PROP_GETSET 4 0, JS_PROP_DELETED] [])
        else None)\<rparr>"

definition sample_heap :: gc_state where
  "sample_heap =
     \<lparr>ref_count = (\<lambda>p. if p = 2 then 3 else 1), mark = (\<lambda>p. 0),
      links_of = \<lparr>lprev = (\<lambda>p. if p = 100 then 5 else if p = 1 then 100 else p - 1),
                  lnext = (\<lambda>p. if p = 100 then 1 else if p = 5 then 100 else p + 1)\<rparr>\<rparr>"

lemma sample_ready: "gc_ready sample_runtime [1, 2, 3, 4, 5] sample_heap"
proof -
  have "gc_objects sample_runtime {1, 2, 3, 4, 5}"
    by (auto simp: gc_objects_def sample_runtime_def kids_def pointer_children_def)
  moreover have "ring (links_of sample_heap) (gc_obj_list sample_runtime) [1, 2, 3, 4, 5]"
    by (simp add: ring_def sample_heap_def sample_runtime_def)
  moreover have "refs_from sample_runtime {1, 2, 3, 4, 5} p \<le> ref_count sample_heap p" if "p \<in> {1, 2, 3, 4, 5}" for p
    using that by (auto simp: refs_from_def sample_runtime_def sample_heap_def kids_def pointer_children_def)
  ultimately show ?thesis by (simp add: gc_ready_def) (simp add: sample_heap_def)
qed

theorem gc_separates_garbage_witness:
  "\<exists>s' ks ts. gc_separate sample_runtime sample_heap = Some s' \<and> path (links_of s') 100 [1, 2, 3] 100 \<and> path (links_of s') 101 [4, 5] 101 \<and>
    set ks = gc_reachable sample_runtime {1, 2, 3, 4, 5} (external_refs sample_runtime {1, 2, 3, 4, 5} sample_heap) \<and>
    ring (links_of s') 100 ks \<and> ref_count s' 2 = 3 \<and> gc_ready sample_runtime ks s'"
proof -
  have run: "map_option (\<lambda>s. path (links_of s) 100 [1, 2, 3] 100 \<and> path (links_of s) 101 [4, 5] 101) (gc_separate sample_runtime sample_heap) = Some True"
    by code_simp
  have G: "gc_obj_list sample_runtime = 100" "ref_count sample_heap 2 = 3" by (simp_all add: sample_runtime_def sample_heap_def)
  from gc_separates_garbage[OF sample_ready] obtain s' ks where
    "gc_separate sample_runtime sample_heap = Some s'" "ring (links_of s') 100 ks" "ref_count s' 2 = 3" "gc_ready sample_runtime ks s'"
    "set ks = gc_reachable sample_runtime {1, 2, 3, 4, 5} (external_refs sample_runtime {1, 2, 3, 4, 5} sample_heap)"
    unfolding G(1) using G(2) by auto
  then show ?thesis using run by auto
qed

end
