(* ===== verification/Spec2Isabelle.thy ===== *)
theory Spec2Isabelle
  imports Cutils_DynBuf Cutils_Utf8 Cutils_Bytes Unicode_Compose Unicode_Ops Regexp_Safe Regexp_Pipeline Bf_Div Cutils_Exchange Quickjs_Sort Cutils_Reach Quickjs_Gc
begin

text \<open>
  A verification library for the C core of the JavaScript engine under \<open>src/quickjs\<close>: the
  support library \<open>cutils.c\<close>, the Unicode library \<open>libunicode.c\<close> with its tables, and the
  regular expression engine \<open>libregexp.c\<close>, compiler and matcher, the limb arithmetic of
  \<open>libbf.c\<close>, the intrusive lists of \<open>list.h\<close>, and from \<open>quickjs.c\<close> the cycle
  collector up to the freeing of what it found, and the sort of typed arrays.

  The program and its parts. \<open>cutils.c\<close> supplies dynamic byte buffers, a UTF-8 coder, loads and
  stores and bounded strings. \<open>libunicode.c\<close> represents sets of code points as sorted arrays of
  half-open intervals (\<open>CharRange\<close>), decodes the compressed tables of \<open>libunicode-table.h\<close> into
  such sets or searches them in place, converts case and normalizes. \<open>lre_compile\<close> of
  \<open>libregexp.c\<close> reads a UTF-8 pattern, builds character classes from ranges and emits bytecode
  into a dynamic buffer; \<open>lre_exec\<close> runs the bytecode on a subject by backtracking, with an
  explicit stack of saved states, and asks \<open>libunicode.c\<close> for case folding.

  Conventions (\<open>Prelude\<close>). Machine integers are words of their width. An operation that C leaves
  undefined (an access out of bounds, a failed \<open>assert\<close>, a jump that never leaves) is \<open>None\<close> of an
  \<open>option\<close>; a return code is an ordinary value. A memory object is the list of its elements. The
  outcomes of the allocator are an arbitrary list \<open>heap\<close> carried by each buffer, so that
  every theorem covers every sequence of allocation failures; \<open>heap_ok\<close> says that no failure
  lies ahead, and then the operations are shown to succeed.

  Theories:
    \<^item> \<open>Cutils_DynBuf\<close>: \<open>DynBuf\<close> and its operations (\<open>dbuf_*\<close>), the interface \<open>byte_sink\<close> (append, sticky
      error flag) and its interpretation.
    \<^item> \<open>Cutils_Utf8\<close>: \<open>unicode_to_utf8\<close>, \<open>unicode_from_utf8\<close>, the round trip in both directions.
    \<^item> \<open>Cutils_Bytes\<close>: loads and stores, byte swaps, \<open>from_hex\<close>, \<open>pstrcpy\<close> and its kin.
    \<^item> \<open>Unicode_Range\<close>: \<open>CharRange\<close>; \<open>cr_op\<close> and its clients against the set they denote; the interface
      \<open>range_algebra\<close> (add an interval, complement) and its interpretation.
    \<^item> \<open>Unicode_Tables\<close>, \<open>Unicode_Decomp_Tables\<close>: the literals of \<open>libunicode-table.h\<close>, in chunks.
    \<^item> \<open>Unicode_Lookup\<close>: binary search and run-length search in tables: \<open>lre_case_conv\<close>,
      \<open>lre_is_in_table\<close> and the character tests; the plain reading \<open>table_set\<close> of a run-length table
      and the proof that the indexed search agrees with it.
    \<^item> \<open>Unicode_Props\<close>: the decoders that fill ranges (\<open>unicode_prop1\<close>, \<open>unicode_general_category1\<close>,
      \<open>unicode_case1\<close>, \<open>unicode_script\<close>), the stack machine \<open>unicode_prop_ops\<close> and the name search.
    \<^item> \<open>Unicode_Sets\<close>: what each decoder denotes. \<open>Unicode_Ops\<close>: the stack machine refines set
      algebra; the name search. \<open>Unicode_Case\<close>: conversion agrees with the decoded case sets.
    \<^item> \<open>Unicode_Norm\<close>: decomposition, combining classes, canonical ordering, composition and
      \<open>unicode_normalize\<close>. \<open>Unicode_Compose\<close>: composition inverts the decomposition tables.
    \<^item> \<open>Regexp_Code\<close>: opcodes, flags, character tests and predefined classes that compiler and
      matcher share. \<open>Regexp_Exec\<close>: \<open>lre_exec\<close>; a step function per instruction (\<open>exec_opcode\<close>), the
      backtracking loop and the saved states.
    \<^item> \<open>Regexp_Verify\<close>: a verifier \<open>bytecode_ok\<close> for bytecode (heights of the stack, jump targets,
      operands). \<open>Regexp_Safe\<close>: the matcher runs verified code without undefined behaviour.
    \<^item> \<open>Regexp_Emit\<close>, \<open>Regexp_Parse\<close>: \<open>lre_compile\<close>; the parse state, emitters, escapes, classes, then
      terms, quantifiers, alternatives, disjunctions. \<open>Regexp_Fragment\<close>: the laws by which code is
      composed of balanced fragments, and that such code passes the verifier.
    \<^item> \<open>Regexp_Sound\<close> (emitters, classes, atoms, groups; \<open>Unicode_Even\<close>: ranges keep an even number of
      points), \<open>Regexp_Quant\<close> (quantifiers rewrite fragments into fragments), \<open>Regexp_Compile\<close> (terms,
      alternatives, header, stack size): whatever \<open>lre_compile\<close> accepts passes the verifier.
      \<open>Regexp_Total\<close>: every step of the parser moves forward, so its recursion and loops end.
      \<open>Regexp_Pipeline\<close>: compiling and matching together; evaluation of concrete patterns.

    \<^item> \<open>Bf_Limb\<close>: the limb arithmetic of \<open>libbf.c\<close> (\<open>mp_add\<close>, \<open>mp_sub\<close>, \<open>mp_shr\<close>, \<open>mp_mul_basecase\<close> and
      their kin) and what each does to the value of an array. \<open>Bf_Div\<close>: division by a limb, plainly and
      through the reciprocal, both behind the interface \<open>limb_division\<close>; the schoolbook division.

    \<^item> \<open>Cutils_Sort\<close>: \<open>rqsort\<close> over an array of elements and a comparison with a state; safe with every
      comparison. \<open>Cutils_Sorted\<close>: the interfaces \<open>keeps_state\<close> (an invariant of the state of the
      comparison) and \<open>comparison\<close> (its answers are a total preorder); the result is sorted.
      \<open>Cutils_Exchange\<close>: the exchange functions on bytes implement the exchange of elements.
    \<^item> \<open>Quickjs_Sort\<close>: \<open>js_typed_array_sort\<close>; its comparison functions are interpretations of
      the two interfaces.

    \<^item> \<open>Cutils_Reach\<close>: the buffer as a state machine; what holds in all reachable states.
    \<^item> \<open>List_Head\<close>: the operations of \<open>list.h\<close> on a memory of links, their effect on rings, and the
      interface \<open>intrusive_list\<close>, which the collector uses through its interpretation.
    \<^item> \<open>Quickjs_Gc\<close>: the kinds of objects and their children (\<open>mark_children\<close>), the passes \<open>gc_decref\<close> and
      \<open>gc_scan\<close>; they separate what can be reached from outside from the garbage.

  Bounds and fuel. \<open>CR_LIMIT\<close> (\<open>2^28\<close> points) keeps the byte size of a range and the growth formula
  \<open>size * 3 / 2\<close> inside \<open>int\<close>; the decoded Unicode sets stay below \<open>2^23\<close> points and the stack
  machine's programs below 32 operations. \<open>DBUF_LIMIT\<close> (\<open>2^61\<close> bytes) is the content
  size up to which the growth of a buffer cannot hit the object size limit. \<open>lre_exec\<close> takes one
  unit of fuel for each step of its loop, because some patterns make it run for ever
  (\<open>Timeout\<close>). \<open>lre_compile\<close> takes fuel for the nesting of groups and the length of its loops
  (\<open>PFuel\<close>), and the length of the pattern plus two is enough.

  Not modelled: the remaining helpers of \<open>cutils.h\<close> (bit counts by compiler builtins),
  the rest of \<open>libbf.c\<close> (Fourier transforms, subquadratic division, floating point numbers;
  \<open>mp_divnorm\<close> takes the subquadratic division as an argument), the rest of \<open>quickjs.c\<close> (the freeing of
  objects with its finalizers; the call of
  a function, the conversion of its result and the object behind a typed array are the arguments
  \<open>engine\<close> of the sort), input and
  output (\<open>quickjs-libc.c\<close>, the debugger transports, the command line programs), the debug output of \<open>libregexp.c\<close>, the vendored Duktape engine and the
  Java bindings.
\<close>

end
